(* ===== verification/Prelude.thy ===== *)
theory Prelude
  imports Complex_Main "HOL-Library.AList"
begin

text \<open>
  The vocabulary every other theory uses: Python strings and the string methods the code
  calls, dynamically typed values, the exceptions of the package, results of operations that
  may raise, insertion-ordered dictionaries, and one induction principle for state machines.
  Nothing here is specific to one component.
\<close>

section \<open>Strings\<close>

text \<open>
  A Python \<open>str\<close> is a sequence of Unicode code points, and \<open>len\<close> counts code points;
  so it is modelled as the list of its code points. \<open>lit\<close> turns an ASCII literal of the
  source into such a list.
\<close>

type_synonym pystr = "nat list"

definition lit :: "string \<Rightarrow> pystr" where
  "lit s = map of_char s"

lemma length_lit [simp]: "length (lit s) = length s"
  by (simp add: lit_def)

lemma lit_eq_iff [simp]: "lit s = lit t \<longleftrightarrow> s = t"
proof -
  have "inj (of_char :: char \<Rightarrow> nat)" by (simp add: inj_on_def)
  then show ?thesis by (simp add: lit_def)
qed

lemma lit_Nil_iff [simp]: "lit s = [] \<longleftrightarrow> s = []" "[] = lit s \<longleftrightarrow> s = []"
  by (auto simp: lit_def)

text \<open>\<open>str.isspace\<close> on one character: the same set of code points \<open>strip\<close> and
  \<open>split\<close> treat as whitespace.\<close>

definition is_space :: "nat \<Rightarrow> bool" where
  "is_space c \<longleftrightarrow>
     9 \<le> c \<and> c \<le> 13 \<or> 28 \<le> c \<and> c \<le> 32 \<or> c = 133 \<or> c = 160 \<or> c = 5760
     \<or> 8192 \<le> c \<and> c \<le> 8202 \<or> c = 8232 \<or> c = 8233 \<or> c = 8239 \<or> c = 8287 \<or> c = 12288"

lemma is_space_blank [simp]: "is_space 32"
  by (simp add: is_space_def)

definition py_strip :: "pystr \<Rightarrow> pystr" where
  "py_strip s = rev (dropWhile is_space (rev (dropWhile is_space s)))"

text \<open>\<open>s.split()\<close>: the maximal runs of non-whitespace characters.\<close>

fun split_ws :: "pystr \<Rightarrow> pystr \<Rightarrow> pystr list" where
  "split_ws acc [] = (if acc = [] then [] else [rev acc])"
| "split_ws acc (c # cs) =
     (if is_space c then (if acc = [] then split_ws [] cs else rev acc # split_ws [] cs)
      else split_ws (c # acc) cs)"

definition py_split :: "pystr \<Rightarrow> pystr list" where
  "py_split s = split_ws [] s"

text \<open>\<open>sep.join(parts)\<close> and \<open>s.startswith(p)\<close>.\<close>

fun py_join :: "pystr \<Rightarrow> pystr list \<Rightarrow> pystr" where
  "py_join sep [] = []"
| "py_join sep [w] = w"
| "py_join sep (w # v # ws) = w @ sep @ py_join sep (v # ws)"

definition py_startswith :: "pystr \<Rightarrow> pystr \<Rightarrow> bool" where
  "py_startswith s p \<longleftrightarrow> take (length p) s = p"

text \<open>The idiom \<open>" ".join(value.split())\<close> of the package.\<close>

definition collapse_ws :: "pystr \<Rightarrow> pystr" where
  "collapse_ws s = py_join [32] (py_split s)"

text \<open>A word of \<open>split\<close> is non-empty and holds no whitespace.\<close>

definition is_word :: "pystr \<Rightarrow> bool" where
  "is_word w \<longleftrightarrow> w \<noteq> [] \<and> (\<forall>c \<in> set w. \<not> is_space c)"

lemma split_ws_words:
  "\<forall>c \<in> set acc. \<not> is_space c \<Longrightarrow> w \<in> set (split_ws acc s) \<Longrightarrow> is_word w"
proof (induction acc s rule: split_ws.induct)
  case (1 acc)
  then show ?case by (simp add: is_word_def split: if_splits)
next
  case (2 acc c cs)
  show ?case
  proof (cases "is_space c \<and> acc \<noteq> []")
    case True
    with 2 show ?thesis by (auto simp: is_word_def)
  next
    case False
    with 2 show ?thesis by (simp split: if_splits)
  qed
qed

lemma py_split_words: "w \<in> set (py_split s) \<Longrightarrow> is_word w"
  using split_ws_words [of "[]"] by (auto simp: py_split_def)

lemma split_ws_append_word:
  "\<forall>c \<in> set w. \<not> is_space c \<Longrightarrow> split_ws acc (w @ s) = split_ws (rev w @ acc) s"
  by (induction w arbitrary: acc) auto

lemma py_split_join: "\<forall>w \<in> set ws. is_word w \<Longrightarrow> py_split (py_join [32] ws) = ws"
  unfolding py_split_def
proof (induction "[32] :: pystr" ws rule: py_join.induct)
  case (2 w)
  then show ?case
    using split_ws_append_word [of w "[]" "[]"] by (auto simp: is_word_def)
next
  case (3 w v ws)
  have w: "is_word w" using 3 by simp
  then have "split_ws [] (w @ 32 # py_join [32] (v # ws))
    = w # split_ws [] (py_join [32] (v # ws))"
    using split_ws_append_word [of w "[]"] by (auto simp: is_word_def)
  with 3 show ?case by simp
qed auto

lemma collapse_ws_idem [simp]: "collapse_ws (collapse_ws s) = collapse_ws s"
  by (simp add: collapse_ws_def py_split_join py_split_words)

lemma length_split_ws:
  "sum_list (map length (split_ws acc s)) + (length (split_ws acc s) - 1)
     \<le> length acc + length s"
proof (induction acc s rule: split_ws.induct)
  case (2 acc c cs)
  then show ?case
    by (cases "split_ws [] cs") auto
qed auto

lemma length_py_join:
  "length (py_join [x] ws) = sum_list (map length ws) + (length ws - 1)"
  by (induction "[x]" ws rule: py_join.induct) auto

lemma length_collapse_ws: "length (collapse_ws s) \<le> length s"
  using length_split_ws [of "[]" s]
  by (simp add: collapse_ws_def length_py_join py_split_def)

lemma set_py_join: "set (py_join sep ws) \<subseteq> set sep \<union> (\<Union>w \<in> set ws. set w)"
  by (induction sep ws rule: py_join.induct) auto

lemma length_py_strip: "length (py_strip s) \<le> length s"
proof -
  have "length (py_strip s) \<le> length (rev (dropWhile is_space s))"
    using length_dropWhile_le [of is_space "rev (dropWhile is_space s)"]
    by (simp add: py_strip_def)
  also have "\<dots> \<le> length s" by (simp add: length_dropWhile_le)
  finally show ?thesis .
qed

lemma dropWhile_id: "(s \<noteq> [] \<Longrightarrow> \<not> P (hd s)) \<Longrightarrow> dropWhile P s = s"
  by (cases s) auto

lemma py_strip_idem [simp]: "py_strip (py_strip s) = py_strip s"
proof -
  define t where "t = dropWhile is_space s"
  define u where "u = dropWhile is_space (rev t)"
  have hd_t: "t \<noteq> [] \<Longrightarrow> \<not> is_space (hd t)"
    by (simp add: t_def hd_dropWhile)
  have hd_u: "u \<noteq> [] \<Longrightarrow> \<not> is_space (hd u)"
    by (simp add: u_def hd_dropWhile)
  have "rev u \<noteq> [] \<Longrightarrow> \<not> is_space (hd (rev u))"
  proof -
    assume ne: "rev u \<noteq> []"
    have "rev t = takeWhile is_space (rev t) @ u"
      by (simp add: u_def)
    then have "t = rev u @ rev (takeWhile is_space (rev t))"
      by (metis rev_append rev_rev_ident)
    then have "hd t = hd (rev u)" and "t \<noteq> []"
      using ne by (metis hd_append2, auto)
    with hd_t show ?thesis by simp
  qed
  then have "dropWhile is_space (rev u) = rev u"
    by (rule dropWhile_id)
  moreover have "dropWhile is_space u = u"
    using hd_u by (rule dropWhile_id)
  ultimately show ?thesis
    by (simp add: py_strip_def flip: t_def u_def)
qed

section \<open>Dynamically typed values\<close>

text \<open>
  A value of type \<open>Any\<close> in the source: what JSON can hold. A dictionary is the list of its
  entries in insertion order; a lookup takes the first entry of a key.
\<close>

datatype pval =
    PNone
  | PBool bool
  | PInt int
  | PFloat rat
  | PStr pystr
  | PList "pval list"
  | PDict "(pystr \<times> pval) list"

type_synonym pdict = "(pystr \<times> pval) list"

text \<open>\<open>d.get(key)\<close>, which is \<open>None\<close> when the key is absent.\<close>

definition dict_get :: "pdict \<Rightarrow> pystr \<Rightarrow> pval" where
  "dict_get d k = (case map_of d k of None \<Rightarrow> PNone | Some v \<Rightarrow> v)"

text \<open>A dictionary display of the source, and the check that no other key is present.\<close>

definition py_dict :: "(string \<times> pval) list \<Rightarrow> pdict" where
  "py_dict kvs = map (\<lambda>(k, v). (lit k, v)) kvs"

definition only_keys :: "string list \<Rightarrow> pdict \<Rightarrow> bool" where
  "only_keys ks d \<longleftrightarrow> list_all (\<lambda>(k, v). list_ex (\<lambda>k'. k = lit k') ks) d"

lemma py_dict_simps [simp]:
  "py_dict [] = []"
  "py_dict ((k, v) # kvs) = (lit k, v) # py_dict kvs"
  by (simp_all add: py_dict_def)

lemma dict_get_simps [simp]:
  "dict_get [] k = PNone"
  "dict_get ((k, v) # d) k' = (if k = k' then v else dict_get d k')"
  by (simp_all add: dict_get_def)

lemma only_keys_simps [simp]:
  "only_keys ks []"
  "only_keys ks ((lit k, v) # d) \<longleftrightarrow> k \<in> set ks \<and> only_keys ks d"
  by (auto simp: only_keys_def list_ex_iff)

fun as_str :: "pval \<Rightarrow> pystr option" where
  "as_str (PStr s) = Some s"
| "as_str _ = None"

fun as_dict :: "pval \<Rightarrow> pdict option" where
  "as_dict (PDict d) = Some d"
| "as_dict _ = None"

lemma as_str_Some [simp]: "as_str v = Some s \<longleftrightarrow> v = PStr s"
  by (cases v) auto

lemma as_dict_Some [simp]: "as_dict v = Some d \<longleftrightarrow> v = PDict d"
  by (cases v) auto

text \<open>
  The text of a message's \<open>content\<close>: a string, or a list of blocks of which the typed text
  blocks count (\<open>_content_text\<close> of execution_policy.py and of agent_runtime.py, which are the
  same function). A block whose \<open>type\<close> is itself a list or a dictionary is not hashable and
  makes Python raise; message blocks of the framework always carry a string there, and the model
  counts such a block as no text.
\<close>

definition text_block_types :: "pystr set" where
  "text_block_types = {lit ''text'', lit ''output_text''}"

fun block_text :: "pval \<Rightarrow> pystr" where
  "block_text (PDict d) =
     (case as_str (dict_get d (lit ''type'')) of
        Some t \<Rightarrow>
          (if t \<in> text_block_types
           then (case as_str (dict_get d (lit ''text'')) of Some s \<Rightarrow> s | None \<Rightarrow> [])
           else [])
      | None \<Rightarrow> [])"
| "block_text _ = []"

fun content_text :: "pval \<Rightarrow> pystr" where
  "content_text (PStr s) = s"
| "content_text (PList bs) = concat (map block_text bs)"
| "content_text _ = []"

section \<open>Exceptions and results\<close>

text \<open>The public failure codes of a Run (\<open>RunFailureCode\<close>).\<close>

datatype run_failure_code =
    RunTimeout
  | AgentExecutionFailedCode
  | ServiceRestarted
  | ModelStepLimit
  | ToolCallLimit
  | RepeatedToolCallCode
  | NoProgressCode
  | ToolNotAllowedCode
  | ResultSchemaInvalidCode
  | SourceValidationFailedCode

datatype resource_kind = ThreadResource | RunResource

text \<open>
  The exceptions of the package, one constructor per class; the argument is the reason the
  source passes to the constructor. A \<open>PolicyViolation\<close> carries its failure code and its
  stop reason. \<open>OtherException\<close> is any exception raised by code outside the package.
\<close>

datatype exn =
    PolicyViolation run_failure_code pystr
  | UsageMeteringError string
  | ToolInvocationContractError string
  | CapabilityConfigurationError string
  | PolicyKernelConfigurationError string
  | ProductEventValidationError string
  | IdentityConfigurationError string
  | RuntimeConfigurationError string
  | ValidationError
  | ResourceNotFoundError string
  | ResourceForbiddenError resource_kind
  | ActiveRunConflictError
  | InitialThreadExistsError
  | IdempotencyMismatchError
  | RepositoryUnavailableError string
  | IntegrityError
  | OtherException string

text \<open>
  Two result types. \<open>exn + 'a\<close> is a computation without state, or a database transaction,
  whose exception rolls everything back. \<open>(exn + 'a) \<times> 's\<close> is a method of a mutable object:
  what it changed before it raised stays changed, so the state is returned in both cases.
\<close>

definition bindE :: "exn + 'a \<Rightarrow> ('a \<Rightarrow> exn + 'b) \<Rightarrow> exn + 'b" where
  "bindE m k = (case m of Inl e \<Rightarrow> Inl e | Inr x \<Rightarrow> k x)"

definition requireE :: "bool \<Rightarrow> exn \<Rightarrow> exn + unit" where
  "requireE b e = (if b then Inr () else Inl e)"

definition and_then ::
  "(exn + 'a) \<times> 's \<Rightarrow> ('a \<Rightarrow> 's \<Rightarrow> (exn + 'b) \<times> 's) \<Rightarrow> (exn + 'b) \<times> 's" where
  "and_then r k = (case r of (Inl e, s) \<Rightarrow> (Inl e, s) | (Inr x, s) \<Rightarrow> k x s)"

lemma bindE_simps [simp]:
  "bindE (Inl e) k = Inl e"
  "bindE (Inr x) k = k x"
  by (simp_all add: bindE_def)

lemma bindE_eq_Inr [simp]: "bindE m k = Inr y \<longleftrightarrow> (\<exists>x. m = Inr x \<and> k x = Inr y)"
  by (cases m) auto

lemma bindE_eq_Inl: "bindE m k = Inl e \<longleftrightarrow> m = Inl e \<or> (\<exists>x. m = Inr x \<and> k x = Inl e)"
  by (cases m) auto

lemma requireE_eq [simp]:
  "requireE b e = Inr u \<longleftrightarrow> b"
  "requireE b e = Inl e' \<longleftrightarrow> \<not> b \<and> e' = e"
  by (auto simp: requireE_def)

lemma and_then_simps [simp]:
  "and_then (Inl e, s) k = (Inl e, s)"
  "and_then (Inr x, s) k = k x s"
  by (simp_all add: and_then_def)

lemma and_then_cases:
  assumes "and_then r k = (res, s')"
  obtains (raised) e where "r = (Inl e, s')" "res = Inl e"
  | (returned) x s where "r = (Inr x, s)" "k x s = (res, s')"
  using assms by (cases r; cases "fst r") auto

section \<open>Insertion-ordered dictionaries\<close>

text \<open>
  Where the source iterates over a \<open>dict\<close>, the order of insertion matters, and the model is
  an association list: \<open>map_of\<close> looks up, \<open>AList.update\<close> overwrites in place or appends.
\<close>

lemma keys_update_fresh:
  "k \<notin> fst ` set xs \<Longrightarrow> AList.update k v xs = xs @ [(k, v)]"
  by (induction xs) auto

lemma update_values:
  "(k', v') \<in> set (AList.update k v xs) \<Longrightarrow> (k', v') \<in> set xs \<or> (k', v') = (k, v)"
  by (induction xs) (auto split: if_splits)

lemma keys_update_present:
  "k \<in> fst ` set xs \<Longrightarrow> map fst (AList.update k v xs) = map fst xs"
  by (induction xs) auto

section \<open>State machines\<close>

text \<open>
  The states a machine can reach, and the contract under which a predicate is an invariant of
  it. Each stateful component interprets \<open>guarded_machine\<close> on its own initial states, step
  relation and invariant.
\<close>

inductive reaches :: "('s \<Rightarrow> bool) \<Rightarrow> ('s \<Rightarrow> 's \<Rightarrow> bool) \<Rightarrow> 's \<Rightarrow> bool"
  for init :: "'s \<Rightarrow> bool" and step :: "'s \<Rightarrow> 's \<Rightarrow> bool" where
  reaches_init: "init s \<Longrightarrow> reaches init step s"
| reaches_step: "reaches init step s \<Longrightarrow> step s t \<Longrightarrow> reaches init step t"

locale guarded_machine =
  fixes init :: "'s \<Rightarrow> bool"
    and step :: "'s \<Rightarrow> 's \<Rightarrow> bool"
    and inv :: "'s \<Rightarrow> bool"
  assumes inv_init: "init s \<Longrightarrow> inv s"
    and inv_step: "inv s \<Longrightarrow> step s t \<Longrightarrow> inv t"
begin

lemma reaches_inv: "reaches init step s \<Longrightarrow> inv s"
  by (induction rule: reaches.induct) (auto intro: inv_init inv_step)

lemma steps_inv: "step\<^sup>*\<^sup>* s t \<Longrightarrow> inv s \<Longrightarrow> inv t"
  by (induction rule: rtranclp_induct) (auto intro: inv_step)

lemma steps_preserve:
  assumes "step\<^sup>*\<^sup>* s t" and "inv s" and "P s"
    and keep: "\<And>u v. inv u \<Longrightarrow> step u v \<Longrightarrow> P u \<Longrightarrow> P v"
  shows "P t"
proof -
  have "inv t \<and> P t"
    using assms(1-3)
    by (induction rule: rtranclp_induct) (auto intro: inv_step keep)
  then show ?thesis ..
qed

end

end
