(* ===== verification/Patterns.thy ===== *)
theory Patterns
  imports Prelude
begin

text \<open>
  The two regular expressions of agent_definition.py, as executable matchers of the whole
  string (\<open>re.fullmatch\<close>, and the anchored \<open>pattern=\<close> of a field), and the languages they
  denote. Other theories use only the matchers and the field validators built on them.
\<close>

section \<open>Character classes\<close>

definition is_lower :: "nat \<Rightarrow> bool" where
  "is_lower c \<longleftrightarrow> 97 \<le> c \<and> c \<le> 122"

definition is_digit :: "nat \<Rightarrow> bool" where
  "is_digit c \<longleftrightarrow> 48 \<le> c \<and> c \<le> 57"

definition is_alnum :: "nat \<Rightarrow> bool" where
  "is_alnum c \<longleftrightarrow> is_lower c \<or> is_digit c"

definition is_separator :: "nat \<Rightarrow> bool" where
  "is_separator c \<longleftrightarrow> c = 46 \<or> c = 95 \<or> c = 45"

lemmas char_class_defs = is_lower_def is_digit_def is_alnum_def is_separator_def

lemma separator_not_alnum: "is_separator c \<Longrightarrow> \<not> is_alnum c"
  by (auto simp: char_class_defs)

section \<open>Identifiers\<close>

text \<open>
  \<^verbatim>\<open>^[a-z][a-z0-9]*(?:[._-][a-z0-9]+)*$\<close>. The matcher is the automaton of the expression:
  inside a segment, and right after a separator.
\<close>

fun ident_segment :: "pystr \<Rightarrow> bool"
and ident_after_separator :: "pystr \<Rightarrow> bool" where
  "ident_segment [] = True"
| "ident_segment (c # cs) =
     (if is_alnum c then ident_segment cs
      else if is_separator c then ident_after_separator cs else False)"
| "ident_after_separator [] = False"
| "ident_after_separator (c # cs) = (is_alnum c \<and> ident_segment cs)"

fun identifier_match :: "pystr \<Rightarrow> bool" where
  "identifier_match [] = False"
| "identifier_match (c # cs) = (is_lower c \<and> ident_segment cs)"

text \<open>The language of the expression: a letter, then alphanumerics, then groups.\<close>

definition ident_group :: "pystr \<Rightarrow> bool" where
  "ident_group g \<longleftrightarrow> (\<exists>s w. g = s # w \<and> is_separator s \<and> w \<noteq> [] \<and> list_all is_alnum w)"

definition identifier_lang :: "pystr \<Rightarrow> bool" where
  "identifier_lang s \<longleftrightarrow>
     (\<exists>c w gs. s = c # w @ concat gs \<and> is_lower c \<and> list_all is_alnum w
        \<and> list_all ident_group gs)"

lemma ident_segment_alnum: "list_all is_alnum w \<Longrightarrow> ident_segment (w @ s) = ident_segment s"
  by (induction w) auto

lemma ident_segment_groups: "list_all ident_group gs \<Longrightarrow> ident_segment (concat gs)"
proof (induction gs)
  case (Cons g gs)
  then obtain s c w where g: "g = s # c # w" "is_separator s" "is_alnum c" "list_all is_alnum w"
    by (auto simp: ident_group_def neq_Nil_conv)
  have "ident_segment (w @ concat gs)"
    using Cons g ident_segment_alnum by auto
  with g show ?case by (auto dest: separator_not_alnum)
qed simp

lemma ident_segment_split:
  "ident_segment s \<Longrightarrow> \<exists>w gs. s = w @ concat gs \<and> list_all is_alnum w \<and> list_all ident_group gs"
  "ident_after_separator s \<Longrightarrow>
     \<exists>w gs. s = w @ concat gs \<and> w \<noteq> [] \<and> list_all is_alnum w \<and> list_all ident_group gs"
proof (induction s and s rule: ident_segment_ident_after_separator.induct)
  case 1
  show ?case by (rule exI [of _ "[]"], rule exI [of _ "[]"]) simp
next
  case (2 c cs)
  show ?case
  proof (cases "is_alnum c")
    case True
    with 2 obtain w gs where "cs = w @ concat gs" "list_all is_alnum w" "list_all ident_group gs"
      by auto
    with True have "c # cs = (c # w) @ concat gs \<and> list_all is_alnum (c # w)
      \<and> list_all ident_group gs" by simp
    then show ?thesis by blast
  next
    case False
    with 2 obtain w gs where w: "cs = w @ concat gs" "w \<noteq> []" "list_all is_alnum w"
      "list_all ident_group gs" and c: "is_separator c"
      by (auto split: if_splits)
    then have "c # cs = [] @ concat ((c # w) # gs) \<and> list_all is_alnum []
      \<and> list_all ident_group ((c # w) # gs)"
      by (auto simp: ident_group_def)
    then show ?thesis by blast
  qed
next
  case (4 c cs)
  then obtain w gs where "cs = w @ concat gs" "list_all is_alnum w" "list_all ident_group gs"
    by auto
  with 4 have "c # cs = (c # w) @ concat gs \<and> c # w \<noteq> [] \<and> list_all is_alnum (c # w)
    \<and> list_all ident_group gs" by simp
  then show ?case by blast
qed simp

lemma identifier_match_iff_lang: "identifier_match s \<longleftrightarrow> identifier_lang s"
proof
  assume "identifier_match s"
  then obtain c cs where s: "s = c # cs" "is_lower c" "ident_segment cs"
    by (cases s) auto
  then obtain w gs where "cs = w @ concat gs" "list_all is_alnum w" "list_all ident_group gs"
    using ident_segment_split(1) by blast
  with s show "identifier_lang s" by (auto simp: identifier_lang_def)
next
  assume "identifier_lang s"
  then show "identifier_match s"
    by (auto simp: identifier_lang_def ident_segment_alnum ident_segment_groups)
qed

text \<open>Two separators in a row never occur in an identifier.\<close>

lemma ident_segment_no_double:
  "ident_segment (s @ x # y # t) \<Longrightarrow> is_separator x \<Longrightarrow> is_separator y \<Longrightarrow> False"
  "ident_after_separator (s @ x # y # t) \<Longrightarrow> is_separator x \<Longrightarrow> is_separator y \<Longrightarrow> False"
proof (induction s)
  case Nil
  {
    case 1
    then show ?case by (simp add: separator_not_alnum)
  next
    case 2
    then show ?case by (simp add: separator_not_alnum)
  }
next
  case (Cons a s)
  {
    case 1
    with Cons.IH show ?case by (auto split: if_splits)
  next
    case 2
    with Cons.IH show ?case by auto
  }
qed

lemma identifier_no_double_separator:
  assumes "identifier_match (s @ x # y # t)" and "is_separator x" and "is_separator y"
  shows False
proof (cases s)
  case Nil
  with assms show ?thesis
    by (auto simp: char_class_defs)
next
  case (Cons a s')
  with assms show ?thesis using ident_segment_no_double(1) by auto
qed

section \<open>Versions\<close>

text \<open>
  \<^verbatim>\<open>^(0|[1-9][0-9]*)\.(0|[1-9][0-9]*)\.(0|[1-9][0-9]*)$\<close>: three numbers without a leading
  zero, separated by dots.
\<close>

fun version_number :: "pystr \<Rightarrow> bool" where
  "version_number [] = False"
| "version_number (c # cs) =
     (if c = 48 then cs = [] else is_digit c \<and> list_all is_digit cs)"

fun split_dots :: "pystr \<Rightarrow> pystr list" where
  "split_dots [] = [[]]"
| "split_dots (c # cs) =
     (if c = 46 then [] # split_dots cs
      else (case split_dots cs of [] \<Rightarrow> [[c]] | w # ws \<Rightarrow> (c # w) # ws))"

definition version_match :: "pystr \<Rightarrow> bool" where
  "version_match s \<longleftrightarrow>
     (case split_dots s of
        [a, b, c] \<Rightarrow> version_number a \<and> version_number b \<and> version_number c
      | _ \<Rightarrow> False)"

lemma split_dots_not_Nil [simp]: "split_dots s \<noteq> []"
  by (induction s) (auto split: list.splits)

lemma split_dots_join: "py_join [46] (split_dots s) = s"
proof (induction s)
  case (Cons c cs)
  show ?case
  proof (cases "split_dots cs")
    case (Cons w ws)
    with Cons.IH show ?thesis by (cases ws) auto
  qed simp
qed simp

lemma split_dots_word: "46 \<notin> set w \<Longrightarrow> split_dots w = [w]"
  by (induction w) auto

lemma split_dots_word_dot: "46 \<notin> set w \<Longrightarrow> split_dots (w @ 46 # s) = w # split_dots s"
  by (induction w) auto

lemma version_number_no_dot: "version_number w \<Longrightarrow> 46 \<notin> set w"
  by (cases w) (auto simp: list_all_iff is_digit_def split: if_splits)

lemma version_match_iff:
  "version_match s \<longleftrightarrow>
     (\<exists>a b c. s = a @ [46] @ b @ [46] @ c
        \<and> version_number a \<and> version_number b \<and> version_number c)"
proof
  assume "version_match s"
  then obtain a b c where "split_dots s = [a, b, c]"
    and v: "version_number a" "version_number b" "version_number c"
    by (auto simp: version_match_def split: list.splits)
  then have "s = a @ [46] @ b @ [46] @ c"
    using split_dots_join [of s] by simp
  with v show "\<exists>a b c. s = a @ [46] @ b @ [46] @ c
      \<and> version_number a \<and> version_number b \<and> version_number c" by blast
next
  assume "\<exists>a b c. s = a @ [46] @ b @ [46] @ c
      \<and> version_number a \<and> version_number b \<and> version_number c"
  then show "version_match s"
    by (auto simp: version_match_def split_dots_word_dot split_dots_word version_number_no_dot)
qed

section \<open>Constrained string fields\<close>

text \<open>
  The constraints of \<open>Field(min_length=a, max_length=b)\<close>, and the two pattern fields that
  recur: identifiers of at most 128 characters and versions of 5 to 32.
\<close>

definition len_between :: "nat \<Rightarrow> nat \<Rightarrow> pystr \<Rightarrow> bool" where
  "len_between a b s \<longleftrightarrow> a \<le> length s \<and> length s \<le> b"

definition valid_identifier :: "pystr \<Rightarrow> bool" where
  "valid_identifier s \<longleftrightarrow> len_between 1 128 s \<and> identifier_match s"

definition valid_version :: "pystr \<Rightarrow> bool" where
  "valid_version s \<longleftrightarrow> len_between 5 32 s \<and> version_match s"

text \<open>The check the validators write out: \<open>len(x) > 128 or fullmatch(..) is None\<close>.\<close>

definition valid_tool_id :: "pystr \<Rightarrow> bool" where
  "valid_tool_id s \<longleftrightarrow> \<not> (128 < length s \<or> \<not> identifier_match s)"

definition valid_version_text :: "pystr \<Rightarrow> bool" where
  "valid_version_text s \<longleftrightarrow> \<not> (32 < length s \<or> \<not> version_match s)"

lemma valid_tool_id_iff: "valid_tool_id s \<longleftrightarrow> valid_identifier s"
  by (cases s) (auto simp: valid_tool_id_def valid_identifier_def len_between_def)

lemma version_number_len: "version_number w \<Longrightarrow> 1 \<le> length w"
  by (cases w) auto

lemma version_match_length:
  assumes "version_match s" shows "5 \<le> length s"
proof -
  obtain a b c where "s = a @ [46] @ b @ [46] @ c"
    "version_number a" "version_number b" "version_number c"
    using assms by (auto simp: version_match_iff)
  then show ?thesis
    using version_number_len [of a] version_number_len [of b] version_number_len [of c] by simp
qed

lemma valid_version_text_iff: "valid_version_text s \<longleftrightarrow> valid_version s"
  by (auto simp: valid_version_text_def valid_version_def len_between_def
      dest: version_match_length)

section \<open>Characters of identifiers and versions\<close>

lemma ident_segment_chars:
  "ident_segment s \<Longrightarrow> c \<in> set s \<Longrightarrow> is_alnum c \<or> is_separator c"
  "ident_after_separator s \<Longrightarrow> c \<in> set s \<Longrightarrow> is_alnum c \<or> is_separator c"
  by (induction s and s rule: ident_segment_ident_after_separator.induct) (auto split: if_splits)

lemma identifier_chars:
  assumes "valid_tool_id s" "c \<in> set s" shows "is_alnum c \<or> is_separator c"
proof (cases s)
  case (Cons a t)
  with assms show ?thesis
    using ident_segment_chars(1) [of t c] by (auto simp: valid_tool_id_def is_alnum_def split: if_splits)
qed (use assms in simp)

lemma version_text_chars:
  assumes "valid_version_text s" "c \<in> set s" shows "is_digit c \<or> c = 46"
proof -
  have word: "version_number w \<Longrightarrow> set w \<subseteq> Collect is_digit" for w
    by (cases w) (auto simp: is_digit_def list_all_iff split: if_splits)
  have "\<forall>w \<in> set (split_dots s). version_number w"
    using assms(1) by (auto simp: valid_version_text_def version_match_def list_all_iff split: list.splits)
  then have "set (py_join [46] (split_dots s)) \<subseteq> {46} \<union> Collect is_digit"
    using set_py_join [of "[46]" "split_dots s"] word by auto
  with assms(2) show ?thesis by (auto simp: split_dots_join)
qed

text \<open>A text up to a stop character it does not hold is determined.\<close>

lemma append_stop_eq:
  assumes "x @ c # u = y @ c # v" "c \<notin> set x" "c \<notin> set y"
  shows "x = y \<and> u = v"
  using assms
proof (induction x arbitrary: y)
  case Nil
  then show ?case by (cases y) auto
next
  case (Cons a x)
  then show ?case by (cases y) auto
qed

end
