(* ===== verification/Identity.thy ===== *)
theory Identity
  imports Patterns
begin

text \<open>
  identity.py and authorization.py: the authenticated Principal and its validators, the built-in
  identity providers, the Host boundary that re-validates an adapter's assertion, the resolution
  of the configured provider, and the exact-ownership rule. The Unicode character database is
  the argument \<open>cc\<close>: \<open>cc c\<close> holds when the general category of code point \<open>c\<close> starts
  with C (control, format, surrogate, private use, unassigned), which depends on the
  interpreter's Unicode version.
\<close>

section \<open>Principals\<close>

datatype py_datetime =
    NaiveTime int
  | AwareTime int

record display_extensions =
  session_expires_at :: "py_datetime option"
  permission_summary :: "pystr option"

record principal =
  subject :: pystr
  display_name :: "pystr option"
  organization :: "pystr option"
  roles :: "pystr list"
  session_id :: "pystr option"
  extensions :: display_extensions

definition no_extensions :: display_extensions where
  "no_extensions = \<lparr>session_expires_at = None, permission_summary = None\<rparr>"

definition INTERNAL_SUBJECT_PREFIX :: pystr where
  "INTERNAL_SUBJECT_PREFIX = lit ''urn:work-assistant:internal:''"

definition LEGACY_UNOWNED_SUBJECT :: pystr where
  "LEGACY_UNOWNED_SUBJECT = INTERNAL_SUBJECT_PREFIX @ lit ''legacy-unowned:v0.2''"

definition ANONYMOUS_DEVELOPMENT_SUBJECT :: pystr where
  "ANONYMOUS_DEVELOPMENT_SUBJECT = lit ''urn:work-assistant:principal:anonymous-development''"

definition is_internal :: "pystr \<Rightarrow> bool" where
  "is_internal s \<longleftrightarrow> py_startswith s INTERNAL_SUBJECT_PREFIX"

section \<open>Validators\<close>

definition validate_subject :: "(nat \<Rightarrow> bool) \<Rightarrow> pystr \<Rightarrow> exn + pystr" where
  "validate_subject cc value =
     (if \<not> len_between 1 255 value then Inl ValidationError
      else if value \<noteq> py_strip value then Inl ValidationError
      else if is_internal value then Inl ValidationError
      else if list_ex cc value then Inl ValidationError
      else Inr value)"

text \<open>The shared shape of \<open>clean_display_text\<close> and \<open>clean_permission_summary\<close>.\<close>

definition clean_text :: "(nat \<Rightarrow> bool) \<Rightarrow> pystr \<Rightarrow> exn + pystr" where
  "clean_text cc value =
     (let value' = collapse_ws value in
      if value' = [] \<or> list_ex cc value' then Inl ValidationError else Inr value')"

definition clean_display_text ::
  "(nat \<Rightarrow> bool) \<Rightarrow> pystr option \<Rightarrow> exn + pystr option" where
  "clean_display_text cc value =
     (case value of
        None \<Rightarrow> Inr None
      | Some v \<Rightarrow>
          if 200 < length v then Inl ValidationError
          else bindE (clean_text cc v) (\<lambda>w. Inr (Some w)))"

definition clean_permission_summary ::
  "(nat \<Rightarrow> bool) \<Rightarrow> pystr option \<Rightarrow> exn + pystr option" where
  "clean_permission_summary cc value =
     (case value of
        None \<Rightarrow> Inr None
      | Some v \<Rightarrow>
          if \<not> len_between 1 200 v then Inl ValidationError
          else bindE (clean_text cc v) (\<lambda>w. Inr (Some w)))"

definition require_aware_expiry :: "py_datetime option \<Rightarrow> exn + py_datetime option" where
  "require_aware_expiry value =
     (case value of Some (NaiveTime t) \<Rightarrow> Inl ValidationError | _ \<Rightarrow> Inr value)"

definition valid_role :: "(nat \<Rightarrow> bool) \<Rightarrow> pystr \<Rightarrow> bool" where
  "valid_role cc role \<longleftrightarrow>
     role \<noteq> [] \<and> role = py_strip role \<and> length role \<le> 128 \<and> \<not> list_ex cc role"

definition validate_roles :: "(nat \<Rightarrow> bool) \<Rightarrow> pystr list \<Rightarrow> exn + pystr list" where
  "validate_roles cc value =
     (if 64 < length value then Inl ValidationError
      else if \<not> distinct value then Inl ValidationError
      else if \<not> list_all (valid_role cc) value then Inl ValidationError
      else Inr value)"

definition validate_extensions ::
  "(nat \<Rightarrow> bool) \<Rightarrow> display_extensions \<Rightarrow> exn + display_extensions" where
  "validate_extensions cc x =
     bindE (require_aware_expiry (session_expires_at x)) (\<lambda>t.
     bindE (clean_permission_summary cc (permission_summary x)) (\<lambda>s.
     Inr \<lparr>session_expires_at = t, permission_summary = s\<rparr>))"

definition validate_principal :: "(nat \<Rightarrow> bool) \<Rightarrow> principal \<Rightarrow> exn + principal" where
  "validate_principal cc p =
     bindE (validate_subject cc (subject p)) (\<lambda>s.
     bindE (clean_display_text cc (display_name p)) (\<lambda>d.
     bindE (clean_display_text cc (organization p)) (\<lambda>g.
     bindE (validate_roles cc (roles p)) (\<lambda>rs.
     bindE (requireE (case session_id p of None \<Rightarrow> True | Some i \<Rightarrow> length i \<le> 255)
              ValidationError) (\<lambda>_.
     bindE (validate_extensions cc (extensions p)) (\<lambda>x.
     Inr \<lparr>subject = s, display_name = d, organization = g, roles = rs,
           session_id = session_id p, extensions = x\<rparr>))))))"

lemma clean_text_idem: "clean_text cc v = Inr w \<Longrightarrow> clean_text cc w = Inr w"
  by (auto simp: clean_text_def Let_def split: if_splits)

lemma clean_text_shape: "clean_text cc v = Inr w \<Longrightarrow> w \<noteq> [] \<and> length w \<le> length v"
  by (auto simp: clean_text_def Let_def length_collapse_ws split: if_splits)

lemma clean_display_text_idem:
  assumes "clean_display_text cc v = Inr w" shows "clean_display_text cc w = Inr w"
proof (cases v)
  case None
  with assms show ?thesis by (auto simp: clean_display_text_def)
next
  case (Some u)
  with assms obtain u' where u': "w = Some u'" "clean_text cc u = Inr u'" "length u \<le> 200"
    by (auto simp: clean_display_text_def split: if_splits)
  then have "length u' \<le> 200" using clean_text_shape by fastforce
  with u' show ?thesis by (simp add: clean_display_text_def clean_text_idem)
qed

lemma clean_permission_summary_idem:
  assumes "clean_permission_summary cc v = Inr w" shows "clean_permission_summary cc w = Inr w"
proof (cases v)
  case None
  with assms show ?thesis by (auto simp: clean_permission_summary_def)
next
  case (Some u)
  with assms obtain u' where u': "w = Some u'" "clean_text cc u = Inr u'" "length u \<le> 200"
    by (auto simp: clean_permission_summary_def len_between_def split: if_splits)
  then have "u' \<noteq> [] \<and> length u' \<le> 200" using clean_text_shape by fastforce
  then have "len_between 1 200 u'" by (cases u') (auto simp: len_between_def)
  with u' show ?thesis by (simp add: clean_permission_summary_def clean_text_idem)
qed

lemma validate_extensions_idem:
  "validate_extensions cc x = Inr y \<Longrightarrow> validate_extensions cc y = Inr y"
  by (auto simp: validate_extensions_def require_aware_expiry_def clean_permission_summary_idem
      split: option.splits py_datetime.splits)

lemma validate_subject_Inr: "validate_subject cc s = Inr t \<longleftrightarrow>
    t = s \<and> len_between 1 255 s \<and> py_strip s = s \<and> \<not> is_internal s \<and> \<not> list_ex cc s"
  by (auto simp: validate_subject_def)

lemma validate_roles_Inr: "validate_roles cc rs = Inr qs \<longleftrightarrow>
    qs = rs \<and> length rs \<le> 64 \<and> distinct rs \<and> list_all (valid_role cc) rs"
  by (auto simp: validate_roles_def)

lemma validate_principal_subject:
  "validate_principal cc p = Inr q \<Longrightarrow> subject q = subject p \<and> \<not> is_internal (subject q)"
  by (auto simp: validate_principal_def validate_subject_Inr)

text \<open>
  Re-validating a validated Principal changes nothing: the normalisation of the display
  fields is idempotent, so the rebuild at the Host boundary is stable.
\<close>

theorem validate_principal_stable:
  "validate_principal cc p = Inr q \<Longrightarrow> validate_principal cc q = Inr q"
  by (auto simp: validate_principal_def validate_subject_Inr validate_roles_Inr
      clean_display_text_idem validate_extensions_idem)

theorem validate_principal_stable_witness:
  "\<exists>q. validate_principal (\<lambda>c. c < 32)
         \<lparr>subject = lit ''alice'', display_name = Some (lit ''  Alice   L  ''), organization = None,
          roles = [], session_id = None, extensions = no_extensions\<rparr> = Inr q
     \<and> display_name q = Some (lit ''Alice L'')
     \<and> validate_principal (\<lambda>c. c < 32) q = Inr q"
proof -
  define p where "p = \<lparr>subject = lit ''alice'', display_name = Some (lit ''  Alice   L  ''),
    organization = None, roles = [], session_id = None, extensions = no_extensions\<rparr>"
  define q where "q = p\<lparr>display_name := Some (lit ''Alice L'')\<rparr>"
  have h: "validate_principal (\<lambda>c. c < 32) p = Inr q"
    by (simp add: p_def q_def validate_principal_def validate_subject_def len_between_def
        py_strip_def is_internal_def py_startswith_def INTERNAL_SUBJECT_PREFIX_def lit_def
        is_space_def clean_display_text_def clean_text_def collapse_ws_def py_split_def
        validate_roles_def validate_extensions_def no_extensions_def require_aware_expiry_def
        clean_permission_summary_def requireE_def)
  show ?thesis
    using h validate_principal_stable [OF h] by (intro exI [of _ q]) (simp add: p_def q_def)
qed

section \<open>Identity providers\<close>

text \<open>
  What \<open>provider.authenticate(request)\<close> can do: raise, return something that is not a
  Principal, or return a Principal (possibly built without validation).
\<close>

datatype provider_answer =
    ProviderRaised
  | NotAPrincipal
  | Asserted principal

definition anonymous_principal :: principal where
  "anonymous_principal =
     \<lparr>subject = ANONYMOUS_DEVELOPMENT_SUBJECT, display_name = Some [24403, 21069, 29992, 25143],
      organization = None, roles = [], session_id = None, extensions = no_extensions\<rparr>"

definition anonymous_authenticate :: provider_answer where
  "anonymous_authenticate = Asserted anonymous_principal"

text \<open>\<open>values\<close> are the values of the development header in the request.\<close>

definition dev_header_authenticate :: "(nat \<Rightarrow> bool) \<Rightarrow> pystr list \<Rightarrow> provider_answer" where
  "dev_header_authenticate cc values =
     (case values of
        [v] \<Rightarrow>
          (case validate_principal cc
                  \<lparr>subject = v, display_name = Some v, organization = None, roles = [],
                   session_id = None, extensions = no_extensions\<rparr> of
             Inl _ \<Rightarrow> NotAPrincipal
           | Inr p \<Rightarrow> Asserted p)
      | _ \<Rightarrow> NotAPrincipal)"

definition authenticate_request :: "(nat \<Rightarrow> bool) \<Rightarrow> provider_answer \<Rightarrow> principal option" where
  "authenticate_request cc answer =
     (case answer of
        Asserted p \<Rightarrow> (case validate_principal cc p of Inl _ \<Rightarrow> None | Inr q \<Rightarrow> Some q)
      | _ \<Rightarrow> None)"

datatype app_env = Development | TestEnv | Production

datatype identity_mode = ExternalMode | AnonymousMode | DevelopmentHeaderMode

datatype 'p identity_provider =
    AnonymousIdentityProvider
  | DevelopmentHeaderIdentityProvider
  | InjectedProvider 'p

definition resolve_identity_provider ::
  "app_env \<Rightarrow> identity_mode \<Rightarrow> 'p identity_provider option \<Rightarrow> exn + 'p identity_provider"
where
  "resolve_identity_provider env mode external =
     (if env = Production
         \<and> (external = Some AnonymousIdentityProvider
            \<or> external = Some DevelopmentHeaderIdentityProvider)
      then Inl (IdentityConfigurationError ''development_identity_provider_in_production'')
      else if mode = ExternalMode
      then (case external of
              None \<Rightarrow> Inl (IdentityConfigurationError ''external_identity_provider_missing'')
            | Some p \<Rightarrow> Inr p)
      else if external \<noteq> None
      then Inl (IdentityConfigurationError ''external_identity_provider_unexpected'')
      else if mode = AnonymousMode then Inr AnonymousIdentityProvider
      else Inr DevelopmentHeaderIdentityProvider)"

lemma authenticate_request_valid:
  "authenticate_request cc a = Some p \<Longrightarrow>
     validate_principal cc p = Inr p \<and> \<not> is_internal (subject p)"
  by (auto simp: authenticate_request_def split: provider_answer.splits sum.splits
      dest: validate_principal_stable validate_principal_subject)

lemma split_ws_pending: "acc \<noteq> [] \<Longrightarrow> split_ws acc s \<noteq> []"
  by (induction acc s rule: split_ws.induct) auto

lemma split_ws_nonspace:
  "c \<in> set s \<Longrightarrow> \<not> is_space c \<Longrightarrow> split_ws acc s \<noteq> []"
proof (induction acc s rule: split_ws.induct)
  case (2 acc a cs)
  then show ?case by (cases "c = a"; cases "is_space a") (auto simp: split_ws_pending)
qed simp

lemma split_ws_chars: "w \<in> set (split_ws acc s) \<Longrightarrow> set w \<subseteq> set acc \<union> set s"
proof (induction acc s rule: split_ws.induct)
  case (2 acc c cs)
  then show ?case by (cases "is_space c"; cases "acc = []") auto
qed (auto split: if_splits)

lemma collapse_ws_chars: "set (collapse_ws s) \<subseteq> insert 32 (set s)"
  using set_py_join [of "[32]" "py_split s"] split_ws_chars [of _ "[]" s]
  by (fastforce simp: collapse_ws_def py_split_def)

lemma py_join_Nil: "\<forall>w \<in> set ws. w \<noteq> [] \<Longrightarrow> py_join [x] ws = [] \<longleftrightarrow> ws = []"
  by (induction "[x]" ws rule: py_join.induct) auto

lemma collapse_ws_nonempty:
  assumes "s \<noteq> []" and "py_strip s = s" shows "collapse_ws s \<noteq> []"
proof -
  have "dropWhile is_space s \<noteq> []"
    using assms by (metis dropWhile.simps(1) py_strip_def rev.simps(1))
  then obtain c where "c \<in> set s" "\<not> is_space c"
    by (auto simp: dropWhile_eq_Nil_conv)
  then have "py_split s \<noteq> []"
    by (simp add: py_split_def split_ws_nonspace)
  then show ?thesis
    using py_split_words [of _ s] by (auto simp: collapse_ws_def py_join_Nil is_word_def)
qed

text \<open>
  The development header authenticates exactly one value, exactly when that value is a
  valid subject of at most 200 characters: the subject doubles as the display name, whose bound
  is tighter than the subject's 255.
\<close>

theorem dev_header_accepts_iff:
  assumes "\<not> cc 32"
  shows "(\<exists>p. dev_header_authenticate cc values = Asserted p) \<longleftrightarrow>
    (\<exists>v. values = [v] \<and> validate_subject cc v = Inr v \<and> length v \<le> 200)"
proof -
  have "clean_text cc v = Inr (collapse_ws v)" if "validate_subject cc v = Inr v" for v
  proof -
    from that have v: "v \<noteq> []" "py_strip v = v" "\<not> list_ex cc v"
      by (auto simp: validate_subject_Inr len_between_def)
    have "\<not> list_ex cc (collapse_ws v)"
      using v(3) assms collapse_ws_chars [of v] by (auto simp: list_ex_iff)
    with collapse_ws_nonempty [OF v(1,2)] show ?thesis by (simp add: clean_text_def Let_def)
  qed
  moreover have "validate_subject cc v = Inr t \<Longrightarrow> t = v" for v t
    by (simp add: validate_subject_Inr)
  ultimately show ?thesis
    by (fastforce simp: dev_header_authenticate_def validate_principal_def validate_roles_def
        validate_extensions_def no_extensions_def require_aware_expiry_def
        clean_permission_summary_def clean_display_text_def requireE_def
        split: list.splits sum.splits if_splits)
qed

theorem dev_header_accepts_iff_witness:
  "\<not> (\<lambda>c. c < 32) (32::nat) \<and>
   (\<exists>p. dev_header_authenticate (\<lambda>c. c < 32) [lit ''alice''] = Asserted p)"
proof -
  have c: "\<not> (\<lambda>c. c < 32) (32::nat)" by simp
  have "validate_subject (\<lambda>c. c < 32) (lit ''alice'') = Inr (lit ''alice'')"
    by (simp add: validate_subject_def len_between_def py_strip_def is_internal_def
        py_startswith_def INTERNAL_SUBJECT_PREFIX_def lit_def is_space_def)
  then show ?thesis
    using c dev_header_accepts_iff [of "\<lambda>c. c < 32" "[lit ''alice'']"] by simp
qed

lemma resolve_injected_only:
  "resolve_identity_provider env ExternalMode external = Inr p \<Longrightarrow> external = Some p"
  by (auto simp: resolve_identity_provider_def split: if_splits option.splits)

section \<open>Ownership\<close>

definition require_owner :: "principal \<Rightarrow> pystr \<Rightarrow> resource_kind \<Rightarrow> exn + unit" where
  "require_owner p owner kind =
     (if is_internal owner then Inl (ResourceForbiddenError kind)
      else if subject p \<noteq> owner then Inl (ResourceForbiddenError kind)
      else Inr ())"

text \<open>
  The contract of \<open>OwnershipAuthorizer\<close> the repository relies on: a grant means exact
  equality with an owner that is not internal, and a denial is always the same error.
\<close>

locale ownership_authorizer =
  fixes authorize :: "principal \<Rightarrow> pystr \<Rightarrow> resource_kind \<Rightarrow> exn + unit"
    and reserved :: "pystr \<Rightarrow> bool"
  assumes grant_exact: "authorize p owner kind = Inr () \<Longrightarrow> subject p = owner"
    and grant_not_reserved: "authorize p owner kind = Inr () \<Longrightarrow> \<not> reserved owner"
    and grant_owner: "subject p = owner \<Longrightarrow> \<not> reserved owner \<Longrightarrow> authorize p owner kind = Inr ()"
    and denial: "authorize p owner kind = Inl e \<Longrightarrow> e = ResourceForbiddenError kind"
begin

lemma granted_iff: "authorize p owner kind = Inr u \<longleftrightarrow> subject p = owner \<and> \<not> reserved owner"
  using grant_exact grant_not_reserved grant_owner by (cases u) blast

lemma denied_iff:
  "authorize p owner kind = Inl e \<longleftrightarrow>
     e = ResourceForbiddenError kind \<and> (subject p \<noteq> owner \<or> reserved owner)"
proof (cases "authorize p owner kind")
  case (Inl e')
  then have "\<not> (subject p = owner \<and> \<not> reserved owner)"
    using granted_iff [of p owner kind "()"] by simp
  with Inl show ?thesis using denial by auto
next
  case (Inr u)
  then have "subject p = owner \<and> \<not> reserved owner"
    by (simp add: granted_iff)
  with Inr show ?thesis by auto
qed

lemma at_most_one_subject:
  "authorize p owner kind = Inr u \<Longrightarrow> authorize q owner kind' = Inr v \<Longrightarrow> subject p = subject q"
  by (simp add: granted_iff)

end

interpretation exact: ownership_authorizer require_owner is_internal
  by unfold_locales (auto simp: require_owner_def split: if_splits)

lemmas require_owner_iff [simp] = exact.granted_iff exact.denied_iff

lemma anonymous_authenticated:
  "authenticate_request (\<lambda>c. c < 32) anonymous_authenticate = Some anonymous_principal"
  by (simp add: authenticate_request_def anonymous_authenticate_def anonymous_principal_def
      validate_principal_def validate_subject_def len_between_def py_strip_def
      is_internal_def py_startswith_def INTERNAL_SUBJECT_PREFIX_def
      ANONYMOUS_DEVELOPMENT_SUBJECT_def lit_def is_space_def clean_display_text_def
      clean_text_def collapse_ws_def py_split_def validate_roles_def validate_extensions_def
      no_extensions_def require_aware_expiry_def clean_permission_summary_def requireE_def)

text \<open>
  An authenticated request acts under one subject, and the ownership rule grants it a
  resource exactly when that resource is owned by the same subject; a resource in the reserved
  internal namespace is denied to every Principal, authenticated or not.
\<close>

lemma authenticated_ownership_exact:
  assumes "authenticate_request cc answer = Some p"
  shows "(require_owner p owner kind = Inr () \<longleftrightarrow> subject p = owner)
    \<and> (is_internal owner \<longrightarrow> require_owner q owner kind = Inl (ResourceForbiddenError kind))"
  using authenticate_request_valid [OF assms] by auto

end
