(* ===== verification/Capabilities.thy ===== *)
theory Capabilities
  imports Agent_Definition Identity
begin

text \<open>
  capabilities.py: registered Tools and their registry, canonical call fingerprints, parsed Tool
  outcomes, capability decisions, the neutral policy and the built-in time Tool. A Tool's
  implementation (a LangChain object) is a record of functions; SHA-256 and the JSON codec are
  parameters (\<open>host_env\<close>). Frozen sets of Tool ids are lists used by membership only.
\<close>

section \<open>Outcomes of Tools\<close>

record host_env =
  env_sha256 :: "pystr \<Rightarrow> pystr"
  env_json_dumps :: "pdict \<Rightarrow> pystr option"
  env_json_loads :: "pystr \<Rightarrow> pval option"

record tool_source =
  source_id :: pystr
  source_label :: pystr
  source_description :: pystr

definition valid_tool_source :: "tool_source \<Rightarrow> bool" where
  "valid_tool_source s \<longleftrightarrow>
     len_between 1 128 (source_id s) \<and> len_between 1 200 (source_label s)
     \<and> len_between 1 1000 (source_description s)"

record parsed_outcome =
  output_summary :: pystr
  fact_fingerprint :: pystr
  outcome_sources :: "tool_source list"

definition is_hex64 :: "pystr \<Rightarrow> bool" where
  "is_hex64 s \<longleftrightarrow> length s = 64 \<and> list_all (\<lambda>c. is_digit c \<or> 97 \<le> c \<and> c \<le> 102) s"

definition valid_parsed_outcome :: "parsed_outcome \<Rightarrow> bool" where
  "valid_parsed_outcome r \<longleftrightarrow>
     len_between 1 1000 (output_summary r) \<and> is_hex64 (fact_fingerprint r)
     \<and> list_all valid_tool_source (outcome_sources r)
     \<and> distinct (map source_id (outcome_sources r))"

definition make_parsed_outcome :: "parsed_outcome \<Rightarrow> exn + parsed_outcome" where
  "make_parsed_outcome r = (if valid_parsed_outcome r then Inr r else Inl ValidationError)"

text \<open>The fields of a framework \<open>ToolMessage\<close> the package reads.\<close>

record tool_message =
  tm_call_id :: pystr
  tm_name :: "pystr option"
  tm_status :: pystr
  tm_content :: pval

record tool_impl =
  impl_name :: pystr
  impl_description :: pystr
  impl_validate :: "pdict \<Rightarrow> pdict option"

section \<open>The registry\<close>

record registered_tool =
  tool_id :: pystr
  tool_version :: pystr
  tool_enabled :: bool
  tool_label :: pystr
  implementation :: tool_impl
  summarize_input :: "pdict \<Rightarrow> pystr option"
  parse_output :: "tool_message \<Rightarrow> exn + parsed_outcome"
  terminal_after_success :: bool

definition make_registered_tool :: "registered_tool \<Rightarrow> exn + registered_tool" where
  "make_registered_tool r =
     (if \<not> valid_tool_id (tool_id r)
      then Inl (CapabilityConfigurationError ''registered_tool_invalid'')
      else if \<not> valid_version_text (tool_version r)
      then Inl (CapabilityConfigurationError ''registered_tool_invalid'')
      else if impl_name (implementation r) \<noteq> tool_id r
      then Inl (CapabilityConfigurationError ''registered_tool_name_mismatch'')
      else if py_strip (tool_label r) = [] \<or> 200 < length (tool_label r)
      then Inl (CapabilityConfigurationError ''registered_tool_invalid'')
      else Inr r)"

definition valid_registered_tool :: "registered_tool \<Rightarrow> bool" where
  "valid_registered_tool r \<longleftrightarrow> make_registered_tool r = Inr r"

record tool_registry =
  registry_id :: pystr
  registry_version :: pystr
  registry_records :: "(pystr \<times> registered_tool) list"

fun add_records ::
  "(pystr \<times> registered_tool) list \<Rightarrow> registered_tool list \<Rightarrow>
   exn + (pystr \<times> registered_tool) list" where
  "add_records records [] = Inr records"
| "add_records records (r # rs) =
     (if map_of records (tool_id r) \<noteq> None
      then Inl (CapabilityConfigurationError ''duplicate_registered_tool'')
      else add_records (AList.update (tool_id r) r records) rs)"

definition make_tool_registry ::
  "registered_tool list \<Rightarrow> pystr \<Rightarrow> pystr \<Rightarrow> exn + tool_registry" where
  "make_tool_registry tools reg_id version =
     (if \<not> valid_tool_id reg_id \<or> \<not> valid_version_text version
      then Inl (CapabilityConfigurationError ''tool_registry_invalid'')
      else
        bindE (add_records [] tools) (\<lambda>records.
        if records = [] then Inl (CapabilityConfigurationError ''empty_tool_registry'')
        else Inr \<lparr>registry_id = reg_id, registry_version = version, registry_records = records\<rparr>))"

definition enabled_tool_ids :: "tool_registry \<Rightarrow> pystr list" where
  "enabled_tool_ids reg =
     map tool_id (filter tool_enabled (map snd (registry_records reg)))"

definition TERMINAL_TOOL_DESCRIPTION_SUFFIX :: pystr where
  "TERMINAL_TOOL_DESCRIPTION_SUFFIX =
     lit '' Host routing: this Tool is terminal-eligible. Include the Host finalization ''
     @ lit ''control in the same Tool-call batch only when that exact batch supplies every ''
     @ lit ''external fact needed for the user's complete request; otherwise continue planning.''"

definition py_rstrip :: "pystr \<Rightarrow> pystr" where
  "py_rstrip s = rev (dropWhile is_space (rev s))"

text \<open>Each enabled implementation with its \<open>return_direct\<close> flag.\<close>

definition enabled_implementations :: "tool_registry \<Rightarrow> (tool_impl \<times> bool) list" where
  "enabled_implementations reg =
     map (\<lambda>r. ((if terminal_after_success r
                then (implementation r)\<lparr>impl_description :=
                       py_rstrip (impl_description (implementation r))
                       @ TERMINAL_TOOL_DESCRIPTION_SUFFIX\<rparr>
                else implementation r), terminal_after_success r))
       (filter tool_enabled (map snd (registry_records reg)))"

definition require_tool :: "tool_registry \<Rightarrow> pystr \<Rightarrow> exn + registered_tool" where
  "require_tool reg i =
     (case map_of (registry_records reg) i of
        None \<Rightarrow> Inl (ToolInvocationContractError ''tool_unavailable'')
      | Some r \<Rightarrow>
          if \<not> tool_enabled r then Inl (ToolInvocationContractError ''tool_unavailable'')
          else Inr r)"

definition version_for :: "tool_registry \<Rightarrow> pystr \<Rightarrow> exn + pystr" where
  "version_for reg i = bindE (require_tool reg i) (\<lambda>r. Inr (tool_version r))"

definition canonicalize_call ::
  "host_env \<Rightarrow> tool_registry \<Rightarrow> pystr \<Rightarrow> pdict \<Rightarrow> exn + (pdict \<times> pystr)" where
  "canonicalize_call env reg i arguments =
     bindE (require_tool reg i) (\<lambda>r.
     (case impl_validate (implementation r) arguments of
        None \<Rightarrow> Inl (ToolInvocationContractError ''tool_arguments_invalid'')
      | Some validated \<Rightarrow>
          (case env_json_dumps env validated of
             None \<Rightarrow> Inl (ToolInvocationContractError ''tool_arguments_invalid'')
           | Some encoded \<Rightarrow>
               Inr (validated,
                    env_sha256 env (tool_id r @ lit ''@'' @ tool_version r @ lit '':'' @ encoded)))))"

definition parse_tool_message ::
  "tool_registry \<Rightarrow> pystr \<Rightarrow> tool_message \<Rightarrow> exn + parsed_outcome" where
  "parse_tool_message reg i msg =
     (if tm_status msg \<noteq> lit ''success''
      then Inl (ToolInvocationContractError ''tool_execution_failed'')
      else
        bindE (require_tool reg i) (\<lambda>r.
        (case bindE (parse_output r msg) make_parsed_outcome of
           Inr outcome \<Rightarrow> Inr outcome
         | Inl (ToolInvocationContractError reason) \<Rightarrow> Inl (ToolInvocationContractError reason)
         | Inl _ \<Rightarrow> Inl (ToolInvocationContractError ''tool_output_invalid''))))"

section \<open>Capability decisions\<close>

record capability_decision =
  decision_policy_id :: pystr
  decision_policy_version :: pystr
  decision_allowed_tools :: "pystr list"

definition make_capability_decision :: "capability_decision \<Rightarrow> exn + capability_decision" where
  "make_capability_decision d =
     (if \<not> valid_identifier (decision_policy_id d) then Inl ValidationError
      else if \<not> valid_version (decision_policy_version d) then Inl ValidationError
      else if \<not> list_all valid_tool_id (decision_allowed_tools d) then Inl ValidationError
      else Inr d)"

lemma make_capability_decision_Inr [simp]:
  "make_capability_decision d = Inr e \<longleftrightarrow>
     e = d \<and> valid_identifier (decision_policy_id d) \<and> valid_version (decision_policy_version d)
     \<and> list_all valid_tool_id (decision_allowed_tools d)"
  by (auto simp: make_capability_decision_def)

record capability_policy =
  policy_id :: pystr
  policy_version :: pystr
  policy_decide :: "principal \<Rightarrow> agent_definition \<Rightarrow> pystr list \<Rightarrow> exn + capability_decision"

definition neutral_policy :: capability_policy where
  "neutral_policy =
     \<lparr>policy_id = lit ''neutral-authenticated-tools'', policy_version = lit ''1.0.0'',
      policy_decide = (\<lambda>p a enabled.
        make_capability_decision
          \<lparr>decision_policy_id = lit ''neutral-authenticated-tools'',
           decision_policy_version = lit ''1.0.0'', decision_allowed_tools = enabled\<rparr>)\<rparr>"

section \<open>The time Tool\<close>

definition TIME_SOURCE :: tool_source where
  "TIME_SOURCE =
     \<lparr>source_id = lit ''system-clock-iana-tzdb'',
      source_label = lit ''System clock with IANA timezone data'',
      source_description =
        lit ''Current server clock converted with the requested IANA timezone.''\<rparr>"

fun message_block_text :: "pval \<Rightarrow> pystr" where
  "message_block_text (PStr s) = s"
| "message_block_text (PDict d) =
     (case as_str (dict_get d (lit ''text'')) of Some s \<Rightarrow> s | None \<Rightarrow> [])"
| "message_block_text _ = []"

fun tool_message_text :: "pval \<Rightarrow> pystr" where
  "tool_message_text (PStr s) = s"
| "tool_message_text (PList bs) = concat (map message_block_text bs)"
| "tool_message_text _ = []"

definition time_input_summary :: "pdict \<Rightarrow> pystr option" where
  "time_input_summary arguments =
     Some (case as_str (dict_get arguments (lit ''timezone'')) of Some s \<Rightarrow> s | None \<Rightarrow> [])"

definition time_output_keys :: "string list" where
  "time_output_keys = [''timezone'', ''local_time'', ''utc_offset'', ''source_id'']"

definition parse_time_output :: "host_env \<Rightarrow> tool_message \<Rightarrow> exn + parsed_outcome" where
  "parse_time_output env msg =
     (case env_json_loads env (tool_message_text (tm_content msg)) of
        Some (PDict data) \<Rightarrow>
          if \<not> (only_keys time_output_keys data
                \<and> list_all (\<lambda>k. map_of data (lit k) \<noteq> None) time_output_keys)
          then Inl (ToolInvocationContractError ''tool_output_invalid'')
          else
            (case (as_str (dict_get data (lit ''timezone'')),
                   as_str (dict_get data (lit ''local_time'')),
                   as_str (dict_get data (lit ''utc_offset''))) of
               (Some zone, Some local, Some offset) \<Rightarrow>
                 if as_str (dict_get data (lit ''source_id'')) \<noteq> Some (source_id TIME_SOURCE)
                    \<or> zone = [] \<or> local = [] \<or> offset = []
                 then Inl (ToolInvocationContractError ''tool_output_invalid'')
                 else
                   (case env_json_dumps env data of
                      None \<Rightarrow> Inl (OtherException ''json'')
                    | Some canonical \<Rightarrow>
                        make_parsed_outcome
                          \<lparr>output_summary = zone @ lit '': '' @ local,
                           fact_fingerprint = env_sha256 env canonical,
                           outcome_sources = [TIME_SOURCE]\<rparr>)
             | _ \<Rightarrow> Inl (ToolInvocationContractError ''tool_output_invalid''))
      | _ \<Rightarrow> Inl (ToolInvocationContractError ''tool_output_invalid''))"

definition time_tool :: "host_env \<Rightarrow> tool_impl \<Rightarrow> registered_tool" where
  "time_tool env impl =
     \<lparr>tool_id = lit ''get_current_time'', tool_version = lit ''1.1.0'', tool_enabled = True,
      tool_label = lit ''Read current time'', implementation = impl,
      summarize_input = time_input_summary, parse_output = parse_time_output env,
      terminal_after_success = True\<rparr>"

definition default_tool_registry :: "host_env \<Rightarrow> tool_impl \<Rightarrow> exn + tool_registry" where
  "default_tool_registry env impl =
     bindE (make_registered_tool (time_tool env impl)) (\<lambda>r.
     make_tool_registry [r] (lit ''builtin-tool-registry'') (lit ''1.0.0''))"


section \<open>The registry contract\<close>

definition valid_registry :: "tool_registry \<Rightarrow> bool" where
  "valid_registry reg \<longleftrightarrow>
     valid_tool_id (registry_id reg) \<and> valid_version_text (registry_version reg)
     \<and> registry_records reg \<noteq> [] \<and> distinct (map fst (registry_records reg))
     \<and> list_all (\<lambda>(i, r). i = tool_id r \<and> valid_registered_tool r) (registry_records reg)"

text \<open>What the policy kernel relies on when it looks a Tool up.\<close>

locale tool_lookup =
  fixes wf :: "'r \<Rightarrow> bool"
    and lookup :: "'r \<Rightarrow> pystr \<Rightarrow> exn + registered_tool"
    and enabled :: "'r \<Rightarrow> pystr list"
  assumes enabled_iff: "wf r \<Longrightarrow> i \<in> set (enabled r) \<longleftrightarrow> (\<exists>t. lookup r i = Inr t)"
    and lookup_valid: "wf r \<Longrightarrow> lookup r i = Inr t \<Longrightarrow>
      tool_id t = i \<and> tool_enabled t \<and> valid_registered_tool t"
    and lookup_error: "lookup r i = Inl e \<Longrightarrow> e = ToolInvocationContractError ''tool_unavailable''"
begin

lemma lookup_total: "wf r \<Longrightarrow> set is \<subseteq> set (enabled r) \<Longrightarrow> i \<in> set is \<Longrightarrow> \<exists>t. lookup r i = Inr t"
  using enabled_iff by blast

lemma enabled_valid: "wf r \<Longrightarrow> i \<in> set (enabled r) \<Longrightarrow> valid_tool_id i"
  using enabled_iff [of r i] lookup_valid [of r i]
  by (force simp: valid_registered_tool_def make_registered_tool_def split: if_splits)

lemma version_valid: "wf r \<Longrightarrow> lookup r i = Inr t \<Longrightarrow> valid_version_text (tool_version t)"
  using lookup_valid [of r i]
  by (force simp: valid_registered_tool_def make_registered_tool_def split: if_splits)

end

lemma require_tool_Inr:
  "require_tool reg i = Inr r \<longleftrightarrow> map_of (registry_records reg) i = Some r \<and> tool_enabled r"
  by (auto simp: require_tool_def split: option.splits)

interpretation registry: tool_lookup valid_registry require_tool enabled_tool_ids
proof unfold_locales
  fix reg i
  assume "valid_registry reg"
  then have d: "distinct (map fst (registry_records reg))"
    and k: "\<And>j t. (j, t) \<in> set (registry_records reg) \<Longrightarrow> j = tool_id t \<and> valid_registered_tool t"
    by (auto simp: valid_registry_def list_all_iff)
  show "(i \<in> set (enabled_tool_ids reg)) = (\<exists>t. require_tool reg i = Inr t)"
  proof
    assume "i \<in> set (enabled_tool_ids reg)"
    then obtain j t where t: "(j, t) \<in> set (registry_records reg)" "tool_enabled t" "i = tool_id t"
      by (auto simp: enabled_tool_ids_def)
    with k d have "map_of (registry_records reg) i = Some t" by (metis map_of_is_SomeI)
    with t show "\<exists>t. require_tool reg i = Inr t" by (auto simp: require_tool_Inr)
  next
    assume "\<exists>t. require_tool reg i = Inr t"
    then obtain t where t: "(i, t) \<in> set (registry_records reg)" "tool_enabled t"
      by (auto simp: require_tool_Inr dest: map_of_SomeD)
    with k have "i = tool_id t" by blast
    with t show "i \<in> set (enabled_tool_ids reg)" by (force simp: enabled_tool_ids_def)
  qed
  show "tool_id t = i \<and> tool_enabled t \<and> valid_registered_tool t" if "require_tool reg i = Inr t" for t
    using that k by (auto simp: require_tool_Inr dest: map_of_SomeD)
next
  show "require_tool reg i = Inl e \<Longrightarrow> e = ToolInvocationContractError ''tool_unavailable''" for reg i e
    by (auto simp: require_tool_def split: option.splits if_splits)
qed

lemma map_of_find: "map_of (map (\<lambda>t. (f t, t)) ts) i = List.find (\<lambda>t. f t = i) ts"
  by (induction ts) auto

lemma find_unique:
  "distinct (map f ts) \<Longrightarrow> List.find (\<lambda>t. f t = i \<and> P t) ts =
     (case List.find (\<lambda>t. f t = i) ts of Some t \<Rightarrow> if P t then Some t else None | None \<Rightarrow> None)"
proof (induction ts)
  case (Cons a ts)
  have "\<forall>x \<in> set ts. f x \<noteq> f a"
  proof
    fix x assume "x \<in> set ts"
    then have "f x \<in> f ` set ts" by (rule imageI)
    with Cons.prems show "f x \<noteq> f a" by auto
  qed
  then have "f a = i \<Longrightarrow> List.find (\<lambda>t. f t = i \<and> P t) ts = None"
    by (auto simp: find_None_iff)
  with Cons show ?case by auto
qed simp

lemma add_records_Inr:
  assumes "add_records records tools = Inr result" "distinct (map fst records)"
    and "\<forall>t \<in> set tools. valid_registered_tool t"
    and "list_all (\<lambda>(i, r). i = tool_id r \<and> valid_registered_tool r) records"
  shows "result = records @ map (\<lambda>t. (tool_id t, t)) tools
    \<and> distinct (map fst result)
    \<and> list_all (\<lambda>(i, r). i = tool_id r \<and> valid_registered_tool r) result"
  using assms
proof (induction records tools rule: add_records.induct)
  case (2 records r rs)
  have new: "map_of records (tool_id r) = None"
  proof (rule ccontr)
    assume "map_of records (tool_id r) \<noteq> None"
    with 2(2) show False by simp
  qed
  then have fresh: "tool_id r \<notin> fst ` set records" by (simp add: map_of_eq_None_iff)
  then have upd: "AList.update (tool_id r) r records = records @ [(tool_id r, r)]"
    by (rule keys_update_fresh)
  have "result = AList.update (tool_id r) r records @ map (\<lambda>t. (tool_id t, t)) rs
    \<and> distinct (map fst result)
    \<and> list_all (\<lambda>(i, r). i = tool_id r \<and> valid_registered_tool r) result"
    by (rule 2(1)) (use 2(2-) new fresh in \<open>simp_all add: upd\<close>)
  moreover have "records @ map (\<lambda>t. (tool_id t, t)) (r # rs)
      = AList.update (tool_id r) r records @ map (\<lambda>t. (tool_id t, t)) rs"
    by (simp add: upd)
  ultimately show ?case by metis
qed simp

text \<open>A registry is built exactly from the Tools given, in their order, and refuses two of the
  same name and an empty list; looking a name up afterwards gives the one enabled Tool of that
  name, and raises \<open>tool_unavailable\<close> for a disabled or unknown one.\<close>

theorem make_tool_registry_lookup:
  assumes "make_tool_registry tools reg_id version = Inr reg"
    and "\<forall>t \<in> set tools. valid_registered_tool t"
  shows "valid_registry reg \<and> tools \<noteq> [] \<and> distinct (map tool_id tools)
    \<and> enabled_tool_ids reg = map tool_id (filter tool_enabled tools)
    \<and> (\<forall>i. require_tool reg i =
          (case List.find (\<lambda>t. tool_id t = i \<and> tool_enabled t) tools of
             Some t \<Rightarrow> Inr t | None \<Rightarrow> Inl (ToolInvocationContractError ''tool_unavailable'')))"
proof -
  have reg: "add_records [] tools = Inr (registry_records reg)" "registry_records reg \<noteq> []"
    "valid_tool_id (registry_id reg)" "valid_version_text (registry_version reg)"
    using assms(1) by (auto simp: make_tool_registry_def split: if_splits)
  have recs: "registry_records reg = map (\<lambda>t. (tool_id t, t)) tools"
    and inv: "distinct (map fst (registry_records reg))"
      "list_all (\<lambda>(i, r). i = tool_id r \<and> valid_registered_tool r) (registry_records reg)"
    using add_records_Inr [OF reg(1)] assms(2) by auto
  have d: "distinct (map tool_id tools)"
    using inv(1) by (simp add: recs comp_def)
  have "require_tool reg i =
      (case List.find (\<lambda>t. tool_id t = i \<and> tool_enabled t) tools of
         Some t \<Rightarrow> Inr t | None \<Rightarrow> Inl (ToolInvocationContractError ''tool_unavailable''))" for i
    by (simp add: require_tool_def recs map_of_find find_unique [OF d] split: option.splits)
  moreover have "enabled_tool_ids reg = map tool_id (filter tool_enabled tools)"
    by (simp add: enabled_tool_ids_def recs comp_def)
  ultimately show ?thesis
    using reg(2-) inv d by (auto simp: valid_registry_def recs)
qed

section \<open>Fingerprints\<close>

text \<open>The fingerprint that detects repeated calls identifies the call: with a hash and a JSON
  encoding that do not collide, two accepted calls have the same fingerprint exactly when they
  name the same Tool and carry the same validated arguments, because neither a Tool id nor a
  version can contain the separators of the hashed text.\<close>

theorem call_fingerprint_identifies:
  assumes "valid_registry reg"
    and "canonicalize_call env reg i1 a1 = Inr (v1, f1)"
    and "canonicalize_call env reg i2 a2 = Inr (v2, f2)"
    and "inj (env_sha256 env)"
    and "inj_on (env_json_dumps env) {v. env_json_dumps env v \<noteq> None}"
  shows "f1 = f2 \<longleftrightarrow> i1 = i2 \<and> v1 = v2"
proof -
  obtain t1 e1 where 1: "require_tool reg i1 = Inr t1" "env_json_dumps env v1 = Some e1"
    "f1 = env_sha256 env (tool_id t1 @ 64 # (tool_version t1 @ 58 # e1))"
    using assms(2) by (auto simp: canonicalize_call_def lit_def split: option.splits)
  obtain t2 e2 where 2: "require_tool reg i2 = Inr t2" "env_json_dumps env v2 = Some e2"
    "f2 = env_sha256 env (tool_id t2 @ 64 # (tool_version t2 @ 58 # e2))"
    using assms(3) by (auto simp: canonicalize_call_def lit_def split: option.splits)
  have ids: "tool_id t1 = i1" "tool_id t2 = i2"
    using registry.lookup_valid assms(1) 1(1) 2(1) by blast+
  have no_at: "64 \<notin> set (tool_id t)" and no_colon: "58 \<notin> set (tool_version t)"
    if t: "require_tool reg i = Inr t" for t i
  proof -
    have "valid_tool_id (tool_id t)"
      using registry.lookup_valid [OF assms(1) t]
      by (simp add: valid_registered_tool_def make_registered_tool_def split: if_splits)
    note chars = identifier_chars [OF this, of 64]
    show "64 \<notin> set (tool_id t)"
    proof
      assume "64 \<in> set (tool_id t)"
      with chars show False by (simp add: char_class_defs)
    qed
    show "58 \<notin> set (tool_version t)"
      using version_text_chars [OF registry.version_valid [OF assms(1) t], of 58]
      by (auto simp: is_digit_def)
  qed
  show ?thesis
  proof
    assume "f1 = f2"
    then have "tool_id t1 @ 64 # (tool_version t1 @ 58 # e1) = tool_id t2 @ 64 # (tool_version t2 @ 58 # e2)"
      unfolding 1(3) 2(3) by (rule injD [OF assms(4)])
    note tail = append_stop_eq [OF this no_at [OF 1(1)] no_at [OF 2(1)]]
    have "tool_version t1 = tool_version t2 \<and> e1 = e2"
      by (rule append_stop_eq [OF conjunct2 [OF tail] no_colon [OF 1(1)] no_colon [OF 2(1)]])
    then have "e1 = e2" by (rule conjunct2)
    have "i1 = i2" using tail ids by simp
    moreover have "v1 = v2"
      using inj_onD [OF assms(5), of v1 v2] 1(2) 2(2) \<open>e1 = e2\<close> by simp
    ultimately show "i1 = i2 \<and> v1 = v2" by simp
  next
    assume "i1 = i2 \<and> v1 = v2"
    then show "f1 = f2" using 1(1,2) 2(1,2) unfolding 1(3) 2(3) by simp
  qed
qed


section \<open>The built-in registry\<close>

lemma time_tool_valid:
  assumes "impl_name impl = lit ''get_current_time''"
  shows "make_registered_tool (time_tool env impl) = Inr (time_tool env impl)"
  using assms
  by (simp add: make_registered_tool_def time_tool_def pattern_eval valid_version_text_def lit_def
      py_strip_def is_space_def)

lemma default_tool_registry_ok:
  assumes "impl_name impl = lit ''get_current_time''"
  shows "default_tool_registry env impl =
    Inr \<lparr>registry_id = lit ''builtin-tool-registry'', registry_version = lit ''1.0.0'',
         registry_records = [(lit ''get_current_time'', time_tool env impl)]\<rparr>"
proof -
  have "valid_tool_id (lit ''builtin-tool-registry'')" "valid_version_text (lit ''1.0.0'')"
    by (simp_all add: pattern_eval valid_version_text_def lit_def)
  then show ?thesis
    using time_tool_valid [OF assms, of env]
    by (simp add: default_tool_registry_def make_tool_registry_def time_tool_def)
qed

text \<open>The built-in capabilities fit together: given an implementation under its declared name,
  the default registry is built, holds exactly the time Tool, enabled and terminal-eligible, and
  the neutral policy grants every Principal exactly the enabled Tools of the registry.\<close>

theorem default_capabilities:
  assumes "impl_name impl = lit ''get_current_time''"
  shows "\<exists>reg. default_tool_registry env impl = Inr reg \<and> valid_registry reg
    \<and> enabled_tool_ids reg = [lit ''get_current_time'']
    \<and> map snd (enabled_implementations reg) = [True]
    \<and> policy_decide neutral_policy p a (enabled_tool_ids reg) =
        Inr \<lparr>decision_policy_id = policy_id neutral_policy,
             decision_policy_version = policy_version neutral_policy,
             decision_allowed_tools = enabled_tool_ids reg\<rparr>"
proof -
  have ids: "valid_identifier (lit ''neutral-authenticated-tools'')" "valid_version (lit ''1.0.0'')"
    "valid_tool_id (lit ''builtin-tool-registry'')" "valid_version_text (lit ''1.0.0'')"
    by (simp_all add: pattern_eval valid_version_text_def lit_def)
  have "tool_id (time_tool env impl) = lit ''get_current_time''" "tool_enabled (time_tool env impl)"
    "terminal_after_success (time_tool env impl)"
    by (simp_all add: time_tool_def)
  then show ?thesis
    using ids time_tool_valid [OF assms] default_ids_valid(4)
    by (simp add: default_tool_registry_ok [OF assms] valid_registry_def valid_registered_tool_def
        enabled_tool_ids_def enabled_implementations_def neutral_policy_def)
qed

definition demo_impl :: tool_impl where
  "demo_impl = \<lparr>impl_name = lit ''get_current_time'', impl_description = lit ''Return the time'',
                impl_validate = (\<lambda>d. if d = [] then Some [] else None)\<rparr>"

definition demo_time :: pdict where
  "demo_time = py_dict [(''timezone'', PStr (lit ''UTC'')), (''local_time'', PStr (lit ''10:00'')),
     (''utc_offset'', PStr (lit ''+0000'')), (''source_id'', PStr (lit ''system-clock-iana-tzdb''))]"

definition demo_env :: host_env where
  "demo_env =
     \<lparr>env_sha256 = (\<lambda>s. s),
      env_json_dumps = (\<lambda>d. if d = [] then Some (lit ''{}'')
                            else if d = demo_time then Some (replicate 64 97) else None),
      env_json_loads = (\<lambda>s. if s = lit ''now'' then Some (PDict demo_time) else None)\<rparr>"

definition demo_registry :: tool_registry where
  "demo_registry =
     \<lparr>registry_id = lit ''builtin-tool-registry'', registry_version = lit ''1.0.0'',
      registry_records = [(lit ''get_current_time'', time_tool demo_env demo_impl)]\<rparr>"

lemma demo_registry_ok: "default_tool_registry demo_env demo_impl = Inr demo_registry"
  by (simp add: default_tool_registry_ok demo_impl_def demo_registry_def)

lemma demo_registry_valid: "valid_registry demo_registry"
  by (simp add: valid_registry_def demo_registry_def valid_registered_tool_def time_tool_valid
      demo_impl_def time_tool_def [THEN arg_cong [where f = tool_id]] pattern_eval
      valid_version_text_def lit_def)

theorem default_capabilities_witness:
  "enabled_tool_ids demo_registry = [lit ''get_current_time'']"
  using default_capabilities [of demo_impl demo_env] demo_registry_ok by (simp add: demo_impl_def)

theorem make_tool_registry_lookup_witness:
  "enabled_tool_ids demo_registry = map tool_id [time_tool demo_env demo_impl]"
proof -
  have name: "impl_name demo_impl = lit ''get_current_time''" by (simp add: demo_impl_def)
  have "make_tool_registry [time_tool demo_env demo_impl] (lit ''builtin-tool-registry'') (lit ''1.0.0'')
      = Inr demo_registry"
    using demo_registry_ok time_tool_valid [OF name, of demo_env]
    by (simp add: default_tool_registry_def)
  moreover have "\<forall>t \<in> set [time_tool demo_env demo_impl]. valid_registered_tool t"
    by (simp add: valid_registered_tool_def time_tool_valid [OF name])
  ultimately have "enabled_tool_ids demo_registry
      = map tool_id (filter tool_enabled [time_tool demo_env demo_impl])"
    using make_tool_registry_lookup by blast
  moreover have "tool_enabled (time_tool demo_env demo_impl)" by (simp add: time_tool_def)
  ultimately show ?thesis by simp
qed

theorem call_fingerprint_identifies_witness:
  "\<exists>f. canonicalize_call demo_env demo_registry (lit ''get_current_time'') [] = Inr ([], f)
     \<and> (f = f \<longleftrightarrow> lit ''get_current_time'' = lit ''get_current_time'' \<and> ([] :: pdict) = [])"
proof -
  obtain f where f: "canonicalize_call demo_env demo_registry (lit ''get_current_time'') [] = Inr ([], f)"
    by (simp add: canonicalize_call_def require_tool_def demo_registry_def time_tool_def demo_impl_def
        demo_env_def)
  have "lit ''{}'' \<noteq> replicate 64 97" by (rule notI, drule arg_cong [where f = length]) simp
  then have "inj (env_sha256 demo_env)" "inj_on (env_json_dumps demo_env) {v. env_json_dumps demo_env v \<noteq> None}"
    by (auto simp: demo_env_def inj_on_def split: if_splits)
  from call_fingerprint_identifies [OF demo_registry_valid f f this] f show ?thesis by blast
qed

text \<open>Whatever a Tool's parser does, reading a Tool message either gives an outcome that meets
  the declared contract, from a successful message of an enabled Tool, or raises a Tool contract
  error; no other exception escapes.\<close>

theorem parse_tool_message_contract:
  "case parse_tool_message reg i msg of
     Inr r \<Rightarrow> valid_parsed_outcome r \<and> tm_status msg = lit ''success'' \<and> (\<exists>t. require_tool reg i = Inr t)
   | Inl e \<Rightarrow> \<exists>why. e = ToolInvocationContractError why"
proof (cases "tm_status msg = lit ''success''")
  case False
  then show ?thesis by (simp add: parse_tool_message_def)
next
  case True
  show ?thesis
  proof (cases "require_tool reg i")
    case (Inl e)
    with True registry.lookup_error [OF Inl] show ?thesis by (simp add: parse_tool_message_def)
  next
    case (Inr t)
    show ?thesis
    proof (cases "bindE (parse_output t msg) make_parsed_outcome")
      case (Inl e)
      with True Inr show ?thesis by (cases e) (simp_all add: parse_tool_message_def)
    next
      case (Inr r)
      then have "valid_parsed_outcome r" by (auto simp: make_parsed_outcome_def split: if_splits)
      with True Inr \<open>require_tool reg i = Inr t\<close> show ?thesis
        by (simp add: parse_tool_message_def del: bindE_eq_Inr)
    qed
  qed
qed

end
