(* ===== verification/Usage.thy ===== *)
theory Usage
  imports Prelude
begin

text \<open>
  usage.py: the Token metrics a Run exposes, their validators and aggregation, and the
  Run-local ledger of provider attempts with its durable writers. Field values that pydantic
  validates are built by constructors that may raise; the lemmas show where they cannot.
\<close>

section \<open>Metrics\<close>

datatype usage_availability =
    Complete
  | Partial
  | Unavailable
  | Unknown
  | Pending

datatype usage_state = FinalState | UnknownState | PendingState

datatype model_call_kind = DirectCall | DecisionCall | FinalizerCall

datatype attempt_status = Started | Succeeded | AttemptFailed | AttemptCancelled | Interrupted

datatype run_error_category =
    ProviderError
  | ToolError
  | AccessOrInputError
  | LimitError
  | ValidationErrorCategory
  | TimeoutError
  | CancelledError
  | ServiceError
  | InternalError

definition METERING_SCHEMA_VERSION :: pystr where
  "METERING_SCHEMA_VERSION = lit ''1.0.0''"

definition nonneg :: "int option \<Rightarrow> bool" where
  "nonneg v \<longleftrightarrow> (case v of None \<Rightarrow> True | Some n \<Rightarrow> 0 \<le> n)"

lemma nonneg_simps [simp]: "nonneg None" "nonneg (Some n) \<longleftrightarrow> 0 \<le> n"
  by (simp_all add: nonneg_def)

text \<open>The five Token fields, selected by name in the source (\<open>getattr\<close>).\<close>

datatype token_field = InputTokens | OutputTokens | CachedTokens | ReasoningTokens | TotalTokens

record token_usage =
  input_tokens :: "int option"
  output_tokens :: "int option"
  cached_tokens :: "int option"
  reasoning_tokens :: "int option"
  total_tokens :: "int option"

fun get_token :: "token_field \<Rightarrow> token_usage \<Rightarrow> int option" where
  "get_token InputTokens u = input_tokens u"
| "get_token OutputTokens u = output_tokens u"
| "get_token CachedTokens u = cached_tokens u"
| "get_token ReasoningTokens u = reasoning_tokens u"
| "get_token TotalTokens u = total_tokens u"

definition token_fields :: "token_field list" where
  "token_fields = [InputTokens, OutputTokens, CachedTokens, ReasoningTokens, TotalTokens]"

text \<open>\<open>ProviderTokenUsage\<close>: non-negative fields, at least one of them reported.\<close>

definition valid_token_usage :: "token_usage \<Rightarrow> bool" where
  "valid_token_usage u \<longleftrightarrow>
     list_all (\<lambda>f. nonneg (get_token f u)) token_fields
     \<and> list_ex (\<lambda>f. get_token f u \<noteq> None) token_fields"

record usage_metric =
  metric_value :: "int option"
  availability :: usage_availability

definition valid_usage_metric :: "usage_metric \<Rightarrow> bool" where
  "valid_usage_metric m \<longleftrightarrow>
     nonneg (metric_value m)
     \<and> \<not> (availability m = Complete \<and> metric_value m = None)
     \<and> \<not> (availability m \<noteq> Complete \<and> metric_value m \<noteq> None)"

definition make_usage_metric :: "int option \<Rightarrow> usage_availability \<Rightarrow> exn + usage_metric" where
  "make_usage_metric v a =
     (let m = \<lparr>metric_value = v, availability = a\<rparr>
      in if valid_usage_metric m then Inr m else Inl ValidationError)"

record run_usage =
  usage_schema_version :: "pystr option"
  usage_state :: usage_state
  model_call_count :: "int option"
  retry_count :: "int option"
  input_metric :: usage_metric
  output_metric :: usage_metric
  cached_metric :: usage_metric
  reasoning_metric :: usage_metric
  total_metric :: usage_metric
  time_to_first_visible_ms :: "int option"
  generation_duration_ms :: "int option"
  run_duration_ms :: "int option"
  error_category :: "run_error_category option"

definition usage_metrics :: "run_usage \<Rightarrow> usage_metric list" where
  "usage_metrics u =
     [input_metric u, output_metric u, cached_metric u, reasoning_metric u, total_metric u]"

text \<open>The availability that a non-final state is expected to show in every metric.\<close>

fun state_availability :: "usage_state \<Rightarrow> usage_availability option" where
  "state_availability FinalState = None"
| "state_availability UnknownState = Some Unknown"
| "state_availability PendingState = Some Pending"

definition valid_final_usage :: "run_usage \<Rightarrow> bool" where
  "valid_final_usage u \<longleftrightarrow>
     usage_schema_version u = Some METERING_SCHEMA_VERSION
     \<and> (case (model_call_count u, retry_count u) of
          (Some calls, Some retries) \<Rightarrow> \<not> calls < retries
        | _ \<Rightarrow> False)
     \<and> \<not> list_ex (\<lambda>m. availability m = Unknown \<or> availability m = Pending) (usage_metrics u)"

definition valid_open_usage :: "run_usage \<Rightarrow> bool" where
  "valid_open_usage u \<longleftrightarrow>
     usage_schema_version u = None
     \<and> model_call_count u = None \<and> retry_count u = None
     \<and> list_all (\<lambda>m. Some (availability m) = state_availability (usage_state u)) (usage_metrics u)
     \<and> time_to_first_visible_ms u = None \<and> generation_duration_ms u = None
     \<and> run_duration_ms u = None \<and> error_category u = None"

definition valid_run_usage :: "run_usage \<Rightarrow> bool" where
  "valid_run_usage u \<longleftrightarrow>
     (usage_schema_version u = None \<or> usage_schema_version u = Some METERING_SCHEMA_VERSION)
     \<and> nonneg (model_call_count u) \<and> nonneg (retry_count u)
     \<and> list_all valid_usage_metric (usage_metrics u)
     \<and> nonneg (time_to_first_visible_ms u) \<and> nonneg (generation_duration_ms u)
     \<and> nonneg (run_duration_ms u)
     \<and> (if usage_state u = FinalState then valid_final_usage u else valid_open_usage u)"

definition make_run_usage :: "run_usage \<Rightarrow> exn + run_usage" where
  "make_run_usage u = (if valid_run_usage u then Inr u else Inl ValidationError)"

definition unavailable_run_usage :: "usage_state \<Rightarrow> exn + run_usage" where
  "unavailable_run_usage st =
     (case state_availability st of
        None \<Rightarrow> Inl ValidationError
      | Some a \<Rightarrow>
          bindE (make_usage_metric None a) (\<lambda>metric.
          make_run_usage
            \<lparr>usage_schema_version = None, usage_state = st, model_call_count = None,
             retry_count = None, input_metric = metric, output_metric = metric,
             cached_metric = metric, reasoning_metric = metric, total_metric = metric,
             time_to_first_visible_ms = None, generation_duration_ms = None,
             run_duration_ms = None, error_category = None\<rparr>))"

definition validate_run_usage :: "run_usage \<Rightarrow> exn + run_usage" where
  "validate_run_usage u =
     (if valid_run_usage u then Inr u else Inl (UsageMeteringError ''run_usage_invalid''))"

lemma make_usage_metric_complete [simp]:
  "0 \<le> n \<Longrightarrow> make_usage_metric (Some n) Complete
     = Inr \<lparr>metric_value = Some n, availability = Complete\<rparr>"
  by (simp add: make_usage_metric_def valid_usage_metric_def)

lemma make_usage_metric_absent [simp]:
  "a \<noteq> Complete \<Longrightarrow> make_usage_metric None a = Inr \<lparr>metric_value = None, availability = a\<rparr>"
  by (simp add: make_usage_metric_def valid_usage_metric_def)

lemma make_usage_metric_valid: "make_usage_metric v a = Inr m \<Longrightarrow> valid_usage_metric m"
  by (auto simp: make_usage_metric_def Let_def split: if_splits)

lemma unavailable_run_usage_ok:
  assumes "st \<noteq> FinalState"
  shows "\<exists>u. unavailable_run_usage st = Inr u \<and> valid_run_usage u \<and> usage_state u = st"
  using assms
  by (cases st)
     (auto simp: unavailable_run_usage_def make_run_usage_def valid_run_usage_def
        valid_open_usage_def usage_metrics_def valid_usage_metric_def)

section \<open>Aggregation\<close>

definition aggregate_usage_metrics :: "usage_metric list \<Rightarrow> exn + usage_metric" where
  "aggregate_usage_metrics items =
     (if items = [] then make_usage_metric (Some 0) Complete
      else
        let states = availability ` set items in
        if Unknown \<in> states then make_usage_metric None Unknown
        else if Pending \<in> states then make_usage_metric None Pending
        else if states = {Complete}
        then make_usage_metric
               (Some (sum_list (map (\<lambda>m. case metric_value m of None \<Rightarrow> 0 | Some v \<Rightarrow> v) items)))
               Complete
        else if Complete \<in> states \<or> Partial \<in> states then make_usage_metric None Partial
        else make_usage_metric None Unavailable)"

text \<open>
  The abstract view: availability is a join semilattice in which Complete and Unavailable are
  the two minimal elements, Partial is their join, and Pending and Unknown sit on top. The
  aggregate's availability is then the join of its items'.
\<close>

fun availability_rank :: "usage_availability \<Rightarrow> nat" where
  "availability_rank Complete = 0"
| "availability_rank Unavailable = 0"
| "availability_rank Partial = 1"
| "availability_rank Pending = 2"
| "availability_rank Unknown = 3"

instantiation usage_availability :: semilattice_sup
begin

definition less_eq_usage_availability :: "usage_availability \<Rightarrow> usage_availability \<Rightarrow> bool" where
  "a \<le> b \<longleftrightarrow> a = b \<or> availability_rank a < availability_rank b"

definition less_usage_availability :: "usage_availability \<Rightarrow> usage_availability \<Rightarrow> bool" where
  "a < b \<longleftrightarrow> availability_rank a < availability_rank b"

definition sup_usage_availability ::
  "usage_availability \<Rightarrow> usage_availability \<Rightarrow> usage_availability" where
  "sup a b =
     (if a = b then a
      else if availability_rank a < availability_rank b then b
      else if availability_rank b < availability_rank a then a
      else Partial)"

instance
proof
  fix x y z :: usage_availability
  show "x < y \<longleftrightarrow> x \<le> y \<and> \<not> y \<le> x"
    by (auto simp: less_eq_usage_availability_def less_usage_availability_def)
  show "x \<le> x"
    by (simp add: less_eq_usage_availability_def)
  show "x \<le> y \<Longrightarrow> y \<le> z \<Longrightarrow> x \<le> z"
    by (auto simp: less_eq_usage_availability_def)
  show "x \<le> y \<Longrightarrow> y \<le> x \<Longrightarrow> x = y"
    by (auto simp: less_eq_usage_availability_def)
  show "x \<le> sup x y"
    by (cases x; cases y) (simp_all add: less_eq_usage_availability_def sup_usage_availability_def)
  show "y \<le> sup x y"
    by (cases x; cases y) (simp_all add: less_eq_usage_availability_def sup_usage_availability_def)
  show "y \<le> x \<Longrightarrow> z \<le> x \<Longrightarrow> sup y z \<le> x"
    by (cases x; cases y; cases z)
       (simp_all add: less_eq_usage_availability_def sup_usage_availability_def)
qed

end

definition join_availability :: "usage_metric list \<Rightarrow> usage_availability" where
  "join_availability items = Sup_fin (availability ` set items)"

definition metric_total :: "usage_metric list \<Rightarrow> int" where
  "metric_total items =
     sum_list (map (\<lambda>m. case metric_value m of None \<Rightarrow> 0 | Some v \<Rightarrow> v) items)"

lemma metric_total_nonneg:
  "\<forall>m \<in> set items. valid_usage_metric m \<Longrightarrow> 0 \<le> metric_total items"
  by (induction items)
     (auto simp: metric_total_def valid_usage_metric_def split: option.splits)

lemma join_availability_Cons:
  "xs \<noteq> [] \<Longrightarrow> join_availability (x # xs) = sup (availability x) (join_availability xs)"
  by (simp add: join_availability_def)

lemma join_availability_single [simp]: "join_availability [x] = availability x"
  by (simp add: join_availability_def)

lemma join_availability_append:
  "xs \<noteq> [] \<Longrightarrow> ys \<noteq> [] \<Longrightarrow>
     join_availability (xs @ ys) = sup (join_availability xs) (join_availability ys)"
  by (simp add: join_availability_def image_Un Sup_fin.union)

lemma join_availability_cases:
  assumes "items \<noteq> []"
  shows "join_availability items =
    (let states = availability ` set items in
     if Unknown \<in> states then Unknown else if Pending \<in> states then Pending
     else if states = {Complete} then Complete
     else if Complete \<in> states \<or> Partial \<in> states then Partial else Unavailable)"
  using assms
proof (induction items rule: list_nonempty_induct)
  case (single x)
  then show ?case by (cases "availability x") auto
next
  case (cons x xs)
  from cons.hyps obtain y where "y \<in> set xs" by (cases xs) auto
  then have "availability y \<in> availability ` set xs" by blast
  with cons show ?case
    by (cases "availability x"; cases "availability y")
       (auto simp: join_availability_Cons Let_def sup_usage_availability_def
         split: if_splits)
qed


lemma aggregate_nonempty:
  assumes "\<forall>m \<in> set items. valid_usage_metric m" and "items \<noteq> []"
  shows "aggregate_usage_metrics items =
    Inr \<lparr>metric_value = (if join_availability items = Complete then Some (metric_total items)
                        else None),
         availability = join_availability items\<rparr>"
  using metric_total_nonneg [OF assms(1)] assms(2)
  by (simp add: join_availability_cases aggregate_usage_metrics_def Let_def
      flip: metric_total_def)

lemma aggregate_valid:
  assumes "\<forall>m \<in> set items. valid_usage_metric m"
  shows "\<exists>m. aggregate_usage_metrics items = Inr m \<and> valid_usage_metric m"
proof (cases "items = []")
  case True
  then show ?thesis by (simp add: aggregate_usage_metrics_def valid_usage_metric_def)
next
  case False
  then show ?thesis
    using assms metric_total_nonneg [OF assms]
    by (simp add: aggregate_nonempty valid_usage_metric_def)
qed

lemma metric_total_append [simp]: "metric_total (xs @ ys) = metric_total xs + metric_total ys"
  by (simp add: metric_total_def)

lemma sup_Complete_iff:
  "sup a b = Complete \<longleftrightarrow> a = Complete \<and> b = Complete" for a b :: usage_availability
  by (cases a; cases b) (simp_all add: sup_usage_availability_def)

text \<open>Aggregating metrics is defined on every list of valid metrics and returns the join of
  their availabilities, with the sum of the values exactly when every one of them is complete.
  Aggregating a split list part by part and then the two parts gives the same metric, so account
  totals do not depend on how the Runs are grouped.\<close>

theorem aggregate_usage_metrics_join:
  assumes "\<forall>m \<in> set xs \<union> set ys. valid_usage_metric m" and "xs \<noteq> []" and "ys \<noteq> []"
  shows "aggregate_usage_metrics (xs @ ys) =
      Inr \<lparr>metric_value =
             (if join_availability (xs @ ys) = Complete then Some (metric_total (xs @ ys)) else None),
           availability = join_availability (xs @ ys)\<rparr>
    \<and> bindE (aggregate_usage_metrics xs) (\<lambda>a. bindE (aggregate_usage_metrics ys) (\<lambda>b.
        aggregate_usage_metrics [a, b])) = aggregate_usage_metrics (xs @ ys)"
proof -
  have v: "\<forall>m \<in> set xs. valid_usage_metric m" "\<forall>m \<in> set ys. valid_usage_metric m"
    "\<forall>m \<in> set (xs @ ys). valid_usage_metric m"
    using assms(1) by auto
  note agg = aggregate_nonempty [OF v(1) assms(2)] aggregate_nonempty [OF v(2) assms(3)]
  obtain a b where ab: "aggregate_usage_metrics xs = Inr a" "aggregate_usage_metrics ys = Inr b"
    by (simp add: agg)
  have "valid_usage_metric a" "valid_usage_metric b"
    using aggregate_valid [OF v(1)] aggregate_valid [OF v(2)] ab by auto
  then have "aggregate_usage_metrics [a, b] = aggregate_usage_metrics (xs @ ys)"
    using ab assms v agg
    by (subst (1 2) aggregate_nonempty)
       (auto simp: join_availability_append join_availability_Cons sup_Complete_iff
         metric_total_def)
  with ab aggregate_nonempty [OF v(3)] assms(2) show ?thesis by simp
qed

theorem aggregate_usage_metrics_join_witness:
  "aggregate_usage_metrics
     ([\<lparr>metric_value = Some 3, availability = Complete\<rparr>]
      @ [\<lparr>metric_value = None, availability = Unavailable\<rparr>])
   = Inr \<lparr>metric_value = None, availability = Partial\<rparr>"
  using aggregate_usage_metrics_join
    [of "[\<lparr>metric_value = Some 3, availability = Complete\<rparr>]"
        "[\<lparr>metric_value = None, availability = Unavailable\<rparr>]"]
  by (simp add: valid_usage_metric_def join_availability_def sup_usage_availability_def)

end
