(* ===== verification/Schemas.thy ===== *)
theory Schemas
  imports Usage Patterns
begin

text \<open>
  schemas.py: the request bodies, the messages, and the nine product events with their strict
  payloads. A payload is parsed from a JSON object into a constructor of \<open>payload\<close> and dumped
  back from it. Two conversions of pydantic are parameters (\<open>codec\<close>): datetimes to and from
  JSON, and numeric strings to integers.
\<close>

section \<open>Request bodies\<close>

definition thread_create_title :: "pystr option \<Rightarrow> exn + pystr option" where
  "thread_create_title value =
     (case value of
        None \<Rightarrow> Inr None
      | Some v \<Rightarrow>
          if 200 < length v then Inl ValidationError
          else if py_strip v = [] then Inl ValidationError
          else Inr (Some (py_strip v)))"

definition thread_update_title :: "(nat \<Rightarrow> bool) \<Rightarrow> pval \<Rightarrow> exn + pystr" where
  "thread_update_title cc value =
     (case value of
        PStr s \<Rightarrow>
          if list_ex cc s then Inl ValidationError
          else if collapse_ws s = [] then Inl ValidationError
          else if \<not> len_between 1 200 (collapse_ws s) then Inl ValidationError
          else Inr (collapse_ws s)
      | _ \<Rightarrow> Inl ValidationError)"

record run_create =
  create_message :: pystr
  idempotency_key :: pystr

definition clean_required_text :: "nat \<Rightarrow> pystr \<Rightarrow> exn + pystr" where
  "clean_required_text hi value =
     (if \<not> len_between 1 hi value then Inl ValidationError
      else if py_strip value = [] then Inl ValidationError
      else Inr (py_strip value))"

definition validate_run_create :: "pystr \<Rightarrow> pystr \<Rightarrow> exn + run_create" where
  "validate_run_create message key =
     bindE (clean_required_text 8000 message) (\<lambda>m.
     bindE (clean_required_text 128 key) (\<lambda>k.
     Inr \<lparr>create_message = m, idempotency_key = k\<rparr>))"

definition valid_run_create :: "run_create \<Rightarrow> bool" where
  "valid_run_create r \<longleftrightarrow>
     len_between 1 8000 (create_message r) \<and> py_strip (create_message r) = create_message r
     \<and> len_between 1 128 (idempotency_key r) \<and> py_strip (idempotency_key r) = idempotency_key r"

lemma clean_required_text_ok:
  "clean_required_text hi v = Inr w \<Longrightarrow> len_between 1 hi w \<and> py_strip w = w"
  using length_py_strip [of v] py_strip_idem [of v]
  by (auto simp: clean_required_text_def len_between_def Suc_le_eq split: if_splits)

lemma validate_run_create_valid:
  "validate_run_create m k = Inr r \<Longrightarrow> valid_run_create r"
  by (auto simp: validate_run_create_def valid_run_create_def dest: clean_required_text_ok)

section \<open>Messages and Runs\<close>

datatype message_role = UserRole | AssistantRole

datatype run_status = RunCreated | RunRunning | RunCompleted | RunFailed | RunCancelled

record message =
  message_id :: pystr
  message_role :: message_role
  message_content :: pystr
  message_created_at :: int
  message_run_id :: "pystr option"

datatype event_type =
    RunStartedEvent
  | ToolStartedEvent
  | ToolFinishedEvent
  | MessageDeltaEvent
  | SourceAddedEvent
  | MessageCompletedEvent
  | RunCompletedEvent
  | RunFailedEvent
  | RunCancelledEvent

fun event_name :: "event_type \<Rightarrow> string" where
  "event_name RunStartedEvent = ''run.started''"
| "event_name ToolStartedEvent = ''tool.started''"
| "event_name ToolFinishedEvent = ''tool.finished''"
| "event_name MessageDeltaEvent = ''message.delta''"
| "event_name SourceAddedEvent = ''source.added''"
| "event_name MessageCompletedEvent = ''message.completed''"
| "event_name RunCompletedEvent = ''run.completed''"
| "event_name RunFailedEvent = ''run.failed''"
| "event_name RunCancelledEvent = ''run.cancelled''"

definition PRODUCT_EVENT_TYPES :: "event_type list" where
  "PRODUCT_EVENT_TYPES =
     [RunStartedEvent, ToolStartedEvent, ToolFinishedEvent, MessageDeltaEvent, SourceAddedEvent,
      MessageCompletedEvent, RunCompletedEvent, RunFailedEvent, RunCancelledEvent]"

definition RUNTIME_EVENT_TYPES :: "event_type list" where
  "RUNTIME_EVENT_TYPES = [ToolStartedEvent, ToolFinishedEvent, MessageDeltaEvent, SourceAddedEvent]"

fun terminal_event :: "event_type \<Rightarrow> bool" where
  "terminal_event RunCompletedEvent = True"
| "terminal_event RunFailedEvent = True"
| "terminal_event RunCancelledEvent = True"
| "terminal_event _ = False"

fun failure_code_name :: "run_failure_code \<Rightarrow> string" where
  "failure_code_name RunTimeout = ''run_timeout''"
| "failure_code_name AgentExecutionFailedCode = ''agent_execution_failed''"
| "failure_code_name ServiceRestarted = ''service_restarted''"
| "failure_code_name ModelStepLimit = ''model_step_limit''"
| "failure_code_name ToolCallLimit = ''tool_call_limit''"
| "failure_code_name RepeatedToolCallCode = ''repeated_tool_call''"
| "failure_code_name NoProgressCode = ''no_progress''"
| "failure_code_name ToolNotAllowedCode = ''tool_not_allowed''"
| "failure_code_name ResultSchemaInvalidCode = ''result_schema_invalid''"
| "failure_code_name SourceValidationFailedCode = ''source_validation_failed''"

definition run_failure_codes :: "run_failure_code list" where
  "run_failure_codes =
     [RunTimeout, AgentExecutionFailedCode, ServiceRestarted, ModelStepLimit, ToolCallLimit,
      RepeatedToolCallCode, NoProgressCode, ToolNotAllowedCode, ResultSchemaInvalidCode,
      SourceValidationFailedCode]"

fun role_name :: "message_role \<Rightarrow> string" where
  "role_name UserRole = ''user''"
| "role_name AssistantRole = ''assistant''"

fun availability_name :: "usage_availability \<Rightarrow> string" where
  "availability_name Complete = ''complete''"
| "availability_name Partial = ''partial''"
| "availability_name Unavailable = ''unavailable''"
| "availability_name Unknown = ''unknown''"
| "availability_name Pending = ''pending''"

fun usage_state_name :: "usage_state \<Rightarrow> string" where
  "usage_state_name FinalState = ''final''"
| "usage_state_name UnknownState = ''unknown''"
| "usage_state_name PendingState = ''pending''"

fun error_category_name :: "run_error_category \<Rightarrow> string" where
  "error_category_name ProviderError = ''provider''"
| "error_category_name ToolError = ''tool''"
| "error_category_name AccessOrInputError = ''access_or_input''"
| "error_category_name LimitError = ''limit''"
| "error_category_name ValidationErrorCategory = ''validation''"
| "error_category_name TimeoutError = ''timeout''"
| "error_category_name CancelledError = ''cancelled''"
| "error_category_name ServiceError = ''service''"
| "error_category_name InternalError = ''internal''"

text \<open>Reading a Literal field: the member of the list whose name is the given string.\<close>

definition named :: "('a \<Rightarrow> string) \<Rightarrow> 'a list \<Rightarrow> pval \<Rightarrow> 'a option" where
  "named name xs v =
     (case as_str v of None \<Rightarrow> None | Some s \<Rightarrow> List.find (\<lambda>x. lit (name x) = s) xs)"

lemma named_find: "named name xs (PStr s) = List.find (\<lambda>x. lit (name x) = s) xs"
  by (simp add: named_def)

section \<open>Payloads\<close>

datatype payload =
    RunStartedPayload
  | ToolStartedPayload pystr pystr pystr "pystr option"
  | ToolFinishedPayload pystr pystr pystr pystr
  | MessageDeltaPayload pystr
  | SourceAddedPayload pystr pystr pystr
  | MessageCompletedPayload message
  | RunCompletedPayload "run_usage option"
  | RunFailedPayload run_failure_code "run_usage option"
  | RunCancelledPayload "run_usage option"

record codec =
  parse_time :: "pval \<Rightarrow> int option"
  dump_time :: "int \<Rightarrow> pval"
  parse_int_text :: "pystr \<Rightarrow> int option"

text \<open>Fields of a strict model.\<close>

definition str_field :: "nat \<Rightarrow> nat \<Rightarrow> string \<Rightarrow> pdict \<Rightarrow> pystr option" where
  "str_field lo hi k d =
     (case map_of d (lit k) of
        Some (PStr s) \<Rightarrow> if len_between lo hi s then Some s else None
      | _ \<Rightarrow> None)"

definition any_str_field :: "string \<Rightarrow> pdict \<Rightarrow> pystr option" where
  "any_str_field k d = (case map_of d (lit k) of Some (PStr s) \<Rightarrow> Some s | _ \<Rightarrow> None)"

definition opt_str_field :: "nat \<Rightarrow> string \<Rightarrow> pdict \<Rightarrow> pystr option option" where
  "opt_str_field hi k d =
     (case dict_get d (lit k) of
        PNone \<Rightarrow> Some None
      | PStr s \<Rightarrow> if length s \<le> hi then Some (Some s) else None
      | _ \<Rightarrow> None)"

fun as_int :: "codec \<Rightarrow> pval \<Rightarrow> int option" where
  "as_int c (PInt n) = Some n"
| "as_int c (PBool b) = Some (of_bool b)"
| "as_int c (PFloat q) = (if of_int \<lfloor>q\<rfloor> = q then Some \<lfloor>q\<rfloor> else None)"
| "as_int c (PStr s) = parse_int_text c s"
| "as_int c _ = None"

definition opt_nat_field :: "codec \<Rightarrow> string \<Rightarrow> pdict \<Rightarrow> int option option" where
  "opt_nat_field c k d =
     (case dict_get d (lit k) of
        PNone \<Rightarrow> Some None
      | v \<Rightarrow> (case as_int c v of
               Some n \<Rightarrow> if 0 \<le> n then Some (Some n) else None
             | None \<Rightarrow> None))"

definition parse_usage_metric :: "codec \<Rightarrow> pval \<Rightarrow> usage_metric option" where
  "parse_usage_metric c v =
     Option.bind (as_dict v) (\<lambda>d.
     if \<not> only_keys [''value'', ''availability''] d then None else
     Option.bind (opt_nat_field c ''value'' d) (\<lambda>n.
     Option.bind (named availability_name [Complete, Partial, Unavailable, Unknown, Pending]
                    (dict_get d (lit ''availability''))) (\<lambda>a.
     case make_usage_metric n a of Inr m \<Rightarrow> Some m | Inl _ \<Rightarrow> None)))"

fun dump_int :: "int option \<Rightarrow> pval" where
  "dump_int None = PNone"
| "dump_int (Some n) = PInt n"

definition dump_usage_metric :: "usage_metric \<Rightarrow> pval" where
  "dump_usage_metric m =
     PDict (py_dict [(''value'', dump_int (metric_value m)),
                     (''availability'', PStr (lit (availability_name (availability m))))])"

definition usage_keys :: "string list" where
  "usage_keys =
     [''schema_version'', ''state'', ''model_call_count'', ''retry_count'', ''input_tokens'',
      ''output_tokens'', ''cached_tokens'', ''reasoning_tokens'', ''total_tokens'',
      ''time_to_first_visible_ms'', ''generation_duration_ms'', ''run_duration_ms'',
      ''error_category'']"

definition parse_schema_version :: "pdict \<Rightarrow> pystr option option" where
  "parse_schema_version d =
     (case map_of d (lit ''schema_version'') of
        Some PNone \<Rightarrow> Some None
      | Some (PStr s) \<Rightarrow> if s = METERING_SCHEMA_VERSION then Some (Some s) else None
      | _ \<Rightarrow> None)"

definition parse_error_category :: "pdict \<Rightarrow> run_error_category option option" where
  "parse_error_category d =
     (case dict_get d (lit ''error_category'') of
        PNone \<Rightarrow> Some None
      | v \<Rightarrow> map_option Some (named error_category_name
               [ProviderError, ToolError, AccessOrInputError, LimitError, ValidationErrorCategory,
                TimeoutError, CancelledError, ServiceError, InternalError] v))"

definition parse_run_usage :: "codec \<Rightarrow> pval \<Rightarrow> run_usage option" where
  "parse_run_usage c v =
     Option.bind (as_dict v) (\<lambda>d.
     if \<not> only_keys usage_keys d then None else
     Option.bind (parse_schema_version d) (\<lambda>sv.
     Option.bind (named usage_state_name [FinalState, UnknownState, PendingState]
                    (dict_get d (lit ''state''))) (\<lambda>st.
     Option.bind (opt_nat_field c ''model_call_count'' d) (\<lambda>mc.
     Option.bind (opt_nat_field c ''retry_count'' d) (\<lambda>rc.
     Option.bind (parse_usage_metric c (dict_get d (lit ''input_tokens''))) (\<lambda>mi.
     Option.bind (parse_usage_metric c (dict_get d (lit ''output_tokens''))) (\<lambda>mo.
     Option.bind (parse_usage_metric c (dict_get d (lit ''cached_tokens''))) (\<lambda>mk.
     Option.bind (parse_usage_metric c (dict_get d (lit ''reasoning_tokens''))) (\<lambda>mr.
     Option.bind (parse_usage_metric c (dict_get d (lit ''total_tokens''))) (\<lambda>mt.
     Option.bind (opt_nat_field c ''time_to_first_visible_ms'' d) (\<lambda>t1.
     Option.bind (opt_nat_field c ''generation_duration_ms'' d) (\<lambda>t2.
     Option.bind (opt_nat_field c ''run_duration_ms'' d) (\<lambda>t3.
     Option.bind (parse_error_category d) (\<lambda>ec.
     case make_run_usage
            \<lparr>usage_schema_version = sv, usage_state = st, model_call_count = mc, retry_count = rc,
             input_metric = mi, output_metric = mo, cached_metric = mk, reasoning_metric = mr,
             total_metric = mt, time_to_first_visible_ms = t1, generation_duration_ms = t2,
             run_duration_ms = t3, error_category = ec\<rparr> of
       Inr u \<Rightarrow> Some u | Inl _ \<Rightarrow> None))))))))))))))"

fun dump_str :: "pystr option \<Rightarrow> pval" where
  "dump_str None = PNone"
| "dump_str (Some s) = PStr s"

definition dump_run_usage :: "run_usage \<Rightarrow> pval" where
  "dump_run_usage u =
     PDict (py_dict
       [(''schema_version'', dump_str (usage_schema_version u)),
        (''state'', PStr (lit (usage_state_name (usage_state u)))),
        (''model_call_count'', dump_int (model_call_count u)),
        (''retry_count'', dump_int (retry_count u)),
        (''input_tokens'', dump_usage_metric (input_metric u)),
        (''output_tokens'', dump_usage_metric (output_metric u)),
        (''cached_tokens'', dump_usage_metric (cached_metric u)),
        (''reasoning_tokens'', dump_usage_metric (reasoning_metric u)),
        (''total_tokens'', dump_usage_metric (total_metric u)),
        (''time_to_first_visible_ms'', dump_int (time_to_first_visible_ms u)),
        (''generation_duration_ms'', dump_int (generation_duration_ms u)),
        (''run_duration_ms'', dump_int (run_duration_ms u)),
        (''error_category'',
           dump_str (map_option (\<lambda>e. lit (error_category_name e)) (error_category u)))])"


definition parse_message :: "codec \<Rightarrow> pval \<Rightarrow> message option" where
  "parse_message c v =
     Option.bind (as_dict v) (\<lambda>d.
     if \<not> only_keys [''message_id'', ''role'', ''content'', ''created_at'', ''run_id''] d then None else
     Option.bind (any_str_field ''message_id'' d) (\<lambda>i.
     Option.bind (named role_name [UserRole, AssistantRole] (dict_get d (lit ''role''))) (\<lambda>r.
     Option.bind (any_str_field ''content'' d) (\<lambda>t.
     Option.bind (parse_time c (dict_get d (lit ''created_at''))) (\<lambda>ca.
     Option.bind (case map_of d (lit ''run_id'') of
                    Some PNone \<Rightarrow> Some None
                  | Some (PStr s) \<Rightarrow> Some (Some s)
                  | _ \<Rightarrow> None) (\<lambda>run.
     Some \<lparr>message_id = i, message_role = r, message_content = t, message_created_at = ca,
           message_run_id = run\<rparr>))))))"

text \<open>\<open>exclude_none=True\<close> also drops a null \<open>run_id\<close> inside the message.\<close>

definition dump_message :: "codec \<Rightarrow> message \<Rightarrow> pval" where
  "dump_message c m =
     PDict (py_dict
       ([(''message_id'', PStr (message_id m)),
         (''role'', PStr (lit (role_name (message_role m)))),
         (''content'', PStr (message_content m)),
         (''created_at'', dump_time c (message_created_at m))]
        @ (case message_run_id m of None \<Rightarrow> [] | Some r \<Rightarrow> [(''run_id'', PStr r)])))"

definition literal_status :: "string \<Rightarrow> pdict \<Rightarrow> unit option" where
  "literal_status s d = (if map_of d (lit ''status'') = Some (PStr (lit s)) then Some () else None)"

definition parse_usage_field :: "codec \<Rightarrow> pdict \<Rightarrow> run_usage option option" where
  "parse_usage_field c d =
     (case dict_get d (lit ''usage'') of
        PNone \<Rightarrow> Some None
      | v \<Rightarrow> map_option Some (parse_run_usage c v))"

fun parse_payload :: "codec \<Rightarrow> event_type \<Rightarrow> pdict \<Rightarrow> payload option" where
  "parse_payload c RunStartedEvent d =
     (if only_keys [''status''] d
      then map_option (\<lambda>_. RunStartedPayload) (literal_status ''running'' d) else None)"
| "parse_payload c ToolStartedEvent d =
     (if only_keys [''tool_call_id'', ''name'', ''label'', ''input_summary''] d then
        Option.bind (str_field 1 128 ''tool_call_id'' d) (\<lambda>i.
        Option.bind (str_field 1 128 ''name'' d) (\<lambda>n.
        Option.bind (str_field 1 200 ''label'' d) (\<lambda>l.
        Option.bind (opt_str_field 500 ''input_summary'' d) (\<lambda>s.
        Some (ToolStartedPayload i n l s))))) else None)"
| "parse_payload c ToolFinishedEvent d =
     (if only_keys [''tool_call_id'', ''name'', ''label'', ''output_summary''] d then
        Option.bind (str_field 1 128 ''tool_call_id'' d) (\<lambda>i.
        Option.bind (str_field 1 128 ''name'' d) (\<lambda>n.
        Option.bind (str_field 1 200 ''label'' d) (\<lambda>l.
        Option.bind (str_field 1 1000 ''output_summary'' d) (\<lambda>s.
        Some (ToolFinishedPayload i n l s))))) else None)"
| "parse_payload c MessageDeltaEvent d =
     (if only_keys [''delta''] d
      then map_option MessageDeltaPayload (str_field 1 8000 ''delta'' d) else None)"
| "parse_payload c SourceAddedEvent d =
     (if only_keys [''source_id'', ''label'', ''description''] d then
        Option.bind (str_field 1 128 ''source_id'' d) (\<lambda>i.
        Option.bind (str_field 1 200 ''label'' d) (\<lambda>l.
        Option.bind (str_field 1 1000 ''description'' d) (\<lambda>t.
        Some (SourceAddedPayload i l t)))) else None)"
| "parse_payload c MessageCompletedEvent d =
     (if only_keys [''message''] d
      then map_option MessageCompletedPayload (parse_message c (dict_get d (lit ''message'')))
      else None)"
| "parse_payload c RunCompletedEvent d =
     (if only_keys [''status'', ''usage''] d then
        Option.bind (literal_status ''completed'' d) (\<lambda>_.
        map_option RunCompletedPayload (parse_usage_field c d)) else None)"
| "parse_payload c RunFailedEvent d =
     (if only_keys [''status'', ''error_code'', ''usage''] d then
        Option.bind (literal_status ''failed'' d) (\<lambda>_.
        Option.bind (named failure_code_name run_failure_codes (dict_get d (lit ''error_code''))) (\<lambda>e.
        map_option (RunFailedPayload e) (parse_usage_field c d))) else None)"
| "parse_payload c RunCancelledEvent d =
     (if only_keys [''status'', ''usage''] d then
        Option.bind (literal_status ''cancelled'' d) (\<lambda>_.
        map_option RunCancelledPayload (parse_usage_field c d)) else None)"

fun usage_entry :: "run_usage option \<Rightarrow> (string \<times> pval) list" where
  "usage_entry None = []"
| "usage_entry (Some u) = [(''usage'', dump_run_usage u)]"

fun dump_payload :: "codec \<Rightarrow> payload \<Rightarrow> pdict" where
  "dump_payload c RunStartedPayload = py_dict [(''status'', PStr (lit ''running''))]"
| "dump_payload c (ToolStartedPayload i n l s) =
     py_dict ([(''tool_call_id'', PStr i), (''name'', PStr n), (''label'', PStr l)]
              @ (case s of None \<Rightarrow> [] | Some t \<Rightarrow> [(''input_summary'', PStr t)]))"
| "dump_payload c (ToolFinishedPayload i n l s) =
     py_dict [(''tool_call_id'', PStr i), (''name'', PStr n), (''label'', PStr l),
              (''output_summary'', PStr s)]"
| "dump_payload c (MessageDeltaPayload t) = py_dict [(''delta'', PStr t)]"
| "dump_payload c (SourceAddedPayload i l t) =
     py_dict [(''source_id'', PStr i), (''label'', PStr l), (''description'', PStr t)]"
| "dump_payload c (MessageCompletedPayload m) = py_dict [(''message'', dump_message c m)]"
| "dump_payload c (RunCompletedPayload u) =
     py_dict ((''status'', PStr (lit ''completed'')) # usage_entry u)"
| "dump_payload c (RunFailedPayload e u) =
     py_dict ([(''status'', PStr (lit ''failed'')),
               (''error_code'', PStr (lit (failure_code_name e)))] @ usage_entry u)"
| "dump_payload c (RunCancelledPayload u) =
     py_dict ((''status'', PStr (lit ''cancelled'')) # usage_entry u)"

definition find_event_type :: "pystr \<Rightarrow> event_type option" where
  "find_event_type name = List.find (\<lambda>t. lit (event_name t) = name) PRODUCT_EVENT_TYPES"

definition validate_product_event :: "codec \<Rightarrow> pystr \<Rightarrow> pdict \<Rightarrow> exn + pdict" where
  "validate_product_event c name d =
     (case find_event_type name of
        None \<Rightarrow> Inl (ProductEventValidationError ''unsupported_product_event'')
      | Some t \<Rightarrow>
          (case parse_payload c t d of
             None \<Rightarrow> Inl (ProductEventValidationError ''invalid_product_event_payload'')
           | Some p \<Rightarrow> Inr (dump_payload c p)))"

definition validate_runtime_event :: "codec \<Rightarrow> pystr \<Rightarrow> pdict \<Rightarrow> exn + (event_type \<times> pdict)" where
  "validate_runtime_event c name d =
     (case List.find (\<lambda>t. lit (event_name t) = name) RUNTIME_EVENT_TYPES of
        None \<Rightarrow> Inl (ProductEventValidationError ''runtime_event_not_allowed'')
      | Some t \<Rightarrow> bindE (validate_product_event c name d) (\<lambda>d'. Inr (t, d')))"

definition normalize_stored_product_event :: "pystr \<Rightarrow> pdict \<Rightarrow> pdict" where
  "normalize_stored_product_event name d =
     (if name = lit ''run.failed''
         \<and> map_of d (lit ''error_code'') = Some (PStr (lit ''agent_result_missing''))
      then AList.update (lit ''error_code'') (PStr (lit ''agent_execution_failed'')) d
      else d)"

section \<open>Round trips\<close>

fun payload_event :: "payload \<Rightarrow> event_type" where
  "payload_event RunStartedPayload = RunStartedEvent"
| "payload_event (ToolStartedPayload _ _ _ _) = ToolStartedEvent"
| "payload_event (ToolFinishedPayload _ _ _ _) = ToolFinishedEvent"
| "payload_event (MessageDeltaPayload _) = MessageDeltaEvent"
| "payload_event (SourceAddedPayload _ _ _) = SourceAddedEvent"
| "payload_event (MessageCompletedPayload _) = MessageCompletedEvent"
| "payload_event (RunCompletedPayload _) = RunCompletedEvent"
| "payload_event (RunFailedPayload _ _) = RunFailedEvent"
| "payload_event (RunCancelledPayload _) = RunCancelledEvent"

definition valid_usage_option :: "run_usage option \<Rightarrow> bool" where
  "valid_usage_option u \<longleftrightarrow> (case u of None \<Rightarrow> True | Some x \<Rightarrow> valid_run_usage x)"

fun valid_payload :: "payload \<Rightarrow> bool" where
  "valid_payload RunStartedPayload \<longleftrightarrow> True"
| "valid_payload (ToolStartedPayload i n l s) \<longleftrightarrow>
     len_between 1 128 i \<and> len_between 1 128 n \<and> len_between 1 200 l
     \<and> (case s of None \<Rightarrow> True | Some t \<Rightarrow> length t \<le> 500)"
| "valid_payload (ToolFinishedPayload i n l s) \<longleftrightarrow>
     len_between 1 128 i \<and> len_between 1 128 n \<and> len_between 1 200 l \<and> len_between 1 1000 s"
| "valid_payload (MessageDeltaPayload t) \<longleftrightarrow> len_between 1 8000 t"
| "valid_payload (SourceAddedPayload i l t) \<longleftrightarrow>
     len_between 1 128 i \<and> len_between 1 200 l \<and> len_between 1 1000 t"
| "valid_payload (MessageCompletedPayload m) \<longleftrightarrow> True"
| "valid_payload (RunCompletedPayload u) \<longleftrightarrow> valid_usage_option u"
| "valid_payload (RunFailedPayload e u) \<longleftrightarrow> valid_usage_option u"
| "valid_payload (RunCancelledPayload u) \<longleftrightarrow> valid_usage_option u"


lemma find_event_type_name [simp]: "find_event_type (lit (event_name t)) = Some t"
  by (cases t) (simp_all add: find_event_type_def PRODUCT_EVENT_TYPES_def)

lemma find_event_type_Some: "find_event_type name = Some t \<Longrightarrow> name = lit (event_name t)"
  by (auto simp: find_event_type_def find_Some_iff)

lemma named_failure_code [simp]:
  "named failure_code_name run_failure_codes (PStr (lit (failure_code_name e))) = Some e"
  by (cases e) (simp_all add: named_def run_failure_codes_def)

lemma named_role [simp]:
  "named role_name [UserRole, AssistantRole] (PStr (lit (role_name r))) = Some r"
  by (cases r) (simp_all add: named_def)

lemma named_availability [simp]:
  "named availability_name [Complete, Partial, Unavailable, Unknown, Pending]
     (PStr (lit (availability_name a))) = Some a"
  by (cases a) (simp_all add: named_def)

lemma named_usage_state [simp]:
  "named usage_state_name [FinalState, UnknownState, PendingState]
     (PStr (lit (usage_state_name s))) = Some s"
  by (cases s) (simp_all add: named_def)

lemma named_error_category [simp]:
  "named error_category_name
     [ProviderError, ToolError, AccessOrInputError, LimitError, ValidationErrorCategory,
      TimeoutError, CancelledError, ServiceError, InternalError]
     (PStr (lit (error_category_name e))) = Some e"
  by (cases e) (simp_all add: named_def)

lemma opt_nat_field_dump:
  "dict_get d (lit k) = dump_int n \<Longrightarrow> nonneg n \<Longrightarrow> opt_nat_field c k d = Some n"
  by (cases n) (simp_all add: opt_nat_field_def)

lemma parse_error_category_dump:
  "dict_get d (lit ''error_category'') = dump_str (map_option (\<lambda>e. lit (error_category_name e)) x)
     \<Longrightarrow> parse_error_category d = Some x"
  by (cases x) (simp_all add: parse_error_category_def)

lemma parse_schema_version_dump:
  "map_of d (lit ''schema_version'') = Some (dump_str v) \<Longrightarrow>
     v = None \<or> v = Some METERING_SCHEMA_VERSION \<Longrightarrow> parse_schema_version d = Some v"
  by (auto simp: parse_schema_version_def)

lemmas parse_dump = opt_nat_field_dump parse_error_category_dump parse_schema_version_dump

lemma parse_dump_metric [simp]:
  "valid_usage_metric m \<Longrightarrow> parse_usage_metric c (dump_usage_metric m) = Some m"
  by (simp add: parse_usage_metric_def dump_usage_metric_def
      make_usage_metric_def opt_nat_field_dump valid_usage_metric_def)

lemma run_usage_eta [simp]:
  "\<lparr>usage_schema_version = usage_schema_version u, usage_state = usage_state u,
    model_call_count = model_call_count u, retry_count = retry_count u,
    input_metric = input_metric u, output_metric = output_metric u,
    cached_metric = cached_metric u, reasoning_metric = reasoning_metric u,
    total_metric = total_metric u, time_to_first_visible_ms = time_to_first_visible_ms u,
    generation_duration_ms = generation_duration_ms u, run_duration_ms = run_duration_ms u,
    error_category = error_category u\<rparr> = u"
  by (cases u) simp

lemma parse_dump_usage [simp]:
  assumes "valid_run_usage u" shows "parse_run_usage c (dump_run_usage u) = Some u"
proof -
  have "usage_schema_version u = None \<or> usage_schema_version u = Some METERING_SCHEMA_VERSION"
    "nonneg (model_call_count u)" "nonneg (retry_count u)"
    "nonneg (time_to_first_visible_ms u)" "nonneg (generation_duration_ms u)"
    "nonneg (run_duration_ms u)" "list_all valid_usage_metric (usage_metrics u)"
    "make_run_usage u = Inr u"
    using assms unfolding valid_run_usage_def make_run_usage_def by simp_all
  then show ?thesis
    by (simp add: parse_run_usage_def dump_run_usage_def usage_keys_def parse_dump usage_metrics_def)
qed

lemma parse_usage_valid: "parse_run_usage c v = Some u \<Longrightarrow> valid_run_usage u"
  by (auto simp: parse_run_usage_def make_run_usage_def Let_def bind_eq_Some_conv
      split: if_splits sum.splits)

lemma parse_usage_field_valid:
  "parse_usage_field c d = Some u \<Longrightarrow> valid_usage_option u"
  by (auto simp: parse_usage_field_def valid_usage_option_def dest: parse_usage_valid
      split: pval.splits option.splits)

lemma str_field_entry:
  "map_of d (lit k) = Some (PStr s) \<Longrightarrow> len_between lo hi s \<Longrightarrow> str_field lo hi k d = Some s"
  by (simp add: str_field_def)

lemma str_field_len: "str_field lo hi k d = Some s \<Longrightarrow> len_between lo hi s"
  by (auto simp: str_field_def split: option.splits pval.splits if_splits)

lemma opt_str_field_len: "opt_str_field hi k d = Some (Some s) \<Longrightarrow> length s \<le> hi"
  by (auto simp: opt_str_field_def split: pval.splits if_splits)

lemma parse_payload_event: "parse_payload c t d = Some p \<Longrightarrow> payload_event p = t"
  by (cases t) (auto simp: bind_eq_Some_conv split: if_splits)

lemma parse_payload_valid: "parse_payload c t d = Some p \<Longrightarrow> valid_payload p"
  by (cases t)
     (auto simp: bind_eq_Some_conv split: if_splits option.splits
       dest: str_field_len opt_str_field_len parse_usage_field_valid)

text \<open>The payloads whose dump is accepted again: all but a message without a Run.\<close>

fun replayable :: "payload \<Rightarrow> bool" where
  "replayable (MessageCompletedPayload m) \<longleftrightarrow> message_run_id m \<noteq> None"
| "replayable _ \<longleftrightarrow> True"

definition time_round_trip :: "codec \<Rightarrow> bool" where
  "time_round_trip c \<longleftrightarrow> (\<forall>n. parse_time c (dump_time c n) = Some n)"

lemma parse_dump_message:
  assumes "time_round_trip c"
  shows "parse_message c (dump_message c m) = (if message_run_id m = None then None else Some m)"
  using assms
  by (cases m; cases "message_run_id m")
     (simp_all add: parse_message_def dump_message_def any_str_field_def time_round_trip_def)

lemma parse_usage_entry:
  "valid_usage_option u \<Longrightarrow> dict_get d (lit ''usage'') = dict_get (py_dict (usage_entry u)) (lit ''usage'')
     \<Longrightarrow> parse_usage_field c d = Some u"
proof (cases u)
  case (Some x)
  assume "valid_usage_option u" "dict_get d (lit ''usage'') = dict_get (py_dict (usage_entry u)) (lit ''usage'')"
  with Some have "dict_get d (lit ''usage'') = dump_run_usage x" "valid_run_usage x"
    by (simp_all add: valid_usage_option_def)
  then show ?thesis
    using parse_dump_usage [of x c] Some by (simp add: parse_usage_field_def dump_run_usage_def)
qed (simp add: parse_usage_field_def)

lemma usage_entry_keys [simp]: "only_keys ks (py_dict (usage_entry u)) \<longleftrightarrow> u = None \<or> ''usage'' \<in> set ks"
  by (cases u) auto

lemma parse_dump_payload:
  assumes "valid_payload p" "time_round_trip c"
  shows "parse_payload c (payload_event p) (dump_payload c p) = (if replayable p then Some p else None)"
proof (cases p)
  case (ToolStartedPayload i n l s)
  with assms show ?thesis
    by (cases s) (simp_all add: str_field_entry opt_str_field_def)
next
  case (MessageCompletedPayload m)
  with assms show ?thesis by (simp add: parse_dump_message)
next
  case (RunFailedPayload e u)
  with assms have "parse_usage_field c (dump_payload c p) = Some u"
    by (intro parse_usage_entry) simp_all
  with RunFailedPayload show ?thesis by (simp add: literal_status_def)
next
  case (RunCompletedPayload u)
  with assms have "parse_usage_field c (dump_payload c p) = Some u"
    by (intro parse_usage_entry) simp_all
  with RunCompletedPayload show ?thesis by (simp add: literal_status_def)
next
  case (RunCancelledPayload u)
  with assms have "parse_usage_field c (dump_payload c p) = Some u"
    by (intro parse_usage_entry) simp_all
  with RunCancelledPayload show ?thesis by (simp add: literal_status_def)
qed (use assms in \<open>simp_all add: str_field_entry literal_status_def\<close>)

text \<open>C40. What event validation stores is a normal form: validating a validated payload again
  gives it back unchanged, for all nine event types, with the one exception of a completed
  message that names no Run, whose dumped form drops the null Run id and is rejected.\<close>

theorem validate_product_event_normal:
  assumes "time_round_trip c" and "validate_product_event c name d = Inr d'"
  shows "\<exists>t p. name = lit (event_name t) \<and> parse_payload c t d = Some p \<and> valid_payload p
    \<and> validate_product_event c name d' =
        (if replayable p then Inr d'
         else Inl (ProductEventValidationError ''invalid_product_event_payload''))"
proof -
  obtain t p where tp: "find_event_type name = Some t" "parse_payload c t d = Some p"
    "d' = dump_payload c p"
    using assms(2) by (auto simp: validate_product_event_def split: option.splits)
  have "valid_payload p" "payload_event p = t"
    using parse_payload_valid parse_payload_event tp(2) by blast+
  then have "parse_payload c t d' = (if replayable p then Some p else None)"
    using parse_dump_payload [OF _ assms(1), of p] tp(3) by simp
  then have "validate_product_event c name d' =
      (if replayable p then Inr d'
       else Inl (ProductEventValidationError ''invalid_product_event_payload''))"
    by (simp add: validate_product_event_def tp)
  with tp \<open>valid_payload p\<close> find_event_type_Some show ?thesis by blast
qed

definition plain_codec :: codec where
  "plain_codec =
     \<lparr>parse_time = (\<lambda>v. case v of PInt n \<Rightarrow> Some n | _ \<Rightarrow> None), dump_time = PInt,
      parse_int_text = (\<lambda>_. None)\<rparr>"

theorem validate_product_event_normal_witness:
  "validate_product_event plain_codec (lit ''message.delta'') (py_dict [(''delta'', PStr [72])])
     = Inr (py_dict [(''delta'', PStr [72])])"
proof -
  have "time_round_trip plain_codec" by (simp add: time_round_trip_def plain_codec_def)
  moreover have "validate_product_event plain_codec (lit ''message.delta'') (py_dict [(''delta'', PStr [72])])
     = Inr (py_dict [(''delta'', PStr [72])])"
    by (simp add: validate_product_event_def find_event_type_def PRODUCT_EVENT_TYPES_def
        str_field_def len_between_def)
  ultimately obtain t p where tp: "lit ''message.delta'' = lit (event_name t)"
    "parse_payload plain_codec t (py_dict [(''delta'', PStr [72])]) = Some p"
    "validate_product_event plain_codec (lit ''message.delta'') (py_dict [(''delta'', PStr [72])]) =
        (if replayable p then Inr (py_dict [(''delta'', PStr [72])])
         else Inl (ProductEventValidationError ''invalid_product_event_payload''))"
    using validate_product_event_normal by blast
  have "replayable p" using tp(1,2) by (cases t) (auto simp: split: if_splits)
  with tp(3) show ?thesis by simp
qed

end
