(* ===== verification/Ledger.thy ===== *)
theory Ledger
  imports Usage
begin

text \<open>
  usage.py, class \<open>RunUsageLedger\<close>: the provider attempts of one Run. The dictionary
  \<open>_attempts\<close> is an association list in insertion order. The three durable writers are
  functions on an unknown outer state \<open>'w\<close> (the database behind the run service) that may
  raise. Clock readings and fresh attempt ids are arguments; floats are exact rationals.
  \<open>finish_attempt\<close> reserves its payload before it waits for the persistence lock, so it is
  split at that point and other operations may run in between.
\<close>

section \<open>State\<close>

record model_attempt_start =
  start_attempt_id :: pystr
  call_index :: int
  attempt_index :: int
  call_kind :: model_call_kind

record model_attempt_finish =
  finish_attempt_id :: pystr
  finish_status :: attempt_status
  finish_usage :: "token_usage option"

record model_attempt_usage =
  usage_attempt_id :: pystr
  observed_usage :: token_usage

definition valid_attempt_start :: "model_attempt_start \<Rightarrow> bool" where
  "valid_attempt_start s \<longleftrightarrow>
     length (start_attempt_id s) = 36 \<and> 1 \<le> call_index s \<and> 1 \<le> attempt_index s"

definition finish_statuses :: "attempt_status set" where
  "finish_statuses = {Succeeded, AttemptFailed, AttemptCancelled}"

definition valid_attempt_finish :: "model_attempt_finish \<Rightarrow> bool" where
  "valid_attempt_finish f \<longleftrightarrow>
     length (finish_attempt_id f) = 36 \<and> finish_status f \<in> finish_statuses"

type_synonym ('a, 'w) writer = "'a \<Rightarrow> 'w \<Rightarrow> (exn + unit) \<times> 'w"

record attempt =
  att_start :: model_attempt_start
  att_started_at :: rat
  att_status :: attempt_status
  att_completed_at :: "rat option"
  att_usage :: "token_usage option"
  att_usage_persisted :: bool
  att_pending_finish :: "model_attempt_finish option"
  att_pending_completed_at :: "rat option"

record 'w ledger =
  started_at :: rat
  attempts :: "(pystr \<times> attempt) list"
  next_call_index :: int
  first_visible_at :: "rat option"
  start_writer :: "(model_attempt_start, 'w) writer option"
  finish_writer :: "(model_attempt_finish, 'w) writer option"
  usage_writer :: "(model_attempt_usage, 'w) writer option"

type_synonym 'w ledger_state = "'w ledger \<times> 'w"

definition new_ledger :: "rat \<Rightarrow> 'w ledger" where
  "new_ledger now =
     \<lparr>started_at = now, attempts = [], next_call_index = 1, first_visible_at = None,
      start_writer = None, finish_writer = None, usage_writer = None\<rparr>"

definition new_attempt :: "model_attempt_start \<Rightarrow> rat \<Rightarrow> attempt" where
  "new_attempt s now =
     \<lparr>att_start = s, att_started_at = now, att_status = Started, att_completed_at = None,
      att_usage = None, att_usage_persisted = False, att_pending_finish = None,
      att_pending_completed_at = None\<rparr>"

definition find_attempt :: "pystr \<Rightarrow> 'w ledger \<Rightarrow> attempt option" where
  "find_attempt i led = map_of (attempts led) i"

definition put_attempt :: "pystr \<Rightarrow> attempt \<Rightarrow> 'w ledger \<Rightarrow> 'w ledger" where
  "put_attempt i a led = led\<lparr>attempts := AList.update i a (attempts led)\<rparr>"

definition ledger_attempts :: "'w ledger \<Rightarrow> attempt list" where
  "ledger_attempts led = map snd (attempts led)"

section \<open>Operations\<close>

definition bind_persistence ::
  "(model_attempt_start, 'w) writer \<Rightarrow> (model_attempt_finish, 'w) writer \<Rightarrow>
   (model_attempt_usage, 'w) writer \<Rightarrow> 'w ledger \<Rightarrow> (exn + unit) \<times> 'w ledger" where
  "bind_persistence sw fw uw led =
     (if start_writer led \<noteq> None \<or> finish_writer led \<noteq> None \<or> usage_writer led \<noteq> None
      then (Inl (UsageMeteringError ''attempt_persistence_already_bound''), led)
      else if attempts led \<noteq> []
      then (Inl (UsageMeteringError ''attempt_persistence_bound_after_start''), led)
      else (Inr (), led\<lparr>start_writer := Some sw, finish_writer := Some fw,
                        usage_writer := Some uw\<rparr>))"

fun run_writer :: "('a, 'w) writer option \<Rightarrow> 'a \<Rightarrow> 'w \<Rightarrow> (exn + unit) \<times> 'w" where
  "run_writer None x w = (Inr (), w)"
| "run_writer (Some f) x w = f x w"

text \<open>The second half of \<open>begin_attempt\<close>: build the start, write it, then register it.\<close>

definition register_attempt ::
  "pystr \<Rightarrow> rat \<Rightarrow> model_call_kind \<Rightarrow> int \<Rightarrow> int \<Rightarrow> 'w ledger_state \<Rightarrow>
   (exn + pystr) \<times> 'w ledger_state" where
  "register_attempt new_id now kind ci ai st =
     (case st of (led, w) \<Rightarrow>
        let s = \<lparr>start_attempt_id = new_id, call_index = ci, attempt_index = ai,
                 call_kind = kind\<rparr>
        in if \<not> valid_attempt_start s then (Inl ValidationError, (led, w))
           else
             (case run_writer (start_writer led) s w of
                (Inl e, w') \<Rightarrow> (Inl e, (led, w'))
              | (Inr _, w') \<Rightarrow> (Inr new_id, (put_attempt new_id (new_attempt s now) led, w'))))"

definition position_taken :: "int \<Rightarrow> int \<Rightarrow> 'w ledger \<Rightarrow> bool" where
  "position_taken ci ai led \<longleftrightarrow>
     list_ex (\<lambda>a. call_index (att_start a) = ci \<and> attempt_index (att_start a) = ai)
       (ledger_attempts led)"

definition begin_attempt ::
  "pystr \<Rightarrow> rat \<Rightarrow> model_call_kind \<Rightarrow> pystr option \<Rightarrow> 'w ledger_state \<Rightarrow>
   (exn + pystr) \<times> 'w ledger_state" where
  "begin_attempt new_id now kind retry_of st =
     (case st of (led, w) \<Rightarrow>
        (case retry_of of
           None \<Rightarrow>
             register_attempt new_id now kind (next_call_index led) 1
               (led\<lparr>next_call_index := next_call_index led + 1\<rparr>, w)
         | Some parent \<Rightarrow>
             (case find_attempt parent led of
                None \<Rightarrow> (Inl (UsageMeteringError ''retry_parent_invalid''), (led, w))
              | Some previous \<Rightarrow>
                  if att_status previous = Started
                  then (Inl (UsageMeteringError ''retry_parent_invalid''), (led, w))
                  else
                    let ci = call_index (att_start previous);
                        ai = attempt_index (att_start previous) + 1
                    in if position_taken ci ai led
                       then (Inl (UsageMeteringError ''retry_attempt_duplicate''), (led, w))
                       else register_attempt new_id now kind ci ai (led, w))))"

definition require_started :: "pystr \<Rightarrow> 'w ledger \<Rightarrow> exn + attempt" where
  "require_started i led =
     (case find_attempt i led of
        None \<Rightarrow> Inl (UsageMeteringError ''provider_attempt_not_active'')
      | Some a \<Rightarrow>
          if att_status a \<noteq> Started
          then Inl (UsageMeteringError ''provider_attempt_not_active'') else Inr a)"

definition observe_usage ::
  "pystr \<Rightarrow> token_usage \<Rightarrow> 'w ledger \<Rightarrow> (exn + unit) \<times> 'w ledger" where
  "observe_usage i u led =
     (case require_started i led of
        Inl e \<Rightarrow> (Inl e, led)
      | Inr a \<Rightarrow>
          (case att_usage a of
             None \<Rightarrow> (Inr (), put_attempt i (a\<lparr>att_usage := Some u\<rparr>) led)
           | Some u' \<Rightarrow>
               if u' \<noteq> u then (Inl (UsageMeteringError ''provider_usage_conflict''), led)
               else (Inr (), led)))"

text \<open>\<open>finish_attempt\<close> up to the lock; \<open>Inr True\<close> when there is nothing left to persist.\<close>

definition finish_attempt_reserve ::
  "rat \<Rightarrow> pystr \<Rightarrow> attempt_status \<Rightarrow> 'w ledger \<Rightarrow> (exn + bool) \<times> 'w ledger" where
  "finish_attempt_reserve now i status led =
     (case find_attempt i led of
        None \<Rightarrow> (Inl (UsageMeteringError ''provider_attempt_unknown''), led)
      | Some a \<Rightarrow>
          if att_status a \<noteq> Started
          then if att_status a = status then (Inr True, led)
               else (Inl (UsageMeteringError ''provider_attempt_terminal_conflict''), led)
          else
            let finish = \<lparr>finish_attempt_id = i, finish_status = status,
                          finish_usage = att_usage a\<rparr>
            in if \<not> valid_attempt_finish finish then (Inl ValidationError, led)
               else if att_pending_finish a = None
               then (Inr False, put_attempt i (a\<lparr>att_pending_finish := Some finish,
                                                 att_pending_completed_at := Some now\<rparr>) led)
               else if att_pending_finish a \<noteq> Some finish
               then (Inl (UsageMeteringError ''provider_attempt_terminal_conflict''), led)
               else (Inr False, led))"

definition persist_pending_finish ::
  "pystr \<Rightarrow> 'w ledger_state \<Rightarrow> (exn + unit) \<times> 'w ledger_state" where
  "persist_pending_finish i st =
     (case st of (led, w) \<Rightarrow>
        (case find_attempt i led of
           None \<Rightarrow> (Inl (UsageMeteringError ''provider_attempt_unknown''), (led, w))
         | Some a \<Rightarrow>
             (case (att_pending_finish a, att_pending_completed_at a) of
                (Some finish, Some completed) \<Rightarrow>
                  (case run_writer (finish_writer led) finish w of
                     (Inl e, w') \<Rightarrow> (Inl e, (led, w'))
                   | (Inr _, w') \<Rightarrow>
                       (Inr (),
                        (put_attempt i
                           (a\<lparr>att_status := finish_status finish,
                              att_completed_at := Some completed,
                              att_usage_persisted := finish_usage finish \<noteq> None,
                              att_pending_finish := None,
                              att_pending_completed_at := None\<rparr>) led, w')))
              | _ \<Rightarrow> (Inl (UsageMeteringError ''provider_attempt_pending_finish_invalid''),
                      (led, w)))))"

text \<open>\<open>finish_attempt\<close> under the lock: the status is read again.\<close>

definition finish_attempt_commit ::
  "pystr \<Rightarrow> attempt_status \<Rightarrow> 'w ledger_state \<Rightarrow> (exn + unit) \<times> 'w ledger_state" where
  "finish_attempt_commit i status st =
     (case find_attempt i (fst st) of
        None \<Rightarrow> (Inl (UsageMeteringError ''provider_attempt_unknown''), st)
      | Some a \<Rightarrow>
          if att_status a \<noteq> Started
          then if att_status a = status then (Inr (), st)
               else (Inl (UsageMeteringError ''provider_attempt_terminal_conflict''), st)
          else persist_pending_finish i st)"

definition finish_attempt ::
  "rat \<Rightarrow> pystr \<Rightarrow> attempt_status \<Rightarrow> 'w ledger_state \<Rightarrow> (exn + unit) \<times> 'w ledger_state" where
  "finish_attempt now i status st =
     (case finish_attempt_reserve now i status (fst st) of
        (Inl e, led) \<Rightarrow> (Inl e, (led, snd st))
      | (Inr True, led) \<Rightarrow> (Inr (), (led, snd st))
      | (Inr False, led) \<Rightarrow> finish_attempt_commit i status (led, snd st))"

text \<open>One round of the loop of \<open>settle_for_terminal\<close>, and the loop over the ids.\<close>

definition settle_attempt :: "pystr \<Rightarrow> 'w ledger_state \<Rightarrow> (exn + unit) \<times> 'w ledger_state" where
  "settle_attempt i st =
     (case st of (led, w) \<Rightarrow>
        (case find_attempt i led of
           None \<Rightarrow> (Inr (), (led, w))
         | Some a \<Rightarrow>
             if att_status a \<noteq> Started then (Inr (), (led, w))
             else if att_pending_finish a \<noteq> None then persist_pending_finish i (led, w)
             else
               (case (att_usage a, usage_writer led) of
                  (Some u, Some _) \<Rightarrow>
                    if att_usage_persisted a then (Inr (), (led, w))
                    else
                      (case run_writer (usage_writer led)
                              \<lparr>usage_attempt_id = start_attempt_id (att_start a),
                               observed_usage = u\<rparr> w of
                         (Inl e, w') \<Rightarrow> (Inl e, (led, w'))
                       | (Inr _, w') \<Rightarrow>
                           (Inr (), (put_attempt i (a\<lparr>att_usage_persisted := True\<rparr>) led, w')))
                | _ \<Rightarrow> (Inr (), (led, w)))))"

fun settle_attempts ::
  "pystr list \<Rightarrow> 'w ledger_state \<Rightarrow> (exn + unit) \<times> 'w ledger_state" where
  "settle_attempts [] st = (Inr (), st)"
| "settle_attempts (i # is) st = and_then (settle_attempt i st) (\<lambda>_. settle_attempts is)"

definition settle_for_terminal :: "'w ledger_state \<Rightarrow> (exn + unit) \<times> 'w ledger_state" where
  "settle_for_terminal st = settle_attempts (map fst (attempts (fst st))) st"

definition record_first_visible :: "rat \<Rightarrow> 'w ledger \<Rightarrow> 'w ledger" where
  "record_first_visible now led =
     (if first_visible_at led = None then led\<lparr>first_visible_at := Some now\<rparr> else led)"

section \<open>The snapshot\<close>

definition token_metric :: "attempt list \<Rightarrow> token_field \<Rightarrow> exn + usage_metric" where
  "token_metric atts f =
     (if atts = [] then make_usage_metric (Some 0) Complete
      else
        let vals = map (\<lambda>a. case att_usage a of Some u \<Rightarrow> get_token f u | None \<Rightarrow> None) atts;
            known = List.map_filter id vals
        in if length known = length vals then make_usage_metric (Some (sum_list known)) Complete
           else if known \<noteq> [] then make_usage_metric None Partial
           else make_usage_metric None Unavailable)"

text \<open>\<open>int(x)\<close> truncates towards zero.\<close>

definition py_trunc :: "rat \<Rightarrow> int" where
  "py_trunc x = (if 0 \<le> x then \<lfloor>x\<rfloor> else - \<lfloor>- x\<rfloor>)"

definition elapsed_ms :: "rat \<Rightarrow> rat \<Rightarrow> int" where
  "elapsed_ms from_time to_time = max 0 (py_trunc ((to_time - from_time) * 1000))"

definition duration_ms :: "'w ledger \<Rightarrow> rat option \<Rightarrow> int option" where
  "duration_ms led e = map_option (elapsed_ms (started_at led)) e"

definition generation_duration_of :: "attempt list \<Rightarrow> int option" where
  "generation_duration_of atts =
     (case filter (\<lambda>a. call_kind (att_start a) \<in> {DirectCall, FinalizerCall}) atts of
        [a] \<Rightarrow>
          (case att_completed_at a of
             Some completed \<Rightarrow>
               if att_status a \<noteq> Succeeded then None
               else Some (elapsed_ms (att_started_at a) completed)
           | None \<Rightarrow> None)
      | _ \<Rightarrow> None)"

definition retries_of :: "attempt list \<Rightarrow> int" where
  "retries_of atts = int (length (filter (\<lambda>a. 1 < attempt_index (att_start a)) atts))"

definition snapshot ::
  "rat \<Rightarrow> run_error_category option \<Rightarrow> 'w ledger \<Rightarrow> exn + run_usage" where
  "snapshot now category led =
     (let atts = ledger_attempts led in
      bindE (token_metric atts InputTokens) (\<lambda>mi.
      bindE (token_metric atts OutputTokens) (\<lambda>mo.
      bindE (token_metric atts CachedTokens) (\<lambda>mc.
      bindE (token_metric atts ReasoningTokens) (\<lambda>mr.
      bindE (token_metric atts TotalTokens) (\<lambda>mt.
      make_run_usage
        \<lparr>usage_schema_version = Some METERING_SCHEMA_VERSION, usage_state = FinalState,
         model_call_count = Some (int (length atts)),
         retry_count = Some (retries_of atts),
         input_metric = mi, output_metric = mo, cached_metric = mc, reasoning_metric = mr,
         total_metric = mt,
         time_to_first_visible_ms = duration_ms led (first_visible_at led),
         generation_duration_ms = generation_duration_of atts,
         run_duration_ms = duration_ms led (Some now),
         error_category = category\<rparr>))))))"


section \<open>Metrics of a snapshot\<close>

text \<open>One attempt as a metric of its own: its reported value, or nothing.\<close>

definition attempt_metric :: "token_field \<Rightarrow> attempt \<Rightarrow> usage_metric" where
  "attempt_metric f a =
     (case att_usage a of
        None \<Rightarrow> \<lparr>metric_value = None, availability = Unavailable\<rparr>
      | Some u \<Rightarrow>
          (case get_token f u of
             None \<Rightarrow> \<lparr>metric_value = None, availability = Unavailable\<rparr>
           | Some n \<Rightarrow> \<lparr>metric_value = Some n, availability = Complete\<rparr>))"

lemma length_map_filter: "length (List.map_filter f xs) \<le> length xs"
  by (induction xs) (auto simp: List.map_filter_simps split: option.splits)

lemma map_filter_full:
  "length (List.map_filter f xs) = length xs \<longleftrightarrow> (\<forall>x \<in> set xs. f x \<noteq> None)"
proof (induction xs)
  case (Cons x xs)
  then show ?case
    using length_map_filter [of f xs]
    by (auto simp: List.map_filter_simps split: option.splits)
qed (simp add: List.map_filter_simps)

lemma map_filter_Nil: "List.map_filter f xs = [] \<longleftrightarrow> (\<forall>x \<in> set xs. f x = None)"
  by (induction xs) (auto simp: List.map_filter_simps split: option.splits)

lemma sum_map_filter_full:
  "\<forall>x \<in> set xs. f x \<noteq> None \<Longrightarrow> sum_list (List.map_filter f xs) = sum_list (map (the \<circ> f) xs)"
  by (induction xs) (auto simp: List.map_filter_simps split: option.splits)

lemma map_filter_id_map: "List.map_filter id (map f xs) = List.map_filter f xs"
  by (induction xs) (auto simp: List.map_filter_simps split: option.splits)

lemma attempt_metric_states:
  "availability (attempt_metric f a) \<in> {Complete, Unavailable}"
  by (auto simp: attempt_metric_def split: option.splits)

lemma attempt_metric_Complete:
  "availability (attempt_metric f a) = Complete
     \<longleftrightarrow> (case att_usage a of Some u \<Rightarrow> get_token f u | None \<Rightarrow> None) \<noteq> None"
  by (auto simp: attempt_metric_def split: option.splits)

lemma attempt_metric_value:
  "metric_value (attempt_metric f a) = (case att_usage a of Some u \<Rightarrow> get_token f u | None \<Rightarrow> None)"
  by (auto simp: attempt_metric_def split: option.splits)

text \<open>The Token metric the ledger computes for a field is the aggregate of its attempts taken
  one by one, where an attempt that did not report the field counts as unavailable: the ledger
  never derives a total from partial reports, for any list of attempts.\<close>

theorem token_metric_aggregates:
  "token_metric atts f = aggregate_usage_metrics (map (attempt_metric f) atts)"
proof (cases "atts = []")
  case True
  then show ?thesis by (simp add: token_metric_def aggregate_usage_metrics_def)
next
  case False
  define g where "g = (\<lambda>a :: attempt. case att_usage a of Some u \<Rightarrow> get_token f u | None \<Rightarrow> None)"
  define S where "S = availability ` attempt_metric f ` set atts"
  have S: "S \<subseteq> {Complete, Unavailable}" "S \<noteq> {}"
    using False attempt_metric_states [of f] by (auto simp: S_def)
  have gC: "g a \<noteq> None \<longleftrightarrow> availability (attempt_metric f a) = Complete" for a
    by (simp only: attempt_metric_Complete g_def)
  have gV: "metric_value (attempt_metric f a) = g a" for a
    by (simp only: attempt_metric_value g_def)
  have full: "S = {Complete} \<longleftrightarrow> (\<forall>a \<in> set atts. g a \<noteq> None)"
    using False unfolding S_def gC by (cases atts) auto
  have some: "Complete \<in> S \<longleftrightarrow> (\<exists>a \<in> set atts. g a \<noteq> None)"
    unfolding S_def gC by force
  have sum: "\<forall>a \<in> set atts. g a \<noteq> None \<Longrightarrow>
      sum_list (map (the \<circ> g) atts) =
      sum_list (map ((\<lambda>m. case metric_value m of None \<Rightarrow> 0 | Some v \<Rightarrow> v) \<circ> attempt_metric f) atts)"
    by (rule arg_cong [where f = sum_list], rule map_cong)
       (auto simp: gV)
  have agg: "aggregate_usage_metrics (map (attempt_metric f) atts) =
     (if S = {Complete}
      then make_usage_metric (Some (sum_list (map ((\<lambda>m. case metric_value m of None \<Rightarrow> 0 | Some v \<Rightarrow> v)
              \<circ> attempt_metric f) atts))) Complete
      else if Complete \<in> S then make_usage_metric None Partial
      else make_usage_metric None Unavailable)"
    using False S unfolding aggregate_usage_metrics_def Let_def set_map S_def by auto
  have "token_metric atts f =
     (if \<forall>a \<in> set atts. g a \<noteq> None
      then make_usage_metric (Some (sum_list (List.map_filter g atts))) Complete
      else if \<exists>a \<in> set atts. g a \<noteq> None then make_usage_metric None Partial
      else make_usage_metric None Unavailable)"
    using False map_filter_full [of g atts] map_filter_Nil [of g atts]
    unfolding token_metric_def Let_def g_def [symmetric] map_filter_id_map by auto
  then show ?thesis
    using full some sum sum_map_filter_full [of atts g] by (auto simp: agg)
qed

lemma token_metric_total:
  assumes "\<forall>a \<in> set atts. \<forall>u. att_usage a = Some u \<longrightarrow> valid_token_usage u"
  shows "\<exists>m. token_metric atts f = Inr m \<and> valid_usage_metric m
    \<and> availability m \<in> {Complete, Partial, Unavailable}"
proof -
  have pos: "\<And>u n. valid_token_usage u \<Longrightarrow> get_token f u = Some n \<Longrightarrow> 0 \<le> n"
    by (cases f) (auto simp: valid_token_usage_def token_fields_def nonneg_def)
  have v: "\<forall>m \<in> set (map (attempt_metric f) atts). valid_usage_metric m"
    using assms by (auto simp: attempt_metric_def valid_usage_metric_def pos split: option.splits)
  obtain m where m: "aggregate_usage_metrics (map (attempt_metric f) atts) = Inr m"
    "valid_usage_metric m"
    using aggregate_valid [OF v] by blast
  have "availability m \<in> {Complete, Partial, Unavailable}"
    using m(1) by (auto simp: aggregate_usage_metrics_def make_usage_metric_def Let_def
        attempt_metric_def split: if_splits option.splits)
  with m show ?thesis by (simp add: token_metric_aggregates)
qed


section \<open>Invariant\<close>

definition open_attempt_ok :: "pystr \<Rightarrow> attempt \<Rightarrow> bool" where
  "open_attempt_ok i a \<longleftrightarrow>
     att_completed_at a = None
     \<and> (att_pending_finish a = None \<longleftrightarrow> att_pending_completed_at a = None)
     \<and> (case att_pending_finish a of
          None \<Rightarrow> True
        | Some f \<Rightarrow> finish_attempt_id f = i \<and> valid_attempt_finish f)"

definition closed_attempt_ok :: "attempt \<Rightarrow> bool" where
  "closed_attempt_ok a \<longleftrightarrow>
     att_status a \<in> finish_statuses \<and> att_completed_at a \<noteq> None
     \<and> att_pending_finish a = None \<and> att_pending_completed_at a = None"

definition attempt_ok :: "int \<Rightarrow> pystr \<Rightarrow> attempt \<Rightarrow> bool" where
  "attempt_ok next_index i a \<longleftrightarrow>
     start_attempt_id (att_start a) = i \<and> valid_attempt_start (att_start a)
     \<and> call_index (att_start a) < next_index
     \<and> (case att_usage a of None \<Rightarrow> True | Some u \<Rightarrow> valid_token_usage u)
     \<and> (if att_status a = Started then open_attempt_ok i a else closed_attempt_ok a)"

definition position :: "attempt \<Rightarrow> int \<times> int" where
  "position a = (call_index (att_start a), attempt_index (att_start a))"

text \<open>Every retry follows a finished attempt of the same call.\<close>

definition retries_follow :: "attempt list \<Rightarrow> bool" where
  "retries_follow atts \<longleftrightarrow>
     (\<forall>a \<in> set atts. 1 < attempt_index (att_start a) \<longrightarrow>
        (\<exists>p \<in> set atts. position p = (call_index (att_start a), attempt_index (att_start a) - 1)
           \<and> att_status p \<noteq> Started))"

definition ledger_inv :: "'w ledger \<Rightarrow> bool" where
  "ledger_inv led \<longleftrightarrow>
     1 \<le> next_call_index led
     \<and> distinct (map fst (attempts led))
     \<and> (\<forall>(i, a) \<in> set (attempts led). attempt_ok (next_call_index led) i a)
     \<and> distinct (map position (ledger_attempts led))
     \<and> retries_follow (ledger_attempts led)"

lemma ledger_inv_found:
  "ledger_inv led \<Longrightarrow> find_attempt i led = Some a \<Longrightarrow> attempt_ok (next_call_index led) i a"
  by (auto simp: ledger_inv_def find_attempt_def dest: map_of_SomeD)

lemma find_attempt_in: "find_attempt i led = Some a \<Longrightarrow> a \<in> set (ledger_attempts led)"
  by (force simp: find_attempt_def ledger_attempts_def dest: map_of_SomeD)

lemma find_put [simp]:
  "find_attempt j (put_attempt i a led) = (if j = i then Some a else find_attempt j led)"
  by (simp add: find_attempt_def put_attempt_def update_conv')

lemma put_keeps [simp]:
  "next_call_index (put_attempt i a led) = next_call_index led"
  "started_at (put_attempt i a led) = started_at led"
  "first_visible_at (put_attempt i a led) = first_visible_at led"
  "start_writer (put_attempt i a led) = start_writer led"
  "finish_writer (put_attempt i a led) = finish_writer led"
  "usage_writer (put_attempt i a led) = usage_writer led"
  by (simp_all add: put_attempt_def)

text \<open>Overwriting a registered attempt replaces one entry and keeps the order.\<close>

lemma update_split:
  assumes "map_of xs i = Some a" and "distinct (map fst xs)"
  shows "\<exists>ps qs. xs = ps @ (i, a) # qs \<and> AList.update i a' xs = ps @ (i, a') # qs"
  using assms
proof (induction xs)
  case (Cons x xs)
  show ?case
  proof (cases "fst x = i")
    case True
    with Cons.prems have "x # xs = [] @ (i, a) # xs" "AList.update i a' (x # xs) = [] @ (i, a') # xs"
      by (cases x; simp)+
    then show ?thesis by blast
  next
    case False
    with Cons obtain ps qs where "xs = ps @ (i, a) # qs" "AList.update i a' xs = ps @ (i, a') # qs"
      by (cases x) auto
    with False have "x # xs = (x # ps) @ (i, a) # qs"
      "AList.update i a' (x # xs) = (x # ps) @ (i, a') # qs"
      by (cases x; simp)+
    then show ?thesis by blast
  qed
qed simp

lemma ledger_inv_put:
  assumes inv: "ledger_inv led" and found: "find_attempt i led = Some a"
    and start: "att_start a' = att_start a"
    and closed: "att_status a \<noteq> Started \<Longrightarrow> att_status a' \<noteq> Started"
    and ok: "attempt_ok (next_call_index led) i a'"
  shows "ledger_inv (put_attempt i a' led)"
proof -
  obtain ps qs where split: "attempts led = ps @ (i, a) # qs"
    "AList.update i a' (attempts led) = ps @ (i, a') # qs"
    using update_split found inv by (metis find_attempt_def ledger_inv_def)
  have put: "attempts (put_attempt i a' led) = ps @ (i, a') # qs"
    by (simp add: put_attempt_def split(2))
  have pos: "position a' = position a" by (simp add: position_def start)
  have "retries_follow (map snd ps @ a' # map snd qs)"
    unfolding retries_follow_def
  proof (intro ballI impI)
    fix b assume b: "b \<in> set (map snd ps @ a' # map snd qs)" "1 < attempt_index (att_start b)"
    define b0 where "b0 = (if b \<in> set (map snd ps) \<union> set (map snd qs) then b else a)"
    have "b0 \<in> set (ledger_attempts led)" "att_start b0 = att_start b"
      using b(1) start by (auto simp: b0_def ledger_attempts_def split)
    with inv b(2) obtain p where p: "p \<in> set (ledger_attempts led)" "att_status p \<noteq> Started"
      "position p = (call_index (att_start b), attempt_index (att_start b) - 1)"
      unfolding ledger_inv_def retries_follow_def by metis
    show "\<exists>p \<in> set (map snd ps @ a' # map snd qs).
        position p = (call_index (att_start b), attempt_index (att_start b) - 1)
        \<and> att_status p \<noteq> Started"
    proof (cases "p = a")
      case True
      with p closed pos show ?thesis by (intro bexI [of _ a']) auto
    next
      case False
      with p show ?thesis by (intro bexI [of _ p]) (auto simp: ledger_attempts_def split)
    qed
  qed
  with inv ok show ?thesis
    by (auto simp: ledger_inv_def put split(1) ledger_attempts_def pos)
qed

lemma ledger_inv_put_new:
  assumes inv: "ledger_inv led" and fresh: "find_attempt i led = None"
    and ok: "attempt_ok (next_call_index led) i a"
    and pos: "position a \<notin> position ` set (ledger_attempts led)"
    and parent: "1 < attempt_index (att_start a) \<Longrightarrow>
      \<exists>p \<in> set (ledger_attempts led). att_status p \<noteq> Started
        \<and> position p = (call_index (att_start a), attempt_index (att_start a) - 1)"
  shows "ledger_inv (put_attempt i a led)"
proof -
  have "i \<notin> fst ` set (attempts led)"
    using fresh by (simp add: find_attempt_def map_of_eq_None_iff)
  then have "attempts (put_attempt i a led) = attempts led @ [(i, a)]"
    by (simp add: put_attempt_def keys_update_fresh)
  with assms \<open>i \<notin> _\<close> show ?thesis
    by (auto simp: ledger_inv_def ledger_attempts_def retries_follow_def image_image)
qed

lemma ledger_inv_next: "ledger_inv led \<Longrightarrow> ledger_inv (led\<lparr>next_call_index := next_call_index led + 1\<rparr>)"
  by (fastforce simp: ledger_inv_def ledger_attempts_def attempt_ok_def)

lemma ledger_inv_calls_below:
  "ledger_inv led \<Longrightarrow> b \<in> set (ledger_attempts led) \<Longrightarrow> call_index (att_start b) < next_call_index led"
  by (force simp: ledger_inv_def ledger_attempts_def attempt_ok_def)


section \<open>Operations preserve the invariant\<close>

lemma register_attempt_inv:
  assumes reg: "register_attempt new_id now k ci ai (led, w) = (res, st')"
    and inv: "ledger_inv led" and fresh: "find_attempt new_id led = None"
    and below: "ci < next_call_index led"
    and pos: "(ci, ai) \<notin> position ` set (ledger_attempts led)"
    and parent: "1 < ai \<Longrightarrow> \<exists>p \<in> set (ledger_attempts led). att_status p \<noteq> Started
        \<and> position p = (ci, ai - 1)"
  shows "ledger_inv (fst st')"
proof -
  define s where "s = \<lparr>start_attempt_id = new_id, call_index = ci, attempt_index = ai, call_kind = k\<rparr>"
  have "valid_attempt_start s \<Longrightarrow> ledger_inv (put_attempt new_id (new_attempt s now) led)"
    using inv fresh
  proof (rule ledger_inv_put_new)
    assume "valid_attempt_start s"
    then show "attempt_ok (next_call_index led) new_id (new_attempt s now)"
      using below by (simp add: attempt_ok_def new_attempt_def s_def open_attempt_ok_def)
    show "position (new_attempt s now) \<notin> position ` set (ledger_attempts led)"
    proof -
      have "position (new_attempt s now) = (ci, ai)"
        by (simp add: position_def new_attempt_def s_def)
      with pos show ?thesis by simp
    qed
  qed (use parent in \<open>simp add: new_attempt_def s_def\<close>)
  with inv reg show ?thesis
    by (auto simp: register_attempt_def Let_def simp flip: s_def split: if_splits prod.splits sum.splits)
qed

lemma position_taken_iff:
  "position_taken ci ai led \<longleftrightarrow> (ci, ai) \<in> position ` set (ledger_attempts led)"
  by (auto simp: position_taken_def list_ex_iff position_def image_iff)

lemma begin_attempt_inv:
  assumes "begin_attempt new_id now k r (led, w) = (res, st')"
    and inv: "ledger_inv led" and fresh: "find_attempt new_id led = None"
  shows "ledger_inv (fst st')"
proof (cases r)
  case None
  define led1 where "led1 = led\<lparr>next_call_index := next_call_index led + 1\<rparr>"
  have led1: "ledger_attempts led1 = ledger_attempts led" "find_attempt new_id led1 = None"
    using fresh by (simp_all add: led1_def ledger_attempts_def find_attempt_def)
  have "register_attempt new_id now k (next_call_index led) 1 (led1, w) = (res, st')"
    using assms(1) None by (simp add: begin_attempt_def led1_def)
  moreover have "ledger_inv led1" using inv by (simp add: led1_def ledger_inv_next)
  ultimately show ?thesis
    by (rule register_attempt_inv)
       (use led1 ledger_inv_calls_below [OF inv] in \<open>fastforce simp: led1_def position_def\<close>)+
next
  case (Some parent)
  show ?thesis
  proof (cases "find_attempt parent led")
    case None
    with Some assms show ?thesis by (auto simp: begin_attempt_def)
  next
    case (Some previous)
    note parent = \<open>r = Some parent\<close>
    define ci where "ci = call_index (att_start previous)"
    define ai where "ai = attempt_index (att_start previous) + 1"
    note prev = find_attempt_in [OF Some] ledger_inv_found [OF inv Some]
    show ?thesis
    proof (cases "att_status previous = Started \<or> position_taken ci ai led")
      case True
      with Some parent assms show ?thesis
        by (auto simp: begin_attempt_def Let_def simp flip: ci_def ai_def split: if_splits)
    next
      case False
      then have "register_attempt new_id now k ci ai (led, w) = (res, st')"
        using assms(1) parent Some by (simp add: begin_attempt_def Let_def flip: ci_def ai_def)
      then show ?thesis using inv fresh
      proof (rule register_attempt_inv)
        show "ci < next_call_index led" using prev by (simp add: ci_def attempt_ok_def)
        show "(ci, ai) \<notin> position ` set (ledger_attempts led)"
          using False by (simp add: position_taken_iff)
        show "\<exists>p \<in> set (ledger_attempts led). att_status p \<noteq> Started \<and> position p = (ci, ai - 1)"
          using prev False by (intro bexI [of _ previous]) (auto simp: position_def ci_def ai_def)
      qed
    qed
  qed
qed

lemma observe_usage_inv:
  assumes "observe_usage i u led = (res, led')" "ledger_inv led" "valid_token_usage u"
  shows "ledger_inv led'"
proof -
  have "ledger_inv (put_attempt i (a\<lparr>att_usage := Some u\<rparr>) led)" if "find_attempt i led = Some a" for a
    using assms(2) that
    by (rule ledger_inv_put)
       (use ledger_inv_found [OF assms(2) that] assms(3)
         in \<open>auto simp: attempt_ok_def open_attempt_ok_def closed_attempt_ok_def\<close>)
  with assms show ?thesis
    by (auto simp: observe_usage_def require_started_def split: if_splits option.splits sum.splits)
qed

lemma finish_attempt_reserve_inv:
  assumes "finish_attempt_reserve now i status led = (res, led')" "ledger_inv led"
  shows "ledger_inv led'"
proof -
  have "ledger_inv (put_attempt i (a\<lparr>att_pending_finish := Some f,
      att_pending_completed_at := Some now\<rparr>) led)"
    if "find_attempt i led = Some a" "att_status a = Started" "valid_attempt_finish f"
      "finish_attempt_id f = i" for a f
    using assms(2) that(1)
    by (rule ledger_inv_put)
       (use ledger_inv_found [OF assms(2) that(1)] that
         in \<open>auto simp: attempt_ok_def open_attempt_ok_def\<close>)
  with assms show ?thesis
    by (auto simp: finish_attempt_reserve_def Let_def split: if_splits option.splits)
qed

lemma persist_pending_finish_inv:
  assumes "persist_pending_finish i (led, w) = (res, st')" "ledger_inv led"
    and "\<And>a. find_attempt i led = Some a \<Longrightarrow> att_status a = Started"
  shows "ledger_inv (fst st')"
proof -
  have "ledger_inv (put_attempt i (a\<lparr>att_status := finish_status f, att_completed_at := Some c,
       att_usage_persisted := p, att_pending_finish := None, att_pending_completed_at := None\<rparr>) led)"
    if found: "find_attempt i led = Some a" and "att_pending_finish a = Some f" for a f c p
  proof -
    have "valid_attempt_finish f"
      using ledger_inv_found [OF assms(2) found] assms(3) [OF found] that(2)
      by (simp add: attempt_ok_def open_attempt_ok_def)
    then have "finish_status f \<in> finish_statuses" "finish_status f \<noteq> Started"
      by (auto simp: valid_attempt_finish_def finish_statuses_def)
    with assms(2) found show ?thesis
      using ledger_inv_found [OF assms(2) found]
      by (intro ledger_inv_put) (auto simp: attempt_ok_def closed_attempt_ok_def)
  qed
  with assms(1,2) show ?thesis
    by (auto simp: persist_pending_finish_def split: option.splits prod.splits sum.splits)
qed

lemma finish_attempt_commit_inv:
  "finish_attempt_commit i status (led, w) = (res, st') \<Longrightarrow> ledger_inv led \<Longrightarrow> ledger_inv (fst st')"
  by (auto simp: finish_attempt_commit_def split: option.splits if_splits
      dest!: persist_pending_finish_inv)

lemma settle_attempt_inv:
  assumes "settle_attempt i (led, w) = (res, st')" "ledger_inv led"
  shows "ledger_inv (fst st')"
proof -
  have "ledger_inv (put_attempt i (a\<lparr>att_usage_persisted := True\<rparr>) led)"
    if "find_attempt i led = Some a" for a
    using assms(2) that
    by (rule ledger_inv_put)
       (use ledger_inv_found [OF assms(2) that]
         in \<open>auto simp: attempt_ok_def open_attempt_ok_def closed_attempt_ok_def\<close>)
  moreover have "ledger_inv (fst st')"
    if "persist_pending_finish i (led, w) = (res, st')" "find_attempt i led = Some a"
      "att_status a = Started" for a
    using that(1) assms(2) by (rule persist_pending_finish_inv) (use that in simp)
  ultimately show ?thesis
    using assms by (auto simp: settle_attempt_def split: option.splits if_splits prod.splits sum.splits)
qed

lemma settle_attempts_inv:
  "settle_attempts ids st = (res, st') \<Longrightarrow> ledger_inv (fst st) \<Longrightarrow> ledger_inv (fst st')"
proof (induction ids arbitrary: st)
  case (Cons i ids)
  from Cons.prems(1) show ?case
  proof (simp, elim and_then_cases)
    fix e assume "settle_attempt i st = (Inl e, st')"
    then show ?thesis using settle_attempt_inv Cons.prems(2) by (metis prod.collapse)
  next
    fix x s assume "settle_attempt i st = (Inr x, s)" "settle_attempts ids s = (res, st')"
    then show ?thesis using settle_attempt_inv Cons by (metis prod.collapse)
  qed
qed simp


section \<open>The ledger as a state machine\<close>

text \<open>
  Any interleaving of the operations, with their failures: a step keeps what an operation
  changed before it raised. \<open>step_world\<close> is any change of the outer state between two
  operations. The new attempt id is fresh, which is what \<open>uuid4\<close> is used for.
\<close>

inductive ledger_step :: "'w ledger_state \<Rightarrow> 'w ledger_state \<Rightarrow> bool" where
  step_bind:
    "bind_persistence sw fw uw led = (r, led') \<Longrightarrow> ledger_step (led, w) (led', w)"
| step_begin:
    "find_attempt new_id led = None \<Longrightarrow> begin_attempt new_id now k parent (led, w) = (r, st')
     \<Longrightarrow> ledger_step (led, w) st'"
| step_observe:
    "valid_token_usage u \<Longrightarrow> observe_usage i u led = (r, led') \<Longrightarrow> ledger_step (led, w) (led', w)"
| step_reserve:
    "finish_attempt_reserve now i status led = (r, led') \<Longrightarrow> ledger_step (led, w) (led', w)"
| step_commit:
    "finish_attempt_commit i status (led, w) = (r, st') \<Longrightarrow> ledger_step (led, w) st'"
| step_settle:
    "settle_for_terminal (led, w) = (r, st') \<Longrightarrow> ledger_step (led, w) st'"
| step_visible:
    "ledger_step (led, w) (record_first_visible now led, w)"
| step_world:
    "ledger_step (led, w) (led, w')"

definition ledger_init :: "'w ledger_state \<Rightarrow> bool" where
  "ledger_init st \<longleftrightarrow> (case st of (led, w) \<Rightarrow> led = new_ledger (started_at led))"

lemma ledger_inv_cong:
  "attempts led' = attempts led \<Longrightarrow> next_call_index led' = next_call_index led
   \<Longrightarrow> ledger_inv led' = ledger_inv led"
  by (simp add: ledger_inv_def ledger_attempts_def)

lemma bind_persistence_inv:
  "bind_persistence sw fw uw led = (r, led') \<Longrightarrow> ledger_inv led' = ledger_inv led"
  by (rule ledger_inv_cong) (auto simp: bind_persistence_def split: if_splits)

lemma record_first_visible_inv: "ledger_inv (record_first_visible now led) = ledger_inv led"
  by (rule ledger_inv_cong) (simp_all add: record_first_visible_def)

interpretation ledger: guarded_machine ledger_init ledger_step "\<lambda>st. ledger_inv (fst st)"
proof unfold_locales
  fix s :: "'w ledger_state"
  assume "ledger_init s"
  then obtain now where "fst s = new_ledger now" by (cases s) (auto simp: ledger_init_def)
  then show "ledger_inv (fst s)"
    by (simp add: new_ledger_def ledger_inv_def ledger_attempts_def retries_follow_def)
next
  fix s t :: "'w ledger_state"
  assume "ledger_inv (fst s)" "ledger_step s t"
  from this(2,1) show "ledger_inv (fst t)"
  proof cases
    case (step_bind sw fw uw led r led' w)
    with \<open>ledger_inv (fst s)\<close> show ?thesis by (simp add: bind_persistence_inv)
  next
    case (step_begin led new_id now k parent w r)
    with \<open>ledger_inv (fst s)\<close> show ?thesis by (simp add: begin_attempt_inv)
  next
    case (step_observe u i led r led' w)
    with \<open>ledger_inv (fst s)\<close> show ?thesis by (simp add: observe_usage_inv)
  next
    case (step_reserve now i status led r led' w)
    with \<open>ledger_inv (fst s)\<close> show ?thesis by (simp add: finish_attempt_reserve_inv)
  next
    case (step_commit i status led w r)
    with \<open>ledger_inv (fst s)\<close> show ?thesis by (simp add: finish_attempt_commit_inv)
  next
    case (step_settle led w r)
    then have "settle_attempts (map fst (attempts led)) s = (r, t)"
      by (simp add: settle_for_terminal_def)
    then show ?thesis using \<open>ledger_inv (fst s)\<close> by (rule settle_attempts_inv)
  next
    case (step_visible led w now)
    with \<open>ledger_inv (fst s)\<close> show ?thesis
      by (simp add: record_first_visible_inv)
  qed simp
qed

section \<open>What a snapshot says\<close>

lemma first_attempt_exists:
  assumes "ledger_inv led" "a \<in> set (ledger_attempts led)"
  shows "\<exists>b \<in> set (ledger_attempts led).
    attempt_index (att_start b) = 1 \<and> call_index (att_start b) = call_index (att_start a)"
  using assms(2)
proof (induction "nat (attempt_index (att_start a))" arbitrary: a rule: less_induct)
  case less
  have "1 \<le> attempt_index (att_start a)"
    using assms(1) less.prems
    by (auto simp: ledger_inv_def ledger_attempts_def attempt_ok_def valid_attempt_start_def)
  then consider "attempt_index (att_start a) = 1" | "1 < attempt_index (att_start a)" by linarith
  then show ?case
  proof cases
    case 1
    with less.prems show ?thesis by blast
  next
    case 2
    with assms(1) less.prems obtain p where p: "p \<in> set (ledger_attempts led)"
      "position p = (call_index (att_start a), attempt_index (att_start a) - 1)"
      unfolding ledger_inv_def retries_follow_def by blast
    with 2 less.hyps [of p] show ?thesis by (auto simp: position_def)
  qed
qed

lemma retries_of_calls:
  assumes inv: "ledger_inv led"
  defines "calls \<equiv> (\<lambda>a. call_index (att_start a)) ` set (ledger_attempts led)"
  shows "retries_of (ledger_attempts led) = int (length (ledger_attempts led)) - int (card calls)"
proof -
  let ?as = "ledger_attempts led"
  let ?first = "\<lambda>a. attempt_index (att_start a) = 1"
  let ?ci = "\<lambda>a. call_index (att_start a)"
  have pos: "\<forall>a \<in> set ?as. 1 \<le> attempt_index (att_start a)"
    using inv by (auto simp: ledger_inv_def ledger_attempts_def attempt_ok_def valid_attempt_start_def)
  have "distinct (map position (filter ?first ?as))"
    using inv by (auto simp: ledger_inv_def intro: distinct_map_filter)
  moreover have "map position (filter ?first ?as) = map (\<lambda>c. (c, 1)) (map ?ci (filter ?first ?as))"
    by (simp add: position_def)
  ultimately have "distinct (map ?ci (filter ?first ?as))"
    by (metis distinct_map)
  moreover have "set (map ?ci (filter ?first ?as)) = calls"
  proof (intro subset_antisym subsetI)
    fix c assume "c \<in> calls"
    then obtain a where "a \<in> set ?as" "c = ?ci a" by (auto simp: calls_def)
    with first_attempt_exists [OF inv] obtain b where "b \<in> set ?as" "?first b" "c = ?ci b"
      by metis
    then show "c \<in> set (map ?ci (filter ?first ?as))" by auto
  qed (auto simp: calls_def)
  ultimately have "length (filter ?first ?as) = card calls"
    by (metis distinct_card length_map)
  moreover have "filter (\<lambda>a. 1 < attempt_index (att_start a)) ?as = filter (\<lambda>a. \<not> ?first a) ?as"
    using pos by (intro filter_cong) auto
  ultimately show ?thesis
    using sum_length_filter_compl [of ?first ?as] by (simp add: retries_of_def)
qed

lemma duration_nonneg [simp]: "nonneg (duration_ms led e)"
  by (cases e) (simp_all add: duration_ms_def elapsed_ms_def)

lemma generation_duration_nonneg [simp]: "nonneg (generation_duration_of atts)"
  by (auto simp: generation_duration_of_def elapsed_ms_def split: list.splits option.splits)

lemma ledger_usage_valid:
  assumes "ledger_inv led" "a \<in> set (ledger_attempts led)" "att_usage a = Some u"
  shows "valid_token_usage u"
  using assms by (auto simp: ledger_inv_def ledger_attempts_def attempt_ok_def split: option.splits)

lemma snapshot_ok:
  assumes inv: "ledger_inv led"
  shows "\<exists>u. snapshot now category led = Inr u \<and> valid_run_usage u
    \<and> model_call_count u = Some (int (length (ledger_attempts led)))
    \<and> retry_count u = Some (retries_of (ledger_attempts led))
    \<and> error_category u = category"
proof -
  have "\<exists>m. token_metric (ledger_attempts led) f = Inr m \<and> valid_usage_metric m
      \<and> availability m \<in> {Complete, Partial, Unavailable}" for f
    by (rule token_metric_total) (use ledger_usage_valid [OF inv] in blast)
  then obtain g where g: "\<And>f. token_metric (ledger_attempts led) f = Inr (g f)"
    "\<And>f. valid_usage_metric (g f)"
    and av: "\<And>f. availability (g f) \<in> {Complete, Partial, Unavailable}"
    by metis
  have "availability (g f) \<noteq> Unknown" "availability (g f) \<noteq> Pending" for f
    using av [of f] by auto
  moreover have "0 \<le> retries_of (ledger_attempts led)"
    "retries_of (ledger_attempts led) \<le> int (length (ledger_attempts led))"
    by (simp_all add: retries_of_def)
  ultimately show ?thesis
    by (simp add: snapshot_def Let_def g make_run_usage_def valid_run_usage_def valid_final_usage_def
        usage_metrics_def)
qed

text \<open>In every state the ledger can reach, whatever failed on the way, a snapshot is produced
  without raising, satisfies every validator of the usage document, counts exactly the recorded
  provider attempts, and its retry count is the number of attempts beyond the first of each model
  call, that is attempts minus distinct calls.\<close>

theorem ledger_snapshot_total:
  assumes "reaches ledger_init ledger_step (led, w)"
  shows "\<exists>u. snapshot now category led = Inr u \<and> valid_run_usage u
    \<and> model_call_count u = Some (int (length (attempts led)))
    \<and> retry_count u = Some (int (length (attempts led))
        - int (card ((\<lambda>a. call_index (att_start a)) ` set (ledger_attempts led))))
    \<and> error_category u = category"
proof -
  have "ledger_inv led"
    using ledger.reaches_inv [OF assms] by simp
  then show ?thesis
    using snapshot_ok [of led now category] retries_of_calls [of led]
    by (simp add: ledger_attempts_def)
qed


definition demo_attempt_id :: pystr where
  "demo_attempt_id = replicate 36 48"

definition demo_ledger :: "unit ledger_state" where
  "demo_ledger = snd (begin_attempt demo_attempt_id 1 DirectCall None (new_ledger 0, ()))"

lemma demo_ledger_reached: "reaches ledger_init ledger_step demo_ledger"
proof (rule reaches_step)
  show "reaches ledger_init ledger_step (new_ledger 0, ())"
    by (rule reaches_init) (simp add: ledger_init_def new_ledger_def)
  show "ledger_step (new_ledger 0, ()) demo_ledger"
    unfolding demo_ledger_def
    by (rule step_begin [of demo_attempt_id _ 1 DirectCall None], simp add: find_attempt_def new_ledger_def)
       (rule prod.collapse [symmetric])
qed

theorem ledger_snapshot_total_witness:
  "\<exists>u. snapshot 2 None (fst demo_ledger) = Inr u \<and> valid_run_usage u
    \<and> model_call_count u = Some 1"
  using ledger_snapshot_total [of "fst demo_ledger" "snd demo_ledger" 2 None] demo_ledger_reached
  by (auto simp: demo_ledger_def begin_attempt_def register_attempt_def new_ledger_def
      valid_attempt_start_def demo_attempt_id_def put_attempt_def)

section \<open>Finished attempts\<close>

lemma persist_pending_finish_other:
  "persist_pending_finish i (led, w) = (r, st') \<Longrightarrow> j \<noteq> i
   \<Longrightarrow> find_attempt j (fst st') = find_attempt j led"
  by (auto simp: persist_pending_finish_def split: option.splits prod.splits sum.splits)

lemma settle_attempt_keeps_closed:
  assumes "settle_attempt i st = (r, st')" "find_attempt j (fst st) = Some a" "att_status a \<noteq> Started"
  shows "find_attempt j (fst st') = Some a"
proof (cases "i = j")
  case True
  with assms show ?thesis by (cases st) (auto simp: settle_attempt_def)
next
  case False
  with assms show ?thesis
    by (cases st) (auto simp: settle_attempt_def persist_pending_finish_other
      split: option.splits if_splits prod.splits sum.splits)
qed

lemma settle_attempts_keeps_closed:
  assumes "settle_attempts ids st = (r, st')" "find_attempt j (fst st) = Some a" "att_status a \<noteq> Started"
  shows "find_attempt j (fst st') = Some a"
  using assms(1,2)
proof (induction ids arbitrary: st)
  case (Cons i ids)
  from Cons.prems(1) show ?case
  proof (simp, elim and_then_cases)
    fix e assume "settle_attempt i st = (Inl e, st')"
    then show ?thesis using Cons.prems(2) assms(3) by (rule settle_attempt_keeps_closed)
  next
    fix x s assume *: "settle_attempt i st = (Inr x, s)" "settle_attempts ids s = (r, st')"
    have "find_attempt j (fst s) = Some a"
      using *(1) Cons.prems(2) assms(3) by (rule settle_attempt_keeps_closed)
    with *(2) show ?thesis by (rule Cons.IH)
  qed
qed simp

lemma begin_attempt_keeps:
  assumes "begin_attempt new_id now k parent (led, w) = (r, st')" "j \<noteq> new_id"
  shows "find_attempt j (fst st') = find_attempt j led"
proof -
  have "find_attempt j (led\<lparr>next_call_index := n\<rparr>) = find_attempt j led" for n
    by (simp add: find_attempt_def)
  with assms show ?thesis
    by (auto simp: begin_attempt_def register_attempt_def Let_def
        split: option.splits if_splits prod.splits sum.splits)
qed

lemma ledger_step_keeps_closed:
  assumes "ledger_step s t" "find_attempt j (fst s) = Some a" "att_status a \<noteq> Started"
  shows "find_attempt j (fst t) = Some a"
  using assms(1)
proof cases
  case (step_bind sw fw uw led r led' w)
  with assms show ?thesis by (auto simp: bind_persistence_def find_attempt_def split: if_splits)
next
  case (step_begin new_id led now k parent w r)
  with assms have "j \<noteq> new_id" by auto
  with assms step_begin begin_attempt_keeps [OF step_begin(3), of j] show ?thesis by simp
next
  case (step_observe u i led r led' w)
  with assms show ?thesis
    by (auto simp: observe_usage_def require_started_def split: if_splits option.splits sum.splits)
next
  case (step_reserve now i status led r led' w)
  with assms show ?thesis
    by (auto simp: finish_attempt_reserve_def Let_def split: if_splits option.splits)
next
  case (step_commit i status led w r)
  show ?thesis
  proof (cases "i = j")
    case True
    with step_commit assms show ?thesis
      by (auto simp: finish_attempt_commit_def split: if_splits)
  next
    case False
    with step_commit assms persist_pending_finish_other [of i led w r t j] show ?thesis
      by (auto simp: finish_attempt_commit_def split: if_splits option.splits)
  qed
next
  case (step_settle led w r)
  then have "settle_attempts (map fst (attempts led)) s = (r, t)"
    by (simp add: settle_for_terminal_def)
  then show ?thesis using assms(2,3) by (rule settle_attempts_keeps_closed)
next
  case (step_visible led w now)
  with assms show ?thesis by (simp add: record_first_visible_def find_attempt_def)
next
  case (step_world led w w')
  with assms show ?thesis by simp
qed

text \<open>Once an attempt is finished, no later operation of the ledger changes anything about it:
  not its outcome, its times or its reported usage, in any interleaving.\<close>

theorem finished_attempt_immutable:
  assumes "reaches ledger_init ledger_step s" and "ledger_step\<^sup>*\<^sup>* s t"
    and "find_attempt i (fst s) = Some a" and "att_status a \<noteq> Started"
  shows "find_attempt i (fst t) = Some a"
proof (rule ledger.steps_preserve [OF assms(2)])
  show "ledger_inv (fst s)" using assms(1) by (rule ledger.reaches_inv)
  show "find_attempt i (fst s) = Some a" by (rule assms(3))
  show "find_attempt i (fst v) = Some a"
    if "ledger_step u v" "find_attempt i (fst u) = Some a" for u v
    using that assms(4) by (rule ledger_step_keeps_closed)
qed

lemma unit_state: "(fst s, ()) = s"
  by (cases s) simp

definition demo_finished :: "unit ledger_state" where
  "demo_finished = snd (finish_attempt_commit demo_attempt_id Succeeded
     (snd (finish_attempt_reserve 5 demo_attempt_id Succeeded (fst demo_ledger)), ()))"

lemmas demo_eval = demo_finished_def demo_ledger_def begin_attempt_def register_attempt_def
  new_ledger_def valid_attempt_start_def demo_attempt_id_def put_attempt_def find_attempt_def
  finish_attempt_reserve_def finish_attempt_commit_def persist_pending_finish_def new_attempt_def
  valid_attempt_finish_def finish_statuses_def

lemma demo_finished_reached: "reaches ledger_init ledger_step demo_finished"
proof (rule reaches_step, rule reaches_step)
  show "reaches ledger_init ledger_step demo_ledger" by (rule demo_ledger_reached)
  show "ledger_step demo_ledger (snd (finish_attempt_reserve 5 demo_attempt_id Succeeded (fst demo_ledger)), ())"
    by (subst (1) unit_state [symmetric], rule step_reserve, rule prod.collapse [symmetric])
  show "ledger_step (snd (finish_attempt_reserve 5 demo_attempt_id Succeeded (fst demo_ledger)), ())
      demo_finished"
    unfolding demo_finished_def by (rule step_commit, rule prod.collapse [symmetric])
qed

theorem finished_attempt_immutable_witness:
  "map_option att_completed_at (find_attempt demo_attempt_id
     (record_first_visible 9 (fst demo_finished))) = Some (Some 5)"
proof -
  define a where "a = the (find_attempt demo_attempt_id (fst demo_finished))"
  have a: "find_attempt demo_attempt_id (fst demo_finished) = Some a" "att_status a \<noteq> Started"
    "att_completed_at a = Some 5"
    by (simp_all add: a_def demo_eval)
  have "ledger_step\<^sup>*\<^sup>* demo_finished (record_first_visible 9 (fst demo_finished), ())"
    using step_visible [of "fst demo_finished" "()" 9] by (simp add: unit_state r_into_rtranclp)
  from finished_attempt_immutable [OF demo_finished_reached this a(1,2)] a(3) show ?thesis by simp
qed


lemma persist_pending_finish_ok:
  assumes "persist_pending_finish i (led, w) = (Inr (), st')"
  obtains a f c w' where "find_attempt i led = Some a" "att_pending_finish a = Some f"
    "att_pending_completed_at a = Some c" "run_writer (finish_writer led) f w = (Inr (), w')"
    "st' = (put_attempt i (a\<lparr>att_status := finish_status f, att_completed_at := Some c,
       att_usage_persisted := finish_usage f \<noteq> None, att_pending_finish := None,
       att_pending_completed_at := None\<rparr>) led, w')"
  using assms by (auto simp: persist_pending_finish_def split: option.splits prod.splits sum.splits)

lemma finish_attempt_reserved:
  assumes "finish_attempt_reserve now i status led = (Inr False, led')"
  obtains a f where "find_attempt i led' = Some a" "att_status a = Started"
    "att_pending_finish a = Some f" "finish_status f = status" "status \<in> finish_statuses"
  using assms
  by (auto simp: finish_attempt_reserve_def Let_def valid_attempt_finish_def
      split: option.splits if_splits)

lemma finish_attempt_closed:
  assumes "find_attempt i led = Some a" "att_status a \<noteq> Started"
  shows "finish_attempt now i status (led, w) =
    (if att_status a = status then Inr ()
     else Inl (UsageMeteringError ''provider_attempt_terminal_conflict''), (led, w))"
  using assms by (simp add: finish_attempt_def finish_attempt_reserve_def)

text \<open>When \<open>finish_attempt\<close> returns, the attempt carries the requested status; asking again
  for the same status changes nothing, neither the ledger nor the database, and asking for any
  other status raises the conflict error and changes nothing either.\<close>

theorem finish_attempt_settles:
  assumes "finish_attempt now i status st = (Inr (), st')"
  shows "(\<exists>a. find_attempt i (fst st') = Some a \<and> att_status a = status \<and> status \<noteq> Started)
    \<and> finish_attempt later i other st' =
        (if other = status then Inr ()
         else Inl (UsageMeteringError ''provider_attempt_terminal_conflict''), st')"
proof -
  obtain led w where st: "st = (led, w)" by (cases st)
  have "\<exists>a. find_attempt i (fst st') = Some a \<and> att_status a = status \<and> status \<noteq> Started"
  proof (cases "finish_attempt_reserve now i status led")
    case (Pair r led1)
    then consider "r = Inr True" | "r = Inr False" "finish_attempt_commit i status (led1, w) = (Inr (), st')"
      using assms st by (cases r) (auto simp: finish_attempt_def split: bool.splits)
    then show ?thesis
    proof cases
      case 1
      with Pair assms st show ?thesis
        by (auto simp: finish_attempt_def finish_attempt_reserve_def Let_def
            split: option.splits if_splits)
    next
      case 2
      with Pair obtain a f where af: "find_attempt i led1 = Some a" "att_status a = Started"
        "att_pending_finish a = Some f" "finish_status f = status" "status \<in> finish_statuses"
        by (metis finish_attempt_reserved)
      with 2 have "persist_pending_finish i (led1, w) = (Inr (), st')"
        by (simp add: finish_attempt_commit_def)
      with af show ?thesis
        by (elim persist_pending_finish_ok) (auto simp: finish_statuses_def)
    qed
  qed
  then show ?thesis by (cases st') (auto simp: finish_attempt_closed)
qed

theorem finish_attempt_settles_witness:
  "finish_attempt 9 demo_attempt_id AttemptFailed
     (snd (finish_attempt 5 demo_attempt_id Succeeded demo_ledger))
   = (Inl (UsageMeteringError ''provider_attempt_terminal_conflict''),
      snd (finish_attempt 5 demo_attempt_id Succeeded demo_ledger))"
proof -
  have "finish_attempt 5 demo_attempt_id Succeeded demo_ledger =
      (Inr (), snd (finish_attempt 5 demo_attempt_id Succeeded demo_ledger))"
    by (simp add: finish_attempt_def demo_eval)
  from finish_attempt_settles [OF this, of 9 AttemptFailed] show ?thesis by simp
qed

text \<open>When the durable writer fails, the attempt stays open with its payload reserved, and a
  retry with the same status hands the writer the same payload and records the time of the first
  request, not of the retry.\<close>

theorem finish_attempt_retry:
  fixes led :: "'w ledger"
  assumes found: "find_attempt i led = Some a" "att_status a = Started" "att_pending_finish a = None"
    and payload: "f = \<lparr>finish_attempt_id = i, finish_status = status, finish_usage = att_usage a\<rparr>"
    and valid: "valid_attempt_finish f"
    and writer: "finish_writer led = Some wr" "wr f w = (Inl e, wa)" "wr f wa = (Inr (), wb)"
  shows "fst (finish_attempt now i status (led, w)) = Inl e
    \<and> fst (finish_attempt later i status (snd (finish_attempt now i status (led, w)))) = Inr ()
    \<and> find_attempt i (fst (snd (finish_attempt later i status
          (snd (finish_attempt now i status (led, w))))))
        = Some (a\<lparr>att_status := status, att_completed_at := Some now,
                  att_usage_persisted := att_usage a \<noteq> None,
                  att_pending_finish := None, att_pending_completed_at := None\<rparr>)"
proof -
  define led1 where "led1 = put_attempt i
    (a\<lparr>att_pending_finish := Some f, att_pending_completed_at := Some now\<rparr>) led"
  have f1: "find_attempt i led1 = Some (a\<lparr>att_pending_finish := Some f, att_pending_completed_at := Some now\<rparr>)"
    "finish_writer led1 = Some wr"
    using writer by (simp_all add: led1_def)
  have "finish_attempt_reserve now i status led = (Inr False, led1)"
    using found valid by (simp add: finish_attempt_reserve_def Let_def led1_def flip: payload)
  then have one: "finish_attempt now i status (led, w) = (Inl e, (led1, wa))"
    using f1 found writer
    by (simp add: finish_attempt_def finish_attempt_commit_def persist_pending_finish_def)
  have "finish_attempt_reserve later i status led1 = (Inr False, led1)"
    using f1 found valid by (simp add: finish_attempt_reserve_def Let_def flip: payload)
  then have two: "finish_attempt later i status (led1, wa) =
      (Inr (), (put_attempt i (a\<lparr>att_status := status, att_completed_at := Some now,
          att_usage_persisted := att_usage a \<noteq> None, att_pending_finish := None,
          att_pending_completed_at := None\<rparr>) led1, wb))"
    using f1 found writer
    by (simp add: finish_attempt_def finish_attempt_commit_def persist_pending_finish_def payload)
  show ?thesis by (simp add: one two)
qed

definition flaky_writer :: "('a, nat) writer" where
  "flaky_writer x w = (if w = 0 then (Inl (OtherException ''unavailable''), 1) else (Inr (), w + 1))"

definition flaky_ledger :: "nat ledger" where
  "flaky_ledger =
     put_attempt demo_attempt_id
       (new_attempt \<lparr>start_attempt_id = demo_attempt_id, call_index = 1, attempt_index = 1,
                     call_kind = DirectCall\<rparr> 1)
       ((new_ledger 0)\<lparr>finish_writer := Some flaky_writer\<rparr>)"

theorem finish_attempt_retry_witness:
  "fst (finish_attempt 7 demo_attempt_id Succeeded
     (snd (finish_attempt 5 demo_attempt_id Succeeded (flaky_ledger, 0)))) = Inr ()"
  using finish_attempt_retry [where led = flaky_ledger and i = demo_attempt_id and status = Succeeded
      and w = 0 and wa = 1 and wb = 2 and wr = flaky_writer and now = 5 and later = 7
      and e = "OtherException ''unavailable''"]
  by (simp add: flaky_ledger_def new_attempt_def valid_attempt_finish_def finish_statuses_def
      flaky_writer_def demo_attempt_id_def)

section \<open>Settling before a terminal commit\<close>

text \<open>What must hold of an attempt once \<open>settle_for_terminal\<close> has passed over it.\<close>

definition settled :: "'w ledger \<Rightarrow> pystr \<Rightarrow> bool" where
  "settled led i \<longleftrightarrow>
     (case find_attempt i led of
        None \<Rightarrow> True
      | Some a \<Rightarrow> att_status a = Started \<longrightarrow>
          att_pending_finish a = None
          \<and> (usage_writer led \<noteq> None \<and> att_usage a \<noteq> None \<longrightarrow> att_usage_persisted a))"

lemma settle_attempt_frame:
  assumes "settle_attempt i (led, w) = (r, (led', w'))"
  shows "usage_writer led' = usage_writer led"
    and "j \<noteq> i \<Longrightarrow> find_attempt j led' = find_attempt j led"
  using assms
  by (auto simp: settle_attempt_def persist_pending_finish_def
      split: option.splits if_splits prod.splits sum.splits)

lemma settle_attempt_settles:
  assumes "settle_attempt i (led, w) = (Inr x, (led', w'))" "ledger_inv led"
  shows "settled led' i"
proof -
  have "finish_status f \<noteq> Started"
    if "find_attempt i led = Some a" "att_status a = Started" "att_pending_finish a = Some f" for a f
    using ledger_inv_found [OF assms(2) that(1)] that
    by (auto simp: attempt_ok_def open_attempt_ok_def valid_attempt_finish_def finish_statuses_def)
  with assms show ?thesis
    by (auto simp: settle_attempt_def settled_def persist_pending_finish_def
        split: option.splits if_splits prod.splits sum.splits)
qed

lemma settle_attempts_settle:
  assumes "settle_attempts ids (led, w) = (Inr x, (led', w'))" "ledger_inv led"
    and "j \<in> set ids \<or> settled led j"
  shows "settled led' j"
  using assms
proof (induction ids arbitrary: led w)
  case (Cons i ids)
  then obtain y led1 w1 where one: "settle_attempt i (led, w) = (Inr y, (led1, w1))"
    and rest: "settle_attempts ids (led1, w1) = (Inr x, (led', w'))"
    by (auto elim!: and_then_cases)
  have inv1: "ledger_inv led1"
    using settle_attempt_inv [OF one Cons.prems(2)] by simp
  have "settled led1 i" using one Cons.prems(2) by (rule settle_attempt_settles)
  moreover have "settled led1 j" if "j \<noteq> i" "settled led j"
    using that settle_attempt_frame [OF one] by (auto simp: settled_def split: option.splits)
  ultimately have "j \<in> set ids \<or> settled led1 j"
    using Cons.prems(3) by auto
  with rest inv1 show ?case by (rule Cons.IH)
qed simp

text \<open>When \<open>settle_for_terminal\<close> returns, no attempt of the ledger is left with an unpersisted
  finish, and every usage fact observed on an attempt that is still open has been handed to the
  durable usage writer: a Run terminal committed afterwards cannot lose one.\<close>

theorem settle_for_terminal_settles:
  assumes "reaches ledger_init ledger_step st"
    and "settle_for_terminal st = (Inr (), st')"
    and "find_attempt i (fst st') = Some a" and "att_status a = Started"
  shows "att_pending_finish a = None
    \<and> (usage_writer (fst st') \<noteq> None \<and> att_usage a \<noteq> None \<longrightarrow> att_usage_persisted a)"
proof -
  obtain led w led' w' where st: "st = (led, w)" "st' = (led', w')"
    by (cases st, cases st')
  have inv: "ledger_inv led" using ledger.reaches_inv [OF assms(1)] st by simp
  have covered: "i \<in> set (map fst (attempts led)) \<or> settled led i"
    by (force simp: settled_def find_attempt_def dest: map_of_SomeD split: option.splits)
  have "settle_attempts (map fst (attempts led)) (led, w) = (Inr (), (led', w'))"
    using assms(2) st by (simp add: settle_for_terminal_def)
  then have "settled led' i"
    using inv covered by (rule settle_attempts_settle)
  with assms(3,4) st show ?thesis by (simp add: settled_def)
qed

theorem settle_for_terminal_settles_witness:
  "att_pending_finish (the (find_attempt demo_attempt_id (fst demo_ledger))) = None"
proof -
  have "settle_for_terminal demo_ledger = (Inr (), demo_ledger)"
    by (simp add: settle_for_terminal_def settle_attempt_def demo_eval)
  moreover obtain a where "find_attempt demo_attempt_id (fst demo_ledger) = Some a" "att_status a = Started"
    by (simp add: demo_eval)
  ultimately show ?thesis
    using settle_for_terminal_settles [OF demo_ledger_reached, of demo_ledger demo_attempt_id a] by simp
qed

end
