(* ===== verification/Evidence.thy ===== *)
theory Evidence
  imports Capabilities Context_Builder Ledger
begin

text \<open>
  execution_policy.py: the policy violations, the evidence documents a Run leaves behind
  (execution plan and execution outcome) with the validators of their models, and the final
  result object.
\<close>

section \<open>Policy violations\<close>

definition ModelStepLimitExceeded :: exn where
  "ModelStepLimitExceeded = PolicyViolation ModelStepLimit (lit ''model_step_limit'')"

definition ToolCallLimitExceeded :: exn where
  "ToolCallLimitExceeded = PolicyViolation ToolCallLimit (lit ''tool_call_limit'')"

definition RepeatedToolCall :: exn where
  "RepeatedToolCall = PolicyViolation RepeatedToolCallCode (lit ''repeated_tool_call'')"

definition NoProgress :: exn where
  "NoProgress = PolicyViolation NoProgressCode (lit ''no_progress'')"

definition ToolNotAllowed :: exn where
  "ToolNotAllowed = PolicyViolation ToolNotAllowedCode (lit ''tool_not_allowed'')"

definition ResultSchemaInvalid :: exn where
  "ResultSchemaInvalid = PolicyViolation ResultSchemaInvalidCode (lit ''result_schema_invalid'')"

definition SourceValidationFailed :: exn where
  "SourceValidationFailed =
     PolicyViolation SourceValidationFailedCode (lit ''source_validation_failed'')"

definition AgentExecutionFailed :: "string \<Rightarrow> exn" where
  "AgentExecutionFailed reason = PolicyViolation AgentExecutionFailedCode (lit reason)"

definition RunDeadlineExceeded :: exn where
  "RunDeadlineExceeded = PolicyViolation RunTimeout (lit ''run_timeout'')"

lemmas violation_defs = ModelStepLimitExceeded_def ToolCallLimitExceeded_def RepeatedToolCall_def
  NoProgress_def ToolNotAllowed_def ResultSchemaInvalid_def SourceValidationFailed_def
  AgentExecutionFailed_def RunDeadlineExceeded_def

section \<open>The execution plan\<close>

record versioned_tool =
  vt_tool_id :: pystr
  vt_version :: pystr

definition valid_versioned_tool :: "versioned_tool \<Rightarrow> bool" where
  "valid_versioned_tool t \<longleftrightarrow> valid_identifier (vt_tool_id t) \<and> valid_version (vt_version t)"

definition make_versioned_tool :: "pystr \<Rightarrow> pystr \<Rightarrow> exn + versioned_tool" where
  "make_versioned_tool i v =
     (let t = \<lparr>vt_tool_id = i, vt_version = v\<rparr>
      in if valid_versioned_tool t then Inr t else Inl ValidationError)"

text \<open>\<open>BudgetLimitEvidence\<close> has the fields and the ranges of \<open>AgentBudget\<close>;
  \<open>ResultContractEvidence\<close> those of \<open>ResultContract\<close> with any version text.\<close>

definition valid_contract_evidence :: "result_contract \<Rightarrow> bool" where
  "valid_contract_evidence c \<longleftrightarrow>
     valid_version (contract_schema_version c)
     \<and> 1 \<le> max_answer_chars c \<and> max_answer_chars c \<le> 32000"

record layer_versions_evidence =
  host_layer_version :: pystr
  agent_layer_version :: pystr
  run_layer_version :: pystr
  conversation_layer_version :: pystr
  tool_data_layer_version :: pystr

definition valid_layer_versions :: "layer_versions_evidence \<Rightarrow> bool" where
  "valid_layer_versions l \<longleftrightarrow>
     valid_version (host_layer_version l) \<and> valid_version (agent_layer_version l)
     \<and> valid_version (run_layer_version l)
     \<and> len_between 1 64 (conversation_layer_version l)
     \<and> len_between 1 64 (tool_data_layer_version l)"

definition make_layer_versions ::
  "(layer_kind \<times> pystr) list \<Rightarrow> exn + layer_versions_evidence" where
  "make_layer_versions d =
     (case (map_of d HostLayer, map_of d AgentLayer, map_of d RunLayer,
            map_of d ConversationLayer, map_of d ToolDataLayer) of
        (Some h, Some a, Some r, Some c, Some t) \<Rightarrow>
          (let l = \<lparr>host_layer_version = h, agent_layer_version = a, run_layer_version = r,
                    conversation_layer_version = c, tool_data_layer_version = t\<rparr>
           in if valid_layer_versions l then Inr l else Inl ValidationError)
      | _ \<Rightarrow> Inl ValidationError)"

record execution_plan =
  plan_agent_schema_version :: pystr
  plan_agent_id :: pystr
  plan_agent_version :: pystr
  plan_model_profile_id :: pystr
  plan_model_profile_version :: pystr
  plan_model_provider :: pystr
  plan_model_id :: pystr
  plan_prompt_id :: pystr
  plan_prompt_version :: pystr
  plan_prompt_sha256 :: pystr
  plan_context_builder_version :: pystr
  plan_layer_versions :: layer_versions_evidence
  plan_policy_id :: pystr
  plan_policy_version :: pystr
  plan_registry_id :: pystr
  plan_registry_version :: pystr
  plan_allowed_tools :: "pystr list"
  plan_base_tools :: "pystr list"
  plan_visible_tools :: "versioned_tool list"
  plan_budget :: agent_budget
  plan_result_contract :: result_contract

definition valid_plan_tool_ids :: "pystr list \<Rightarrow> bool" where
  "valid_plan_tool_ids value \<longleftrightarrow> \<not> (\<not> distinct value \<or> list_ex (\<lambda>i. \<not> valid_tool_id i) value)"

definition plan_fields_ok :: "execution_plan \<Rightarrow> bool" where
  "plan_fields_ok p \<longleftrightarrow>
     valid_version (plan_agent_schema_version p)
     \<and> valid_identifier (plan_agent_id p) \<and> valid_version (plan_agent_version p)
     \<and> valid_identifier (plan_model_profile_id p) \<and> valid_version (plan_model_profile_version p)
     \<and> len_between 1 64 (plan_model_provider p) \<and> identifier_match (plan_model_provider p)
     \<and> len_between 1 128 (plan_model_id p)
     \<and> valid_identifier (plan_prompt_id p) \<and> valid_version (plan_prompt_version p)
     \<and> is_hex64 (plan_prompt_sha256 p)
     \<and> valid_version (plan_context_builder_version p)
     \<and> valid_layer_versions (plan_layer_versions p)
     \<and> valid_identifier (plan_policy_id p) \<and> valid_version (plan_policy_version p)
     \<and> valid_identifier (plan_registry_id p) \<and> valid_version (plan_registry_version p)
     \<and> valid_plan_tool_ids (plan_allowed_tools p) \<and> valid_plan_tool_ids (plan_base_tools p)
     \<and> list_all valid_versioned_tool (plan_visible_tools p)
     \<and> valid_budget (plan_budget p) \<and> valid_contract_evidence (plan_result_contract p)"

definition plan_scope_ok :: "execution_plan \<Rightarrow> bool" where
  "plan_scope_ok p \<longleftrightarrow>
     (let visible = map vt_tool_id (plan_visible_tools p) in
      list_all (\<lambda>t. t \<in> set (plan_allowed_tools p)) (plan_base_tools p)
      \<and> distinct visible
      \<and> list_all (\<lambda>t. t \<in> set (plan_base_tools p) \<and> t \<in> set (plan_allowed_tools p)) visible)"

definition valid_plan :: "execution_plan \<Rightarrow> bool" where
  "valid_plan p \<longleftrightarrow> plan_fields_ok p \<and> plan_scope_ok p"

definition make_plan :: "execution_plan \<Rightarrow> exn + execution_plan" where
  "make_plan p = (if valid_plan p then Inr p else Inl ValidationError)"

definition validate_execution_plan :: "execution_plan \<Rightarrow> exn + execution_plan" where
  "validate_execution_plan p =
     (if valid_plan p then Inr p
      else Inl (PolicyKernelConfigurationError ''execution_plan_invalid''))"

section \<open>The execution outcome\<close>

record budget_usage =
  used_model_steps :: int
  used_tool_calls_attempted :: int
  used_tool_calls_succeeded :: int
  used_repeated_tool_calls :: int
  used_no_progress_steps :: int
  used_elapsed_ms :: int

definition valid_budget_usage :: "budget_usage \<Rightarrow> bool" where
  "valid_budget_usage u \<longleftrightarrow>
     0 \<le> used_model_steps u \<and> 0 \<le> used_tool_calls_attempted u \<and> 0 \<le> used_tool_calls_succeeded u
     \<and> 0 \<le> used_repeated_tool_calls u \<and> 0 \<le> used_no_progress_steps u \<and> 0 \<le> used_elapsed_ms u"

definition make_budget_usage :: "budget_usage \<Rightarrow> exn + budget_usage" where
  "make_budget_usage u = (if valid_budget_usage u then Inr u else Inl ValidationError)"

datatype outcome_status = OutcomeCompleted | OutcomeFailed | OutcomeCancelled

datatype result_validation = Passed | ValidationFailed | NotRun

record execution_outcome =
  outcome_status :: outcome_status
  stop_reason :: pystr
  failure_code :: "run_failure_code option"
  outcome_usage :: "budget_usage option"
  accepted_source_ids :: "pystr list"
  result_source_ids :: "pystr list"
  result_schema_version :: "pystr option"
  result_validation :: result_validation

definition valid_source_ids :: "pystr list \<Rightarrow> bool" where
  "valid_source_ids value \<longleftrightarrow>
     \<not> (\<not> distinct value \<or> list_ex (\<lambda>i. i = [] \<or> 128 < length i) value)"

definition outcome_fields_ok :: "execution_outcome \<Rightarrow> bool" where
  "outcome_fields_ok r \<longleftrightarrow>
     valid_identifier (stop_reason r)
     \<and> (case outcome_usage r of None \<Rightarrow> True | Some u \<Rightarrow> valid_budget_usage u)
     \<and> valid_source_ids (accepted_source_ids r) \<and> valid_source_ids (result_source_ids r)
     \<and> (case result_schema_version r of None \<Rightarrow> True | Some v \<Rightarrow> valid_version v)"

definition terminal_semantics_ok :: "execution_outcome \<Rightarrow> bool" where
  "terminal_semantics_ok r \<longleftrightarrow>
     \<not> (outcome_status r = OutcomeFailed \<and> failure_code r = None)
     \<and> \<not> (outcome_status r \<noteq> OutcomeFailed \<and> failure_code r \<noteq> None)
     \<and> \<not> (outcome_status r = OutcomeCompleted
          \<and> (result_validation r \<noteq> Passed \<or> outcome_usage r = None))
     \<and> \<not> (outcome_usage r = None \<and> failure_code r \<noteq> Some ServiceRestarted
          \<and> outcome_status r \<noteq> OutcomeCancelled)
     \<and> \<not> ((result_validation r = NotRun) \<noteq> (result_schema_version r = None))
     \<and> list_all (\<lambda>i. i \<in> set (accepted_source_ids r)) (result_source_ids r)
     \<and> \<not> (result_validation r \<noteq> Passed \<and> result_source_ids r \<noteq> [])"

definition valid_outcome :: "execution_outcome \<Rightarrow> bool" where
  "valid_outcome r \<longleftrightarrow> outcome_fields_ok r \<and> terminal_semantics_ok r"

definition make_outcome :: "execution_outcome \<Rightarrow> exn + execution_outcome" where
  "make_outcome r = (if valid_outcome r then Inr r else Inl ValidationError)"

definition validate_execution_outcome :: "execution_outcome \<Rightarrow> exn + execution_outcome" where
  "validate_execution_outcome r =
     (if valid_outcome r then Inr r
      else Inl (PolicyKernelConfigurationError ''execution_outcome_invalid''))"

definition orphaned_run_outcome :: "pystr list \<Rightarrow> exn + execution_outcome" where
  "orphaned_run_outcome sources =
     make_outcome
       \<lparr>outcome_status = OutcomeFailed, stop_reason = lit ''service_restarted'',
        failure_code = Some ServiceRestarted, outcome_usage = None,
        accepted_source_ids = sources, result_source_ids = [], result_schema_version = None,
        result_validation = NotRun\<rparr>"

section \<open>The result of an Agent\<close>

record agent_result =
  result_version :: pystr
  result_text :: pystr
  result_sources :: "pystr list"

definition valid_agent_result :: "agent_result \<Rightarrow> bool" where
  "valid_agent_result r \<longleftrightarrow>
     result_version r = lit ''1.0.0''
     \<and> len_between 1 32000 (result_text r) \<and> py_strip (result_text r) \<noteq> []
     \<and> valid_source_ids (result_sources r)"

text \<open>What a Runtime may hand over: an \<open>AgentResult\<close>, or any other value.\<close>

datatype result_value = ResultObject agent_result | ResultData pval

fun str_list :: "pval list \<Rightarrow> pystr list option" where
  "str_list [] = Some []"
| "str_list (PStr s # vs) = map_option ((#) s) (str_list vs)"
| "str_list _ = None"

fun parse_agent_result :: "result_value \<Rightarrow> agent_result option" where
  "parse_agent_result (ResultObject r) = (if valid_agent_result r then Some r else None)"
| "parse_agent_result (ResultData (PDict d)) =
     (if \<not> only_keys [''schema_version'', ''text'', ''source_ids''] d then None
      else
        (case (if map_of d (lit ''schema_version'') = None then Some (lit ''1.0.0'')
               else as_str (dict_get d (lit ''schema_version'')),
               as_str (dict_get d (lit ''text'')),
               case map_of d (lit ''source_ids'') of
                 None \<Rightarrow> Some []
               | Some (PList vs) \<Rightarrow> str_list vs
               | _ \<Rightarrow> None) of
           (Some v, Some t, Some srcs) \<Rightarrow>
             (let r = \<lparr>result_version = v, result_text = t, result_sources = srcs\<rparr>
              in if valid_agent_result r then Some r else None)
         | _ \<Rightarrow> None))"
| "parse_agent_result (ResultData _) = None"

lemma parse_agent_result_valid: "parse_agent_result v = Some r \<Longrightarrow> valid_agent_result r"
  by (cases v rule: parse_agent_result.cases)
     (auto simp: Let_def split: if_splits option.splits pval.splits)

end
