(* ===== verification/Execution.thy ===== *)
theory Execution
  imports Evidence
begin

text \<open>
  execution_policy.py, class \<open>RunExecution\<close>: the evaluated policy decision of one Run and its
  bounded ledger. Methods take the clock readings and the current answer of the capability
  policy as arguments and return the changed object together with a value or an exception.
  Dictionaries are association lists in insertion order; Python sets are HOL sets.
\<close>

section \<open>State\<close>

record product_event =
  pe_type :: pystr
  pe_data :: pdict

record tool_reservation =
  res_call_id :: pystr
  res_tool_id :: pystr
  res_arguments :: pdict
  res_fingerprint :: pystr

record 'w execution =
  ex_principal :: principal
  ex_agent :: agent_definition
  ex_model_profile :: model_profile
  ex_decision :: capability_decision
  visible_tool_ids :: "pystr list"
  plan_evidence :: execution_plan
  ex_registry :: tool_registry
  ex_started_at :: rat
  provider_usage :: "'w ledger"
  deadline_at :: rat
  model_steps :: int
  tool_calls_attempted :: int
  tool_calls_succeeded :: int
  repeated_tool_calls :: int
  consecutive_no_progress :: int
  progress_revision :: int
  last_model_progress_revision :: int
  last_tool_fingerprint :: "pystr option"
  identical_tool_calls :: int
  seen_progress :: "pystr set"
  reservations :: "(pystr \<times> tool_reservation) list"
  started_calls :: "(pystr \<times> pystr \<times> pdict) list"
  finished_calls :: "(pystr \<times> pystr \<times> pdict) list"
  source_events :: "(pystr \<times> pystr set \<times> pdict) list"
  persisted_started :: "pystr set"
  persisted_finished :: "pystr set"
  persisted_sources :: "pystr set"
  persisted_source_order :: "pystr list"
  accepted_sources :: "(pystr \<times> pystr set) list"
  ex_result_validation :: result_validation
  ex_result_source_ids :: "pystr list"

definition new_execution ::
  "principal \<Rightarrow> agent_definition \<Rightarrow> model_profile \<Rightarrow> capability_decision \<Rightarrow> pystr list \<Rightarrow>
   execution_plan \<Rightarrow> tool_registry \<Rightarrow> rat \<Rightarrow> rat \<Rightarrow> 'w execution" where
  "new_execution p a m d visible plan reg now now' =
     \<lparr>ex_principal = p, ex_agent = a, ex_model_profile = m, ex_decision = d,
      visible_tool_ids = visible, plan_evidence = plan, ex_registry = reg,
      ex_started_at = now, provider_usage = new_ledger now',
      deadline_at = now + deadline_seconds (budget a),
      model_steps = 0, tool_calls_attempted = 0, tool_calls_succeeded = 0,
      repeated_tool_calls = 0, consecutive_no_progress = 0, progress_revision = 0,
      last_model_progress_revision = 0, last_tool_fingerprint = None, identical_tool_calls = 0,
      seen_progress = {}, reservations = [], started_calls = [], finished_calls = [],
      source_events = [], persisted_started = {}, persisted_finished = {},
      persisted_sources = {}, persisted_source_order = [], accepted_sources = [],
      ex_result_validation = NotRun, ex_result_source_ids = []\<rparr>"

section \<open>Deadline and model calls\<close>

definition ensure_deadline :: "rat \<Rightarrow> 'w execution \<Rightarrow> exn + unit" where
  "ensure_deadline now ex = (if deadline_at ex \<le> now then Inl RunDeadlineExceeded else Inr ())"

definition remaining_seconds :: "rat \<Rightarrow> 'w execution \<Rightarrow> rat" where
  "remaining_seconds now ex = max 0 (deadline_at ex - now)"

text \<open>A method that begins with \<open>ensure_deadline\<close>.\<close>

definition guarded ::
  "rat \<Rightarrow> 'w execution \<Rightarrow> (exn + 'a) \<times> 'w execution \<Rightarrow> (exn + 'a) \<times> 'w execution" where
  "guarded now ex body =
     (case ensure_deadline now ex of Inl e \<Rightarrow> (Inl e, ex) | Inr _ \<Rightarrow> body)"

definition execution_context ::
  "(rat \<Rightarrow> pystr) \<Rightarrow> rat \<Rightarrow> message list \<Rightarrow> 'w execution \<Rightarrow> exn + built_context" where
  "execution_context fmt_g now messages ex =
     bindE (ensure_deadline now ex) (\<lambda>_.
     Inr (build_context fmt_g (ex_agent ex) (visible_tool_ids ex) messages []))"

definition count_model_step :: "'w execution \<Rightarrow> (exn + unit) \<times> 'w execution" where
  "count_model_step ex =
     (let ex' = ex\<lparr>last_model_progress_revision := progress_revision ex,
                   model_steps := model_steps ex + 1\<rparr>
      in if max_model_steps (budget (ex_agent ex)) < model_steps ex'
         then (Inl ModelStepLimitExceeded, ex') else (Inr (), ex'))"

definition before_model_call :: "rat \<Rightarrow> 'w execution \<Rightarrow> (exn + unit) \<times> 'w execution" where
  "before_model_call now ex =
     guarded now ex
       (if 0 < model_steps ex then
          if progress_revision ex = last_model_progress_revision ex then
            (let ex' = ex\<lparr>consecutive_no_progress := consecutive_no_progress ex + 1\<rparr>
             in if max_no_progress_steps (budget (ex_agent ex)) \<le> consecutive_no_progress ex'
                then (Inl NoProgress, ex') else count_model_step ex')
          else count_model_step (ex\<lparr>consecutive_no_progress := 0\<rparr>)
        else count_model_step ex)"

definition record_progress :: "pystr \<Rightarrow> 'w execution \<Rightarrow> 'w execution" where
  "record_progress fp ex =
     (if fp \<in> seen_progress ex then ex
      else ex\<lparr>seen_progress := insert fp (seen_progress ex),
              progress_revision := progress_revision ex + 1\<rparr>)"

section \<open>The provider attempt ledger\<close>

definition with_usage :: "'w execution \<Rightarrow> 'a \<times> 'w ledger \<times> 'w \<Rightarrow> 'a \<times> 'w execution \<times> 'w" where
  "with_usage ex r = (case r of (x, led, w) \<Rightarrow> (x, ex\<lparr>provider_usage := led\<rparr>, w))"

definition begin_provider_attempt ::
  "rat \<Rightarrow> rat \<Rightarrow> pystr \<Rightarrow> model_call_kind \<Rightarrow> pystr option \<Rightarrow> 'w execution \<times> 'w \<Rightarrow>
   (exn + pystr) \<times> 'w execution \<times> 'w" where
  "begin_provider_attempt now now' new_id kind retry_of st =
     (case st of (ex, w) \<Rightarrow>
        (case ensure_deadline now ex of
           Inl e \<Rightarrow> (Inl e, ex, w)
         | Inr _ \<Rightarrow> with_usage ex (begin_attempt new_id now' kind retry_of (provider_usage ex, w))))"

definition finish_provider_attempt ::
  "rat \<Rightarrow> pystr \<Rightarrow> attempt_status \<Rightarrow> 'w execution \<times> 'w \<Rightarrow> (exn + unit) \<times> 'w execution \<times> 'w" where
  "finish_provider_attempt now i status st =
     (case st of (ex, w) \<Rightarrow> with_usage ex (finish_attempt now i status (provider_usage ex, w)))"

definition settle_provider_usage_for_terminal ::
  "'w execution \<times> 'w \<Rightarrow> (exn + unit) \<times> 'w execution \<times> 'w" where
  "settle_provider_usage_for_terminal st =
     (case st of (ex, w) \<Rightarrow> with_usage ex (settle_for_terminal (provider_usage ex, w)))"

definition observe_provider_usage ::
  "pystr \<Rightarrow> token_usage \<Rightarrow> 'w execution \<Rightarrow> (exn + unit) \<times> 'w execution" where
  "observe_provider_usage i u ex =
     (case observe_usage i u (provider_usage ex) of (r, led) \<Rightarrow> (r, ex\<lparr>provider_usage := led\<rparr>))"

definition bind_usage_persistence ::
  "(model_attempt_start, 'w) writer \<Rightarrow> (model_attempt_finish, 'w) writer \<Rightarrow>
   (model_attempt_usage, 'w) writer \<Rightarrow> 'w execution \<Rightarrow> (exn + unit) \<times> 'w execution" where
  "bind_usage_persistence sw fw uw ex =
     (case bind_persistence sw fw uw (provider_usage ex) of
        (r, led) \<Rightarrow> (r, ex\<lparr>provider_usage := led\<rparr>))"

definition run_usage_snapshot ::
  "rat \<Rightarrow> run_error_category option \<Rightarrow> 'w execution \<Rightarrow> exn + run_usage" where
  "run_usage_snapshot now category ex = snapshot now category (provider_usage ex)"

section \<open>Reserving Tool calls\<close>

text \<open>The local variables of the loop of \<open>reserve_tool_calls\<close>.\<close>

record reserve_loop =
  loop_pending :: "tool_reservation list"
  loop_last :: "pystr option"
  loop_identical :: int
  loop_repeated :: int
  loop_known :: "pystr set"

definition flush_repeats :: "reserve_loop \<Rightarrow> 'w execution \<Rightarrow> 'w execution" where
  "flush_repeats l ex =
     ex\<lparr>last_tool_fingerprint := loop_last l, identical_tool_calls := loop_identical l,
        repeated_tool_calls := loop_repeated l\<rparr>"

text \<open>The shape checks on one call: its id, its Tool and its arguments, or nothing.\<close>

definition call_parts :: "pystr set \<Rightarrow> pdict \<Rightarrow> (pystr \<times> pystr \<times> pdict) option" where
  "call_parts known call =
     (case (as_str (dict_get call (lit ''id'')), as_str (dict_get call (lit ''name'')),
            as_dict (dict_get call (lit ''args''))) of
        (Some i, Some t, Some args) \<Rightarrow>
          if i = [] \<or> 128 < length i \<or> i \<in> known then None else Some (i, t, args)
      | _ \<Rightarrow> None)"

definition count_repeat :: "pystr \<Rightarrow> reserve_loop \<Rightarrow> reserve_loop" where
  "count_repeat fp l =
     (if Some fp = loop_last l
      then l\<lparr>loop_identical := loop_identical l + 1, loop_repeated := loop_repeated l + 1\<rparr>
      else l\<lparr>loop_identical := 1\<rparr>)\<lparr>loop_last := Some fp\<rparr>"

fun reserve_calls ::
  "host_env \<Rightarrow> pdict list \<Rightarrow> reserve_loop \<Rightarrow> 'w execution \<Rightarrow>
   (exn + reserve_loop) \<times> 'w execution" where
  "reserve_calls env [] l ex = (Inr l, ex)"
| "reserve_calls env (call # calls) l ex =
     (case call_parts (loop_known l) call of
        None \<Rightarrow> (Inl (AgentExecutionFailed ''tool_call_invalid''), ex)
      | Some (i, t, args) \<Rightarrow>
          if t \<notin> set (visible_tool_ids ex) then (Inl ToolNotAllowed, ex)
          else
            (case canonicalize_call env (ex_registry ex) t args of
               Inl _ \<Rightarrow> (Inl (AgentExecutionFailed ''tool_arguments_invalid''), ex)
             | Inr (validated, fp) \<Rightarrow>
                 (let l1 = count_repeat fp (l\<lparr>loop_known := insert i (loop_known l)\<rparr>)
                  in if max_identical_tool_calls (budget (ex_agent ex)) < loop_identical l1
                     then (Inl RepeatedToolCall, flush_repeats l1 ex)
                     else
                       reserve_calls env calls
                         (l1\<lparr>loop_pending := loop_pending l1
                              @ [\<lparr>res_call_id = i, res_tool_id = t, res_arguments = validated,
                                  res_fingerprint = fp\<rparr>]\<rparr>) ex)))"

definition add_reservations ::
  "tool_reservation list \<Rightarrow> (pystr \<times> tool_reservation) list \<Rightarrow> (pystr \<times> tool_reservation) list" where
  "add_reservations pending rs = foldl (\<lambda>acc r. AList.update (res_call_id r) r acc) rs pending"

definition reserve_tool_calls ::
  "host_env \<Rightarrow> rat \<Rightarrow> pdict list \<Rightarrow> 'w execution \<Rightarrow> (exn + unit) \<times> 'w execution" where
  "reserve_tool_calls env now calls ex =
     guarded now ex
       (if calls = [] then (Inr (), ex)
        else
          let ex1 = ex\<lparr>tool_calls_attempted := tool_calls_attempted ex + int (length calls)\<rparr>
          in if max_tool_calls (budget (ex_agent ex)) < tool_calls_attempted ex1
             then (Inl ToolCallLimitExceeded, ex1)
             else
               and_then
                 (reserve_calls env calls
                    \<lparr>loop_pending = [], loop_last = last_tool_fingerprint ex,
                     loop_identical = identical_tool_calls ex,
                     loop_repeated = repeated_tool_calls ex,
                     loop_known = fst ` set (reservations ex) \<union> fst ` set (started_calls ex)\<rparr> ex1)
                 (\<lambda>l ex2. (Inr (), (flush_repeats l ex2)
                    \<lparr>reservations := add_reservations (loop_pending l) (reservations ex2)\<rparr>)))"

text \<open>The AI messages of one model response: their content and their Tool calls.\<close>

record ai_message =
  ai_content :: pval
  ai_tool_calls :: "pdict list"

definition record_assistant_text :: "host_env \<Rightarrow> 'w execution \<Rightarrow> ai_message \<Rightarrow> 'w execution" where
  "record_assistant_text env ex m =
     (let text = content_text (ai_content m) in
      if text \<noteq> [] then record_progress (lit ''assistant:'' @ env_sha256 env text) ex else ex)"

definition after_model_response ::
  "host_env \<Rightarrow> rat \<Rightarrow> ai_message list \<Rightarrow> 'w execution \<Rightarrow> (exn + unit) \<times> 'w execution" where
  "after_model_response env now messages ex =
     (let ex' = foldl (record_assistant_text env) ex messages;
          calls = concat (map ai_tool_calls messages)
      in if calls \<noteq> [] then reserve_tool_calls env now calls ex' else (Inr (), ex'))"

definition record_finalizer_signal :: "rat \<Rightarrow> 'w execution \<Rightarrow> (exn + unit) \<times> 'w execution" where
  "record_finalizer_signal now ex =
     guarded now ex (Inr (), record_progress (lit ''host-control:finalize-answer'') ex)"

section \<open>Starting and finishing a Tool call\<close>

definition require_current_tool_permission ::
  "exn + capability_decision \<Rightarrow> pystr \<Rightarrow> 'w execution \<Rightarrow> exn + unit" where
  "require_current_tool_permission answer t ex =
     (case bindE answer make_capability_decision of
        Inl _ \<Rightarrow> Inl ToolNotAllowed
      | Inr d \<Rightarrow>
          if decision_policy_id d \<noteq> decision_policy_id (ex_decision ex)
             \<or> decision_policy_version d \<noteq> decision_policy_version (ex_decision ex)
             \<or> t \<notin> set (decision_allowed_tools d)
             \<or> t \<notin> set (visible_tool_ids ex)
             \<or> t \<notin> set (allowed_tools (ex_agent ex))
             \<or> t \<notin> set (base_tools (ex_agent ex))
          then Inl ToolNotAllowed
          else
            (case require_tool (ex_registry ex) t of
               Inl _ \<Rightarrow> Inl ToolNotAllowed | Inr _ \<Rightarrow> Inr ()))"

definition started_data :: "registered_tool \<Rightarrow> pystr \<Rightarrow> pystr \<Rightarrow> pdict \<Rightarrow> pdict" where
  "started_data r i t validated =
     py_dict ([(''tool_call_id'', PStr i), (''name'', PStr t), (''label'', PStr (tool_label r))]
       @ (case summarize_input r validated of
            None \<Rightarrow> []
          | Some s \<Rightarrow> if s = [] then [] else [(''input_summary'', PStr (take 500 s))]))"

definition begin_tool_call ::
  "host_env \<Rightarrow> rat \<Rightarrow> exn + capability_decision \<Rightarrow> pystr \<Rightarrow> pystr \<Rightarrow> pdict \<Rightarrow> 'w execution \<Rightarrow>
   (exn + pdict \<times> product_event) \<times> 'w execution" where
  "begin_tool_call env now answer i t arguments ex =
     guarded now ex
       (case map_of (reservations ex) i of
          None \<Rightarrow> (Inl ToolNotAllowed, ex)
        | Some r \<Rightarrow>
            if res_tool_id r \<noteq> t \<or> map_of (started_calls ex) i \<noteq> None
            then (Inl ToolNotAllowed, ex)
            else
              (case canonicalize_call env (ex_registry ex) t arguments of
                 Inl _ \<Rightarrow> (Inl (AgentExecutionFailed ''tool_arguments_invalid''), ex)
               | Inr (validated, fp) \<Rightarrow>
                   if fp \<noteq> res_fingerprint r \<or> validated \<noteq> res_arguments r
                   then (Inl ToolNotAllowed, ex)
                   else
                     (case require_current_tool_permission answer t ex of
                        Inl e \<Rightarrow> (Inl e, ex)
                      | Inr _ \<Rightarrow>
                          (case require_tool (ex_registry ex) t of
                             Inl e \<Rightarrow> (Inl e, ex)
                           | Inr rec \<Rightarrow>
                               (let data = started_data rec i t validated
                                in (Inr (validated, \<lparr>pe_type = lit ''tool.started'', pe_data = data\<rparr>),
                                    ex\<lparr>started_calls :=
                                         AList.update i (t, data) (started_calls ex)\<rparr>))))))"

definition dump_source :: "tool_source \<Rightarrow> pdict" where
  "dump_source s =
     py_dict [(''source_id'', PStr (source_id s)), (''label'', PStr (source_label s)),
              (''description'', PStr (source_description s))]"

definition source_conflict :: "'w execution \<Rightarrow> tool_source \<Rightarrow> bool" where
  "source_conflict ex s \<longleftrightarrow>
     (case map_of (source_events ex) (source_id s) of
        None \<Rightarrow> False | Some (calls, data) \<Rightarrow> data \<noteq> dump_source s)"

definition add_contributor ::
  "pystr \<Rightarrow> pystr \<Rightarrow> (pystr \<times> pystr set) list \<Rightarrow> (pystr \<times> pystr set) list" where
  "add_contributor s i acc =
     (case map_of acc s of
        None \<Rightarrow> AList.update s {i} acc | Some calls \<Rightarrow> AList.update s (insert i calls) acc)"

text \<open>One round of the second loop over the sources, and the loop with the events it emits.\<close>

definition accept_source ::
  "pystr \<Rightarrow> tool_source \<Rightarrow> 'w execution \<Rightarrow> product_event list \<times> 'w execution" where
  "accept_source i s ex =
     (let ex1 = ex\<lparr>accepted_sources := add_contributor (source_id s) i (accepted_sources ex)\<rparr> in
      case map_of (source_events ex1) (source_id s) of
        Some (calls, data) \<Rightarrow>
          ([], ex1\<lparr>source_events :=
                    AList.update (source_id s) (insert i calls, data) (source_events ex1)\<rparr>)
      | None \<Rightarrow>
          ([\<lparr>pe_type = lit ''source.added'', pe_data = dump_source s\<rparr>],
           record_progress (lit ''source:'' @ source_id s)
             (ex1\<lparr>source_events :=
                    AList.update (source_id s) ({i}, dump_source s) (source_events ex1)\<rparr>)))"

fun accept_sources ::
  "pystr \<Rightarrow> tool_source list \<Rightarrow> 'w execution \<Rightarrow> product_event list \<times> 'w execution" where
  "accept_sources i [] ex = ([], ex)"
| "accept_sources i (s # ss) ex =
     (case accept_source i s ex of
        (evs, ex1) \<Rightarrow> (case accept_sources i ss ex1 of (evs', ex2) \<Rightarrow> (evs @ evs', ex2)))"

definition finished_data :: "registered_tool \<Rightarrow> pystr \<Rightarrow> pystr \<Rightarrow> parsed_outcome \<Rightarrow> pdict" where
  "finished_data r i t outcome =
     py_dict [(''tool_call_id'', PStr i), (''name'', PStr t), (''label'', PStr (tool_label r)),
              (''output_summary'', PStr (output_summary outcome))]"

definition finish_lifecycle_ok :: "pystr \<Rightarrow> pystr \<Rightarrow> tool_message \<Rightarrow> 'w execution \<Rightarrow> bool" where
  "finish_lifecycle_ok i t msg ex \<longleftrightarrow>
     (case map_of (started_calls ex) i of
        None \<Rightarrow> False
      | Some (t', data) \<Rightarrow>
          \<not> (t' \<noteq> t \<or> map_of (finished_calls ex) i \<noteq> None \<or> tm_call_id msg \<noteq> i
             \<or> (tm_name msg \<noteq> None \<and> tm_name msg \<noteq> Some t)))"

definition finish_tool_call ::
  "rat \<Rightarrow> pystr \<Rightarrow> pystr \<Rightarrow> tool_message \<Rightarrow> 'w execution \<Rightarrow>
   (exn + product_event list) \<times> 'w execution" where
  "finish_tool_call now i t msg ex =
     guarded now ex
       (if \<not> finish_lifecycle_ok i t msg ex
        then (Inl (AgentExecutionFailed ''tool_lifecycle_invalid''), ex)
        else
          (case parse_tool_message (ex_registry ex) t msg of
             Inl _ \<Rightarrow> (Inl (AgentExecutionFailed ''tool_execution_failed''), ex)
           | Inr outcome \<Rightarrow>
               (case require_tool (ex_registry ex) t of
                  Inl e \<Rightarrow> (Inl e, ex)
                | Inr rec \<Rightarrow>
                    if list_ex (source_conflict ex) (outcome_sources outcome)
                    then (Inl SourceValidationFailed, ex)
                    else
                      (let data = finished_data rec i t outcome;
                           ex1 = record_progress (lit ''tool-fact:'' @ fact_fingerprint outcome)
                                   (ex\<lparr>finished_calls := AList.update i (t, data) (finished_calls ex),
                                       tool_calls_succeeded := tool_calls_succeeded ex + 1\<rparr>)
                       in case accept_sources i (outcome_sources outcome) ex1 of
                            (evs, ex2) \<Rightarrow>
                              (Inr (\<lparr>pe_type = lit ''tool.finished'', pe_data = data\<rparr> # evs), ex2)))))"


section \<open>Events that reach durable storage\<close>

definition event_key :: "string \<Rightarrow> product_event \<Rightarrow> pystr option" where
  "event_key k ev = as_str (dict_get (pe_data ev) (lit k))"

definition started_event_ok :: "product_event \<Rightarrow> 'w execution \<Rightarrow> bool" where
  "started_event_ok ev ex \<longleftrightarrow>
     (case event_key ''tool_call_id'' ev of
        None \<Rightarrow> False
      | Some i \<Rightarrow>
          (case map_of (started_calls ex) i of
             None \<Rightarrow> False
           | Some (t, data) \<Rightarrow> data = pe_data ev \<and> i \<notin> persisted_started ex))"

definition finished_event_ok :: "product_event \<Rightarrow> 'w execution \<Rightarrow> bool" where
  "finished_event_ok ev ex \<longleftrightarrow>
     (case event_key ''tool_call_id'' ev of
        None \<Rightarrow> False
      | Some i \<Rightarrow>
          (case map_of (finished_calls ex) i of
             None \<Rightarrow> False
           | Some (t, data) \<Rightarrow>
               data = pe_data ev \<and> i \<in> persisted_started ex \<and> i \<notin> persisted_finished ex))"

definition source_event_ok :: "product_event \<Rightarrow> 'w execution \<Rightarrow> bool" where
  "source_event_ok ev ex \<longleftrightarrow>
     (case event_key ''source_id'' ev of
        None \<Rightarrow> False
      | Some s \<Rightarrow>
          (case map_of (source_events ex) s of
             None \<Rightarrow> False
           | Some (calls, data) \<Rightarrow>
               data = pe_data ev \<and> calls \<inter> persisted_finished ex \<noteq> {}
               \<and> s \<notin> persisted_sources ex))"

definition validate_event :: "product_event \<Rightarrow> 'w execution \<Rightarrow> exn + unit" where
  "validate_event ev ex =
     (if pe_type ev = lit ''message.delta'' then Inr ()
      else if pe_type ev = lit ''tool.started''
      then requireE (started_event_ok ev ex) ToolNotAllowed
      else if pe_type ev = lit ''tool.finished''
      then requireE (finished_event_ok ev ex) (AgentExecutionFailed ''tool_lifecycle_invalid'')
      else if pe_type ev = lit ''source.added''
      then requireE (source_event_ok ev ex) SourceValidationFailed
      else Inl (AgentExecutionFailed ''runtime_event_not_allowed''))"

definition key_or_empty :: "string \<Rightarrow> product_event \<Rightarrow> pystr" where
  "key_or_empty k ev = (case event_key k ev of None \<Rightarrow> [] | Some i \<Rightarrow> i)"

definition accept_event :: "rat \<Rightarrow> product_event \<Rightarrow> 'w execution \<Rightarrow> (exn + unit) \<times> 'w execution" where
  "accept_event now ev ex =
     (case validate_event ev ex of
        Inl e \<Rightarrow> (Inl e, ex)
      | Inr _ \<Rightarrow>
          if pe_type ev = lit ''message.delta''
          then (Inr (), ex\<lparr>provider_usage := record_first_visible now (provider_usage ex)\<rparr>)
          else if pe_type ev = lit ''tool.started''
          then (Inr (), ex\<lparr>persisted_started :=
                  insert (key_or_empty ''tool_call_id'' ev) (persisted_started ex)\<rparr>)
          else if pe_type ev = lit ''tool.finished''
          then (Inr (), ex\<lparr>persisted_finished :=
                  insert (key_or_empty ''tool_call_id'' ev) (persisted_finished ex)\<rparr>)
          else if pe_type ev = lit ''source.added''
          then (let s = key_or_empty ''source_id'' ev in
                (Inr (), ex\<lparr>persisted_sources := insert s (persisted_sources ex),
                            persisted_source_order := persisted_source_order ex @ [s]\<rparr>))
          else (Inl (AgentExecutionFailed ''runtime_event_not_allowed''), ex))"

section \<open>The result and the outcome\<close>

definition reject_result :: "exn \<Rightarrow> 'w execution \<Rightarrow> (exn + 'a) \<times> 'w execution" where
  "reject_result e ex = (Inl e, ex\<lparr>ex_result_validation := ValidationFailed\<rparr>)"

definition validate_result ::
  "result_value \<Rightarrow> pystr option \<Rightarrow> 'w execution \<Rightarrow> (exn + agent_result) \<times> 'w execution" where
  "validate_result value runtime_text ex =
     (case parse_agent_result value of
        None \<Rightarrow> reject_result ResultSchemaInvalid ex
      | Some r \<Rightarrow>
          if result_version r \<noteq> contract_schema_version (result_contract (ex_agent ex))
          then reject_result ResultSchemaInvalid ex
          else if max_answer_chars (result_contract (ex_agent ex)) < int (length (result_text r))
          then reject_result ResultSchemaInvalid ex
          else if (case runtime_text of None \<Rightarrow> False | Some t \<Rightarrow> t \<noteq> result_text r)
          then reject_result ResultSchemaInvalid ex
          else if list_ex (\<lambda>s. s \<notin> persisted_sources ex) (result_sources r)
          then reject_result SourceValidationFailed ex
          else if tool_calls_succeeded ex = 0 \<and> result_sources r \<noteq> []
          then reject_result SourceValidationFailed ex
          else if source_policy (result_contract (ex_agent ex)) = SourcesRequired
               \<and> result_sources r = []
          then reject_result SourceValidationFailed ex
          else if source_policy (result_contract (ex_agent ex)) = SourcesIfToolUsed
               \<and> 0 < tool_calls_succeeded ex \<and> result_sources r = []
          then reject_result SourceValidationFailed ex
          else (Inr r, ex\<lparr>ex_result_validation := Passed,
                          ex_result_source_ids := result_sources r\<rparr>))"

definition record_result_validation_failure :: "'w execution \<Rightarrow> 'w execution" where
  "record_result_validation_failure ex =
     ex\<lparr>ex_result_validation := ValidationFailed, ex_result_source_ids := []\<rparr>"

definition usage_evidence :: "rat \<Rightarrow> 'w execution \<Rightarrow> exn + budget_usage" where
  "usage_evidence now ex =
     make_budget_usage
       \<lparr>used_model_steps = model_steps ex,
        used_tool_calls_attempted = tool_calls_attempted ex,
        used_tool_calls_succeeded = tool_calls_succeeded ex,
        used_repeated_tool_calls = repeated_tool_calls ex,
        used_no_progress_steps = consecutive_no_progress ex,
        used_elapsed_ms = elapsed_ms (ex_started_at ex) now\<rparr>"

definition outcome ::
  "rat \<Rightarrow> outcome_status \<Rightarrow> pystr \<Rightarrow> run_failure_code option \<Rightarrow> bool \<Rightarrow> 'w execution \<Rightarrow>
   exn + execution_outcome" where
  "outcome now status reason code usage_known ex =
     bindE (if usage_known then bindE (usage_evidence now ex) (\<lambda>u. Inr (Some u)) else Inr None)
       (\<lambda>usage.
     make_outcome
       \<lparr>outcome_status = status, stop_reason = reason, failure_code = code, outcome_usage = usage,
        accepted_source_ids = persisted_source_order ex,
        result_source_ids = ex_result_source_ids ex,
        result_schema_version =
          (if ex_result_validation ex \<noteq> NotRun
           then Some (contract_schema_version (result_contract (ex_agent ex))) else None),
        result_validation = ex_result_validation ex\<rparr>)"

section \<open>Executing one Tool call\<close>

fun emit_all ::
  "(product_event \<Rightarrow> 'w execution \<times> 'e \<Rightarrow> (exn + unit) \<times> 'w execution \<times> 'e) \<Rightarrow>
   product_event list \<Rightarrow> 'w execution \<times> 'e \<Rightarrow> (exn + unit) \<times> 'w execution \<times> 'e" where
  "emit_all emit [] st = (Inr (), st)"
| "emit_all emit (ev # evs) st = and_then (emit ev st) (\<lambda>_. emit_all emit evs)"

text \<open>
  \<open>execute_tool_call\<close>: the handler (the Tool) and \<open>emit\<close> (persisting an event) are functions on
  the execution and an outer state, since both await; the handler may return a value that is no
  Tool message (\<open>None\<close>).
\<close>

fun handler_error :: "exn \<Rightarrow> exn" where
  "handler_error (PolicyViolation c r) = PolicyViolation c r"
| "handler_error _ = AgentExecutionFailed ''tool_execution_failed''"

definition execute_tool_call ::
  "host_env \<Rightarrow> rat \<Rightarrow> rat \<Rightarrow> exn + capability_decision \<Rightarrow> pystr \<Rightarrow> pystr \<Rightarrow> pdict \<Rightarrow>
   (pdict \<Rightarrow> 'w execution \<times> 'e \<Rightarrow> (exn + tool_message option) \<times> 'w execution \<times> 'e) \<Rightarrow>
   (product_event \<Rightarrow> 'w execution \<times> 'e \<Rightarrow> (exn + unit) \<times> 'w execution \<times> 'e) \<Rightarrow>
   'w execution \<times> 'e \<Rightarrow> (exn + tool_message) \<times> 'w execution \<times> 'e" where
  "execute_tool_call env now later answer i t arguments handler emit st =
     (case begin_tool_call env now answer i t arguments (fst st) of
        (Inl e, ex) \<Rightarrow> (Inl e, ex, snd st)
      | (Inr (validated, started), ex) \<Rightarrow>
          and_then (emit started (ex, snd st)) (\<lambda>_ st1.
          (case handler validated st1 of
             (Inl e, st2) \<Rightarrow> (Inl (handler_error e), st2)
           | (Inr None, st2) \<Rightarrow> (Inl (AgentExecutionFailed ''tool_result_type_invalid''), st2)
           | (Inr (Some msg), st2) \<Rightarrow>
               (case finish_tool_call later i t msg (fst st2) of
                  (Inl e, ex3) \<Rightarrow> (Inl e, ex3, snd st2)
                | (Inr evs, ex3) \<Rightarrow>
                    and_then (emit_all emit evs (ex3, snd st2)) (\<lambda>_ st4. (Inr msg, st4))))))"

end
