(* ===== verification/Execution_Safety.thy ===== *)
theory Execution_Safety
  imports Execution
begin

text \<open>
  What holds of a \<open>RunExecution\<close> in every state it can reach, whatever its callers do and in
  whatever order: its invariant, the preservation of it by every method, and the properties
  that follow. The result validator runs at most once per Run, as in the run service.
\<close>

declare map_of_eq_Some_iff [simp del] Some_eq_map_of_iff [simp del]

section \<open>Invariant\<close>

text \<open>The fixed part: what \<open>prepare_run\<close> establishes.\<close>

definition scope_inv :: "'w execution \<Rightarrow> bool" where
  "scope_inv ex \<longleftrightarrow>
     valid_agent_definition (ex_agent ex) \<and> valid_registry (ex_registry ex)
     \<and> distinct (visible_tool_ids ex)
     \<and> set (visible_tool_ids ex) \<subseteq>
         set (base_tools (ex_agent ex)) \<inter> set (allowed_tools (ex_agent ex))
         \<inter> set (enabled_tool_ids (ex_registry ex))"

definition counters_inv :: "'w execution \<Rightarrow> bool" where
  "counters_inv ex \<longleftrightarrow>
     0 \<le> model_steps ex \<and> 0 \<le> tool_calls_attempted ex \<and> 0 \<le> repeated_tool_calls ex
     \<and> 0 \<le> consecutive_no_progress ex
     \<and> int (length (reservations ex)) \<le> tool_calls_attempted ex
     \<and> int (length (reservations ex)) \<le> max_tool_calls (budget (ex_agent ex))
     \<and> tool_calls_succeeded ex = int (length (finished_calls ex))"

text \<open>Every call is reserved before it starts and starts before it finishes.\<close>

definition calls_inv :: "'w execution \<Rightarrow> bool" where
  "calls_inv ex \<longleftrightarrow>
     distinct (map fst (reservations ex)) \<and> distinct (map fst (started_calls ex))
     \<and> distinct (map fst (finished_calls ex))
     \<and> (\<forall>i r. map_of (reservations ex) i = Some r \<longrightarrow> res_tool_id r \<in> set (visible_tool_ids ex))
     \<and> (\<forall>i t d. map_of (started_calls ex) i = Some (t, d) \<longrightarrow>
          dict_get d (lit ''tool_call_id'') = PStr i
          \<and> (\<exists>r. map_of (reservations ex) i = Some r \<and> res_tool_id r = t))
     \<and> (\<forall>i t d. map_of (finished_calls ex) i = Some (t, d) \<longrightarrow>
          dict_get d (lit ''tool_call_id'') = PStr i
          \<and> (\<exists>d'. map_of (started_calls ex) i = Some (t, d')))"

text \<open>Every durable fact rests on an earlier durable fact.\<close>

definition durable_inv :: "'w execution \<Rightarrow> bool" where
  "durable_inv ex \<longleftrightarrow>
     persisted_started ex \<subseteq> dom (map_of (started_calls ex))
     \<and> persisted_finished ex \<subseteq> persisted_started ex \<inter> dom (map_of (finished_calls ex))
     \<and> distinct (persisted_source_order ex)
     \<and> set (persisted_source_order ex) = persisted_sources ex
     \<and> (\<forall>s cs d. map_of (source_events ex) s = Some (cs, d) \<longrightarrow>
          dict_get d (lit ''source_id'') = PStr s
          \<and> len_between 1 128 s \<and> cs \<subseteq> dom (map_of (finished_calls ex)))
     \<and> (\<forall>s \<in> persisted_sources ex. \<exists>cs d.
          map_of (source_events ex) s = Some (cs, d) \<and> cs \<inter> persisted_finished ex \<noteq> {})"

definition result_inv :: "'w execution \<Rightarrow> bool" where
  "result_inv ex \<longleftrightarrow>
     (if ex_result_validation ex = Passed
      then valid_source_ids (ex_result_source_ids ex)
           \<and> set (ex_result_source_ids ex) \<subseteq> persisted_sources ex
      else ex_result_source_ids ex = [])"

definition exec_inv :: "'w execution \<Rightarrow> bool" where
  "exec_inv ex \<longleftrightarrow>
     scope_inv ex \<and> counters_inv ex \<and> calls_inv ex \<and> durable_inv ex \<and> result_inv ex"

lemmas inv_defs = scope_inv_def counters_inv_def calls_inv_def durable_inv_def result_inv_def

text \<open>Each part depends on its own fields only.\<close>

lemma scope_inv_frame [simp]:
  "scope_inv (ex\<lparr>model_steps := x_model_steps\<rparr>) = scope_inv ex"
  "scope_inv (ex\<lparr>tool_calls_attempted := x_tool_calls_attempted\<rparr>) = scope_inv ex"
  "scope_inv (ex\<lparr>tool_calls_succeeded := x_tool_calls_succeeded\<rparr>) = scope_inv ex"
  "scope_inv (ex\<lparr>repeated_tool_calls := x_repeated_tool_calls\<rparr>) = scope_inv ex"
  "scope_inv (ex\<lparr>consecutive_no_progress := x_consecutive_no_progress\<rparr>) = scope_inv ex"
  "scope_inv (ex\<lparr>progress_revision := x_progress_revision\<rparr>) = scope_inv ex"
  "scope_inv (ex\<lparr>last_model_progress_revision := x_last_model_progress_revision\<rparr>) = scope_inv ex"
  "scope_inv (ex\<lparr>last_tool_fingerprint := x_last_tool_fingerprint\<rparr>) = scope_inv ex"
  "scope_inv (ex\<lparr>identical_tool_calls := x_identical_tool_calls\<rparr>) = scope_inv ex"
  "scope_inv (ex\<lparr>seen_progress := x_seen_progress\<rparr>) = scope_inv ex"
  "scope_inv (ex\<lparr>reservations := x_reservations\<rparr>) = scope_inv ex"
  "scope_inv (ex\<lparr>started_calls := x_started_calls\<rparr>) = scope_inv ex"
  "scope_inv (ex\<lparr>finished_calls := x_finished_calls\<rparr>) = scope_inv ex"
  "scope_inv (ex\<lparr>source_events := x_source_events\<rparr>) = scope_inv ex"
  "scope_inv (ex\<lparr>persisted_started := x_persisted_started\<rparr>) = scope_inv ex"
  "scope_inv (ex\<lparr>persisted_finished := x_persisted_finished\<rparr>) = scope_inv ex"
  "scope_inv (ex\<lparr>persisted_sources := x_persisted_sources\<rparr>) = scope_inv ex"
  "scope_inv (ex\<lparr>persisted_source_order := x_persisted_source_order\<rparr>) = scope_inv ex"
  "scope_inv (ex\<lparr>accepted_sources := x_accepted_sources\<rparr>) = scope_inv ex"
  "scope_inv (ex\<lparr>ex_result_validation := x_ex_result_validation\<rparr>) = scope_inv ex"
  "scope_inv (ex\<lparr>ex_result_source_ids := x_ex_result_source_ids\<rparr>) = scope_inv ex"
  "scope_inv (ex\<lparr>provider_usage := x_provider_usage\<rparr>) = scope_inv ex"
  by (simp_all add: scope_inv_def)

lemma counters_inv_frame [simp]:
  "counters_inv (ex\<lparr>progress_revision := x_progress_revision\<rparr>) = counters_inv ex"
  "counters_inv (ex\<lparr>last_model_progress_revision := x_last_model_progress_revision\<rparr>) = counters_inv ex"
  "counters_inv (ex\<lparr>last_tool_fingerprint := x_last_tool_fingerprint\<rparr>) = counters_inv ex"
  "counters_inv (ex\<lparr>identical_tool_calls := x_identical_tool_calls\<rparr>) = counters_inv ex"
  "counters_inv (ex\<lparr>seen_progress := x_seen_progress\<rparr>) = counters_inv ex"
  "counters_inv (ex\<lparr>started_calls := x_started_calls\<rparr>) = counters_inv ex"
  "counters_inv (ex\<lparr>source_events := x_source_events\<rparr>) = counters_inv ex"
  "counters_inv (ex\<lparr>persisted_started := x_persisted_started\<rparr>) = counters_inv ex"
  "counters_inv (ex\<lparr>persisted_finished := x_persisted_finished\<rparr>) = counters_inv ex"
  "counters_inv (ex\<lparr>persisted_sources := x_persisted_sources\<rparr>) = counters_inv ex"
  "counters_inv (ex\<lparr>persisted_source_order := x_persisted_source_order\<rparr>) = counters_inv ex"
  "counters_inv (ex\<lparr>accepted_sources := x_accepted_sources\<rparr>) = counters_inv ex"
  "counters_inv (ex\<lparr>ex_result_validation := x_ex_result_validation\<rparr>) = counters_inv ex"
  "counters_inv (ex\<lparr>ex_result_source_ids := x_ex_result_source_ids\<rparr>) = counters_inv ex"
  "counters_inv (ex\<lparr>provider_usage := x_provider_usage\<rparr>) = counters_inv ex"
  by (simp_all add: counters_inv_def)

lemma calls_inv_frame [simp]:
  "calls_inv (ex\<lparr>model_steps := x_model_steps\<rparr>) = calls_inv ex"
  "calls_inv (ex\<lparr>tool_calls_attempted := x_tool_calls_attempted\<rparr>) = calls_inv ex"
  "calls_inv (ex\<lparr>tool_calls_succeeded := x_tool_calls_succeeded\<rparr>) = calls_inv ex"
  "calls_inv (ex\<lparr>repeated_tool_calls := x_repeated_tool_calls\<rparr>) = calls_inv ex"
  "calls_inv (ex\<lparr>consecutive_no_progress := x_consecutive_no_progress\<rparr>) = calls_inv ex"
  "calls_inv (ex\<lparr>progress_revision := x_progress_revision\<rparr>) = calls_inv ex"
  "calls_inv (ex\<lparr>last_model_progress_revision := x_last_model_progress_revision\<rparr>) = calls_inv ex"
  "calls_inv (ex\<lparr>last_tool_fingerprint := x_last_tool_fingerprint\<rparr>) = calls_inv ex"
  "calls_inv (ex\<lparr>identical_tool_calls := x_identical_tool_calls\<rparr>) = calls_inv ex"
  "calls_inv (ex\<lparr>seen_progress := x_seen_progress\<rparr>) = calls_inv ex"
  "calls_inv (ex\<lparr>source_events := x_source_events\<rparr>) = calls_inv ex"
  "calls_inv (ex\<lparr>persisted_started := x_persisted_started\<rparr>) = calls_inv ex"
  "calls_inv (ex\<lparr>persisted_finished := x_persisted_finished\<rparr>) = calls_inv ex"
  "calls_inv (ex\<lparr>persisted_sources := x_persisted_sources\<rparr>) = calls_inv ex"
  "calls_inv (ex\<lparr>persisted_source_order := x_persisted_source_order\<rparr>) = calls_inv ex"
  "calls_inv (ex\<lparr>accepted_sources := x_accepted_sources\<rparr>) = calls_inv ex"
  "calls_inv (ex\<lparr>ex_result_validation := x_ex_result_validation\<rparr>) = calls_inv ex"
  "calls_inv (ex\<lparr>ex_result_source_ids := x_ex_result_source_ids\<rparr>) = calls_inv ex"
  "calls_inv (ex\<lparr>provider_usage := x_provider_usage\<rparr>) = calls_inv ex"
  by (simp_all add: calls_inv_def)

lemma durable_inv_frame [simp]:
  "durable_inv (ex\<lparr>model_steps := x_model_steps\<rparr>) = durable_inv ex"
  "durable_inv (ex\<lparr>tool_calls_attempted := x_tool_calls_attempted\<rparr>) = durable_inv ex"
  "durable_inv (ex\<lparr>tool_calls_succeeded := x_tool_calls_succeeded\<rparr>) = durable_inv ex"
  "durable_inv (ex\<lparr>repeated_tool_calls := x_repeated_tool_calls\<rparr>) = durable_inv ex"
  "durable_inv (ex\<lparr>consecutive_no_progress := x_consecutive_no_progress\<rparr>) = durable_inv ex"
  "durable_inv (ex\<lparr>progress_revision := x_progress_revision\<rparr>) = durable_inv ex"
  "durable_inv (ex\<lparr>last_model_progress_revision := x_last_model_progress_revision\<rparr>) = durable_inv ex"
  "durable_inv (ex\<lparr>last_tool_fingerprint := x_last_tool_fingerprint\<rparr>) = durable_inv ex"
  "durable_inv (ex\<lparr>identical_tool_calls := x_identical_tool_calls\<rparr>) = durable_inv ex"
  "durable_inv (ex\<lparr>seen_progress := x_seen_progress\<rparr>) = durable_inv ex"
  "durable_inv (ex\<lparr>reservations := x_reservations\<rparr>) = durable_inv ex"
  "durable_inv (ex\<lparr>accepted_sources := x_accepted_sources\<rparr>) = durable_inv ex"
  "durable_inv (ex\<lparr>ex_result_validation := x_ex_result_validation\<rparr>) = durable_inv ex"
  "durable_inv (ex\<lparr>ex_result_source_ids := x_ex_result_source_ids\<rparr>) = durable_inv ex"
  "durable_inv (ex\<lparr>provider_usage := x_provider_usage\<rparr>) = durable_inv ex"
  by (simp_all add: durable_inv_def)

lemma result_inv_frame [simp]:
  "result_inv (ex\<lparr>model_steps := x_model_steps\<rparr>) = result_inv ex"
  "result_inv (ex\<lparr>tool_calls_attempted := x_tool_calls_attempted\<rparr>) = result_inv ex"
  "result_inv (ex\<lparr>tool_calls_succeeded := x_tool_calls_succeeded\<rparr>) = result_inv ex"
  "result_inv (ex\<lparr>repeated_tool_calls := x_repeated_tool_calls\<rparr>) = result_inv ex"
  "result_inv (ex\<lparr>consecutive_no_progress := x_consecutive_no_progress\<rparr>) = result_inv ex"
  "result_inv (ex\<lparr>progress_revision := x_progress_revision\<rparr>) = result_inv ex"
  "result_inv (ex\<lparr>last_model_progress_revision := x_last_model_progress_revision\<rparr>) = result_inv ex"
  "result_inv (ex\<lparr>last_tool_fingerprint := x_last_tool_fingerprint\<rparr>) = result_inv ex"
  "result_inv (ex\<lparr>identical_tool_calls := x_identical_tool_calls\<rparr>) = result_inv ex"
  "result_inv (ex\<lparr>seen_progress := x_seen_progress\<rparr>) = result_inv ex"
  "result_inv (ex\<lparr>reservations := x_reservations\<rparr>) = result_inv ex"
  "result_inv (ex\<lparr>started_calls := x_started_calls\<rparr>) = result_inv ex"
  "result_inv (ex\<lparr>finished_calls := x_finished_calls\<rparr>) = result_inv ex"
  "result_inv (ex\<lparr>source_events := x_source_events\<rparr>) = result_inv ex"
  "result_inv (ex\<lparr>persisted_started := x_persisted_started\<rparr>) = result_inv ex"
  "result_inv (ex\<lparr>persisted_finished := x_persisted_finished\<rparr>) = result_inv ex"
  "result_inv (ex\<lparr>persisted_source_order := x_persisted_source_order\<rparr>) = result_inv ex"
  "result_inv (ex\<lparr>accepted_sources := x_accepted_sources\<rparr>) = result_inv ex"
  "result_inv (ex\<lparr>provider_usage := x_provider_usage\<rparr>) = result_inv ex"
  by (simp_all add: result_inv_def)

section \<open>Steps\<close>

inductive exec_step :: "host_env \<Rightarrow> 'w execution \<Rightarrow> 'w execution \<Rightarrow> bool" for env where
  es_model: "before_model_call now ex = (r, ex') \<Longrightarrow> exec_step env ex ex'"
| es_response: "after_model_response env now ms ex = (r, ex') \<Longrightarrow> exec_step env ex ex'"
| es_reserve: "reserve_tool_calls env now calls ex = (r, ex') \<Longrightarrow> exec_step env ex ex'"
| es_finalizer: "record_finalizer_signal now ex = (r, ex') \<Longrightarrow> exec_step env ex ex'"
| es_begin: "begin_tool_call env now answer i t args ex = (b, ex') \<Longrightarrow> exec_step env ex ex'"
| es_finish: "finish_tool_call now i t msg ex = (f, ex') \<Longrightarrow> exec_step env ex ex'"
| es_accept: "accept_event now ev ex = (r, ex') \<Longrightarrow> exec_step env ex ex'"
| es_validate: "ex_result_validation ex = NotRun \<Longrightarrow> validate_result v text ex = (q, ex')
     \<Longrightarrow> exec_step env ex ex'"
| es_reject: "exec_step env ex (record_result_validation_failure ex)"
| es_usage: "exec_step env ex (ex\<lparr>provider_usage := led\<rparr>)"

lemma guarded_cases:
  assumes "guarded now ex body = (r, ex')"
  obtains (late) "deadline_at ex \<le> now" "r = Inl RunDeadlineExceeded" "ex' = ex"
  | (body) "now < deadline_at ex" "body = (r, ex')"
  using assms by (auto simp: guarded_def ensure_deadline_def split: if_splits)

section \<open>Preservation\<close>

lemma count_model_step_inv: "count_model_step ex = (r, ex') \<Longrightarrow> exec_inv ex \<Longrightarrow> exec_inv ex'"
  by (auto simp: count_model_step_def Let_def exec_inv_def counters_inv_def split: if_splits)

lemma before_model_call_inv:
  assumes "before_model_call now ex = (r, ex')" "exec_inv ex" shows "exec_inv ex'"
proof -
  have "exec_inv (ex\<lparr>consecutive_no_progress := n\<rparr>)" if "0 \<le> n" for n
    using assms(2) that by (simp add: exec_inv_def counters_inv_def)
  moreover have "0 \<le> consecutive_no_progress ex"
    using assms(2) by (simp add: exec_inv_def counters_inv_def)
  ultimately show ?thesis
    using assms
    by (auto simp: before_model_call_def Let_def elim!: guarded_cases split: if_splits
        dest: count_model_step_inv)
qed

lemma record_progress_inv [simp]: "exec_inv (record_progress fp ex) = exec_inv ex"
  by (simp add: record_progress_def exec_inv_def counters_inv_def)

lemma record_finalizer_signal_inv:
  "record_finalizer_signal now ex = (r, ex') \<Longrightarrow> exec_inv ex \<Longrightarrow> exec_inv ex'"
  by (auto simp: record_finalizer_signal_def elim!: guarded_cases)

lemma flush_repeats_inv: "exec_inv ex \<Longrightarrow> 0 \<le> loop_repeated l \<Longrightarrow> exec_inv (flush_repeats l ex)"
  by (simp add: flush_repeats_def exec_inv_def counters_inv_def)

lemma call_parts_fresh: "call_parts known call = Some (i, t, args) \<Longrightarrow> i \<notin> known \<and> i \<noteq> [] \<and> length i \<le> 128"
  by (auto simp: call_parts_def split: option.splits if_splits)

lemma count_repeat_frame [simp]:
  "loop_pending (count_repeat fp l) = loop_pending l"
  "loop_known (count_repeat fp l) = loop_known l"
  "0 \<le> loop_repeated l \<Longrightarrow> 0 \<le> loop_repeated (count_repeat fp l)"
  by (simp_all add: count_repeat_def)

text \<open>
  What the reservation loop delivers: on an exception only the repeat counters may have changed;
  otherwise as many new reservations as calls, under new distinct ids and for visible Tools.
\<close>

definition loop_ok :: "'w execution \<Rightarrow> pystr set \<Rightarrow> reserve_loop \<Rightarrow> bool" where
  "loop_ok ex known0 l \<longleftrightarrow>
     0 \<le> loop_repeated l
     \<and> distinct (map res_call_id (loop_pending l))
     \<and> loop_known l = known0 \<union> res_call_id ` set (loop_pending l)
     \<and> known0 \<inter> res_call_id ` set (loop_pending l) = {}
     \<and> (\<forall>r \<in> set (loop_pending l). res_tool_id r \<in> set (visible_tool_ids ex))"

lemma reserve_calls_ok:
  assumes "reserve_calls env calls l ex = (r, ex')" "loop_ok ex known0 l"
  shows "case r of
      Inl e \<Rightarrow> ex' = ex \<or> (\<exists>l'. ex' = flush_repeats l' ex \<and> 0 \<le> loop_repeated l')
    | Inr l' \<Rightarrow> ex' = ex \<and> loop_ok ex known0 l'
        \<and> length (loop_pending l') = length (loop_pending l) + length calls"
  using assms
proof (induction calls arbitrary: l)
  case Nil
  then show ?case by auto
next
  case (Cons call calls)
  show ?case
  proof (cases "call_parts (loop_known l) call")
    case None
    with Cons.prems show ?thesis by auto
  next
    case (Some p)
    then obtain i t args where parts: "call_parts (loop_known l) call = Some (i, t, args)"
      by (cases p) auto
    show ?thesis
    proof (cases "t \<in> set (visible_tool_ids ex)")
      case False
      with parts Cons.prems show ?thesis by auto
    next
      case visible: True
      show ?thesis
      proof (cases "canonicalize_call env (ex_registry ex) t args")
        case (Inl e)
        with parts visible Cons.prems show ?thesis by auto
      next
        case (Inr vf)
        then obtain v fp where call: "canonicalize_call env (ex_registry ex) t args = Inr (v, fp)"
          by (cases vf) auto
        define l1 where "l1 = count_repeat fp (l\<lparr>loop_known := insert i (loop_known l)\<rparr>)"
        have l1: "0 \<le> loop_repeated l1" "loop_pending l1 = loop_pending l"
          "loop_known l1 = insert i (loop_known l)"
          using Cons.prems(2) by (simp_all add: l1_def loop_ok_def)
        define l2 where "l2 = l1\<lparr>loop_pending := loop_pending l1
          @ [\<lparr>res_call_id = i, res_tool_id = t, res_arguments = v, res_fingerprint = fp\<rparr>]\<rparr>"
        have "loop_ok ex known0 l2"
          using Cons.prems(2) call_parts_fresh [OF parts] visible l1
          by (auto simp: loop_ok_def l2_def)
        moreover have "length (loop_pending l2) = Suc (length (loop_pending l))"
          by (simp add: l2_def l1)
        moreover have "reserve_calls env (call # calls) l ex =
           (if max_identical_tool_calls (budget (ex_agent ex)) < loop_identical l1
            then (Inl RepeatedToolCall, flush_repeats l1 ex) else reserve_calls env calls l2 ex)"
          using parts visible call by (simp add: l1_def l2_def Let_def)
        ultimately show ?thesis
          using Cons.prems Cons.IH [of l2] l1(1)
          by (auto split: if_splits sum.splits)
      qed
    qed
  qed
qed

lemma add_reservations_fresh:
  assumes "distinct (map res_call_id pending)" "res_call_id ` set pending \<inter> fst ` set rs = {}"
  shows "add_reservations pending rs = rs @ map (\<lambda>r. (res_call_id r, r)) pending"
  using assms
proof (induction pending arbitrary: rs)
  case (Cons r pending)
  then have "AList.update (res_call_id r) r rs = rs @ [(res_call_id r, r)]"
    by (intro keys_update_fresh) auto
  with Cons show ?case by (auto simp: add_reservations_def)
qed (simp add: add_reservations_def)


lemma exec_inv_attempted:
  "exec_inv ex \<Longrightarrow> 0 \<le> n \<Longrightarrow>
     exec_inv (ex\<lparr>tool_calls_attempted := tool_calls_attempted ex + n\<rparr>)"
  by (simp add: exec_inv_def counters_inv_def)

lemma exec_inv_reservations:
  assumes inv: "exec_inv ex" and l: "loop_ok ex (fst ` set (reservations ex) \<union> known) l"
    and bound: "int (length (reservations ex) + length (loop_pending l)) \<le> tool_calls_attempted ex"
      "tool_calls_attempted ex \<le> max_tool_calls (budget (ex_agent ex))"
  shows "exec_inv (ex\<lparr>reservations := add_reservations (loop_pending l) (reservations ex)\<rparr>)"
proof -
  define new where "new = map (\<lambda>r. (res_call_id r, r)) (loop_pending l)"
  have fresh: "fst ` set (reservations ex) \<inter> fst ` set new = {}"
    using l by (auto simp: loop_ok_def new_def image_image)
  have d: "distinct (map fst new)"
    using l by (simp add: loop_ok_def new_def comp_def)
  have new_ok: "\<forall>i r. map_of new i = Some r \<longrightarrow> res_tool_id r \<in> set (visible_tool_ids ex)"
    using l by (auto simp: loop_ok_def new_def dest!: map_of_SomeD)
  have "res_call_id ` set (loop_pending l) \<inter> fst ` set (reservations ex) = {}"
    using fresh by (auto simp: new_def image_image)
  moreover have "distinct (map res_call_id (loop_pending l))"
    using l by (simp add: loop_ok_def)
  ultimately have eq: "add_reservations (loop_pending l) (reservations ex) = reservations ex @ new"
    by (simp add: add_reservations_fresh new_def)
  have keep: "map_of (reservations ex) i = Some r \<Longrightarrow> map_of (reservations ex @ new) i = Some r" for i r
  proof -
    assume r: "map_of (reservations ex) i = Some r"
    then have "i \<notin> fst ` set new" using fresh by (force dest: map_of_SomeD)
    then have "map_of new i = None" by (simp add: map_of_eq_None_iff)
    with r show ?thesis by (simp add: map_add_def)
  qed
  have "\<forall>i t d. map_of (started_calls ex) i = Some (t, d) \<longrightarrow>
      dict_get d (lit ''tool_call_id'') = PStr i
      \<and> (\<exists>r. map_of (reservations ex @ new) i = Some r \<and> res_tool_id r = t)"
    using inv keep unfolding exec_inv_def calls_inv_def by meson
  moreover have "\<forall>i r. map_of (reservations ex @ new) i = Some r \<longrightarrow>
      res_tool_id r \<in> set (visible_tool_ids ex)"
    using inv new_ok unfolding exec_inv_def calls_inv_def by (auto simp: map_add_Some_iff)
  ultimately have calls: "calls_inv (ex\<lparr>reservations := reservations ex @ new\<rparr>)"
    using inv fresh d unfolding exec_inv_def calls_inv_def by (simp del: map_of_append)
  have "length new = length (loop_pending l)" by (simp add: new_def)
  then have "counters_inv (ex\<lparr>reservations := reservations ex @ new\<rparr>)"
    using inv bound by (simp add: exec_inv_def counters_inv_def)
  with calls inv show ?thesis by (simp add: exec_inv_def eq)
qed

lemma reserve_tool_calls_inv:
  assumes "reserve_tool_calls env now calls ex = (r, ex')" "exec_inv ex"
  shows "exec_inv ex'"
proof (cases "now < deadline_at ex \<and> calls \<noteq> []")
  case False
  with assms show ?thesis by (auto simp: reserve_tool_calls_def elim!: guarded_cases)
next
  case True
  define ex1 where "ex1 = ex\<lparr>tool_calls_attempted := tool_calls_attempted ex + int (length calls)\<rparr>"
  define l where "l = \<lparr>loop_pending = [], loop_last = last_tool_fingerprint ex,
    loop_identical = identical_tool_calls ex, loop_repeated = repeated_tool_calls ex,
    loop_known = fst ` set (reservations ex) \<union> fst ` set (started_calls ex)\<rparr>"
  have inv1: "exec_inv ex1" unfolding ex1_def by (rule exec_inv_attempted [OF assms(2)]) simp
  have ok: "loop_ok ex1 (fst ` set (reservations ex1) \<union> fst ` set (started_calls ex)) l"
    using assms(2) by (simp add: loop_ok_def l_def ex1_def exec_inv_def counters_inv_def)
  have run: "(if max_tool_calls (budget (ex_agent ex)) < tool_calls_attempted ex1
      then (Inl ToolCallLimitExceeded, ex1)
      else and_then (reserve_calls env calls l ex1) (\<lambda>l ex2. (Inr (), (flush_repeats l ex2)
                    \<lparr>reservations := add_reservations (loop_pending l) (reservations ex2)\<rparr>)))
      = (r, ex')"
    using assms(1) True unfolding ex1_def l_def
    by (simp add: reserve_tool_calls_def guarded_def ensure_deadline_def Let_def
        split del: if_split)
  show ?thesis
  proof (cases "max_tool_calls (budget (ex_agent ex)) < tool_calls_attempted ex1")
    case True
    with run inv1 show ?thesis by simp
  next
    case within: False
    obtain q ex2 where q: "reserve_calls env calls l ex1 = (q, ex2)" by fastforce
    note loop = reserve_calls_ok [OF q ok]
    show ?thesis
    proof (cases q)
      case (Inl e)
      with loop q run within inv1 flush_repeats_inv show ?thesis by auto
    next
      case (Inr l')
      with loop have l': "ex2 = ex1" "loop_ok ex1 (fst ` set (reservations ex1) \<union> fst ` set (started_calls ex)) l'"
        "length (loop_pending l') = length calls"
        by (auto simp: l_def)
      define ex3 where "ex3 = flush_repeats l' ex1"
      have same: "reservations ex3 = reservations ex1" "visible_tool_ids ex3 = visible_tool_ids ex1"
        "tool_calls_attempted ex3 = tool_calls_attempted ex1" "ex_agent ex3 = ex_agent ex1"
        by (simp_all add: ex3_def flush_repeats_def)
      have "exec_inv (ex3\<lparr>reservations := add_reservations (loop_pending l') (reservations ex3)\<rparr>)"
      proof (rule exec_inv_reservations)
        show "exec_inv ex3"
          unfolding ex3_def using inv1 l'(2) by (simp add: flush_repeats_inv loop_ok_def)
        show "loop_ok ex3 (fst ` set (reservations ex3) \<union> fst ` set (started_calls ex)) l'"
          using l'(2) by (simp add: loop_ok_def same)
        show "int (length (reservations ex3) + length (loop_pending l')) \<le> tool_calls_attempted ex3"
          using assms(2) l'(3) by (simp add: same ex1_def exec_inv_def counters_inv_def)
        show "tool_calls_attempted ex3 \<le> max_tool_calls (budget (ex_agent ex3))"
          using within by (simp add: same) (simp add: ex1_def)
      qed
      moreover have "ex' = ex3\<lparr>reservations := add_reservations (loop_pending l') (reservations ex3)\<rparr>"
        using run within q Inr l'(1) by (simp add: ex3_def) (simp add: flush_repeats_def)
      ultimately show ?thesis by simp
    qed
  qed
qed

lemma record_assistant_text_inv: "exec_inv (record_assistant_text env ex m) = exec_inv ex"
  by (simp add: record_assistant_text_def Let_def)

lemma record_assistant_texts_inv:
  "exec_inv (foldl (record_assistant_text env) ex ms) = exec_inv ex"
  by (induction ms arbitrary: ex) (simp_all add: record_assistant_text_inv)

lemma after_model_response_inv:
  "after_model_response env now ms ex = (r, ex') \<Longrightarrow> exec_inv ex \<Longrightarrow> exec_inv ex'"
  by (auto simp: after_model_response_def Let_def record_assistant_texts_inv
      intro: reserve_tool_calls_inv split: if_splits)

lemma require_permission_ok:
  "require_current_tool_permission answer t ex = Inr u \<Longrightarrow>
     t \<in> set (visible_tool_ids ex) \<and> t \<in> set (allowed_tools (ex_agent ex))
     \<and> t \<in> set (base_tools (ex_agent ex)) \<and> (\<exists>rec. require_tool (ex_registry ex) t = Inr rec)"
  by (auto simp: require_current_tool_permission_def split: sum.splits if_splits)

lemma begin_tool_call_ok:
  assumes "begin_tool_call env now answer i t args ex = (Inr (v, ev), ex')"
  obtains r rec fp where "now < deadline_at ex"
    "map_of (reservations ex) i = Some r" "res_tool_id r = t" "map_of (started_calls ex) i = None"
    "canonicalize_call env (ex_registry ex) t args = Inr (v, fp)"
    "fp = res_fingerprint r" "v = res_arguments r"
    "require_current_tool_permission answer t ex = Inr ()"
    "require_tool (ex_registry ex) t = Inr rec"
    "ev = \<lparr>pe_type = lit ''tool.started'', pe_data = started_data rec i t v\<rparr>"
    "ex' = ex\<lparr>started_calls := AList.update i (t, started_data rec i t v) (started_calls ex)\<rparr>"
  using assms unfolding begin_tool_call_def
  by (cases "map_of (started_calls ex) i") (auto elim!: guarded_cases simp: Let_def split: option.splits if_splits sum.splits prod.splits)

lemma begin_tool_call_failed: "begin_tool_call env now answer i t args ex = (Inl e, ex') \<Longrightarrow> ex' = ex"
  unfolding begin_tool_call_def
  by (auto elim!: guarded_cases simp: Let_def split: option.splits if_splits sum.splits prod.splits)

lemma started_data_id: "dict_get (started_data rec i t v) (lit ''tool_call_id'') = PStr i"
  by (simp add: started_data_def)

lemma begin_tool_call_inv:
  assumes "begin_tool_call env now answer i t args ex = (r, ex')" "exec_inv ex"
  shows "exec_inv ex'"
proof (cases r)
  case (Inl e)
  with assms begin_tool_call_failed show ?thesis by blast
next
  case (Inr p)
  obtain v ev where "r = Inr (v, ev)" using Inr by (cases p) auto
  with assms(1) have "begin_tool_call env now answer i t args ex = (Inr (v, ev), ex')" by simp
  then obtain res rec where 1: "map_of (reservations ex) i = Some res" "res_tool_id res = t"
    "map_of (started_calls ex) i = None"
    "ex' = ex\<lparr>started_calls := AList.update i (t, started_data rec i t v) (started_calls ex)\<rparr>"
    by (elim begin_tool_call_ok) blast
  have new: "map_of (AList.update i (t, started_data rec i t v) (started_calls ex))
      = (map_of (started_calls ex))(i \<mapsto> (t, started_data rec i t v))"
    by (rule update_conv')
  have unfinished: "map_of (finished_calls ex) i = None"
  proof (rule ccontr)
    assume "map_of (finished_calls ex) i \<noteq> None"
    then obtain q where "map_of (finished_calls ex) i = Some q" by blast
    with assms(2) 1(3) show False
      unfolding exec_inv_def calls_inv_def by (cases q) fastforce
  qed
  have "calls_inv ex'"
    using assms(2) 1 unfinished unfolding exec_inv_def calls_inv_def
    by (auto simp: new started_data_id distinct_update)
  moreover have "durable_inv ex'"
    using assms(2) 1 unfolding exec_inv_def durable_inv_def by (auto simp: new)
  ultimately show ?thesis using assms(2) 1(4) by (simp add: exec_inv_def)
qed


lemma dump_source_id: "dict_get (dump_source s) (lit ''source_id'') = PStr (source_id s)"
  by (simp add: dump_source_def)

lemma durable_source:
  "durable_inv ex \<Longrightarrow> s \<in> persisted_sources ex \<Longrightarrow> \<exists>cs d.
     map_of (source_events ex) s = Some (cs, d) \<and> cs \<inter> persisted_finished ex \<noteq> {}"
  by (simp add: durable_inv_def)

lemma accept_source_durable:
  assumes inv: "durable_inv ex" and fin: "i \<in> dom (map_of (finished_calls ex))"
    and s: "valid_tool_source s" and run: "accept_source i s ex = (evs, ex')"
  shows "durable_inv ex'"
proof (cases "map_of (source_events ex) (source_id s)")
  case None
  with run have ex': "ex' = record_progress (lit ''source:'' @ source_id s)
      (ex\<lparr>accepted_sources := add_contributor (source_id s) i (accepted_sources ex),
          source_events := AList.update (source_id s) ({i}, dump_source s) (source_events ex)\<rparr>)"
    by (simp add: accept_source_def Let_def)
  have "source_id s \<notin> persisted_sources ex"
    using inv None unfolding durable_inv_def by fastforce
  with inv None s fin show ?thesis
    unfolding ex' record_progress_def durable_inv_def
    by (auto simp: update_conv' dump_source_id valid_tool_source_def)
next
  case (Some cd)
  obtain cs d where cd: "map_of (source_events ex) (source_id s) = Some (cs, d)"
    using Some by (cases cd) auto
  with run have ex': "ex' = ex\<lparr>accepted_sources := add_contributor (source_id s) i (accepted_sources ex),
      source_events := AList.update (source_id s) (insert i cs, d) (source_events ex)\<rparr>"
    by (simp add: accept_source_def Let_def)
  have old: "dict_get d (lit ''source_id'') = PStr (source_id s)" "len_between 1 128 (source_id s)"
    "cs \<subseteq> dom (map_of (finished_calls ex))"
    using inv cd unfolding durable_inv_def by blast+
  have "\<exists>cs' d'. ((map_of (source_events ex))(source_id s \<mapsto> (insert i cs, d))) s' = Some (cs', d')
      \<and> cs' \<inter> persisted_finished ex \<noteq> {}" if "s' \<in> persisted_sources ex" for s'
  proof -
    obtain cs' d' where "map_of (source_events ex) s' = Some (cs', d')"
      "cs' \<inter> persisted_finished ex \<noteq> {}"
      using durable_source [OF inv \<open>s' \<in> _\<close>] by blast
    with cd show ?thesis by (cases "s' = source_id s") auto
  qed
  with inv old fin show ?thesis
    unfolding ex' durable_inv_def by (auto simp: update_conv')
qed

lemma accept_source_frame:
  assumes "accept_source i s ex = (evs, ex')"
  shows "finished_calls ex' = finished_calls ex" "scope_inv ex' = scope_inv ex"
    "counters_inv ex' = counters_inv ex" "calls_inv ex' = calls_inv ex"
    "result_inv ex' = result_inv ex"
  using assms
  by (auto simp: accept_source_def Let_def record_progress_def split: option.splits prod.splits if_splits)

lemma accept_sources_inv:
  assumes "accept_sources i ss ex = (evs, ex')" "exec_inv ex"
    and "i \<in> dom (map_of (finished_calls ex))" "list_all valid_tool_source ss"
  shows "exec_inv ex'"
  using assms
proof (induction ss arbitrary: ex evs)
  case (Cons s ss)
  obtain evs1 ex1 where one: "accept_source i s ex = (evs1, ex1)" by fastforce
  with Cons.prems(1) obtain evs2 where rest: "accept_sources i ss ex1 = (evs2, ex')"
    by (auto split: prod.splits)
  have "exec_inv ex1"
    using accept_source_frame [OF one] accept_source_durable [OF _ _ _ one] Cons.prems
    by (simp add: exec_inv_def)
  with rest accept_source_frame [OF one] Cons.prems show ?case
    by (intro Cons.IH [OF rest]) simp_all
qed simp

lemma finish_lifecycle_ok_iff:
  "finish_lifecycle_ok i t msg ex \<longleftrightarrow>
     (\<exists>d. map_of (started_calls ex) i = Some (t, d)) \<and> map_of (finished_calls ex) i = None
     \<and> tm_call_id msg = i \<and> (tm_name msg = None \<or> tm_name msg = Some t)"
  by (cases "map_of (finished_calls ex) i")
     (auto simp: finish_lifecycle_ok_def split: option.splits)

lemma finish_tool_call_ok:
  assumes "finish_tool_call now i t msg ex = (Inr evs, ex')"
  obtains oc rec evs' where "now < deadline_at ex" "finish_lifecycle_ok i t msg ex"
    "parse_tool_message (ex_registry ex) t msg = Inr oc"
    "require_tool (ex_registry ex) t = Inr rec"
    "\<not> list_ex (source_conflict ex) (outcome_sources oc)"
    "evs = \<lparr>pe_type = lit ''tool.finished'', pe_data = finished_data rec i t oc\<rparr> # evs'"
    "accept_sources i (outcome_sources oc)
       (record_progress (lit ''tool-fact:'' @ fact_fingerprint oc)
         (ex\<lparr>finished_calls := AList.update i (t, finished_data rec i t oc) (finished_calls ex),
             tool_calls_succeeded := tool_calls_succeeded ex + 1\<rparr>)) = (evs', ex')"
  using assms unfolding finish_tool_call_def
  by (elim guarded_cases) (auto simp: Let_def split: if_splits sum.splits prod.splits)

lemma finish_tool_call_failed: "finish_tool_call now i t msg ex = (Inl e, ex') \<Longrightarrow> ex' = ex"
  unfolding finish_tool_call_def
  by (elim guarded_cases) (auto simp: Let_def split: if_splits sum.splits prod.splits)

lemma finished_data_id: "dict_get (finished_data rec i t oc) (lit ''tool_call_id'') = PStr i"
  by (simp add: finished_data_def)

lemma parse_tool_message_sources:
  assumes "parse_tool_message reg i msg = Inr oc" shows "valid_parsed_outcome oc"
proof (cases "require_tool reg i")
  case (Inl e)
  with assms show ?thesis by (simp add: parse_tool_message_def split: if_splits)
next
  case (Inr t)
  show ?thesis
  proof (cases "bindE (parse_output t msg) make_parsed_outcome")
    case (Inl e)
    with assms \<open>require_tool reg i = Inr t\<close> show ?thesis
      by (cases e) (simp_all add: parse_tool_message_def split: if_splits)
  next
    case (Inr r)
    with assms \<open>require_tool reg i = Inr t\<close> have "r = oc"
      by (simp add: parse_tool_message_def del: bindE_eq_Inr split: if_splits)
    with Inr show ?thesis by (auto simp: make_parsed_outcome_def split: if_splits)
  qed
qed

lemma exec_inv_finished:
  assumes "exec_inv ex" "map_of (started_calls ex) i = Some (t, d)" "map_of (finished_calls ex) i = None"
  shows "exec_inv (ex\<lparr>finished_calls := AList.update i (t, finished_data rec i t oc) (finished_calls ex),
    tool_calls_succeeded := tool_calls_succeeded ex + 1\<rparr>)" (is "exec_inv ?ex'")
proof -
  have len: "length (AList.update i x (finished_calls ex)) = Suc (length (finished_calls ex))" for x
    using assms(3) by (simp add: map_of_eq_None_iff keys_update_fresh)
  have "counters_inv ?ex'"
    using assms(1) len by (simp add: exec_inv_def counters_inv_def)
  moreover have "calls_inv ?ex'"
    using assms unfolding exec_inv_def calls_inv_def
    by (auto simp: update_conv' finished_data_id distinct_update)
  moreover have "dom (map_of (finished_calls ?ex')) = insert i (dom (map_of (finished_calls ex)))"
    by (simp add: update_conv')
  then have "durable_inv ?ex'"
    using assms(1) unfolding exec_inv_def durable_inv_def by simp blast
  ultimately show ?thesis using assms(1) by (simp add: exec_inv_def)
qed

lemma finish_tool_call_inv:
  assumes "finish_tool_call now i t msg ex = (r, ex')" "exec_inv ex"
  shows "exec_inv ex'"
proof (cases r)
  case (Inl e)
  with assms finish_tool_call_failed show ?thesis by blast
next
  case (Inr evs)
  with assms(1) have "finish_tool_call now i t msg ex = (Inr evs, ex')" by simp
  then obtain oc rec evs' where 1: "finish_lifecycle_ok i t msg ex"
    "parse_tool_message (ex_registry ex) t msg = Inr oc"
    "accept_sources i (outcome_sources oc)
       (record_progress (lit ''tool-fact:'' @ fact_fingerprint oc)
         (ex\<lparr>finished_calls := AList.update i (t, finished_data rec i t oc) (finished_calls ex),
             tool_calls_succeeded := tool_calls_succeeded ex + 1\<rparr>)) = (evs', ex')"
    by (elim finish_tool_call_ok) blast
  show ?thesis
  proof (rule accept_sources_inv [OF 1(3)])
    show "list_all valid_tool_source (outcome_sources oc)"
      using parse_tool_message_sources [OF 1(2)] by (simp add: valid_parsed_outcome_def)
    obtain d where "map_of (started_calls ex) i = Some (t, d)" "map_of (finished_calls ex) i = None"
      using 1(1) by (auto simp: finish_lifecycle_ok_iff)
    with assms(2) show "exec_inv (record_progress (lit ''tool-fact:'' @ fact_fingerprint oc)
         (ex\<lparr>finished_calls := AList.update i (t, finished_data rec i t oc) (finished_calls ex),
             tool_calls_succeeded := tool_calls_succeeded ex + 1\<rparr>))"
      by (simp add: exec_inv_finished)
  qed (simp add: record_progress_def update_conv')
qed


lemma durable_inv_grow:
  assumes "durable_inv ex"
  shows "i \<in> dom (map_of (started_calls ex)) \<Longrightarrow>
      durable_inv (ex\<lparr>persisted_started := insert i (persisted_started ex)\<rparr>)"
    and "i \<in> persisted_started ex \<Longrightarrow> i \<in> dom (map_of (finished_calls ex)) \<Longrightarrow>
      durable_inv (ex\<lparr>persisted_finished := insert i (persisted_finished ex)\<rparr>)"
    and "map_of (source_events ex) s = Some (cs, d) \<Longrightarrow> cs \<inter> persisted_finished ex \<noteq> {} \<Longrightarrow>
      s \<notin> persisted_sources ex \<Longrightarrow>
      durable_inv (ex\<lparr>persisted_sources := insert s (persisted_sources ex),
                      persisted_source_order := persisted_source_order ex @ [s]\<rparr>)"
proof -
  assume "i \<in> dom (map_of (started_calls ex))"
  with assms show "durable_inv (ex\<lparr>persisted_started := insert i (persisted_started ex)\<rparr>)"
    unfolding durable_inv_def by simp blast
next
  assume i: "i \<in> persisted_started ex" "i \<in> dom (map_of (finished_calls ex))"
  have "\<exists>cs d. map_of (source_events ex) s = Some (cs, d) \<and> cs \<inter> insert i (persisted_finished ex) \<noteq> {}"
    if "s \<in> persisted_sources ex" for s
    using durable_source [OF assms that] by blast
  with assms i show "durable_inv (ex\<lparr>persisted_finished := insert i (persisted_finished ex)\<rparr>)"
    unfolding durable_inv_def by simp
next
  assume "map_of (source_events ex) s = Some (cs, d)" "cs \<inter> persisted_finished ex \<noteq> {}"
    "s \<notin> persisted_sources ex"
  with assms show "durable_inv (ex\<lparr>persisted_sources := insert s (persisted_sources ex),
                      persisted_source_order := persisted_source_order ex @ [s]\<rparr>)"
    unfolding durable_inv_def by simp
qed

lemma started_event_ok_iff:
  "started_event_ok ev ex \<longleftrightarrow>
     (\<exists>i t. event_key ''tool_call_id'' ev = Some i
        \<and> map_of (started_calls ex) i = Some (t, pe_data ev) \<and> i \<notin> persisted_started ex)"
  by (auto simp: started_event_ok_def split: option.splits)

lemma finished_event_ok_iff:
  "finished_event_ok ev ex \<longleftrightarrow>
     (\<exists>i t. event_key ''tool_call_id'' ev = Some i
        \<and> map_of (finished_calls ex) i = Some (t, pe_data ev)
        \<and> i \<in> persisted_started ex \<and> i \<notin> persisted_finished ex)"
  by (auto simp: finished_event_ok_def split: option.splits)

lemma source_event_ok_iff:
  "source_event_ok ev ex \<longleftrightarrow>
     (\<exists>s cs. event_key ''source_id'' ev = Some s
        \<and> map_of (source_events ex) s = Some (cs, pe_data ev)
        \<and> cs \<inter> persisted_finished ex \<noteq> {} \<and> s \<notin> persisted_sources ex)"
  by (auto simp: source_event_ok_def split: option.splits)

text \<open>The four ways an event is accepted.\<close>

lemma accept_event_cases:
  assumes "accept_event now ev ex = (r, ex')"
  obtains (rejected) e where "r = Inl e" "ex' = ex"
  | (delta) "r = Inr ()" "ex' = ex\<lparr>provider_usage := record_first_visible now (provider_usage ex)\<rparr>"
  | (started) i t where "r = Inr ()" "pe_type ev = lit ''tool.started''"
      "map_of (started_calls ex) i = Some (t, pe_data ev)" "i \<notin> persisted_started ex"
      "ex' = ex\<lparr>persisted_started := insert i (persisted_started ex)\<rparr>"
  | (finished) i t where "r = Inr ()" "pe_type ev = lit ''tool.finished''"
      "map_of (finished_calls ex) i = Some (t, pe_data ev)"
      "i \<in> persisted_started ex" "i \<notin> persisted_finished ex"
      "ex' = ex\<lparr>persisted_finished := insert i (persisted_finished ex)\<rparr>"
  | (source) s cs where "r = Inr ()" "pe_type ev = lit ''source.added''"
      "map_of (source_events ex) s = Some (cs, pe_data ev)"
      "cs \<inter> persisted_finished ex \<noteq> {}" "s \<notin> persisted_sources ex"
      "ex' = ex\<lparr>persisted_sources := insert s (persisted_sources ex),
                persisted_source_order := persisted_source_order ex @ [s]\<rparr>"
proof (cases "validate_event ev ex")
  case (Inl e)
  with assms have "r = Inl e" "ex' = ex" by (simp_all add: accept_event_def)
  then show ?thesis by (rule rejected)
next
  case (Inr u)
  then consider "pe_type ev = lit ''message.delta''"
    | "pe_type ev = lit ''tool.started''" "started_event_ok ev ex"
    | "pe_type ev = lit ''tool.finished''" "finished_event_ok ev ex"
    | "pe_type ev = lit ''source.added''" "source_event_ok ev ex"
    by (auto simp: validate_event_def split: if_splits)
  then show ?thesis
  proof cases
    case 1
    with Inr assms delta show ?thesis by (simp add: accept_event_def)
  next
    case 2
    with Inr assms started show ?thesis
      by (auto simp: accept_event_def started_event_ok_iff key_or_empty_def)
  next
    case 3
    with Inr assms finished show ?thesis
      by (auto simp: accept_event_def finished_event_ok_iff key_or_empty_def)
  next
    case 4
    then obtain s cs where s: "event_key ''source_id'' ev = Some s"
      "map_of (source_events ex) s = Some (cs, pe_data ev)"
      "cs \<inter> persisted_finished ex \<noteq> {}" "s \<notin> persisted_sources ex"
      unfolding source_event_ok_iff by blast
    with Inr assms 4(1) have "r = Inr ()" "ex' = ex\<lparr>persisted_sources := insert s (persisted_sources ex),
        persisted_source_order := persisted_source_order ex @ [s]\<rparr>"
      by (simp_all add: accept_event_def key_or_empty_def)
    with s 4(1) source show ?thesis by blast
  qed
qed

lemma accept_event_inv:
  assumes "accept_event now ev ex = (r, ex')" "exec_inv ex" shows "exec_inv ex'"
  using assms(1)
proof (cases rule: accept_event_cases)
  case delta
  with assms(2) show ?thesis by (simp add: exec_inv_def)
next
  case (started i t)
  with assms(2) durable_inv_grow(1) [of ex i] show ?thesis by (auto simp: exec_inv_def)
next
  case (finished i t)
  with assms(2) durable_inv_grow(2) [of ex i] show ?thesis by (auto simp: exec_inv_def)
next
  case (source s cs)
  then have "durable_inv ex'"
    using assms(2) durable_inv_grow(3) [of ex s cs "pe_data ev"] by (simp add: exec_inv_def)
  moreover have "result_inv ex'"
    using assms(2) source by (auto simp: exec_inv_def result_inv_def split: if_splits)
  ultimately show ?thesis using assms(2) source by (simp add: exec_inv_def)
qed (use assms(2) in simp)

lemma validate_result_ok:
  assumes "validate_result v text ex = (Inr r, ex')"
  shows "parse_agent_result v = Some r
    \<and> ex' = ex\<lparr>ex_result_validation := Passed, ex_result_source_ids := result_sources r\<rparr>
    \<and> result_version r = contract_schema_version (result_contract (ex_agent ex))
    \<and> int (length (result_text r)) \<le> max_answer_chars (result_contract (ex_agent ex))
    \<and> (text = None \<or> text = Some (result_text r))
    \<and> set (result_sources r) \<subseteq> persisted_sources ex
    \<and> (result_sources r \<noteq> [] \<longrightarrow> tool_calls_succeeded ex \<noteq> 0)
    \<and> (source_policy (result_contract (ex_agent ex)) = SourcesRequired \<longrightarrow> result_sources r \<noteq> [])
    \<and> (source_policy (result_contract (ex_agent ex)) = SourcesIfToolUsed
        \<and> 0 < tool_calls_succeeded ex \<longrightarrow> result_sources r \<noteq> [])"
  using assms
  by (auto simp: validate_result_def reject_result_def list_ex_iff split: option.splits if_splits)

lemma validate_result_rejected:
  "validate_result v text ex = (Inl e, ex') \<Longrightarrow> ex' = ex\<lparr>ex_result_validation := ValidationFailed\<rparr>"
  by (auto simp: validate_result_def reject_result_def split: option.splits if_splits)

lemma validate_result_inv:
  assumes "validate_result v text ex = (r, ex')" "exec_inv ex" "ex_result_validation ex = NotRun"
  shows "exec_inv ex'"
proof (cases r)
  case (Inl e)
  with assms(1) have "ex' = ex\<lparr>ex_result_validation := ValidationFailed\<rparr>"
    by (simp add: validate_result_rejected)
  with assms(2,3) show ?thesis by (simp add: exec_inv_def result_inv_def)
next
  case (Inr q)
  with assms(1) have ok: "validate_result v text ex = (Inr q, ex')" by simp
  have "valid_source_ids (result_sources q)"
    using validate_result_ok [OF ok] parse_agent_result_valid [of v q]
    by (simp add: valid_agent_result_def)
  with validate_result_ok [OF ok] assms(2) show ?thesis
    by (simp add: exec_inv_def result_inv_def)
qed

lemma record_result_validation_failure_inv:
  "exec_inv ex \<Longrightarrow> exec_inv (record_result_validation_failure ex)"
  by (simp add: record_result_validation_failure_def exec_inv_def result_inv_def)

section \<open>The execution as a state machine\<close>

definition exec_init :: "'w execution \<Rightarrow> bool" where
  "exec_init ex \<longleftrightarrow> scope_inv ex \<and>
     (\<exists>p a m d visible plan reg now now'. ex = new_execution p a m d visible plan reg now now')"

lemma exec_init_inv: "exec_init ex \<Longrightarrow> exec_inv ex"
  by (auto simp: exec_init_def exec_inv_def new_execution_def counters_inv_def calls_inv_def
      durable_inv_def result_inv_def scope_inv_def valid_agent_definition_def valid_budget_def)

interpretation exec: guarded_machine exec_init "exec_step env" exec_inv for env
proof unfold_locales
  show "exec_init s \<Longrightarrow> exec_inv s" for s :: "'w execution" by (rule exec_init_inv)
next
  fix s t :: "'w execution"
  assume "exec_inv s" "exec_step env s t"
  from this(2,1) show "exec_inv t"
  proof cases
    case es_usage
    then show ?thesis using \<open>exec_inv s\<close> by (simp add: exec_inv_def)
  qed (blast intro: before_model_call_inv after_model_response_inv reserve_tool_calls_inv
      record_finalizer_signal_inv begin_tool_call_inv finish_tool_call_inv accept_event_inv
      validate_result_inv record_result_validation_failure_inv)+
qed

end
