(* ===== verification/Policy_Kernel.thy ===== *)
theory Policy_Kernel
  imports Execution_Safety
begin

text \<open>
  execution_policy.py, class \<open>AgentPolicyKernel\<close>: the startup checks over Agent definitions,
  model profile, Tool registry and capability policy, and \<open>prepare_run\<close>, which evaluates the
  policy for one Principal and freezes the plan of a Run. What the capability policy answers is
  an argument (\<open>answer\<close>): it may raise, name another policy or allow anything.
\<close>

record policy_kernel =
  kernel_definitions :: "(pystr \<times> agent_definition) list"
  default_agent_id :: pystr
  kernel_model_profile :: model_profile
  kernel_registry :: tool_registry
  kernel_policy_id :: pystr
  kernel_policy_version :: pystr

fun collect_definitions ::
  "(pystr \<times> agent_definition) list \<Rightarrow> agent_definition list \<Rightarrow>
   exn + (pystr \<times> agent_definition) list" where
  "collect_definitions acc [] = Inr acc"
| "collect_definitions acc (a # as) =
     (if agent_schema_version a \<noteq> AGENT_DEFINITION_SCHEMA_VERSION
         \<or> contract_schema_version (result_contract a) \<noteq> AGENT_RESULT_SCHEMA_VERSION
      then Inl (PolicyKernelConfigurationError ''agent_schema_version_unsupported'')
      else
        (case make_agent_definition a of
           Inl _ \<Rightarrow> Inl (PolicyKernelConfigurationError ''agent_definition_invalid'')
         | Inr d \<Rightarrow>
             if map_of acc (agent_id d) \<noteq> None
             then Inl (PolicyKernelConfigurationError ''duplicate_agent_definition'')
             else collect_definitions (AList.update (agent_id d) d acc) as))"

definition definition_tools_ok :: "tool_registry \<Rightarrow> agent_definition \<Rightarrow> bool" where
  "definition_tools_ok reg a \<longleftrightarrow>
     list_all (\<lambda>t. case require_tool reg t of Inl _ \<Rightarrow> False | Inr _ \<Rightarrow> True)
       (allowed_tools a @ base_tools a)"

fun check_definitions ::
  "model_profile \<Rightarrow> tool_registry \<Rightarrow> agent_definition list \<Rightarrow> exn + unit" where
  "check_definitions m reg [] = Inr ()"
| "check_definitions m reg (a # as) =
     (if model_profile a \<noteq> profile_id m
      then Inl (PolicyKernelConfigurationError ''agent_model_profile_unknown'')
      else if \<not> definition_tools_ok reg a
      then Inl (PolicyKernelConfigurationError ''agent_tool_reference_unavailable'')
      else check_definitions m reg as)"

definition make_policy_kernel ::
  "agent_definition list \<Rightarrow> pystr \<Rightarrow> model_profile \<Rightarrow> tool_registry \<Rightarrow> capability_policy \<Rightarrow>
   exn + policy_kernel" where
  "make_policy_kernel definitions dflt m reg policy =
     bindE (collect_definitions [] definitions) (\<lambda>defs.
     bindE (requireE (defs \<noteq> []) (PolicyKernelConfigurationError ''agent_definition_missing'')) (\<lambda>_.
     bindE (requireE (valid_model_profile m) (PolicyKernelConfigurationError ''model_profile_invalid'')) (\<lambda>_.
     (case map_of defs dflt of
        None \<Rightarrow> Inl (PolicyKernelConfigurationError ''default_agent_unknown'')
      | Some a \<Rightarrow>
          if \<not> agent_enabled a
          then Inl (PolicyKernelConfigurationError ''default_agent_disabled'')
          else
            bindE (check_definitions m reg (map snd defs)) (\<lambda>_.
            (case make_capability_decision
                    \<lparr>decision_policy_id = policy_id policy,
                     decision_policy_version = policy_version policy,
                     decision_allowed_tools = []\<rparr> of
               Inl _ \<Rightarrow> Inl (PolicyKernelConfigurationError ''capability_policy_invalid'')
             | Inr _ \<Rightarrow>
                 Inr \<lparr>kernel_definitions = defs, default_agent_id = dflt,
                      kernel_model_profile = m, kernel_registry = reg,
                      kernel_policy_id = policy_id policy,
                      kernel_policy_version = policy_version policy\<rparr>))))))"

definition resolve_agent :: "policy_kernel \<Rightarrow> pystr option \<Rightarrow> exn + agent_definition" where
  "resolve_agent k selected =
     (let i = (case selected of
                 Some s \<Rightarrow> if s = [] then default_agent_id k else s
               | None \<Rightarrow> default_agent_id k)
      in case map_of (kernel_definitions k) i of
           None \<Rightarrow> Inl (PolicyKernelConfigurationError ''agent_definition_unknown'')
         | Some a \<Rightarrow>
             if \<not> agent_enabled a
             then Inl (PolicyKernelConfigurationError ''agent_definition_disabled'') else Inr a)"

text \<open>The decision a Run works with: the policy's, or an empty one when it cannot be trusted.\<close>

definition effective_decision ::
  "policy_kernel \<Rightarrow> exn + capability_decision \<Rightarrow> capability_decision" where
  "effective_decision k answer =
     (case bindE answer make_capability_decision of
        Inr d \<Rightarrow>
          if decision_policy_id d \<noteq> kernel_policy_id k
             \<or> decision_policy_version d \<noteq> kernel_policy_version k
          then \<lparr>decision_policy_id = kernel_policy_id k,
                decision_policy_version = kernel_policy_version k, decision_allowed_tools = []\<rparr>
          else d
      | Inl _ \<Rightarrow>
          \<lparr>decision_policy_id = kernel_policy_id k,
           decision_policy_version = kernel_policy_version k, decision_allowed_tools = []\<rparr>)"

definition visible_tools ::
  "tool_registry \<Rightarrow> agent_definition \<Rightarrow> capability_decision \<Rightarrow> pystr list" where
  "visible_tools reg a d =
     filter (\<lambda>t. t \<in> set (enabled_tool_ids reg) \<and> t \<in> set (allowed_tools a)
                 \<and> t \<in> set (decision_allowed_tools d)) (base_tools a)"

fun versioned_tools :: "tool_registry \<Rightarrow> pystr list \<Rightarrow> exn + versioned_tool list" where
  "versioned_tools reg [] = Inr []"
| "versioned_tools reg (t # ts) =
     bindE (version_for reg t) (\<lambda>v.
     bindE (make_versioned_tool t v) (\<lambda>x.
     bindE (versioned_tools reg ts) (\<lambda>xs. Inr (x # xs))))"

definition build_plan ::
  "host_env \<Rightarrow> (rat \<Rightarrow> pystr) \<Rightarrow> policy_kernel \<Rightarrow> agent_definition \<Rightarrow> capability_decision \<Rightarrow>
   pystr list \<Rightarrow> exn + execution_plan" where
  "build_plan env fmt_g k a d visible =
     bindE (make_layer_versions (layer_versions (build_context fmt_g a visible [] []))) (\<lambda>layers.
     bindE (versioned_tools (kernel_registry k) visible) (\<lambda>tools.
     make_plan
       \<lparr>plan_agent_schema_version = agent_schema_version a,
        plan_agent_id = agent_id a, plan_agent_version = agent_version a,
        plan_model_profile_id = profile_id (kernel_model_profile k),
        plan_model_profile_version = profile_version (kernel_model_profile k),
        plan_model_provider = provider (kernel_model_profile k),
        plan_model_id = model_id (kernel_model_profile k),
        plan_prompt_id = prompt_id (prompt a), plan_prompt_version = prompt_version (prompt a),
        plan_prompt_sha256 = env_sha256 env (instructions (prompt a)),
        plan_context_builder_version = CONTEXT_BUILDER_VERSION,
        plan_layer_versions = layers,
        plan_policy_id = decision_policy_id d, plan_policy_version = decision_policy_version d,
        plan_registry_id = registry_id (kernel_registry k),
        plan_registry_version = registry_version (kernel_registry k),
        plan_allowed_tools = allowed_tools a, plan_base_tools = base_tools a,
        plan_visible_tools = tools, plan_budget = budget a,
        plan_result_contract = result_contract a\<rparr>))"

definition prepare_run ::
  "host_env \<Rightarrow> (rat \<Rightarrow> pystr) \<Rightarrow> policy_kernel \<Rightarrow> exn + capability_decision \<Rightarrow> principal \<Rightarrow>
   pystr option \<Rightarrow> rat \<Rightarrow> rat \<Rightarrow> exn + 'w execution" where
  "prepare_run env fmt_g k answer p selected now now' =
     bindE (resolve_agent k selected) (\<lambda>a.
     let d = effective_decision k answer;
         visible = visible_tools (kernel_registry k) a d
     in bindE (build_plan env fmt_g k a d visible) (\<lambda>plan.
        Inr (new_execution p a (kernel_model_profile k) d visible plan (kernel_registry k) now now')))"

definition framework_recursion_limit :: "policy_kernel \<Rightarrow> int" where
  "framework_recursion_limit k =
     (let enabled = filter agent_enabled (map snd (kernel_definitions k))
      in (Max (set (map (\<lambda>a. max_model_steps (budget a)) enabled))
          + Max (set (map (\<lambda>a. max_tool_calls (budget a)) enabled)) + 4) * 3)"

section \<open>What construction establishes\<close>

definition valid_kernel :: "policy_kernel \<Rightarrow> bool" where
  "valid_kernel k \<longleftrightarrow>
     valid_registry (kernel_registry k) \<and> valid_model_profile (kernel_model_profile k)
     \<and> valid_identifier (kernel_policy_id k) \<and> valid_version (kernel_policy_version k)
     \<and> distinct (map fst (kernel_definitions k))
     \<and> (\<forall>i a. map_of (kernel_definitions k) i = Some a \<longrightarrow>
          agent_id a = i \<and> valid_agent_definition a
          \<and> model_profile a = profile_id (kernel_model_profile k)
          \<and> definition_tools_ok (kernel_registry k) a)
     \<and> (\<exists>a. map_of (kernel_definitions k) (default_agent_id k) = Some a \<and> agent_enabled a)"

lemma collect_definitions_ok:
  assumes "collect_definitions acc as = Inr defs"
    and "distinct (map fst acc)" "\<forall>i a. map_of acc i = Some a \<longrightarrow> agent_id a = i \<and> valid_agent_definition a"
  shows "distinct (map fst defs)
    \<and> (\<forall>i a. map_of defs i = Some a \<longrightarrow> agent_id a = i \<and> valid_agent_definition a)"
  using assms
proof (induction acc as rule: collect_definitions.induct)
  case (2 acc a as)
  have d: "make_agent_definition a = Inr a" "valid_agent_definition a"
    and rest: "collect_definitions (AList.update (agent_id a) a acc) as = Inr defs"
    using 2(2) by (auto simp: make_agent_definition_iff split: if_splits sum.splits)
  have cond: "\<not> (agent_schema_version a \<noteq> AGENT_DEFINITION_SCHEMA_VERSION
      \<or> contract_schema_version (result_contract a) \<noteq> AGENT_RESULT_SCHEMA_VERSION)"
    "\<not> map_of acc (agent_id a) \<noteq> None"
    using 2(2) d(1) by (auto split: if_splits)
  show ?case
  proof (rule 2(1) [OF cond(1) d(1) cond(2) rest])
    show "distinct (map fst (AList.update (agent_id a) a acc))"
      using 2(3) by (rule distinct_update)
    show "\<forall>i b. map_of (AList.update (agent_id a) a acc) i = Some b
        \<longrightarrow> agent_id b = i \<and> valid_agent_definition b"
      using 2(4) d(2) by (simp add: update_conv')
  qed
qed simp

lemma distinct_nil_keys: "distinct (map fst [])"
  and empty_definitions: "\<forall>i a. map_of [] i = Some a \<longrightarrow> agent_id a = i \<and> valid_agent_definition a"
  by simp_all

lemma check_definitions_ok:
  "check_definitions m reg as = Inr () \<Longrightarrow> a \<in> set as \<Longrightarrow>
     model_profile a = profile_id m \<and> definition_tools_ok reg a"
  by (induction as) (auto split: if_splits)

lemma make_policy_kernel_valid:
  assumes "make_policy_kernel definitions dflt m reg policy = Inr k" "valid_registry reg"
  shows "valid_kernel k"
proof -
  from assms(1) obtain defs a where 1: "collect_definitions [] definitions = Inr defs"
    "valid_model_profile m" "map_of defs dflt = Some a" "agent_enabled a"
    "check_definitions m reg (map snd defs) = Inr ()"
    "valid_identifier (policy_id policy)" "valid_version (policy_version policy)"
    "k = \<lparr>kernel_definitions = defs, default_agent_id = dflt, kernel_model_profile = m,
          kernel_registry = reg, kernel_policy_id = policy_id policy,
          kernel_policy_version = policy_version policy\<rparr>"
    by (auto simp: make_policy_kernel_def split: option.splits if_splits sum.splits)
  have "model_profile b = profile_id m \<and> definition_tools_ok reg b" if "map_of defs i = Some b" for i b
    using check_definitions_ok [OF 1(5), of b] map_of_SomeD [OF that] by force
  moreover note collect_definitions_ok [OF 1(1) distinct_nil_keys empty_definitions]
  ultimately show ?thesis
    using 1(2-4,6,7) assms(2) unfolding valid_kernel_def 1(8) policy_kernel.simps by blast
qed


section \<open>Preparing a Run\<close>

lemma kernel_agent:
  assumes "valid_kernel k" "resolve_agent k selected = Inr a"
  shows "valid_agent_definition a \<and> agent_enabled a \<and> definition_tools_ok (kernel_registry k) a
    \<and> a \<in> set (map snd (kernel_definitions k))"
proof -
  obtain i where i: "map_of (kernel_definitions k) i = Some a" "agent_enabled a"
    using assms(2) by (auto simp: resolve_agent_def Let_def split: option.splits if_splits)
  have "valid_agent_definition a \<and> definition_tools_ok (kernel_registry k) a"
    using assms(1) i(1) unfolding valid_kernel_def by blast
  with i map_of_SomeD [OF i(1)] show ?thesis by force
qed

lemma resolve_default:
  assumes "valid_kernel k" shows "\<exists>a. resolve_agent k None = Inr a"
proof -
  obtain a where "map_of (kernel_definitions k) (default_agent_id k) = Some a" "agent_enabled a"
    using assms unfolding valid_kernel_def by blast
  then show ?thesis by (simp add: resolve_agent_def)
qed

lemma versioned_tools_total:
  assumes "valid_registry reg" "set ts \<subseteq> set (enabled_tool_ids reg)"
  shows "\<exists>vts. versioned_tools reg ts = Inr vts \<and> map vt_tool_id vts = ts
    \<and> list_all valid_versioned_tool vts"
  using assms(2)
proof (induction ts)
  case (Cons t ts)
  then obtain r where r: "require_tool reg t = Inr r"
    using registry.enabled_iff [OF assms(1)] by auto
  have "valid_versioned_tool \<lparr>vt_tool_id = t, vt_version = tool_version r\<rparr>"
    using registry.enabled_valid [OF assms(1), of t] Cons.prems registry.version_valid [OF assms(1) r]
    by (simp add: valid_versioned_tool_def valid_tool_id_iff valid_version_text_iff)
  with Cons r show ?case by (auto simp: version_for_def make_versioned_tool_def)
qed simp

lemma effective_decision_ids [simp]:
  "decision_policy_id (effective_decision k answer) = kernel_policy_id k"
  "decision_policy_version (effective_decision k answer) = kernel_policy_version k"
  by (auto simp: effective_decision_def split: sum.splits if_splits)

lemma constant_versions: "valid_version (lit ''1.0.0'')"
  by (rule default_ids_valid)

lemma layer_evidence_ok:
  assumes "valid_agent_definition a"
  shows "\<exists>l. make_layer_versions (layer_versions (build_context fmt_g a visible conv td)) = Inr l
    \<and> valid_layer_versions l"
proof -
  have "valid_version (prompt_version (prompt a))"
    using assms by (simp add: valid_agent_definition_def valid_prompt_def)
  then show ?thesis
    unfolding layer_versions_build
    by (simp add: make_layer_versions_def valid_layer_versions_def HOST_RULES_VERSION_def
        CONTEXT_BUILDER_VERSION_def constant_versions len_between_def)
qed

lemma visible_tools_scope:
  "set (visible_tools reg a d) \<subseteq>
     set (base_tools a) \<inter> set (allowed_tools a) \<inter> set (enabled_tool_ids reg)"
  "distinct (base_tools a) \<Longrightarrow> distinct (visible_tools reg a d)"
  by (auto simp: visible_tools_def)

lemma build_plan_ok:
  assumes "valid_kernel k" "valid_agent_definition a" "\<forall>s. is_hex64 (env_sha256 env s)"
    and "visible = visible_tools (kernel_registry k) a d"
    and "decision_policy_id d = kernel_policy_id k" "decision_policy_version d = kernel_policy_version k"
  shows "\<exists>plan. build_plan env fmt_g k a d visible = Inr plan \<and> valid_plan plan
    \<and> map vt_tool_id (plan_visible_tools plan) = visible \<and> plan_budget plan = budget a"
proof -
  have k: "valid_registry (kernel_registry k)" "valid_model_profile (kernel_model_profile k)"
    "valid_identifier (kernel_policy_id k)" "valid_version (kernel_policy_version k)"
    using assms(1) unfolding valid_kernel_def by blast+
  have vis: "set visible \<subseteq> set (enabled_tool_ids (kernel_registry k))"
    "list_all (\<lambda>t. t \<in> set (base_tools a) \<and> t \<in> set (allowed_tools a)) visible" "distinct visible"
    using visible_tools_scope [where reg = "kernel_registry k" and a = a and d = d] assms(2,4)
    by (auto simp: valid_agent_definition_def list_all_iff)
  obtain l where l: "make_layer_versions (layer_versions (build_context fmt_g a visible [] [])) = Inr l"
    "valid_layer_versions l"
    using layer_evidence_ok [OF assms(2)] by blast
  obtain vts where vts: "versioned_tools (kernel_registry k) visible = Inr vts"
    "map vt_tool_id vts = visible" "list_all valid_versioned_tool vts"
    using versioned_tools_total [OF k(1) vis(1)] by blast
  have a: "valid_version (agent_schema_version a)" "valid_contract_evidence (result_contract a)"
    using assms(2) constant_versions
    by (auto simp: valid_agent_definition_def valid_contract_def valid_contract_evidence_def
        AGENT_DEFINITION_SCHEMA_VERSION_def AGENT_RESULT_SCHEMA_VERSION_def)
  have reg: "valid_identifier (registry_id (kernel_registry k))"
    "valid_version (registry_version (kernel_registry k))"
    using k(1) by (simp_all add: valid_registry_def valid_tool_id_iff valid_version_text_iff)
  show ?thesis
    using assms(2,3,5,6) k reg a l vts vis constant_versions
    by (auto simp: build_plan_def make_plan_def valid_plan_def plan_fields_ok_def plan_scope_ok_def
        valid_model_profile_def valid_agent_definition_def valid_prompt_def
        valid_plan_tool_ids_def list_all_iff list_ex_iff CONTEXT_BUILDER_VERSION_def)
qed

text \<open>Preparing a Run never fails for an enabled Agent, whatever the capability policy answers:
  the plan passes its own validators, the visible Tools are the Agent's base Tools, in their
  order, that are registered and enabled, allowed to the Agent and granted by the policy, and a
  policy that raises, answers garbage or speaks for another policy grants nothing.\<close>

theorem prepare_run_total:
  assumes "valid_kernel k" and "\<forall>s. is_hex64 (env_sha256 env s)"
    and "resolve_agent k selected = Inr a"
  shows "\<exists>ex. (prepare_run env fmt_g k answer p selected now now' :: exn + 'w execution) = Inr ex
    \<and> exec_init ex \<and> valid_plan (plan_evidence ex) \<and> deadline_at ex = now + deadline_seconds (budget a)
    \<and> map vt_tool_id (plan_visible_tools (plan_evidence ex)) = visible_tool_ids ex
    \<and> visible_tool_ids ex =
        (case bindE answer make_capability_decision of
           Inl _ \<Rightarrow> []
         | Inr d \<Rightarrow>
             if decision_policy_id d = kernel_policy_id k
                \<and> decision_policy_version d = kernel_policy_version k
             then filter (\<lambda>t. t \<in> set (enabled_tool_ids (kernel_registry k))
                     \<and> t \<in> set (allowed_tools a) \<and> t \<in> set (decision_allowed_tools d)) (base_tools a)
             else [])"
proof -
  define d where "d = effective_decision k answer"
  define visible where "visible = visible_tools (kernel_registry k) a d"
  have a: "valid_agent_definition a"
    using kernel_agent [OF assms(1,3)] by blast
  obtain plan where plan: "build_plan env fmt_g k a d visible = Inr plan" "valid_plan plan"
    "map vt_tool_id (plan_visible_tools plan) = visible"
    using build_plan_ok [OF assms(1) a assms(2) visible_def] by (auto simp: d_def)
  define ex :: "'w execution" where
    "ex = new_execution p a (kernel_model_profile k) d visible plan (kernel_registry k) now now'"
  have run: "prepare_run env fmt_g k answer p selected now now' = Inr ex"
    using plan(1) by (simp add: prepare_run_def assms(3) Let_def ex_def flip: d_def visible_def)
  have fields: "visible_tool_ids ex = visible" "plan_evidence ex = plan"
    "deadline_at ex = now + deadline_seconds (budget a)"
    by (simp_all add: ex_def new_execution_def)
  have "valid_registry (kernel_registry k)"
    using assms(1) unfolding valid_kernel_def by blast
  then have "scope_inv ex"
    using a visible_tools_scope [where reg = "kernel_registry k" and a = a and d = d]
    by (simp add: scope_inv_def ex_def new_execution_def valid_agent_definition_def flip: visible_def)
  then have "exec_init ex" unfolding exec_init_def ex_def by blast
  moreover have "visible =
      (case bindE answer make_capability_decision of
           Inl _ \<Rightarrow> []
         | Inr d \<Rightarrow>
             if decision_policy_id d = kernel_policy_id k
                \<and> decision_policy_version d = kernel_policy_version k
             then filter (\<lambda>t. t \<in> set (enabled_tool_ids (kernel_registry k))
                     \<and> t \<in> set (allowed_tools a) \<and> t \<in> set (decision_allowed_tools d)) (base_tools a)
             else [])"
    by (cases "bindE answer make_capability_decision")
       (simp_all add: visible_def visible_tools_def d_def effective_decision_def
         del: bindE_eq_Inr make_capability_decision_Inr)
  ultimately show ?thesis
    using run plan fields by simp
qed

definition demo_profile :: model_profile where
  "demo_profile = \<lparr>profile_id = lit ''default'', profile_version = lit ''1.0.0'',
                   provider = lit ''openai'', model_id = lit ''m''\<rparr>"

definition demo_kernel :: policy_kernel where
  "demo_kernel = \<lparr>kernel_definitions = [(agent_id demo_agent, demo_agent)],
     default_agent_id = agent_id demo_agent, kernel_model_profile = demo_profile,
     kernel_registry = demo_registry, kernel_policy_id = policy_id neutral_policy,
     kernel_policy_version = policy_version neutral_policy\<rparr>"

definition hex_env :: host_env where
  "hex_env = \<lparr>env_sha256 = (\<lambda>s. replicate 64 48), env_json_dumps = env_json_dumps demo_env,
              env_json_loads = env_json_loads demo_env\<rparr>"

lemma hex_env_hex: "\<forall>s. is_hex64 (env_sha256 hex_env s)"
  by (simp add: hex_env_def is_hex64_def is_digit_def list_all_iff)

lemma neutral_policy_ids:
  "policy_id neutral_policy = lit ''neutral-authenticated-tools''"
  "policy_version neutral_policy = lit ''1.0.0''"
  "valid_identifier (lit ''neutral-authenticated-tools'')"
  by (simp_all add: neutral_policy_def pattern_eval lit_def)

lemma demo_tools_ok: "definition_tools_ok demo_registry demo_agent"
  by (simp add: definition_tools_ok_def demo_agent_def demo_registry_def require_tool_def
      time_tool_def)

lemma demo_kernel_built:
  "make_policy_kernel [demo_agent] (agent_id demo_agent) demo_profile demo_registry neutral_policy
     = Inr demo_kernel"
proof -
  have "valid_model_profile demo_profile"
    by (simp add: valid_model_profile_def demo_profile_def pattern_eval lit_def)
  moreover have "agent_schema_version demo_agent = AGENT_DEFINITION_SCHEMA_VERSION"
    "contract_schema_version (result_contract demo_agent) = AGENT_RESULT_SCHEMA_VERSION"
    "agent_enabled demo_agent" "model_profile demo_agent = profile_id demo_profile"
    by (simp_all add: demo_agent_def demo_profile_def)
  moreover have "make_agent_definition demo_agent = Inr demo_agent"
    by (simp add: make_agent_definition_iff demo_agent_valid)
  ultimately show ?thesis
    using demo_tools_ok neutral_policy_ids constant_versions
    by (simp add: make_policy_kernel_def demo_kernel_def make_capability_decision_def)
qed

lemma demo_kernel_valid: "valid_kernel demo_kernel"
  using demo_kernel_built demo_registry_valid by (rule make_policy_kernel_valid)

definition demo_answer :: "exn + capability_decision" where
  "demo_answer = policy_decide neutral_policy anonymous_principal demo_agent
     (enabled_tool_ids demo_registry)"

lemma demo_answer_ok:
  "bindE demo_answer make_capability_decision =
     Inr \<lparr>decision_policy_id = policy_id neutral_policy,
          decision_policy_version = policy_version neutral_policy,
          decision_allowed_tools = [lit ''get_current_time'']\<rparr>"
proof -
  have "enabled_tool_ids demo_registry = [lit ''get_current_time'']"
    by (simp add: enabled_tool_ids_def demo_registry_def time_tool_def)
  then show ?thesis
    using neutral_policy_ids(3) constant_versions default_ids_valid(4)
    by (simp add: demo_answer_def neutral_policy_def)
qed

theorem prepare_run_total_witness:
  "\<exists>ex. (prepare_run hex_env (\<lambda>_. lit ''60'') demo_kernel demo_answer anonymous_principal None 5 5
          :: exn + unit execution) = Inr ex
     \<and> visible_tool_ids ex = [lit ''get_current_time''] \<and> deadline_at ex = 65"
proof -
  have "resolve_agent demo_kernel None = Inr demo_agent"
    by (simp add: resolve_agent_def demo_kernel_def) (simp add: demo_agent_def)
  then obtain ex :: "unit execution" where
    "prepare_run hex_env (\<lambda>_. lit ''60'') demo_kernel demo_answer anonymous_principal None 5 5 = Inr ex"
    "deadline_at ex = 5 + deadline_seconds (budget demo_agent)"
    "visible_tool_ids ex = filter (\<lambda>t. t \<in> set (enabled_tool_ids (kernel_registry demo_kernel))
       \<and> t \<in> set (allowed_tools demo_agent) \<and> t \<in> set [lit ''get_current_time'']) (base_tools demo_agent)"
    using prepare_run_total [OF demo_kernel_valid hex_env_hex, of None demo_agent "\<lambda>_. lit ''60''"
        demo_answer anonymous_principal 5 5, where 'w = unit]
    by (auto simp: demo_answer_ok) (simp add: demo_kernel_def)
  then show ?thesis
    by (simp add: demo_agent_def demo_kernel_def enabled_tool_ids_def demo_registry_def time_tool_def)
qed

text \<open>The recursion limit handed to the agent framework is a secondary fuse only: it exceeds
  three times the model-step and Tool-call budgets of every enabled Agent together, and stays
  below 157 super-steps for any accepted configuration.\<close>

theorem recursion_limit_covers_budgets:
  assumes "valid_kernel k" and "resolve_agent k selected = Inr a"
  shows "3 * (max_model_steps (budget a) + max_tool_calls (budget a)) < framework_recursion_limit k
    \<and> framework_recursion_limit k \<le> 156"
proof -
  define S where "S = set (filter agent_enabled (map snd (kernel_definitions k)))"
  have a: "a \<in> S" using kernel_agent [OF assms] by (simp add: S_def)
  have fin: "finite S" by (simp add: S_def)
  have "valid_agent_definition b" if b: "b \<in> S" for b
  proof -
    from b have "b \<in> snd ` set (kernel_definitions k)" by (simp add: S_def)
    then obtain i where "(i, b) \<in> set (kernel_definitions k)" by force
    then have "map_of (kernel_definitions k) i = Some b"
      using assms(1) by (simp add: valid_kernel_def)
    then show ?thesis using assms(1) unfolding valid_kernel_def by blast
  qed
  then have bounds: "max_model_steps (budget b) \<le> 32" "max_tool_calls (budget b) \<le> 16" if "b \<in> S" for b
    using that by (auto simp: valid_agent_definition_def valid_budget_def)
  let ?m = "Max ((\<lambda>b. max_model_steps (budget b)) ` S)"
  let ?t = "Max ((\<lambda>b. max_tool_calls (budget b)) ` S)"
  have "max_model_steps (budget a) \<le> ?m" "max_tool_calls (budget a) \<le> ?t"
    using a fin by (simp_all add: Max_ge)
  moreover have "?m \<le> 32"
    by (rule Max.boundedI) (use a fin bounds in auto)
  moreover have "?t \<le> 16"
    by (rule Max.boundedI) (use a fin bounds in auto)
  moreover have "framework_recursion_limit k = (?m + ?t + 4) * 3"
    by (simp add: framework_recursion_limit_def Let_def S_def image_image)
  ultimately show ?thesis by simp
qed

theorem recursion_limit_covers_budgets_witness:
  "3 * (4 + 2) < framework_recursion_limit demo_kernel"
proof -
  have "resolve_agent demo_kernel None = Inr demo_agent"
    by (simp add: resolve_agent_def demo_kernel_def) (simp add: demo_agent_def)
  from recursion_limit_covers_budgets [OF demo_kernel_valid this]
  show ?thesis by (simp add: demo_agent_def)
qed

end
