(* ===== verification/Run_Properties.thy ===== *)
theory Run_Properties
  imports Policy_Kernel
begin

text \<open>
  The safety and functional properties of a \<open>RunExecution\<close> over all the states it can reach:
  budgets, scope, life cycle of Tool calls, durable order of events, results, outcomes, deadline
  and progress. They rest on the invariant of Execution_Safety.
\<close>

section \<open>A sample Run\<close>

definition demo_decision :: capability_decision where
  "demo_decision = \<lparr>decision_policy_id = policy_id neutral_policy,
     decision_policy_version = policy_version neutral_policy,
     decision_allowed_tools = [lit ''get_current_time'']\<rparr>"

definition demo_plan :: execution_plan where
  "demo_plan =
     (case build_plan hex_env (\<lambda>_. lit ''60'') demo_kernel demo_agent demo_decision
             [lit ''get_current_time''] of Inr p \<Rightarrow> p | Inl _ \<Rightarrow> undefined)"

definition demo_run :: "'w execution" where
  "demo_run = new_execution anonymous_principal demo_agent demo_profile demo_decision
     [lit ''get_current_time''] demo_plan demo_registry 5 5"

definition demo_call :: pdict where
  "demo_call = py_dict [(''id'', PStr (lit ''call-1'')), (''name'', PStr (lit ''get_current_time'')),
                        (''args'', PDict [])]"

definition demo_reserved :: "unit execution" where
  "demo_reserved = snd (reserve_tool_calls hex_env 6 [demo_call] demo_run)"

definition demo_started :: "unit execution" where
  "demo_started = snd (begin_tool_call hex_env 7 demo_answer (lit ''call-1'')
     (lit ''get_current_time'') [] demo_reserved)"

lemma demo_init: "exec_init demo_run"
proof -
  have "enabled_tool_ids demo_registry = [lit ''get_current_time'']"
    by (simp add: enabled_tool_ids_def demo_registry_def time_tool_def)
  then have "scope_inv demo_run"
    by (simp add: scope_inv_def demo_run_def new_execution_def demo_agent_valid demo_registry_valid)
       (simp add: demo_agent_def)
  then show ?thesis unfolding exec_init_def demo_run_def by blast
qed

lemma demo_fields:
  "reservations demo_reserved =
     [(lit ''call-1'', \<lparr>res_call_id = lit ''call-1'', res_tool_id = lit ''get_current_time'',
        res_arguments = [], res_fingerprint = replicate 64 48\<rparr>)]"
  "started_calls demo_reserved = []" "finished_calls demo_reserved = []"
  "ex_registry demo_reserved = demo_registry" "ex_agent demo_reserved = demo_agent"
  "visible_tool_ids demo_reserved = [lit ''get_current_time'']"
  "ex_decision demo_reserved = demo_decision" "deadline_at demo_reserved = 65"
  "ex_result_validation demo_reserved = NotRun" "tool_calls_succeeded demo_reserved = 0"
  "model_steps demo_reserved = 0" "persisted_started demo_reserved = {}"
  "source_events demo_reserved = []" "accepted_sources demo_reserved = []"
  "persisted_finished demo_reserved = {}" "persisted_sources demo_reserved = {}"
  "persisted_source_order demo_reserved = []"
  by (simp_all add: demo_reserved_def reserve_tool_calls_def guarded_def ensure_deadline_def
      demo_run_def new_execution_def call_parts_def demo_call_def canonicalize_call_def
      require_tool_def demo_registry_def time_tool_def demo_impl_def hex_env_def demo_env_def
      demo_agent_def count_repeat_def flush_repeats_def add_reservations_def Let_def)

lemma demo_canonical:
  "canonicalize_call hex_env demo_registry (lit ''get_current_time'') [] = Inr ([], replicate 64 48)"
  "\<exists>r. require_tool demo_registry (lit ''get_current_time'') = Inr r"
  by (simp_all add: canonicalize_call_def require_tool_def demo_registry_def time_tool_def
      demo_impl_def hex_env_def demo_env_def)

lemma demo_permission:
  "require_current_tool_permission demo_answer (lit ''get_current_time'') demo_reserved = Inr ()"
  using demo_canonical(2)
  by (auto simp: require_current_tool_permission_def demo_answer_ok demo_fields demo_decision_def
      demo_agent_def simp del: bindE_eq_Inr)

lemma demo_begin:
  "\<exists>ev. begin_tool_call hex_env 7 demo_answer (lit ''call-1'') (lit ''get_current_time'') [] demo_reserved
     = (Inr ([], ev), demo_started)
   \<and> pe_type ev = lit ''tool.started''
   \<and> map_of (started_calls demo_started) (lit ''call-1'') = Some (lit ''get_current_time'', pe_data ev)"
  using demo_canonical demo_permission
  by (auto simp: demo_started_def begin_tool_call_def guarded_def ensure_deadline_def demo_fields Let_def)

lemma demo_reserved_reached: "reaches exec_init (exec_step hex_env) demo_reserved"
  unfolding demo_reserved_def
  by (rule reaches_step, rule reaches_init, rule demo_init, rule es_reserve, rule prod.collapse [symmetric])

lemma demo_started_reached: "reaches exec_init (exec_step hex_env) demo_started"
  by (rule reaches_step [OF demo_reserved_reached])
     (use demo_begin in \<open>auto intro: es_begin\<close>)

section \<open>Budgets\<close>

lemma keys_subset_length:
  assumes "distinct (map fst xs)" "fst ` set xs \<subseteq> fst ` set ys"
  shows "length xs \<le> length ys"
proof -
  have "length xs = card (fst ` set xs)"
    using assms(1) distinct_card [of "map fst xs"] by simp
  also have "\<dots> \<le> card (fst ` set ys)" using assms(2) by (intro card_mono) auto
  also have "\<dots> \<le> length ys"
    using card_length [of "map fst ys"] by simp
  finally show ?thesis .
qed

lemma calls_inv_lengths:
  assumes "calls_inv ex"
  shows "length (finished_calls ex) \<le> length (started_calls ex)"
    and "length (started_calls ex) \<le> length (reservations ex)"
proof -
  have "fst ` set (finished_calls ex) \<subseteq> fst ` set (started_calls ex)"
  proof
    fix i assume "i \<in> fst ` set (finished_calls ex)"
    then obtain q where "map_of (finished_calls ex) i = Some q"
      by (metis map_of_eq_None_iff not_None_eq)
    with assms obtain d' where "map_of (started_calls ex) i = Some d'"
      unfolding calls_inv_def by (cases q) blast
    then show "i \<in> fst ` set (started_calls ex)" by (metis map_of_eq_None_iff option.distinct(1))
  qed
  with assms show "length (finished_calls ex) \<le> length (started_calls ex)"
    by (intro keys_subset_length) (simp_all add: calls_inv_def)
  have "fst ` set (started_calls ex) \<subseteq> fst ` set (reservations ex)"
  proof
    fix i assume "i \<in> fst ` set (started_calls ex)"
    then obtain q where "map_of (started_calls ex) i = Some q"
      by (metis map_of_eq_None_iff not_None_eq)
    with assms obtain r where "map_of (reservations ex) i = Some r"
      unfolding calls_inv_def by (cases q) blast
    then show "i \<in> fst ` set (reservations ex)" by (metis map_of_eq_None_iff option.distinct(1))
  qed
  with assms show "length (started_calls ex) \<le> length (reservations ex)"
    by (intro keys_subset_length) (simp_all add: calls_inv_def)
qed

text \<open>C33. Whatever a model requests and however its calls interleave, the Tool calls a Run starts
  never exceed the budget of its Agent, nor sixteen, and the calls that succeed are exactly the
  finished ones, at most those that started.\<close>

theorem tool_call_budget:
  assumes "reaches exec_init (exec_step env) ex"
  shows "tool_calls_succeeded ex = int (length (finished_calls ex))
    \<and> length (finished_calls ex) \<le> length (started_calls ex)
    \<and> int (length (started_calls ex)) \<le> max_tool_calls (budget (ex_agent ex))
    \<and> int (length (started_calls ex)) \<le> tool_calls_attempted ex
    \<and> length (started_calls ex) \<le> 16"
proof -
  have inv: "exec_inv ex" using exec.reaches_inv [OF assms] .
  then have "max_tool_calls (budget (ex_agent ex)) \<le> 16"
    by (simp add: exec_inv_def scope_inv_def valid_agent_definition_def valid_budget_def)
  with inv calls_inv_lengths [of ex] show ?thesis
    by (auto simp: exec_inv_def counters_inv_def)
qed

theorem tool_call_budget_witness:
  "length (started_calls demo_started) = 1 \<and> length (started_calls demo_started) \<le> 16"
proof -
  have "length (started_calls demo_started) = 1"
    using demo_canonical demo_permission
    by (auto simp: demo_started_def begin_tool_call_def guarded_def ensure_deadline_def demo_fields Let_def)
  with tool_call_budget [OF demo_started_reached] show ?thesis by simp
qed


text \<open>A history of a Run that also counts the model calls let through.\<close>

inductive run_history :: "host_env \<Rightarrow> 'w execution \<Rightarrow> nat \<Rightarrow> 'w execution \<Rightarrow> bool" for env ex0 where
  history_start: "run_history env ex0 0 ex0"
| history_call: "run_history env ex0 n ex \<Longrightarrow> before_model_call now ex = (Inr (), ex')
     \<Longrightarrow> run_history env ex0 (Suc n) ex'"
| history_step: "run_history env ex0 n ex \<Longrightarrow> exec_step env ex ex' \<Longrightarrow> run_history env ex0 n ex'"

lemma record_progress_frame [simp]:
  "model_steps (record_progress fp ex) = model_steps ex"
  "ex_agent (record_progress fp ex) = ex_agent ex"
  "started_calls (record_progress fp ex) = started_calls ex"
  "finished_calls (record_progress fp ex) = finished_calls ex"
  "reservations (record_progress fp ex) = reservations ex"
  by (simp_all add: record_progress_def)

lemma before_model_call_steps:
  assumes "before_model_call now ex = (r, ex')"
  shows "ex_agent ex' = ex_agent ex \<and> started_calls ex' = started_calls ex
    \<and> finished_calls ex' = finished_calls ex \<and> model_steps ex \<le> model_steps ex'
    \<and> (r = Inr () \<longrightarrow> now < deadline_at ex \<and> model_steps ex' = model_steps ex + 1
        \<and> model_steps ex' \<le> max_model_steps (budget (ex_agent ex)))"
  using assms
  by (auto simp: before_model_call_def count_model_step_def Let_def elim!: guarded_cases split: if_splits)

lemma reserve_calls_frame:
  "reserve_calls env calls l ex = (r, ex') \<Longrightarrow>
     ex_agent ex' = ex_agent ex \<and> started_calls ex' = started_calls ex
     \<and> finished_calls ex' = finished_calls ex \<and> model_steps ex' = model_steps ex"
  by (induction calls arbitrary: l)
     (auto simp: flush_repeats_def Let_def split: option.splits prod.splits if_splits sum.splits)

lemma reserve_tool_calls_frame:
  assumes "reserve_tool_calls env now calls ex = (r, ex')"
  shows "ex_agent ex' = ex_agent ex \<and> started_calls ex' = started_calls ex
     \<and> finished_calls ex' = finished_calls ex \<and> model_steps ex' = model_steps ex"
  using assms
  by (auto simp: reserve_tool_calls_def Let_def flush_repeats_def
      elim!: guarded_cases and_then_cases split: if_splits dest!: reserve_calls_frame)

lemma assistant_texts_frame:
  "ex_agent (foldl (record_assistant_text env) ex ms) = ex_agent ex
   \<and> started_calls (foldl (record_assistant_text env) ex ms) = started_calls ex
   \<and> finished_calls (foldl (record_assistant_text env) ex ms) = finished_calls ex
   \<and> model_steps (foldl (record_assistant_text env) ex ms) = model_steps ex"
  by (induction ms arbitrary: ex) (simp_all add: record_assistant_text_def Let_def)

lemma after_model_response_frame:
  assumes "after_model_response env now ms ex = (r, ex')"
  shows "ex_agent ex' = ex_agent ex \<and> started_calls ex' = started_calls ex
     \<and> finished_calls ex' = finished_calls ex \<and> model_steps ex' = model_steps ex"
proof (cases "concat (map ai_tool_calls ms) = []")
  case True
  with assms assistant_texts_frame [of env ex ms] show ?thesis
    by (simp add: after_model_response_def Let_def)
next
  case False
  with assms have "reserve_tool_calls env now (concat (map ai_tool_calls ms))
      (foldl (record_assistant_text env) ex ms) = (r, ex')"
    by (simp add: after_model_response_def Let_def del: concat_eq_Nil_conv)
  from reserve_tool_calls_frame [OF this] assistant_texts_frame [of env ex ms] show ?thesis by simp
qed

lemma accept_sources_frame:
  "accept_sources i ss ex = (evs, ex') \<Longrightarrow>
     ex_agent ex' = ex_agent ex \<and> started_calls ex' = started_calls ex
     \<and> finished_calls ex' = finished_calls ex \<and> model_steps ex' = model_steps ex"
proof (induction ss arbitrary: ex evs)
  case (Cons s ss)
  obtain evs1 ex1 where one: "accept_source i s ex = (evs1, ex1)" by fastforce
  have "ex_agent ex1 = ex_agent ex \<and> started_calls ex1 = started_calls ex
     \<and> finished_calls ex1 = finished_calls ex \<and> model_steps ex1 = model_steps ex"
    using one by (auto simp: accept_source_def Let_def split: option.splits prod.splits)
  with Cons one show ?case by (auto split: prod.splits)
qed simp

text \<open>What a step does to the calls: started and finished ones stay as they are.\<close>

lemma exec_step_grows:
  assumes "exec_step env ex ex'"
  shows "ex_agent ex' = ex_agent ex \<and> model_steps ex \<le> model_steps ex'
    \<and> (\<forall>i x. map_of (started_calls ex) i = Some x \<longrightarrow> map_of (started_calls ex') i = Some x)
    \<and> (\<forall>i x. map_of (finished_calls ex) i = Some x \<longrightarrow> map_of (finished_calls ex') i = Some x)"
  using assms
proof cases
  case (es_model now r)
  from before_model_call_steps [OF es_model] show ?thesis by simp
next
  case (es_response now ms r)
  from after_model_response_frame [OF es_response] show ?thesis by simp
next
  case (es_reserve now calls r)
  from reserve_tool_calls_frame [OF es_reserve] show ?thesis by simp
next
  case (es_finalizer now r)
  then show ?thesis
    unfolding record_finalizer_signal_def by (elim guarded_cases) auto
next
  case (es_begin now answer i t args b)
  show ?thesis
  proof (cases b)
    case (Inl e)
    with es_begin begin_tool_call_failed have "ex' = ex" by blast
    then show ?thesis by simp
  next
    case (Inr q)
    obtain v ev where "b = Inr (v, ev)" using Inr by (cases q) auto
    with es_begin have "begin_tool_call env now answer i t args ex = (Inr (v, ev), ex')" by simp
    then obtain rec where "map_of (started_calls ex) i = None"
      "ex' = ex\<lparr>started_calls := AList.update i (t, started_data rec i t v) (started_calls ex)\<rparr>"
      by (elim begin_tool_call_ok) blast
    then show ?thesis by (auto simp: update_conv')
  qed
next
  case (es_finish now i t msg f)
  show ?thesis
  proof (cases f)
    case (Inl e)
    with es_finish finish_tool_call_failed have "ex' = ex" by blast
    then show ?thesis by simp
  next
    case (Inr evs)
    with es_finish have "finish_tool_call now i t msg ex = (Inr evs, ex')" by simp
    then obtain oc rec evs' where 1: "finish_lifecycle_ok i t msg ex"
      "accept_sources i (outcome_sources oc)
       (record_progress (lit ''tool-fact:'' @ fact_fingerprint oc)
         (ex\<lparr>finished_calls := AList.update i (t, finished_data rec i t oc) (finished_calls ex),
             tool_calls_succeeded := tool_calls_succeeded ex + 1\<rparr>)) = (evs', ex')"
      by (elim finish_tool_call_ok) blast
    from accept_sources_frame [OF 1(2)] 1(1) show ?thesis
      by (auto simp: update_conv' finish_lifecycle_ok_iff)
  qed
next
  case (es_accept now ev r)
  from es_accept show ?thesis by (cases rule: accept_event_cases) simp_all
next
  case (es_validate v rt q)
  show ?thesis
  proof (cases q)
    case (Inl e)
    with es_validate have "ex' = ex\<lparr>ex_result_validation := ValidationFailed\<rparr>"
      by (simp add: validate_result_rejected)
    then show ?thesis by simp
  next
    case (Inr x)
    with es_validate validate_result_ok [of v rt ex x ex'] show ?thesis by simp
  qed
qed (simp_all add: record_result_validation_failure_def)

text \<open>C34. A Run lets at most \<open>max_model_steps\<close> model calls through, in any history, whatever its
  callers do in between and even if they go on after a violation.\<close>

theorem model_call_budget:
  assumes "exec_init ex0" and "run_history env ex0 n ex"
  shows "int n \<le> model_steps ex \<and> int n \<le> max_model_steps (budget (ex_agent ex0)) \<and> n \<le> 32"
proof -
  have b: "1 \<le> max_model_steps (budget (ex_agent ex0))" "max_model_steps (budget (ex_agent ex0)) \<le> 32"
    using assms(1)
    by (auto simp: exec_init_def scope_inv_def valid_agent_definition_def valid_budget_def)
  have "int n \<le> model_steps ex \<and> ex_agent ex = ex_agent ex0
      \<and> int n \<le> max_model_steps (budget (ex_agent ex0))"
    using assms(2)
  proof induction
    case history_start
    have "0 \<le> model_steps ex0"
      using exec_init_inv [OF assms(1)] by (simp add: exec_inv_def counters_inv_def)
    with b show ?case by simp
  next
    case (history_call n ex now ex')
    with before_model_call_steps [OF history_call(2)] show ?case by auto
  next
    case (history_step n ex ex')
    with exec_step_grows [OF history_step(2)] show ?case by auto
  qed
  with b show ?thesis by auto
qed

theorem model_call_budget_witness:
  "\<exists>ex :: unit execution. run_history hex_env demo_run 1 ex
    \<and> int 1 \<le> max_model_steps (budget (ex_agent (demo_run :: unit execution)))"
proof -
  have "run_history hex_env demo_run (Suc 0) (snd (before_model_call 6 demo_run))"
    by (rule history_call [OF history_start, of 6])
       (simp add: before_model_call_def guarded_def ensure_deadline_def count_model_step_def
          demo_run_def new_execution_def demo_agent_def Let_def)
  with model_call_budget [OF demo_init this] show ?thesis by auto
qed


section \<open>Scope and permission\<close>

text \<open>C16. A Tool call starts only when the deadline is ahead, the call was reserved under the same Tool
  and the same validated arguments and has not started, and the capability policy, asked again at
  this moment, still speaks under the same id and version and grants the Tool. A refusal of any
  kind leaves the Run unchanged, so a grant revoked during the Run takes effect at once.\<close>

theorem begin_tool_call_permitted:
  "case begin_tool_call env now answer i t args ex of
     (Inr (validated, ev), ex') \<Rightarrow>
       now < deadline_at ex \<and> map_of (started_calls ex) i = None
       \<and> (\<exists>r. map_of (reservations ex) i = Some r \<and> res_tool_id r = t \<and> res_arguments r = validated)
       \<and> (\<exists>d. bindE answer make_capability_decision = Inr d
            \<and> decision_policy_id d = decision_policy_id (ex_decision ex)
            \<and> decision_policy_version d = decision_policy_version (ex_decision ex)
            \<and> t \<in> set (decision_allowed_tools d))
       \<and> t \<in> set (visible_tool_ids ex) \<and> t \<in> set (base_tools (ex_agent ex))
       \<and> t \<in> set (allowed_tools (ex_agent ex))
       \<and> pe_type ev = lit ''tool.started'' \<and> dict_get (pe_data ev) (lit ''tool_call_id'') = PStr i
       \<and> ex' = ex\<lparr>started_calls := AList.update i (t, pe_data ev) (started_calls ex)\<rparr>
   | (Inl _, ex') \<Rightarrow> ex' = ex"
proof (cases "begin_tool_call env now answer i t args ex")
  case (Pair r ex')
  show ?thesis
  proof (cases r)
    case (Inl e)
    with Pair begin_tool_call_failed show ?thesis by (simp split: prod.split) blast
  next
    case (Inr q)
    obtain v ev where q: "q = (v, ev)" by (cases q)
    with Inr Pair have run: "begin_tool_call env now answer i t args ex = (Inr (v, ev), ex')" by simp
    from run show ?thesis
    proof (rule begin_tool_call_ok)
      fix r rec fp
      assume *: "now < deadline_at ex"
        "map_of (reservations ex) i = Some r" "res_tool_id r = t" "map_of (started_calls ex) i = None"
        "v = res_arguments r" "require_current_tool_permission answer t ex = Inr ()"
        "ev = \<lparr>pe_type = lit ''tool.started'', pe_data = started_data rec i t v\<rparr>"
        "ex' = ex\<lparr>started_calls := AList.update i (t, started_data rec i t v) (started_calls ex)\<rparr>"
      obtain d where "bindE answer make_capability_decision = Inr d"
        "decision_policy_id d = decision_policy_id (ex_decision ex)"
        "decision_policy_version d = decision_policy_version (ex_decision ex)"
        "t \<in> set (decision_allowed_tools d)"
        using *(6) by (auto simp: require_current_tool_permission_def simp del: bindE_eq_Inr
            make_capability_decision_Inr split: sum.splits if_splits)
      with * require_permission_ok [OF *(6)] show ?thesis
        by (simp add: run started_data_id del: bindE_eq_Inr make_capability_decision_Inr)
    qed
  qed
qed

text \<open>Every Tool call that ever started in a Run is for a Tool inside the frozen scope: visible in
  the plan, among the base and the allowed Tools of the Agent, and enabled in the registry.\<close>

theorem started_calls_in_scope:
  assumes "reaches exec_init (exec_step env) ex" and "map_of (started_calls ex) i = Some (t, data)"
  shows "t \<in> set (visible_tool_ids ex) \<and> t \<in> set (base_tools (ex_agent ex))
    \<and> t \<in> set (allowed_tools (ex_agent ex)) \<and> t \<in> set (enabled_tool_ids (ex_registry ex))
    \<and> (\<exists>r. map_of (reservations ex) i = Some r \<and> res_tool_id r = t)"
proof -
  have inv: "scope_inv ex" "calls_inv ex"
    using exec.reaches_inv [OF assms(1)] by (simp_all add: exec_inv_def)
  obtain r where r: "map_of (reservations ex) i = Some r" "res_tool_id r = t"
    using inv(2) assms(2) unfolding calls_inv_def by blast
  then have "t \<in> set (visible_tool_ids ex)"
    using inv(2) unfolding calls_inv_def by blast
  with inv(1) r show ?thesis by (auto simp: scope_inv_def)
qed

theorem started_calls_in_scope_witness:
  "lit ''get_current_time'' \<in> set (enabled_tool_ids (ex_registry demo_started))"
  using started_calls_in_scope [OF demo_started_reached] demo_begin by blast

section \<open>Once only\<close>

text \<open>C36. A Tool call starts at most once and finishes at most once: after it has started, any later
  attempt to start it is refused and changes nothing, in every continuation of the Run; the same
  holds for finishing it.\<close>

theorem tool_call_once:
  assumes "reaches exec_init (exec_step env) ex" and "(exec_step env)\<^sup>*\<^sup>* ex ex'"
  shows "(map_of (started_calls ex) i \<noteq> None \<longrightarrow>
      begin_tool_call env now answer i t args ex' =
        (Inl (if deadline_at ex' \<le> now then RunDeadlineExceeded else ToolNotAllowed), ex'))
    \<and> (map_of (finished_calls ex) i \<noteq> None \<longrightarrow>
      finish_tool_call now i t msg ex' =
        (Inl (if deadline_at ex' \<le> now then RunDeadlineExceeded
              else AgentExecutionFailed ''tool_lifecycle_invalid''), ex'))"
proof -
  have grow: "(\<forall>x. map_of (started_calls ex) i = Some x \<longrightarrow> map_of (started_calls ex') i = Some x)
    \<and> (\<forall>x. map_of (finished_calls ex) i = Some x \<longrightarrow> map_of (finished_calls ex') i = Some x)"
    using assms(2)
  proof (induction rule: rtranclp_induct)
    case (step y z)
    from step.IH exec_step_grows [OF step.hyps(2)] show ?case by blast
  qed simp
  have "begin_tool_call env now answer i t args ex' =
        (Inl (if deadline_at ex' \<le> now then RunDeadlineExceeded else ToolNotAllowed), ex')"
    if "map_of (started_calls ex) i \<noteq> None"
  proof -
    from that grow obtain x where "map_of (started_calls ex') i = Some x" by blast
    then show ?thesis
      by (simp add: begin_tool_call_def guarded_def ensure_deadline_def split: option.splits)
  qed
  moreover have "finish_tool_call now i t msg ex' =
        (Inl (if deadline_at ex' \<le> now then RunDeadlineExceeded
              else AgentExecutionFailed ''tool_lifecycle_invalid''), ex')"
    if "map_of (finished_calls ex) i \<noteq> None"
  proof -
    from that grow obtain x where "map_of (finished_calls ex') i = Some x" by blast
    then have "\<not> finish_lifecycle_ok i t msg ex'" by (simp add: finish_lifecycle_ok_iff)
    then show ?thesis by (simp add: finish_tool_call_def guarded_def ensure_deadline_def)
  qed
  ultimately show ?thesis by blast
qed

theorem tool_call_once_witness:
  "fst (begin_tool_call hex_env 70 demo_answer (lit ''call-1'') (lit ''get_current_time'') [] demo_started)
     \<in> {Inl RunDeadlineExceeded, Inl ToolNotAllowed}"
  using tool_call_once [OF demo_started_reached rtranclp.rtrancl_refl, of "lit ''call-1''" 70 demo_answer
      "lit ''get_current_time''" "[]"] demo_begin
  by auto

section \<open>Durable order\<close>

text \<open>C18. In every reachable state what has been confirmed durable is causally closed: a finished
  call was confirmed started before and did finish, a started one did start, and every source
  confirmed durable was contributed by a call whose finish is durable; sources are confirmed
  once each, in a fixed order.\<close>

theorem durable_events_ordered:
  assumes "reaches exec_init (exec_step env) ex"
  shows "persisted_finished ex \<subseteq> persisted_started ex
    \<and> persisted_started ex \<subseteq> dom (map_of (started_calls ex))
    \<and> persisted_finished ex \<subseteq> dom (map_of (finished_calls ex))
    \<and> distinct (persisted_source_order ex)
    \<and> set (persisted_source_order ex) = persisted_sources ex
    \<and> (\<forall>s \<in> persisted_sources ex. \<exists>calls data.
          map_of (source_events ex) s = Some (calls, data) \<and> calls \<inter> persisted_finished ex \<noteq> {})"
  using exec.reaches_inv [OF assms] unfolding exec_inv_def durable_inv_def by blast

definition demo_durable :: "unit execution" where
  "demo_durable = demo_started\<lparr>persisted_started := insert (lit ''call-1'') (persisted_started demo_started)\<rparr>"

lemma demo_durable_reached: "reaches exec_init (exec_step hex_env) demo_durable"
proof -
  obtain ev :: product_event where ev: "pe_type ev = lit ''tool.started''"
    "map_of (started_calls demo_started) (lit ''call-1'') = Some (lit ''get_current_time'', pe_data ev)"
    using demo_begin by blast
  have "persisted_started demo_started = {}"
    using demo_canonical demo_permission
    by (auto simp: demo_started_def begin_tool_call_def guarded_def ensure_deadline_def demo_fields Let_def)
  moreover have "dict_get (pe_data ev) (lit ''tool_call_id'') = PStr (lit ''call-1'')"
    using exec.reaches_inv [OF demo_started_reached] ev(2) unfolding exec_inv_def calls_inv_def by blast
  ultimately have "accept_event 8 ev demo_started = (Inr (), demo_durable)"
    using ev by (simp add: accept_event_def validate_event_def started_event_ok_def event_key_def
        key_or_empty_def demo_durable_def requireE_def)
  then show ?thesis
    by (intro reaches_step [OF demo_started_reached] es_accept)
qed

theorem durable_events_ordered_witness:
  "lit ''call-1'' \<in> dom (map_of (started_calls demo_durable))"
  using durable_events_ordered [OF demo_durable_reached] by (auto simp: demo_durable_def)


section \<open>Results\<close>

text \<open>The sample Run goes on: the Tool answers, and its finish and its source become durable.\<close>

definition demo_message :: tool_message where
  "demo_message = \<lparr>tm_call_id = lit ''call-1'', tm_name = Some (lit ''get_current_time''),
                   tm_status = lit ''success'', tm_content = PStr (lit ''now'')\<rparr>"

definition demo_outcome :: parsed_outcome where
  "demo_outcome = \<lparr>output_summary = lit ''UTC: 10:00'', fact_fingerprint = replicate 64 97,
                   outcome_sources = [TIME_SOURCE]\<rparr>"

definition demo_done :: "unit execution" where
  "demo_done = snd (finish_tool_call 9 (lit ''call-1'') (lit ''get_current_time'') demo_message demo_durable)"

definition demo_sourced :: "unit execution" where
  "demo_sourced = demo_done\<lparr>persisted_finished := {lit ''call-1''},
     persisted_sources := {lit ''system-clock-iana-tzdb''},
     persisted_source_order := [lit ''system-clock-iana-tzdb'']\<rparr>"

lemma demo_parse:
  "parse_tool_message demo_registry (lit ''get_current_time'') demo_message = Inr demo_outcome"
proof -
  have "valid_parsed_outcome demo_outcome"
    by (simp add: valid_parsed_outcome_def demo_outcome_def is_hex64_def list_all_iff
        valid_tool_source_def TIME_SOURCE_def len_between_def)
  moreover have "lit ''UTC'' @ lit '': '' @ lit ''10:00'' = lit ''UTC: 10:00''"
    by (simp add: lit_def)
  ultimately show ?thesis
    by (simp add: parse_tool_message_def demo_registry_def require_tool_def time_tool_def
        parse_time_output_def demo_message_def demo_env_def demo_time_def time_output_keys_def
        TIME_SOURCE_def make_parsed_outcome_def demo_outcome_def del: bindE_eq_Inr)
qed

lemma demo_started_fields:
  "\<exists>data. started_calls demo_started = [(lit ''call-1'', lit ''get_current_time'', data)]"
  "finished_calls demo_started = []" "ex_registry demo_started = demo_registry"
  "deadline_at demo_started = 65" "source_events demo_started = []"
  "accepted_sources demo_started = []" "persisted_finished demo_started = {}"
  "persisted_sources demo_started = {}" "persisted_source_order demo_started = []"
  "tool_calls_succeeded demo_started = 0" "ex_result_validation demo_started = NotRun"
  "ex_agent demo_started = demo_agent"
  using demo_canonical demo_permission
  by (auto simp: demo_started_def begin_tool_call_def guarded_def ensure_deadline_def demo_fields Let_def)

lemma demo_done_run:
  "\<exists>ev. finish_tool_call 9 (lit ''call-1'') (lit ''get_current_time'') demo_message demo_durable
      = (Inr [ev, \<lparr>pe_type = lit ''source.added'', pe_data = dump_source TIME_SOURCE\<rparr>], demo_done)
    \<and> pe_type ev = lit ''tool.finished''
    \<and> finished_calls demo_done = [(lit ''call-1'', lit ''get_current_time'', pe_data ev)]
    \<and> source_events demo_done =
        [(lit ''system-clock-iana-tzdb'', {lit ''call-1''}, dump_source TIME_SOURCE)]
    \<and> persisted_started demo_done = {lit ''call-1''} \<and> persisted_finished demo_done = {}
    \<and> persisted_sources demo_done = {} \<and> persisted_source_order demo_done = []
    \<and> tool_calls_succeeded demo_done = 1 \<and> ex_result_validation demo_done = NotRun
    \<and> ex_agent demo_done = demo_agent"
proof -
  obtain data where "started_calls demo_started = [(lit ''call-1'', lit ''get_current_time'', data)]"
    using demo_started_fields(1) by blast
  moreover obtain r where "require_tool demo_registry (lit ''get_current_time'') = Inr r"
    using demo_canonical(2) by blast
  moreover have "persisted_started demo_started = {}"
    using demo_canonical demo_permission
    by (auto simp: demo_started_def begin_tool_call_def guarded_def ensure_deadline_def demo_fields Let_def)
  ultimately show ?thesis
    by (simp add: demo_done_def finish_tool_call_def guarded_def ensure_deadline_def demo_durable_def
        demo_started_fields finish_lifecycle_ok_def demo_parse demo_outcome_def source_conflict_def
        accept_source_def add_contributor_def record_progress_def Let_def)
       (simp add: demo_message_def TIME_SOURCE_def)
qed


lemma demo_done_fields:
  "tool_calls_succeeded demo_done = 1" "ex_result_validation demo_done = NotRun"
  "ex_agent demo_done = demo_agent" "persisted_started demo_done = {lit ''call-1''}"
  "persisted_finished demo_done = {}" "persisted_sources demo_done = {}"
  "persisted_source_order demo_done = []"
  "source_events demo_done = [(lit ''system-clock-iana-tzdb'', {lit ''call-1''}, dump_source TIME_SOURCE)]"
  using demo_done_run by blast+

lemma demo_done_reached: "reaches exec_init (exec_step hex_env) demo_done"
  using demo_done_run by (blast intro: reaches_step [OF demo_durable_reached] es_finish)

lemma finished_event_id:
  assumes "exec_inv ex" "map_of (finished_calls ex) i = Some (t, pe_data ev)"
  shows "event_key ''tool_call_id'' ev = Some i"
proof -
  have "dict_get (pe_data ev) (lit ''tool_call_id'') = PStr i"
    using assms unfolding exec_inv_def calls_inv_def by blast
  then show ?thesis by (simp add: event_key_def)
qed

lemma demo_sourced_reached: "reaches exec_init (exec_step hex_env) demo_sourced"
proof -
  obtain ev :: product_event where ev: "pe_type ev = lit ''tool.finished''"
    "map_of (finished_calls demo_done) (lit ''call-1'') = Some (lit ''get_current_time'', pe_data ev)"
    using demo_done_run by force
  have key: "event_key ''tool_call_id'' ev = Some (lit ''call-1'')"
    using exec.reaches_inv [OF demo_done_reached] ev(2) by (rule finished_event_id)
  define mid where "mid = demo_done\<lparr>persisted_finished := {lit ''call-1''}\<rparr>"
  have "accept_event 10 ev demo_done = (Inr (), mid)"
    using ev key
    by (auto simp: accept_event_def validate_event_def finished_event_ok_def key_or_empty_def
        requireE_def mid_def demo_done_fields)
  then have mid: "reaches exec_init (exec_step hex_env) mid"
    by (intro reaches_step [OF demo_done_reached] es_accept)
  let ?src = "\<lparr>pe_type = lit ''source.added'', pe_data = dump_source TIME_SOURCE\<rparr>"
  have "event_key ''source_id'' ?src = Some (lit ''system-clock-iana-tzdb'')"
    by (simp add: event_key_def dump_source_def TIME_SOURCE_def)
  then have "accept_event 11 ?src mid = (Inr (), demo_sourced)"
    by (simp add: accept_event_def validate_event_def source_event_ok_def key_or_empty_def
        requireE_def mid_def demo_sourced_def Let_def demo_done_fields)
  then show ?thesis by (intro reaches_step [OF mid] es_accept)
qed

text \<open>C17. An accepted result is well formed, repeats exactly the text that was streamed, fits the
  Agent's length limit and source policy, and cites only sources that are durable, each of them
  contributed by a Tool call that started, finished, and whose finish is durable. A rejection is
  one of two violations and marks the result as failed.\<close>

theorem validated_result_grounded:
  assumes "reaches exec_init (exec_step env) ex"
  shows "case validate_result v runtime_text ex of
      (Inr r, ex') \<Rightarrow>
        valid_agent_result r \<and> (runtime_text = None \<or> runtime_text = Some (result_text r))
        \<and> int (length (result_text r)) \<le> max_answer_chars (result_contract (ex_agent ex))
        \<and> (source_policy (result_contract (ex_agent ex)) = SourcesRequired \<longrightarrow> result_sources r \<noteq> [])
        \<and> (source_policy (result_contract (ex_agent ex)) = SourcesIfToolUsed
            \<and> finished_calls ex \<noteq> [] \<longrightarrow> result_sources r \<noteq> [])
        \<and> (\<forall>s \<in> set (result_sources r). s \<in> set (persisted_source_order ex)
            \<and> (\<exists>calls data i. map_of (source_events ex) s = Some (calls, data) \<and> i \<in> calls
                \<and> i \<in> persisted_finished ex \<and> i \<in> dom (map_of (started_calls ex))))
        \<and> ex_result_validation ex' = Passed \<and> ex_result_source_ids ex' = result_sources r
    | (Inl e, ex') \<Rightarrow>
        e \<in> {ResultSchemaInvalid, SourceValidationFailed}
        \<and> ex' = ex\<lparr>ex_result_validation := ValidationFailed\<rparr>"
proof (cases "validate_result v runtime_text ex")
  case (Pair q ex')
  show ?thesis
  proof (cases q)
    case (Inl e)
    then have "e \<in> {ResultSchemaInvalid, SourceValidationFailed}"
      using Pair by (auto simp: validate_result_def reject_result_def split: option.splits if_splits)
    with Pair Inl validate_result_rejected [of v runtime_text ex e ex'] show ?thesis by simp
  next
    case (Inr r)
    with Pair have run: "validate_result v runtime_text ex = (Inr r, ex')" by simp
    note ok = validate_result_ok [OF run]
    have inv: "exec_inv ex" using assms by (rule exec.reaches_inv)
    then have durable: "durable_inv ex" and succ: "tool_calls_succeeded ex = int (length (finished_calls ex))"
      by (simp_all add: exec_inv_def counters_inv_def)
    have sub: "persisted_finished ex \<subseteq> dom (map_of (started_calls ex))"
      "set (persisted_source_order ex) = persisted_sources ex"
      using durable unfolding durable_inv_def by blast+
    have cited: "s \<in> set (persisted_source_order ex)
            \<and> (\<exists>calls data i. map_of (source_events ex) s = Some (calls, data) \<and> i \<in> calls
                \<and> i \<in> persisted_finished ex \<and> i \<in> dom (map_of (started_calls ex)))"
      if "s \<in> set (result_sources r)" for s
    proof -
      have s: "s \<in> persisted_sources ex" using ok that by blast
      obtain cs d i where i: "map_of (source_events ex) s = Some (cs, d)" "i \<in> cs"
        "i \<in> persisted_finished ex"
        using durable_source [OF durable s] by blast
      then have "i \<in> dom (map_of (started_calls ex))" using sub(1) by (metis subsetD)
      with i s sub(2) show ?thesis by metis
    qed
    have facts: "valid_agent_result r"
      "runtime_text = None \<or> runtime_text = Some (result_text r)"
      "int (length (result_text r)) \<le> max_answer_chars (result_contract (ex_agent ex))"
      "source_policy (result_contract (ex_agent ex)) = SourcesRequired \<longrightarrow> result_sources r \<noteq> []"
      "source_policy (result_contract (ex_agent ex)) = SourcesIfToolUsed
            \<and> finished_calls ex \<noteq> [] \<longrightarrow> result_sources r \<noteq> []"
      "\<forall>s \<in> set (result_sources r). s \<in> set (persisted_source_order ex)
            \<and> (\<exists>calls data i. map_of (source_events ex) s = Some (calls, data) \<and> i \<in> calls
                \<and> i \<in> persisted_finished ex \<and> i \<in> dom (map_of (started_calls ex)))"
      "ex_result_validation ex' = Passed" "ex_result_source_ids ex' = result_sources r"
      subgoal using ok parse_agent_result_valid by blast
      subgoal using ok by blast
      subgoal using ok by blast
      subgoal using ok by blast
      subgoal using ok succ by simp
      subgoal using cited by blast
      subgoal using ok by simp
      subgoal using ok by simp
      done
    show ?thesis
      unfolding run prod.case sum.case by (intro conjI facts)
  qed
qed

definition demo_result :: agent_result where
  "demo_result = \<lparr>result_version = lit ''1.0.0'', result_text = lit ''It is ten.'',
                  result_sources = [lit ''system-clock-iana-tzdb'']\<rparr>"

definition demo_answered :: "unit execution" where
  "demo_answered = demo_sourced\<lparr>ex_result_validation := Passed,
     ex_result_source_ids := [lit ''system-clock-iana-tzdb'']\<rparr>"

lemma demo_result_accepted:
  "validate_result (ResultObject demo_result) (Some (lit ''It is ten.'')) demo_sourced
     = (Inr demo_result, demo_answered)"
proof -
  have "valid_agent_result demo_result"
    by (simp add: valid_agent_result_def demo_result_def len_between_def valid_source_ids_def
        py_strip_def lit_def is_space_def)
  moreover have "result_version demo_result = lit ''1.0.0''" "length (result_text demo_result) = 10"
    "result_text demo_result = lit ''It is ten.''"
    "result_sources demo_result = [lit ''system-clock-iana-tzdb'']"
    by (simp_all add: demo_result_def)
  moreover have "result_contract demo_agent = \<lparr>contract_schema_version = lit ''1.0.0'',
      max_answer_chars = 8000, source_policy = SourcesIfToolUsed\<rparr>"
    by (simp add: demo_agent_def AGENT_RESULT_SCHEMA_VERSION_def)
  ultimately show ?thesis
    by (simp add: validate_result_def demo_sourced_def demo_answered_def demo_done_fields)
qed

theorem validated_result_grounded_witness:
  "\<exists>i. i \<in> persisted_finished demo_sourced \<and> i \<in> dom (map_of (started_calls demo_sourced))"
  using validated_result_grounded [OF demo_sourced_reached, where v = "ResultObject demo_result"
      and runtime_text = "Some (lit ''It is ten.'')"]
  by (simp add: demo_result_accepted) (auto simp: demo_result_def)

lemma demo_answered_reached: "reaches exec_init (exec_step hex_env) demo_answered"
proof (rule reaches_step [OF demo_sourced_reached], rule es_validate)
  show "ex_result_validation demo_sourced = NotRun"
    by (simp add: demo_sourced_def demo_done_fields)
qed (rule demo_result_accepted)

section \<open>Outcomes\<close>

lemma outcome_valid:
  assumes inv: "exec_inv ex"
    and "valid_identifier reason"
    and "status = OutcomeFailed \<longleftrightarrow> code \<noteq> None"
    and "status = OutcomeCompleted \<longrightarrow> ex_result_validation ex = Passed \<and> usage_known"
    and "usage_known \<or> code = Some ServiceRestarted \<or> status = OutcomeCancelled"
  shows "\<exists>r. outcome now status reason code usage_known ex = Inr r \<and> valid_outcome r
    \<and> outcome_status r = status \<and> failure_code r = code
    \<and> accepted_source_ids r = persisted_source_order ex
    \<and> result_source_ids r = ex_result_source_ids ex
    \<and> (outcome_usage r \<noteq> None \<longleftrightarrow> usage_known)"
proof -
  have durable: "durable_inv ex" and result: "result_inv ex"
    and counters: "counters_inv ex" and scope: "scope_inv ex"
    using inv by (simp_all add: exec_inv_def)
  obtain u where u: "usage_evidence now ex = Inr u" "valid_budget_usage u"
    using counters
    by (simp add: usage_evidence_def make_budget_usage_def valid_budget_usage_def counters_inv_def
        elapsed_ms_def)
  have order: "distinct (persisted_source_order ex)"
    "set (persisted_source_order ex) = persisted_sources ex"
    using durable unfolding durable_inv_def by blast+
  have "len_between 1 128 s" if s: "s \<in> persisted_sources ex" for s
  proof -
    obtain cs d where "map_of (source_events ex) s = Some (cs, d)"
      using durable_source [OF durable s] by blast
    then show ?thesis using durable unfolding durable_inv_def by blast
  qed
  then have accepted: "valid_source_ids (persisted_source_order ex)"
    using order by (fastforce simp: valid_source_ids_def list_ex_iff len_between_def)
  have cited: "valid_source_ids (ex_result_source_ids ex)"
    "set (ex_result_source_ids ex) \<subseteq> set (persisted_source_order ex)"
    "ex_result_validation ex \<noteq> Passed \<longrightarrow> ex_result_source_ids ex = []"
    using result order by (auto simp: result_inv_def valid_source_ids_def split: if_splits)
  have version: "valid_version (contract_schema_version (result_contract (ex_agent ex)))"
    using scope constant_versions
    by (simp add: scope_inv_def valid_agent_definition_def valid_contract_def
        AGENT_RESULT_SCHEMA_VERSION_def)
  show ?thesis
    using assms(2-5) u accepted cited version
    by (cases usage_known)
       (auto simp: outcome_def make_outcome_def valid_outcome_def outcome_fields_ok_def
         terminal_semantics_ok_def list_all_iff)
qed

text \<open>The terminal evidence of a Run can always be written: in every reachable state, and for
  every terminal status with a consistent failure code, the outcome passes its own validators;
  completing requires that the result has been validated. It lists the durable sources in the
  order they became durable and the cited ones among them.\<close>

theorem outcome_total:
  assumes "reaches exec_init (exec_step env) ex"
    and "valid_identifier reason"
    and "status = OutcomeFailed \<longleftrightarrow> code \<noteq> None"
    and "status = OutcomeCompleted \<longrightarrow> ex_result_validation ex = Passed \<and> usage_known"
    and "usage_known \<or> code = Some ServiceRestarted \<or> status = OutcomeCancelled"
  shows "\<exists>r. outcome now status reason code usage_known ex = Inr r \<and> valid_outcome r
    \<and> outcome_status r = status \<and> failure_code r = code
    \<and> accepted_source_ids r = persisted_source_order ex
    \<and> result_source_ids r = ex_result_source_ids ex
    \<and> (outcome_usage r \<noteq> None \<longleftrightarrow> usage_known)"
  by (rule outcome_valid [OF exec.reaches_inv [OF assms(1)] assms(2-5)])

theorem outcome_total_witness:
  "\<exists>r. outcome 20 OutcomeCompleted (lit ''completed'') None True demo_answered = Inr r
     \<and> result_source_ids r = [lit ''system-clock-iana-tzdb'']"
proof -
  have "valid_identifier (lit ''completed'')" by (simp add: pattern_eval lit_def)
  from outcome_total [OF demo_answered_reached this, of OutcomeCompleted None True 20]
  show ?thesis by (auto simp: demo_answered_def)
qed


section \<open>Deadline and progress\<close>

text \<open>From the deadline on, no guarded operation of a Run has any effect: each raises the timeout
  violation and leaves the Run exactly as it was.\<close>

theorem deadline_blocks:
  assumes "deadline_at ex \<le> now"
  shows "before_model_call now ex = (Inl RunDeadlineExceeded, ex)
    \<and> reserve_tool_calls env now calls ex = (Inl RunDeadlineExceeded, ex)
    \<and> begin_tool_call env now answer i t args ex = (Inl RunDeadlineExceeded, ex)
    \<and> finish_tool_call now i t msg ex = (Inl RunDeadlineExceeded, ex)
    \<and> record_finalizer_signal now ex = (Inl RunDeadlineExceeded, ex)
    \<and> execution_context fmt_g now messages ex = Inl RunDeadlineExceeded
    \<and> begin_provider_attempt now later new_id kind retry (ex, w) = (Inl RunDeadlineExceeded, ex, w)
    \<and> remaining_seconds now ex = 0"
  using assms
  by (simp add: before_model_call_def reserve_tool_calls_def begin_tool_call_def finish_tool_call_def
      record_finalizer_signal_def execution_context_def begin_provider_attempt_def
      guarded_def ensure_deadline_def remaining_seconds_def)

theorem deadline_blocks_witness:
  "before_model_call 65 (demo_run :: unit execution) = (Inl RunDeadlineExceeded, demo_run)"
proof -
  have "deadline_at (demo_run :: unit execution) \<le> 65" by (simp add: demo_run_def new_execution_def demo_agent_def)
  from deadline_blocks [OF this] show ?thesis by blast
qed

fun model_calls :: "rat list \<Rightarrow> 'w execution \<Rightarrow> (exn + unit) \<times> 'w execution" where
  "model_calls [] ex = (Inr (), ex)"
| "model_calls (now # nows) ex = and_then (before_model_call now ex) (\<lambda>_. model_calls nows)"

lemma before_model_call_progress:
  assumes "before_model_call now ex = (Inr (), ex')"
  shows "progress_revision ex' = progress_revision ex
    \<and> last_model_progress_revision ex' = progress_revision ex \<and> ex_agent ex' = ex_agent ex
    \<and> model_steps ex' = model_steps ex + 1
    \<and> (0 < model_steps ex \<and> progress_revision ex = last_model_progress_revision ex \<longrightarrow>
        consecutive_no_progress ex' = consecutive_no_progress ex + 1
        \<and> consecutive_no_progress ex' < max_no_progress_steps (budget (ex_agent ex)))
    \<and> (0 \<le> consecutive_no_progress ex \<longrightarrow> 0 \<le> consecutive_no_progress ex')"
  using assms
  by (auto simp: before_model_call_def count_model_step_def Let_def elim!: guarded_cases split: if_splits)

lemma before_model_call_violation:
  "before_model_call now ex = (Inl e, ex') \<Longrightarrow> e \<in> {RunDeadlineExceeded, NoProgress, ModelStepLimitExceeded}"
  by (auto simp: before_model_call_def count_model_step_def Let_def elim!: guarded_cases split: if_splits)

lemma model_calls_violation:
  "model_calls nows ex = (Inl e, ex') \<Longrightarrow> e \<in> {RunDeadlineExceeded, NoProgress, ModelStepLimitExceeded}"
proof (induction nows arbitrary: ex)
  case (Cons now nows)
  from Cons.prems show ?case
  proof (simp only: model_calls.simps, elim and_then_cases)
    fix e' assume "before_model_call now ex = (Inl e', ex')" "Inl e = Inl e'"
    then show ?thesis using before_model_call_violation by blast
  next
    fix x s assume "model_calls nows s = (Inl e, ex')"
    then show ?thesis by (rule Cons.IH)
  qed
qed simp

lemma stalled_calls:
  assumes "model_calls nows ex = (Inr (), ex')" "0 < model_steps ex"
    and "progress_revision ex = last_model_progress_revision ex" "nows \<noteq> []"
  shows "consecutive_no_progress ex + int (length nows) < max_no_progress_steps (budget (ex_agent ex))"
  using assms
proof (induction nows arbitrary: ex)
  case (Cons now nows)
  from Cons.prems(1) obtain ex1 where 1: "before_model_call now ex = (Inr (), ex1)"
    and rest: "model_calls nows ex1 = (Inr (), ex')"
    by (auto elim!: and_then_cases)
  note p = before_model_call_progress [OF 1]
  show ?case
  proof (cases "nows = []")
    case True
    with p Cons.prems show ?thesis by simp
  next
    case False
    with Cons.IH [OF rest] p Cons.prems show ?thesis by simp
  qed
qed simp

text \<open>A Run that makes no progress stops: from any reachable state, more model calls in a row than
  \<open>max_no_progress_steps\<close>, with no new fact recorded between them, cannot all be let through; one
  of them raises a violation, and it is the no-progress one unless the deadline or the step limit
  is hit first.\<close>

theorem no_progress_stops:
  assumes "reaches exec_init (exec_step env) ex"
    and "max_no_progress_steps (budget (ex_agent ex)) < int (length nows)"
  shows "\<exists>e ex'. model_calls nows ex = (Inl e, ex')
    \<and> e \<in> {RunDeadlineExceeded, NoProgress, ModelStepLimitExceeded}"
proof (cases "model_calls nows ex")
  case (Pair r ex')
  show ?thesis
  proof (cases r)
    case (Inl e)
    with Pair model_calls_violation [of nows ex e ex'] show ?thesis by simp
  next
    case (Inr u)
    have inv: "exec_inv ex" using assms(1) by (rule exec.reaches_inv)
    then have c: "0 \<le> consecutive_no_progress ex" "0 \<le> model_steps ex"
      "1 \<le> max_no_progress_steps (budget (ex_agent ex))"
      by (simp_all add: exec_inv_def counters_inv_def scope_inv_def valid_agent_definition_def
          valid_budget_def)
    with assms(2) obtain now rest where nows: "nows = now # rest" "rest \<noteq> []"
      by (cases nows; cases "tl nows") auto
    from Pair Inr nows obtain ex1 where 1: "before_model_call now ex = (Inr (), ex1)"
      and run: "model_calls rest ex1 = (Inr (), ex')"
      by (auto elim!: and_then_cases)
    note p = before_model_call_progress [OF 1]
    have "consecutive_no_progress ex1 + int (length rest) < max_no_progress_steps (budget (ex_agent ex1))"
      by (rule stalled_calls [OF run]) (use p c nows in auto)
    with p c assms(2) nows show ?thesis by simp
  qed
qed

theorem no_progress_stops_witness:
  "\<exists>e ex'. model_calls [6, 6, 6] demo_reserved = (Inl e, ex')"
  using no_progress_stops [OF demo_reserved_reached, of "[6, 6, 6]"]
  by (auto simp: demo_fields demo_agent_def)

end
