(* ===== verification/Models.thy ===== *)
theory Models
  imports Evidence Schemas "HOL-Library.List_Lexorder"
begin

text \<open>
  models.py: the five tables and the constraints the database enforces on them. A table is the
  list of its rows in insertion order; every query of the code that depends on an order sorts.
  An insert or update that would break a constraint raises \<open>IntegrityError\<close>, and the
  transaction it belongs to is rolled back. Timestamps are UTC instants in microseconds. The
  lengths of the VARCHAR columns and the width of INTEGER columns are not constraints here: the
  request models and the validators bound the values before they reach a table.
\<close>

section \<open>Rows\<close>

record thread_row =
  th_id :: pystr
  th_owner_subject :: pystr
  th_title :: pystr
  th_created_at :: int
  th_updated_at :: int

record run_row =
  rn_id :: pystr
  rn_thread_id :: pystr
  rn_idempotency_key :: pystr
  rn_actor_subject :: pystr
  rn_status :: run_status
  rn_last_seq :: int
  rn_execution_plan :: "execution_plan option"
  rn_execution_outcome :: "execution_outcome option"
  rn_metering_version :: "pystr option"
  rn_first_visible_at :: "int option"
  rn_usage_metrics :: "pval option"
  rn_created_at :: int
  rn_completed_at :: "int option"

text \<open>The five Token columns of an attempt are one record.\<close>

record attempt_row =
  ma_id :: pystr
  ma_run_id :: pystr
  ma_thread_id :: pystr
  ma_call_index :: int
  ma_attempt_index :: int
  ma_call_kind :: model_call_kind
  ma_status :: attempt_status
  ma_started_at :: int
  ma_completed_at :: "int option"
  ma_tokens :: token_usage

record message_row =
  ms_id :: pystr
  ms_thread_id :: pystr
  ms_run_id :: "pystr option"
  ms_role :: message_role
  ms_content :: pystr
  ms_created_at :: int

record event_row =
  ev_id :: pystr
  ev_run_id :: pystr
  ev_thread_id :: pystr
  ev_seq :: int
  ev_type :: pystr
  ev_occurred_at :: int
  ev_payload :: pdict

record db =
  db_threads :: "thread_row list"
  db_runs :: "run_row list"
  db_attempts :: "attempt_row list"
  db_messages :: "message_row list"
  db_events :: "event_row list"

definition empty_db :: db where
  "empty_db =
     \<lparr>db_threads = [], db_runs = [], db_attempts = [], db_messages = [], db_events = []\<rparr>"

definition ACTIVE_STATUSES :: "run_status list" where
  "ACTIVE_STATUSES = [RunCreated, RunRunning]"

definition is_active :: "run_row \<Rightarrow> bool" where
  "is_active r \<longleftrightarrow> rn_status r \<in> set ACTIVE_STATUSES"

lemma is_active_iff: "is_active r \<longleftrightarrow> rn_status r = RunCreated \<or> rn_status r = RunRunning"
  by (simp add: is_active_def ACTIVE_STATUSES_def)

section \<open>Lookups\<close>

definition find_thread :: "db \<Rightarrow> pystr \<Rightarrow> thread_row option" where
  "find_thread db i = List.find (\<lambda>t. th_id t = i) (db_threads db)"

definition find_run :: "db \<Rightarrow> pystr \<Rightarrow> run_row option" where
  "find_run db i = List.find (\<lambda>r. rn_id r = i) (db_runs db)"

definition find_attempt_row :: "db \<Rightarrow> pystr \<Rightarrow> attempt_row option" where
  "find_attempt_row db i = List.find (\<lambda>a. ma_id a = i) (db_attempts db)"

definition find_idempotent :: "db \<Rightarrow> pystr \<Rightarrow> pystr \<Rightarrow> run_row option" where
  "find_idempotent db tid key =
     List.find (\<lambda>r. rn_thread_id r = tid \<and> rn_idempotency_key r = key) (db_runs db)"

definition has_run :: "db \<Rightarrow> pystr \<Rightarrow> pystr \<Rightarrow> bool" where
  "has_run db rid tid \<longleftrightarrow> list_ex (\<lambda>r. rn_id r = rid \<and> rn_thread_id r = tid) (db_runs db)"

definition events_of :: "db \<Rightarrow> pystr \<Rightarrow> event_row list" where
  "events_of db rid = filter (\<lambda>e. ev_run_id e = rid) (db_events db)"

definition attempts_of :: "db \<Rightarrow> pystr \<Rightarrow> attempt_row list" where
  "attempts_of db rid = filter (\<lambda>a. ma_run_id a = rid) (db_attempts db)"

definition messages_of :: "db \<Rightarrow> pystr \<Rightarrow> message_row list" where
  "messages_of db rid = filter (\<lambda>m. ms_run_id m = Some rid) (db_messages db)"

text \<open>\<open>ORDER BY f, g\<close>: a stable sort by the second key, then by the first.\<close>

definition order_by :: "('a \<Rightarrow> 'b :: linorder) \<Rightarrow> ('a \<Rightarrow> 'c :: linorder) \<Rightarrow> 'a list \<Rightarrow> 'a list" where
  "order_by f g xs = sort_key f (sort_key g xs)"

section \<open>Constraint-checked writes\<close>

definition insert_thread :: "thread_row \<Rightarrow> db \<Rightarrow> exn + db" where
  "insert_thread t db =
     (if find_thread db (th_id t) \<noteq> None then Inl IntegrityError
      else Inr (db\<lparr>db_threads := db_threads db @ [t]\<rparr>))"

definition run_constraints :: "run_row \<Rightarrow> db \<Rightarrow> bool" where
  "run_constraints r db \<longleftrightarrow>
     find_run db (rn_id r) = None
     \<and> find_thread db (rn_thread_id r) \<noteq> None
     \<and> find_idempotent db (rn_thread_id r) (rn_idempotency_key r) = None
     \<and> (is_active r \<longrightarrow>
          \<not> list_ex (\<lambda>q. rn_thread_id q = rn_thread_id r \<and> is_active q) (db_runs db))"

definition insert_run :: "run_row \<Rightarrow> db \<Rightarrow> exn + db" where
  "insert_run r db =
     (if run_constraints r db then Inr (db\<lparr>db_runs := db_runs db @ [r]\<rparr>)
      else Inl IntegrityError)"

definition attempt_checks :: "attempt_row \<Rightarrow> bool" where
  "attempt_checks a \<longleftrightarrow>
     1 \<le> ma_call_index a \<and> 1 \<le> ma_attempt_index a
     \<and> list_all (\<lambda>f. nonneg (get_token f (ma_tokens a))) token_fields
     \<and> (case ma_completed_at a of None \<Rightarrow> True | Some t \<Rightarrow> ma_started_at a \<le> t)"

definition attempt_constraints :: "attempt_row \<Rightarrow> db \<Rightarrow> bool" where
  "attempt_constraints a db \<longleftrightarrow>
     find_attempt_row db (ma_id a) = None
     \<and> has_run db (ma_run_id a) (ma_thread_id a)
     \<and> \<not> list_ex (\<lambda>b. ma_run_id b = ma_run_id a \<and> ma_call_index b = ma_call_index a
              \<and> ma_attempt_index b = ma_attempt_index a) (db_attempts db)
     \<and> attempt_checks a"

definition insert_attempt :: "attempt_row \<Rightarrow> db \<Rightarrow> exn + db" where
  "insert_attempt a db =
     (if attempt_constraints a db then Inr (db\<lparr>db_attempts := db_attempts db @ [a]\<rparr>)
      else Inl IntegrityError)"

definition message_constraints :: "message_row \<Rightarrow> db \<Rightarrow> bool" where
  "message_constraints m db \<longleftrightarrow>
     \<not> list_ex (\<lambda>n. ms_id n = ms_id m) (db_messages db)
     \<and> find_thread db (ms_thread_id m) \<noteq> None
     \<and> (case ms_run_id m of None \<Rightarrow> True | Some rid \<Rightarrow> has_run db rid (ms_thread_id m))"

definition insert_message :: "message_row \<Rightarrow> db \<Rightarrow> exn + db" where
  "insert_message m db =
     (if message_constraints m db then Inr (db\<lparr>db_messages := db_messages db @ [m]\<rparr>)
      else Inl IntegrityError)"

definition event_constraints :: "event_row \<Rightarrow> db \<Rightarrow> bool" where
  "event_constraints e db \<longleftrightarrow>
     \<not> list_ex (\<lambda>f. ev_id f = ev_id e) (db_events db)
     \<and> has_run db (ev_run_id e) (ev_thread_id e)
     \<and> find_thread db (ev_thread_id e) \<noteq> None
     \<and> \<not> list_ex (\<lambda>f. ev_run_id f = ev_run_id e \<and> ev_seq f = ev_seq e) (db_events db)"

definition insert_event :: "event_row \<Rightarrow> db \<Rightarrow> exn + db" where
  "insert_event e db =
     (if event_constraints e db then Inr (db\<lparr>db_events := db_events db @ [e]\<rparr>)
      else Inl IntegrityError)"

text \<open>
  Updates of a row by its primary key. No update of the code changes an id, a foreign key, an
  idempotency key or makes an ended Run active, so only the CHECK constraints of an attempt can
  be broken by one.
\<close>

definition put_thread :: "thread_row \<Rightarrow> db \<Rightarrow> db" where
  "put_thread t db =
     db\<lparr>db_threads := map (\<lambda>u. if th_id u = th_id t then t else u) (db_threads db)\<rparr>"

definition put_run :: "run_row \<Rightarrow> db \<Rightarrow> db" where
  "put_run r db = db\<lparr>db_runs := map (\<lambda>q. if rn_id q = rn_id r then r else q) (db_runs db)\<rparr>"

definition update_attempts ::
  "(attempt_row \<Rightarrow> bool) \<Rightarrow> (attempt_row \<Rightarrow> attempt_row) \<Rightarrow> db \<Rightarrow> exn + db" where
  "update_attempts P f db =
     (let rows = map (\<lambda>a. if P a then f a else a) (db_attempts db)
      in if list_all attempt_checks rows then Inr (db\<lparr>db_attempts := rows\<rparr>)
         else Inl IntegrityError)"

text \<open>A transaction: an exception leaves the database as it was.\<close>

definition transact :: "exn + 'a \<times> db \<Rightarrow> db \<Rightarrow> (exn + 'a) \<times> db" where
  "transact r db = (case r of Inl e \<Rightarrow> (Inl e, db) | Inr (x, db') \<Rightarrow> (Inr x, db'))"

lemma transact_simps [simp]:
  "transact (Inl e) db = (Inl e, db)"
  "transact (Inr (x, db')) db = (Inr x, db')"
  by (simp_all add: transact_def)

lemma transact_cases:
  assumes "transact r db = (res, db')"
  obtains (rolled_back) e where "r = Inl e" "res = Inl e" "db' = db"
  | (committed) x where "r = Inr (x, db')" "res = Inr x"
  using assms by (cases r) auto

end
