(* ===== verification/Views.thy ===== *)
theory Views
  imports Models
begin

text \<open>
  The response models of schemas.py and the functions of repository.py that build them from
  rows, with the usage a Run is closed with. The Unicode category test is the argument
  \<open>cc\<close> as in Identity, the JSON codec is the argument \<open>c\<close> as in Schemas.
\<close>

section \<open>Response models\<close>

record thread_summary =
  ts_thread_id :: pystr
  ts_title :: pystr
  ts_created_at :: int
  ts_updated_at :: int

record run_view =
  rv_run_id :: pystr
  rv_thread_id :: pystr
  rv_status :: run_status
  rv_last_seq :: int
  rv_created_at :: int
  rv_completed_at :: "int option"
  rv_usage :: run_usage

record event_envelope =
  ee_event_id :: pystr
  ee_run_id :: pystr
  ee_thread_id :: pystr
  ee_seq :: int
  ee_type :: pystr
  ee_occurred_at :: int
  ee_data :: pdict

record run_snapshot = run_view +
  rs_events :: "event_envelope list"

record thread_snapshot = thread_summary +
  tn_messages :: "message list"
  tn_runs :: "run_snapshot list"
  tn_active_run :: "run_view option"

section \<open>Views of rows\<close>

definition initial_thread_title :: "(nat \<Rightarrow> bool) \<Rightarrow> pystr \<Rightarrow> pystr" where
  "initial_thread_title cc message =
     (let visible = filter (\<lambda>ch. \<not> cc ch \<or> is_space ch) message;
          joined = collapse_ws visible;
          collapsed = (if joined = [] then lit ''New conversation'' else joined)
      in if 28 < length collapsed then take 28 collapsed @ [8230] else collapsed)"

definition thread_summary_of :: "thread_row \<Rightarrow> thread_summary" where
  "thread_summary_of t =
     \<lparr>ts_thread_id = th_id t, ts_title = th_title t, ts_created_at = th_created_at t,
      ts_updated_at = th_updated_at t\<rparr>"

definition message_view :: "message_row \<Rightarrow> message" where
  "message_view m =
     \<lparr>message_id = ms_id m, message_role = ms_role m, message_content = ms_content m,
      message_created_at = ms_created_at m, message_run_id = ms_run_id m\<rparr>"

definition row_usage :: "codec \<Rightarrow> run_row \<Rightarrow> exn + run_usage" where
  "row_usage c r =
     (case rn_metering_version r of
        None \<Rightarrow> unavailable_run_usage UnknownState
      | Some _ \<Rightarrow>
          (case rn_usage_metrics r of
             None \<Rightarrow>
               if rn_status r \<notin> set ACTIVE_STATUSES
               then Inl (UsageMeteringError ''terminal_run_usage_missing'')
               else unavailable_run_usage PendingState
           | Some v \<Rightarrow>
               (case parse_run_usage c v of
                  None \<Rightarrow> Inl (UsageMeteringError ''run_usage_invalid'')
                | Some u \<Rightarrow> Inr u)))"

definition run_view_of :: "codec \<Rightarrow> run_row \<Rightarrow> exn + run_view" where
  "run_view_of c r =
     bindE (row_usage c r) (\<lambda>usage.
     Inr \<lparr>rv_run_id = rn_id r, rv_thread_id = rn_thread_id r, rv_status = rn_status r,
          rv_last_seq = rn_last_seq r, rv_created_at = rn_created_at r,
          rv_completed_at = rn_completed_at r, rv_usage = usage\<rparr>)"

definition event_view :: "codec \<Rightarrow> event_row \<Rightarrow> exn + event_envelope" where
  "event_view c e =
     (case validate_product_event c (ev_type e)
             (normalize_stored_product_event (ev_type e) (ev_payload e)) of
        Inl _ \<Rightarrow> Inl ValidationError
      | Inr data \<Rightarrow>
          Inr \<lparr>ee_event_id = ev_id e, ee_run_id = ev_run_id e, ee_thread_id = ev_thread_id e,
               ee_seq = ev_seq e, ee_type = ev_type e, ee_occurred_at = ev_occurred_at e,
               ee_data = data\<rparr>)"

definition run_snapshot_of :: "codec \<Rightarrow> run_row \<Rightarrow> event_envelope list \<Rightarrow> exn + run_snapshot" where
  "run_snapshot_of c r evs =
     bindE (run_view_of c r) (\<lambda>v.
     Inr (run_view.extend v (run_snapshot.fields evs)))"

text \<open>A list comprehension whose element expression may raise.\<close>

fun traverse :: "('a \<Rightarrow> exn + 'b) \<Rightarrow> 'a list \<Rightarrow> exn + 'b list" where
  "traverse f [] = Inr []"
| "traverse f (x # xs) = bindE (f x) (\<lambda>y. bindE (traverse f xs) (\<lambda>ys. Inr (y # ys)))"

lemma traverse_length: "traverse f xs = Inr ys \<Longrightarrow> length ys = length xs"
  by (induction xs arbitrary: ys) auto

lemma traverse_all: "(\<And>x. x \<in> set xs \<Longrightarrow> f x = Inr (g x)) \<Longrightarrow> traverse f xs = Inr (map g xs)"
  by (induction xs) auto

lemma traverse_ok:
  "(\<And>x. x \<in> set xs \<Longrightarrow> \<exists>y. f x = Inr y) \<Longrightarrow> \<exists>ys. traverse f xs = Inr ys"
proof (induction xs)
  case (Cons x xs)
  then obtain y ys where "f x = Inr y" "traverse f xs = Inr ys" by fastforce
  then show ?case by simp
qed simp

section \<open>Usage of a closed Run\<close>

definition attempt_token_metric :: "attempt_row list \<Rightarrow> token_field \<Rightarrow> exn + usage_metric" where
  "attempt_token_metric atts f =
     (if atts = [] then make_usage_metric (Some 0) Complete
      else
        let vals = map (\<lambda>a. get_token f (ma_tokens a)) atts;
            known = List.map_filter id vals
        in if length known = length vals then make_usage_metric (Some (sum_list known)) Complete
           else if known \<noteq> [] then make_usage_metric None Partial
           else make_usage_metric None Unavailable)"

text \<open>Microseconds to truncated milliseconds; the floats of \<open>total_seconds\<close> are exact.\<close>

definition elapsed_between :: "int \<Rightarrow> int option \<Rightarrow> int option" where
  "elapsed_between start e =
     map_option (\<lambda>t. elapsed_ms (rat_of_int start / 1000000) (rat_of_int t / 1000000)) e"

definition terminal_generation_ms :: "attempt_row list \<Rightarrow> int option" where
  "terminal_generation_ms atts =
     (case filter (\<lambda>a. ma_call_kind a \<in> {DirectCall, FinalizerCall}) atts of
        [a] \<Rightarrow>
          if ma_status a = Succeeded \<and> ma_completed_at a \<noteq> None
          then elapsed_between (ma_started_at a) (ma_completed_at a) else None
      | _ \<Rightarrow> None)"

definition terminal_run_usage ::
  "run_row \<Rightarrow> attempt_row list \<Rightarrow> int \<Rightarrow> run_error_category option \<Rightarrow> exn + run_usage" where
  "terminal_run_usage run atts completed_at category =
     bindE (attempt_token_metric atts InputTokens) (\<lambda>mi.
     bindE (attempt_token_metric atts OutputTokens) (\<lambda>mo.
     bindE (attempt_token_metric atts CachedTokens) (\<lambda>mc.
     bindE (attempt_token_metric atts ReasoningTokens) (\<lambda>mr.
     bindE (attempt_token_metric atts TotalTokens) (\<lambda>mt.
     make_run_usage
       \<lparr>usage_schema_version = Some METERING_SCHEMA_VERSION, usage_state = FinalState,
        model_call_count = Some (int (length atts)),
        retry_count = Some (int (length (filter (\<lambda>a. 1 < ma_attempt_index a) atts))),
        input_metric = mi, output_metric = mo, cached_metric = mc, reasoning_metric = mr,
        total_metric = mt,
        time_to_first_visible_ms = elapsed_between (rn_created_at run) (rn_first_visible_at run),
        generation_duration_ms = terminal_generation_ms atts,
        run_duration_ms = elapsed_between (rn_created_at run) (Some completed_at),
        error_category = category\<rparr>)))))"

definition usage_count_metric ::
  "run_usage \<Rightarrow> (run_usage \<Rightarrow> int option) \<Rightarrow> exn + usage_metric" where
  "usage_count_metric u field =
     (case state_availability (usage_state u) of
        None \<Rightarrow>
          (case field u of
             None \<Rightarrow> Inl (UsageMeteringError ''final_usage_count_missing'')
           | Some n \<Rightarrow> make_usage_metric (Some n) Complete)
      | Some a \<Rightarrow> make_usage_metric None a)"

lemma row_usage_open:
  "rn_usage_metrics r = None \<Longrightarrow> is_active r \<Longrightarrow> \<exists>u. row_usage c r = Inr u"
  using unavailable_run_usage_ok [of UnknownState] unavailable_run_usage_ok [of PendingState]
  by (auto simp: row_usage_def is_active_def split: option.splits)

lemma row_usage_valid: "row_usage c r = Inr u \<Longrightarrow> valid_run_usage u"
  using unavailable_run_usage_ok [of UnknownState] unavailable_run_usage_ok [of PendingState]
  by (auto simp: row_usage_def split: option.splits if_splits dest: parse_usage_valid)

text \<open>The metric over rows is the aggregate of one metric per row, as in the ledger.\<close>

definition row_metric :: "token_field \<Rightarrow> attempt_row \<Rightarrow> usage_metric" where
  "row_metric f a =
     (case get_token f (ma_tokens a) of
        None \<Rightarrow> \<lparr>metric_value = None, availability = Unavailable\<rparr>
      | Some n \<Rightarrow> \<lparr>metric_value = Some n, availability = Complete\<rparr>)"

lemma attempt_token_metric_total:
  assumes "\<forall>a \<in> set atts. attempt_checks a"
  shows "\<exists>m. attempt_token_metric atts f = Inr m \<and> valid_usage_metric m
    \<and> availability m \<in> {Complete, Partial, Unavailable}"
proof (cases "atts = []")
  case True
  then show ?thesis by (simp add: attempt_token_metric_def valid_usage_metric_def)
next
  case False
  define vals where "vals = map (\<lambda>a. get_token f (ma_tokens a)) atts"
  have "nonneg (get_token f (ma_tokens a))" if "a \<in> set atts" for a
    using assms that by (cases f) (auto simp: attempt_checks_def token_fields_def)
  then have "\<forall>v \<in> set vals. nonneg v" by (auto simp: vals_def)
  then have sum: "0 \<le> sum_list (List.map_filter id vals)"
    by (induction vals) (auto simp: List.map_filter_simps split: option.splits)
  have "attempt_token_metric atts f =
    (if length (List.map_filter id vals) = length vals
     then make_usage_metric (Some (sum_list (List.map_filter id vals))) Complete
     else if List.map_filter id vals \<noteq> [] then make_usage_metric None Partial
     else make_usage_metric None Unavailable)"
    using False unfolding attempt_token_metric_def vals_def Let_def by simp
  with sum show ?thesis by (auto simp: valid_usage_metric_def)
qed

lemma elapsed_between_nonneg [simp]: "nonneg (elapsed_between s e)"
  by (cases e) (simp_all add: elapsed_between_def elapsed_ms_def)

lemma terminal_generation_nonneg [simp]: "nonneg (terminal_generation_ms atts)"
  by (auto simp: terminal_generation_ms_def split: list.splits)

lemma terminal_run_usage_total:
  assumes "\<forall>a \<in> set atts. attempt_checks a"
  shows "\<exists>u. terminal_run_usage run atts t category = Inr u \<and> valid_run_usage u
    \<and> usage_state u = FinalState \<and> model_call_count u = Some (int (length atts))
    \<and> error_category u = category"
proof -
  note total = attempt_token_metric_total [OF assms]
  obtain mi mo mc mr mt where m:
    "attempt_token_metric atts InputTokens = Inr mi" "attempt_token_metric atts OutputTokens = Inr mo"
    "attempt_token_metric atts CachedTokens = Inr mc" "attempt_token_metric atts ReasoningTokens = Inr mr"
    "attempt_token_metric atts TotalTokens = Inr mt"
    and ok: "\<forall>m \<in> {mi, mo, mc, mr, mt}. valid_usage_metric m \<and> availability m \<noteq> Unknown
      \<and> availability m \<noteq> Pending"
    using total [of InputTokens] total [of OutputTokens] total [of CachedTokens]
      total [of ReasoningTokens] total [of TotalTokens] by fastforce
  have "length (filter (\<lambda>a. 1 < ma_attempt_index a) atts) \<le> length atts" by simp
  then show ?thesis
    using ok
    by (simp add: terminal_run_usage_def m make_run_usage_def valid_run_usage_def
        valid_final_usage_def usage_metrics_def not_less)
qed

end
