(* ===== verification/Repository.thy ===== *)
theory Repository
  imports Identity Views
begin

text \<open>
  repository.py, class \<open>ProductRepository\<close>: the operations on threads and the creation of Runs,
  with the guards every operation shares. A method is a function from the committed database to
  its result and the next committed database; its transaction is built with \<open>transact\<close>, so
  an exception inside it changes nothing. Fresh ids and clock readings are arguments. The two
  creating methods read before they write while other callers may commit: \<open>snap\<close> is the
  database their queries saw, \<open>db\<close> the one their inserts meet and that they read again after
  an \<open>IntegrityError\<close>.
\<close>

section \<open>Guards\<close>

definition require_thread_owner :: "thread_row \<Rightarrow> principal \<Rightarrow> exn + unit" where
  "require_thread_owner t p = require_owner p (th_owner_subject t) ThreadResource"

definition require_run_actor :: "run_row \<Rightarrow> principal \<Rightarrow> resource_kind \<Rightarrow> exn + unit" where
  "require_run_actor r p kind = require_owner p (rn_actor_subject r) kind"

definition require_authorized_run :: "db \<Rightarrow> run_row \<Rightarrow> principal \<Rightarrow> exn + thread_row" where
  "require_authorized_run db r p =
     (case find_thread db (rn_thread_id r) of
        None \<Rightarrow> Inl (ResourceNotFoundError ''run'')
      | Some t \<Rightarrow>
          bindE (require_owner p (th_owner_subject t) RunResource) (\<lambda>_.
          bindE (require_run_actor r p RunResource) (\<lambda>_. Inr t)))"

definition require_thread_run_consistency :: "db \<Rightarrow> thread_row \<Rightarrow> exn + unit" where
  "require_thread_run_consistency db t =
     requireE (\<not> list_ex (\<lambda>r. rn_thread_id r = th_id t \<and> rn_actor_subject r \<noteq> th_owner_subject t)
                 (db_runs db))
       (ResourceNotFoundError ''run_ownership'')"

definition require_internal_run_consistency ::
  "db \<Rightarrow> run_row \<Rightarrow> bool \<Rightarrow> exn + thread_row" where
  "require_internal_run_consistency db r allow_internal =
     (case find_thread db (rn_thread_id r) of
        None \<Rightarrow> Inl (ResourceNotFoundError ''run_ownership'')
      | Some t \<Rightarrow>
          if rn_actor_subject r \<noteq> th_owner_subject t
          then Inl (ResourceNotFoundError ''run_ownership'')
          else if \<not> allow_internal \<and> is_internal (th_owner_subject t)
          then Inl (ResourceNotFoundError ''run_ownership'')
          else Inr t)"

definition active_run :: "db \<Rightarrow> pystr \<Rightarrow> run_row option" where
  "active_run db tid =
     (case sort_key rn_created_at
             (filter (\<lambda>r. rn_thread_id r = tid \<and> rn_status r \<in> set ACTIVE_STATUSES) (db_runs db)) of
        [] \<Rightarrow> None
      | r # _ \<Rightarrow> Some r)"

definition make_event ::
  "codec \<Rightarrow> run_row \<Rightarrow> pystr \<Rightarrow> string \<Rightarrow> pdict \<Rightarrow> int \<Rightarrow> int \<Rightarrow> exn + event_row" where
  "make_event c run new_id name data seq occurred_at =
     bindE (validate_product_event c (lit name) data) (\<lambda>validated.
     Inr \<lparr>ev_id = new_id, ev_run_id = rn_id run, ev_thread_id = rn_thread_id run, ev_seq = seq,
          ev_type = lit name, ev_occurred_at = occurred_at, ev_payload = validated\<rparr>)"

definition validated_terminal_outcome ::
  "execution_outcome \<Rightarrow> outcome_status \<Rightarrow> run_failure_code option \<Rightarrow> exn + execution_outcome" where
  "validated_terminal_outcome r status code =
     bindE (validate_execution_outcome r) (\<lambda>validated.
     if outcome_status validated \<noteq> status
     then Inl (PolicyKernelConfigurationError ''execution_outcome_status_mismatch'')
     else if status = OutcomeFailed \<and> failure_code validated \<noteq> code
     then Inl (PolicyKernelConfigurationError ''execution_outcome_failure_mismatch'')
     else Inr validated)"

text \<open>\<open>UPDATE product_runs SET f WHERE id = rid AND P RETURNING *\<close>.\<close>

definition claim_run ::
  "pystr \<Rightarrow> (run_row \<Rightarrow> bool) \<Rightarrow> (run_row \<Rightarrow> run_row) \<Rightarrow> db \<Rightarrow> (run_row \<times> db) option" where
  "claim_run rid P f db =
     (case find_run db rid of
        None \<Rightarrow> None
      | Some r \<Rightarrow> if P r then Some (f r, put_run (f r) db) else None)"

section \<open>Threads\<close>

definition create_thread ::
  "pystr \<Rightarrow> int \<Rightarrow> principal \<Rightarrow> pystr option \<Rightarrow> db \<Rightarrow> (exn + thread_snapshot) \<times> db" where
  "create_thread new_id now p title db =
     (let t = \<lparr>th_id = new_id, th_owner_subject = subject p,
               th_title = (case title of
                             None \<Rightarrow> lit ''New conversation''
                           | Some s \<Rightarrow> if s = [] then lit ''New conversation'' else s),
               th_created_at = now, th_updated_at = now\<rparr>
      in transact
           (bindE (insert_thread t db) (\<lambda>db'.
            Inr (thread_summary.extend (thread_summary_of t) (thread_snapshot.fields [] [] None),
                 db'))) db)"

definition rename_thread ::
  "int \<Rightarrow> pystr \<Rightarrow> principal \<Rightarrow> pystr \<Rightarrow> db \<Rightarrow> (exn + thread_summary) \<times> db" where
  "rename_thread now tid p title db =
     transact
       (case find_thread db tid of
          None \<Rightarrow> Inl (ResourceNotFoundError ''thread'')
        | Some t \<Rightarrow>
            bindE (require_thread_owner t p) (\<lambda>_.
            bindE (require_thread_run_consistency db t) (\<lambda>_.
            let t' = t\<lparr>th_title := title, th_updated_at := now\<rparr>
            in Inr (thread_summary_of t', put_thread t' db)))) db"

definition list_threads :: "principal \<Rightarrow> db \<Rightarrow> thread_summary list" where
  "list_threads p db =
     map thread_summary_of
       (rev (order_by th_updated_at th_id
               (filter (\<lambda>t. th_owner_subject t = subject p) (db_threads db))))"

definition require_thread_access :: "pystr \<Rightarrow> principal \<Rightarrow> db \<Rightarrow> exn + unit" where
  "require_thread_access tid p db =
     (case find_thread db tid of
        None \<Rightarrow> Inl (ResourceNotFoundError ''thread'')
      | Some t \<Rightarrow> require_thread_owner t p)"

text \<open>The events are grouped by Run as \<open>events_by_run\<close> does, keeping their order.\<close>

definition get_thread :: "codec \<Rightarrow> pystr \<Rightarrow> principal \<Rightarrow> db \<Rightarrow> exn + thread_snapshot" where
  "get_thread c tid p db =
     (case find_thread db tid of
        None \<Rightarrow> Inl (ResourceNotFoundError ''thread'')
      | Some t \<Rightarrow>
          bindE (require_thread_owner t p) (\<lambda>_.
          let runs = order_by rn_created_at rn_id
                       (filter (\<lambda>r. rn_thread_id r = tid) (db_runs db)) in
          bindE (traverse (\<lambda>r. require_run_actor r p ThreadResource) runs) (\<lambda>_.
          let messages = order_by ms_created_at ms_id
                           (filter (\<lambda>m. ms_thread_id m = tid) (db_messages db));
              events = order_by ev_run_id ev_seq
                         (filter (\<lambda>e. ev_thread_id e = tid) (db_events db)) in
          bindE (traverse (event_view c) events) (\<lambda>views.
          bindE (traverse (\<lambda>r. run_snapshot_of c r (filter (\<lambda>v. ee_run_id v = rn_id r) views)) runs)
            (\<lambda>snapshots.
          bindE (case List.find (\<lambda>r. rn_status r \<in> set ACTIVE_STATUSES) runs of
                   None \<Rightarrow> Inr None
                 | Some r \<Rightarrow> bindE (run_view_of c r) (\<lambda>v. Inr (Some v))) (\<lambda>active.
          Inr (thread_summary.extend (thread_summary_of t)
                 (thread_snapshot.fields (map message_view messages) snapshots active))))))))"

section \<open>Creating Runs\<close>

definition new_run_row ::
  "pystr \<Rightarrow> int \<Rightarrow> principal \<Rightarrow> pystr \<Rightarrow> pystr \<Rightarrow> execution_plan \<Rightarrow> run_row" where
  "new_run_row new_id now p tid key plan =
     \<lparr>rn_id = new_id, rn_thread_id = tid, rn_idempotency_key = key,
      rn_actor_subject = subject p, rn_status = RunCreated, rn_last_seq = 0,
      rn_execution_plan = Some plan, rn_execution_outcome = None,
      rn_metering_version = Some METERING_SCHEMA_VERSION, rn_first_visible_at = None,
      rn_usage_metrics = None, rn_created_at = now, rn_completed_at = None\<rparr>"

definition user_message_row :: "pystr \<Rightarrow> run_row \<Rightarrow> pystr \<Rightarrow> message_row" where
  "user_message_row new_id run content =
     \<lparr>ms_id = new_id, ms_thread_id = rn_thread_id run, ms_run_id = Some (rn_id run),
      ms_role = UserRole, ms_content = content, ms_created_at = rn_created_at run\<rparr>"

definition resolve_initial_run_replay ::
  "db \<Rightarrow> thread_row \<Rightarrow> principal \<Rightarrow> pystr \<Rightarrow> pystr \<Rightarrow> exn + run_row" where
  "resolve_initial_run_replay db t p message key =
     bindE (require_thread_owner t p) (\<lambda>_.
     bindE (require_thread_run_consistency db t) (\<lambda>_.
     case find_idempotent db (th_id t) key of
       None \<Rightarrow> Inl InitialThreadExistsError
     | Some existing \<Rightarrow>
         bindE (require_run_actor existing p ThreadResource) (\<lambda>_.
         case filter (\<lambda>m. ms_run_id m = Some (rn_id existing) \<and> ms_thread_id m = th_id t
                        \<and> ms_role m = UserRole) (db_messages db) of
           [m] \<Rightarrow> if ms_content m \<noteq> message then Inl IdempotencyMismatchError else Inr existing
         | _ \<Rightarrow> Inl (ResourceNotFoundError ''run_ownership''))))"

definition initial_replay_view ::
  "codec \<Rightarrow> db \<Rightarrow> thread_row \<Rightarrow> principal \<Rightarrow> pystr \<Rightarrow> pystr \<Rightarrow>
   exn + (thread_summary \<times> run_view \<times> bool)" where
  "initial_replay_view c db t p message key =
     bindE (resolve_initial_run_replay db t p message key) (\<lambda>existing.
     bindE (run_view_of c existing) (\<lambda>v. Inr (thread_summary_of t, v, False)))"

text \<open>The transaction: the lookup reads \<open>snap\<close>, the three inserts meet \<open>db\<close>.\<close>

definition create_initial_tx ::
  "codec \<Rightarrow> db \<Rightarrow> thread_row \<Rightarrow> run_row \<Rightarrow> message_row \<Rightarrow> principal \<Rightarrow> pystr \<Rightarrow> pystr \<Rightarrow> db \<Rightarrow>
   exn + (thread_summary \<times> run_view \<times> bool) option \<times> db" where
  "create_initial_tx c snap t run m p message key db =
     (case find_thread snap (th_id t) of
        Some existing \<Rightarrow>
          bindE (initial_replay_view c snap existing p message key) (\<lambda>v. Inr (Some v, db))
      | None \<Rightarrow>
          bindE (insert_thread t db) (\<lambda>db1.
          bindE (insert_run run db1) (\<lambda>db2.
          bindE (insert_message m db2) (\<lambda>db3. Inr (None, db3)))))"

definition create_initial_run ::
  "codec \<Rightarrow> (nat \<Rightarrow> bool) \<Rightarrow> pystr \<Rightarrow> pystr \<Rightarrow> int \<Rightarrow> principal \<Rightarrow> pystr \<Rightarrow> pystr \<Rightarrow> pystr \<Rightarrow>
   execution_plan \<Rightarrow> db \<Rightarrow> db \<Rightarrow> (exn + (thread_summary \<times> run_view \<times> bool)) \<times> db" where
  "create_initial_run c cc run_id msg_id now p tid message key plan snap db =
     (case validate_execution_plan plan of
        Inl e \<Rightarrow> (Inl e, db)
      | Inr validated \<Rightarrow>
          let t = \<lparr>th_id = tid, th_owner_subject = subject p,
                   th_title = initial_thread_title cc message,
                   th_created_at = now, th_updated_at = now\<rparr>;
              run = new_run_row run_id now p tid key validated;
              m = user_message_row msg_id run message
          in case create_initial_tx c snap t run m p message key db of
               Inr (Some v, db') \<Rightarrow> (Inr v, db')
             | Inr (None, db') \<Rightarrow>
                 (bindE (run_view_of c run) (\<lambda>v. Inr (thread_summary_of t, v, True)), db')
             | Inl e \<Rightarrow>
                 if e \<noteq> IntegrityError then (Inl e, db)
                 else
                   (case find_thread db tid of
                      None \<Rightarrow> (Inl IntegrityError, db)
                    | Some existing \<Rightarrow> (initial_replay_view c db existing p message key, db)))"

definition touch_thread :: "pystr \<Rightarrow> int \<Rightarrow> db \<Rightarrow> db" where
  "touch_thread tid now db =
     (case find_thread db tid of
        None \<Rightarrow> db
      | Some t \<Rightarrow> put_thread (t\<lparr>th_updated_at := now\<rparr>) db)"

definition existing_run_view ::
  "codec \<Rightarrow> run_row \<Rightarrow> principal \<Rightarrow> exn + run_view" where
  "existing_run_view c existing p =
     bindE (require_run_actor existing p ThreadResource) (\<lambda>_. run_view_of c existing)"

definition create_run_tx ::
  "codec \<Rightarrow> db \<Rightarrow> run_row \<Rightarrow> message_row \<Rightarrow> principal \<Rightarrow> pystr \<Rightarrow> pystr \<Rightarrow> db \<Rightarrow>
   exn + run_view option \<times> db" where
  "create_run_tx c snap run m p tid key db =
     (case find_thread snap tid of
        None \<Rightarrow> Inl (ResourceNotFoundError ''thread'')
      | Some t \<Rightarrow>
          bindE (require_thread_owner t p) (\<lambda>_.
          bindE (require_thread_run_consistency snap t) (\<lambda>_.
          case find_idempotent snap tid key of
            Some existing \<Rightarrow>
              bindE (existing_run_view c existing p) (\<lambda>v. Inr (Some v, db))
          | None \<Rightarrow>
              (case active_run snap tid of
                 Some active \<Rightarrow>
                   if rn_idempotency_key active = key
                   then bindE (existing_run_view c active p) (\<lambda>v. Inr (Some v, db))
                   else bindE (require_run_actor active p ThreadResource) (\<lambda>_.
                        Inl ActiveRunConflictError)
               | None \<Rightarrow>
                   bindE (insert_run run db) (\<lambda>db1.
                   bindE (insert_message m db1) (\<lambda>db2.
                   Inr (None, touch_thread tid (rn_created_at run) db2)))))))"

text \<open>After an \<open>IntegrityError\<close>: the constraints decided, so report what is there.\<close>

definition create_run_recover ::
  "codec \<Rightarrow> principal \<Rightarrow> pystr \<Rightarrow> pystr \<Rightarrow> db \<Rightarrow> exn + (run_view \<times> bool)" where
  "create_run_recover c p tid key db =
     (case find_thread db tid of
        None \<Rightarrow> Inl (ResourceNotFoundError ''thread'')
      | Some t \<Rightarrow>
          bindE (require_thread_owner t p) (\<lambda>_.
          bindE (require_thread_run_consistency db t) (\<lambda>_.
          case find_idempotent db tid key of
            Some existing \<Rightarrow> bindE (existing_run_view c existing p) (\<lambda>v. Inr (v, False))
          | None \<Rightarrow>
              (case active_run db tid of
                 Some active \<Rightarrow>
                   bindE (require_run_actor active p ThreadResource) (\<lambda>_.
                   Inl ActiveRunConflictError)
               | None \<Rightarrow> Inl IntegrityError))))"

definition create_run ::
  "codec \<Rightarrow> pystr \<Rightarrow> pystr \<Rightarrow> int \<Rightarrow> principal \<Rightarrow> pystr \<Rightarrow> pystr \<Rightarrow> pystr \<Rightarrow> execution_plan \<Rightarrow>
   db \<Rightarrow> db \<Rightarrow> (exn + (run_view \<times> bool)) \<times> db" where
  "create_run c run_id msg_id now p tid message key plan snap db =
     (case validate_execution_plan plan of
        Inl e \<Rightarrow> (Inl e, db)
      | Inr validated \<Rightarrow>
          let run = new_run_row run_id now p tid key validated;
              m = user_message_row msg_id run message
          in case create_run_tx c snap run m p tid key db of
               Inr (Some v, db') \<Rightarrow> (Inr (v, False), db')
             | Inr (None, db') \<Rightarrow> (bindE (run_view_of c run) (\<lambda>v. Inr (v, True)), db')
             | Inl e \<Rightarrow>
                 if e \<noteq> IntegrityError then (Inl e, db)
                 else (create_run_recover c p tid key db, db))"

end
