(* ===== verification/Run_Store.thy ===== *)
theory Run_Store
  imports Repository
begin

text \<open>
  repository.py, class \<open>ProductRepository\<close>, continued: the life of a Run (start, provider
  attempts, runtime events, the four ways to end), the recovery sweep over the Runs a previous
  process left active, the reading operations, and the fail-closed guard in front of all.
\<close>

section \<open>Starting and metering\<close>

definition start_run :: "codec \<Rightarrow> pystr \<Rightarrow> int \<Rightarrow> pystr \<Rightarrow> db \<Rightarrow> (exn + bool) \<times> db" where
  "start_run c event_id now rid db =
     transact
       (case claim_run rid (\<lambda>r. rn_status r = RunCreated)
               (\<lambda>r. r\<lparr>rn_status := RunRunning, rn_last_seq := rn_last_seq r + 1\<rparr>) db of
          None \<Rightarrow>
            if find_run db rid = None then Inl (ResourceNotFoundError ''run'') else Inr (False, db)
        | Some (run, db1) \<Rightarrow>
            bindE (require_internal_run_consistency db1 run False) (\<lambda>_.
            bindE (make_event c run event_id ''run.started''
                     (py_dict [(''status'', PStr (lit ''running''))]) (rn_last_seq run) now) (\<lambda>e.
            bindE (insert_event e db1) (\<lambda>db2. Inr (True, db2))))) db"

text \<open>An attempt in the same position, or with the same id; a repeated start is accepted.\<close>

definition find_started ::
  "db \<Rightarrow> pystr \<Rightarrow> model_attempt_start \<Rightarrow> attempt_row option" where
  "find_started db rid s =
     List.find (\<lambda>a. ma_id a = start_attempt_id s
                 \<or> ma_run_id a = rid \<and> ma_call_index a = call_index s
                   \<and> ma_attempt_index a = attempt_index s) (db_attempts db)"

definition no_tokens :: token_usage where
  "no_tokens = \<lparr>input_tokens = None, output_tokens = None, cached_tokens = None,
                reasoning_tokens = None, total_tokens = None\<rparr>"

definition start_model_attempt ::
  "int \<Rightarrow> pystr \<Rightarrow> model_attempt_start \<Rightarrow> db \<Rightarrow> (exn + unit) \<times> db" where
  "start_model_attempt now rid s db =
     transact
       (case find_run db rid of
          None \<Rightarrow> Inl (ResourceNotFoundError ''run'')
        | Some run \<Rightarrow>
            bindE (require_internal_run_consistency db run False) (\<lambda>_.
            if rn_status run \<noteq> RunRunning
               \<or> rn_metering_version run \<noteq> Some METERING_SCHEMA_VERSION
            then Inl (UsageMeteringError ''model_attempt_run_not_meterable'')
            else
              (case find_started db rid s of
                 Some a \<Rightarrow>
                   if ma_id a = start_attempt_id s \<and> ma_run_id a = rid
                      \<and> ma_call_index a = call_index s \<and> ma_attempt_index a = attempt_index s
                      \<and> ma_call_kind a = call_kind s \<and> ma_status a = Started
                   then Inr ((), db)
                   else Inl (UsageMeteringError ''model_attempt_start_conflict'')
               | None \<Rightarrow>
                   bindE (insert_attempt
                            \<lparr>ma_id = start_attempt_id s, ma_run_id = rid,
                             ma_thread_id = rn_thread_id run, ma_call_index = call_index s,
                             ma_attempt_index = attempt_index s, ma_call_kind = call_kind s,
                             ma_status = Started, ma_started_at = now, ma_completed_at = None,
                             ma_tokens = no_tokens\<rparr> db) (\<lambda>db'. Inr ((), db'))))) db"

definition owned_attempt :: "db \<Rightarrow> pystr \<Rightarrow> pystr \<Rightarrow> string \<Rightarrow> exn + attempt_row" where
  "owned_attempt db rid aid reason =
     (case find_attempt_row db aid of
        None \<Rightarrow> Inl (UsageMeteringError reason)
      | Some a \<Rightarrow> if ma_run_id a \<noteq> rid then Inl (UsageMeteringError reason) else Inr a)"

definition finish_model_attempt ::
  "int \<Rightarrow> pystr \<Rightarrow> model_attempt_finish \<Rightarrow> db \<Rightarrow> (exn + bool) \<times> db" where
  "finish_model_attempt now rid fin db =
     (let token_values = (case finish_usage fin of None \<Rightarrow> no_tokens | Some u \<Rightarrow> u) in
      transact
        (case find_run db rid of
           None \<Rightarrow> Inl (ResourceNotFoundError ''run'')
         | Some run \<Rightarrow>
             bindE (require_internal_run_consistency db run False) (\<lambda>_.
             bindE (owned_attempt db rid (finish_attempt_id fin) ''model_attempt_finish_unknown'')
               (\<lambda>a.
             if rn_status run \<notin> set ACTIVE_STATUSES then Inr (False, db)
             else if ma_status a \<noteq> Started
             then
               if ma_status a = finish_status fin \<and> ma_tokens a = token_values
               then Inr (True, db)
               else Inl (UsageMeteringError ''model_attempt_finish_conflict'')
             else
               bindE (update_attempts (\<lambda>b. ma_id b = ma_id a)
                        (\<lambda>b. b\<lparr>ma_status := finish_status fin, ma_completed_at := Some now,
                               ma_tokens := token_values\<rparr>) db)
                 (\<lambda>db'. Inr (True, db'))))) db)"

definition record_model_attempt_usage ::
  "pystr \<Rightarrow> model_attempt_usage \<Rightarrow> db \<Rightarrow> (exn + bool) \<times> db" where
  "record_model_attempt_usage rid obs db =
     (let token_values = observed_usage obs in
      transact
        (case find_run db rid of
           None \<Rightarrow> Inl (ResourceNotFoundError ''run'')
         | Some run \<Rightarrow>
             bindE (require_internal_run_consistency db run False) (\<lambda>_.
             bindE (owned_attempt db rid (usage_attempt_id obs) ''model_attempt_usage_unknown'')
               (\<lambda>a.
             if rn_status run \<notin> set ACTIVE_STATUSES then Inr (False, db)
             else if list_ex (\<lambda>f. get_token f (ma_tokens a) \<noteq> None) token_fields
             then
               if ma_tokens a = token_values then Inr (True, db)
               else Inl (UsageMeteringError ''model_attempt_usage_conflict'')
             else if ma_status a \<noteq> Started
             then Inl (UsageMeteringError ''model_attempt_usage_terminal'')
             else
               bindE (update_attempts (\<lambda>b. ma_id b = ma_id a)
                        (\<lambda>b. b\<lparr>ma_tokens := token_values\<rparr>) db)
                 (\<lambda>db'. Inr (True, db'))))) db)"

section \<open>Runtime events\<close>

definition append_event_tx ::
  "codec \<Rightarrow> pystr \<Rightarrow> int \<Rightarrow> pystr \<Rightarrow> event_type \<Rightarrow> pdict \<Rightarrow> db \<Rightarrow> exn + event_row option \<times> db" where
  "append_event_tx c event_id now rid t validated db =
     (case claim_run rid (\<lambda>r. rn_status r = RunRunning)
             (\<lambda>r. r\<lparr>rn_last_seq := rn_last_seq r + 1,
                    rn_first_visible_at :=
                      (if t = MessageDeltaEvent \<and> rn_first_visible_at r = None
                       then Some now else rn_first_visible_at r)\<rparr>) db of
        None \<Rightarrow>
          if find_run db rid = None then Inl (ResourceNotFoundError ''run'')
          else Inr (None, db)
      | Some (run, db1) \<Rightarrow>
          bindE (require_internal_run_consistency db1 run False) (\<lambda>_.
          bindE (make_event c run event_id (event_name t) validated (rn_last_seq run) now) (\<lambda>e.
          bindE (insert_event e db1) (\<lambda>db2. Inr (Some e, db2)))))"

definition append_active_event ::
  "codec \<Rightarrow> pystr \<Rightarrow> int \<Rightarrow> pystr \<Rightarrow> pystr \<Rightarrow> pdict \<Rightarrow> db \<Rightarrow> (exn + event_envelope option) \<times> db" where
  "append_active_event c event_id now rid name data db =
     (case validate_runtime_event c name data of
        Inl e \<Rightarrow> (Inl e, db)
      | Inr (t, validated) \<Rightarrow>
          and_then (transact (append_event_tx c event_id now rid t validated db) db)
            (\<lambda>stored db'.
               case stored of
                 None \<Rightarrow> (Inr None, db')
               | Some e \<Rightarrow> (bindE (event_view c e) (\<lambda>v. Inr (Some v)), db')))"

section \<open>Ending a Run\<close>

definition write_terminal_usage ::
  "run_row \<Rightarrow> int \<Rightarrow> attempt_status \<Rightarrow> run_error_category option \<Rightarrow> db \<Rightarrow> exn + (run_row \<times> db)" where
  "write_terminal_usage run completed_at open_status category db =
     (case rn_metering_version run of
        None \<Rightarrow> Inr (run, db)
      | Some version \<Rightarrow>
          if version \<noteq> METERING_SCHEMA_VERSION
          then Inl (UsageMeteringError ''run_metering_version_unsupported'')
          else
            bindE (update_attempts (\<lambda>a. ma_run_id a = rn_id run \<and> ma_status a = Started)
                     (\<lambda>a. a\<lparr>ma_status := open_status, ma_completed_at := Some completed_at\<rparr>) db)
              (\<lambda>db1.
            bindE (terminal_run_usage run
                     (order_by ma_call_index ma_attempt_index (attempts_of db1 (rn_id run)))
                     completed_at category) (\<lambda>u.
            let run' = run\<lparr>rn_usage_metrics := Some (dump_run_usage u)\<rparr>
            in Inr (run', put_run run' db1))))"

text \<open>The usage object of the terminal event: what the Run's view shows after the write.\<close>

definition settle_usage ::
  "codec \<Rightarrow> run_row \<Rightarrow> int \<Rightarrow> attempt_status \<Rightarrow> run_error_category option \<Rightarrow> db \<Rightarrow>
   exn + (run_row \<times> pval \<times> db)" where
  "settle_usage c run now open_status category db =
     bindE (write_terminal_usage run now open_status category db) (\<lambda>(run', db').
     bindE (run_view_of c run') (\<lambda>v. Inr (run', dump_run_usage (rv_usage v), db')))"

definition ended ::
  "run_status \<Rightarrow> int \<Rightarrow> int \<Rightarrow> execution_outcome option \<Rightarrow> run_row \<Rightarrow> run_row" where
  "ended status now n outcome r =
     r\<lparr>rn_status := status, rn_completed_at := Some now, rn_last_seq := rn_last_seq r + n,
       rn_execution_outcome := outcome\<rparr>"

text \<open>A Run that is not in the state the transition needs is returned as it is.\<close>

definition unchanged_view :: "codec \<Rightarrow> pystr \<Rightarrow> db \<Rightarrow> exn + (run_row \<times> db)" where
  "unchanged_view c rid db =
     (case find_run db rid of
        None \<Rightarrow> Inl (ResourceNotFoundError ''run'')
      | Some r \<Rightarrow> bindE (run_view_of c r) (\<lambda>_. Inr (r, db)))"

definition complete_run_tx ::
  "codec \<Rightarrow> pystr \<Rightarrow> pystr \<Rightarrow> pystr \<Rightarrow> int \<Rightarrow> pystr \<Rightarrow> pystr \<Rightarrow> execution_outcome \<Rightarrow>
   run_error_category option \<Rightarrow> db \<Rightarrow> exn + (run_row \<times> db)" where
  "complete_run_tx c msg_id ev_id1 ev_id2 now rid content outcome category db =
     (case claim_run rid (\<lambda>r. rn_status r = RunRunning)
             (ended RunCompleted now 2 (Some outcome)) db of
        None \<Rightarrow> unchanged_view c rid db
      | Some (run, db1) \<Rightarrow>
          bindE (settle_usage c run now Interrupted category db1) (\<lambda>(run', usage, db2).
          bindE (require_internal_run_consistency db2 run' False) (\<lambda>t.
          let m = \<lparr>ms_id = msg_id, ms_thread_id = rn_thread_id run', ms_run_id = Some (rn_id run'),
                   ms_role = AssistantRole, ms_content = content, ms_created_at = now\<rparr> in
          bindE (make_event c run' ev_id1 ''message.completed''
                   (py_dict [(''message'', dump_message c (message_view m))])
                   (rn_last_seq run' - 1) now) (\<lambda>e1.
          bindE (make_event c run' ev_id2 ''run.completed''
                   (py_dict [(''status'', PStr (lit ''completed'')), (''usage'', usage)])
                   (rn_last_seq run') now) (\<lambda>e2.
          bindE (insert_message m db2) (\<lambda>db3.
          bindE (insert_event e1 db3) (\<lambda>db4.
          bindE (insert_event e2 db4) (\<lambda>db5.
          Inr (run', put_thread (t\<lparr>th_updated_at := now\<rparr>) db5)))))))))"

definition complete_run ::
  "codec \<Rightarrow> pystr \<Rightarrow> pystr \<Rightarrow> pystr \<Rightarrow> int \<Rightarrow> pystr \<Rightarrow> pystr \<Rightarrow> execution_outcome \<Rightarrow>
   run_error_category option \<Rightarrow> db \<Rightarrow> (exn + run_view) \<times> db" where
  "complete_run c msg_id ev_id1 ev_id2 now rid content outcome category db =
     (case validated_terminal_outcome outcome OutcomeCompleted None of
        Inl e \<Rightarrow> (Inl e, db)
      | Inr validated \<Rightarrow>
          and_then
            (transact (complete_run_tx c msg_id ev_id1 ev_id2 now rid content validated category db)
               db)
            (\<lambda>run db'. (run_view_of c run, db')))"

definition fail_run_tx ::
  "codec \<Rightarrow> pystr \<Rightarrow> int \<Rightarrow> pystr \<Rightarrow> run_failure_code \<Rightarrow> execution_outcome \<Rightarrow>
   run_error_category option \<Rightarrow> db \<Rightarrow> exn + (run_row \<times> db)" where
  "fail_run_tx c event_id now rid code outcome category db =
     (case claim_run rid (\<lambda>r. rn_status r \<in> set ACTIVE_STATUSES)
             (ended RunFailed now 1 (Some outcome)) db of
        None \<Rightarrow> unchanged_view c rid db
      | Some (run, db1) \<Rightarrow>
          bindE (settle_usage c run now AttemptFailed category db1) (\<lambda>(run', usage, db2).
          bindE (require_internal_run_consistency db2 run' False) (\<lambda>t.
          bindE (make_event c run' event_id ''run.failed''
                   (py_dict [(''status'', PStr (lit ''failed'')),
                             (''error_code'', PStr (lit (failure_code_name code))),
                             (''usage'', usage)])
                   (rn_last_seq run') now) (\<lambda>e.
          bindE (insert_event e db2) (\<lambda>db3.
          Inr (run', put_thread (t\<lparr>th_updated_at := now\<rparr>) db3))))))"

definition fail_run ::
  "codec \<Rightarrow> pystr \<Rightarrow> int \<Rightarrow> pystr \<Rightarrow> run_failure_code \<Rightarrow> execution_outcome \<Rightarrow>
   run_error_category option \<Rightarrow> db \<Rightarrow> (exn + run_view) \<times> db" where
  "fail_run c event_id now rid code outcome category db =
     (case validated_terminal_outcome outcome OutcomeFailed (Some code) of
        Inl e \<Rightarrow> (Inl e, db)
      | Inr validated \<Rightarrow>
          and_then (transact (fail_run_tx c event_id now rid code validated category db) db)
            (\<lambda>run db'. (run_view_of c run, db')))"

text \<open>Cancelling checks the owner of the thread and of the Run first, whatever its status.\<close>

definition cancel_run_tx ::
  "codec \<Rightarrow> pystr \<Rightarrow> int \<Rightarrow> pystr \<Rightarrow> principal \<Rightarrow> execution_outcome \<Rightarrow>
   run_error_category option \<Rightarrow> db \<Rightarrow> exn + (run_row \<times> db)" where
  "cancel_run_tx c event_id now rid p outcome category db =
     (case find_run db rid of
        None \<Rightarrow> Inl (ResourceNotFoundError ''run'')
      | Some r \<Rightarrow>
          (case find_thread db (rn_thread_id r) of
             None \<Rightarrow> Inl (ResourceNotFoundError ''run'')
           | Some t \<Rightarrow>
               bindE (require_owner p (th_owner_subject t) RunResource) (\<lambda>_.
               bindE (require_owner p (rn_actor_subject r) RunResource) (\<lambda>_.
               case claim_run rid (\<lambda>r. rn_status r \<in> set ACTIVE_STATUSES)
                      (ended RunCancelled now 1 (Some outcome)) db of
                 None \<Rightarrow> unchanged_view c rid db
               | Some (run, db1) \<Rightarrow>
                   bindE (settle_usage c run now AttemptCancelled category db1)
                     (\<lambda>(run', usage, db2).
                   bindE (make_event c run' event_id ''run.cancelled''
                            (py_dict [(''status'', PStr (lit ''cancelled'')), (''usage'', usage)])
                            (rn_last_seq run') now) (\<lambda>e.
                   bindE (insert_event e db2) (\<lambda>db3.
                   Inr (run', put_thread (t\<lparr>th_updated_at := now\<rparr>) db3))))))))"

definition cancel_run ::
  "codec \<Rightarrow> pystr \<Rightarrow> int \<Rightarrow> pystr \<Rightarrow> principal \<Rightarrow> execution_outcome \<Rightarrow>
   run_error_category option \<Rightarrow> db \<Rightarrow> (exn + run_view) \<times> db" where
  "cancel_run c event_id now rid p outcome category db =
     (case validated_terminal_outcome outcome OutcomeCancelled None of
        Inl e \<Rightarrow> (Inl e, db)
      | Inr validated \<Rightarrow>
          and_then (transact (cancel_run_tx c event_id now rid p validated category db) db)
            (\<lambda>run db'. (run_view_of c run, db')))"

section \<open>Recovery\<close>

text \<open>The source ids of the stored events, in order, each once.\<close>

fun collect_source_ids :: "codec \<Rightarrow> event_row list \<Rightarrow> pystr list \<Rightarrow> exn + pystr list" where
  "collect_source_ids c [] acc = Inr acc"
| "collect_source_ids c (e # es) acc =
     bindE (validate_product_event c (ev_type e) (ev_payload e)) (\<lambda>data.
     case dict_get data (lit ''source_id'') of
       PStr s \<Rightarrow> collect_source_ids c es (if s \<in> set acc then acc else acc @ [s])
     | _ \<Rightarrow> Inl (OtherException ''TypeError''))"

definition orphan_outcome :: "codec \<Rightarrow> run_row \<Rightarrow> db \<Rightarrow> exn + execution_outcome option" where
  "orphan_outcome c r db =
     (case rn_execution_outcome r of
        Some o' \<Rightarrow>
          bindE (validate_execution_outcome o') (\<lambda>_.
          Inl (PolicyKernelConfigurationError ''active_run_execution_outcome_present''))
      | None \<Rightarrow>
          (case rn_execution_plan r of
             None \<Rightarrow> Inr None
           | Some plan \<Rightarrow>
               bindE (validate_execution_plan plan) (\<lambda>_.
               bindE (collect_source_ids c
                        (sort_key ev_seq
                           (filter (\<lambda>e. ev_type e = lit ''source.added'') (events_of db (rn_id r))))
                        []) (\<lambda>ids.
               bindE (orphaned_run_outcome ids) (\<lambda>o'.
               bindE (validate_execution_outcome o') (\<lambda>validated. Inr (Some validated)))))))"

definition close_orphan ::
  "codec \<Rightarrow> (pystr \<Rightarrow> pystr) \<Rightarrow> int \<Rightarrow> run_row \<Rightarrow> db \<Rightarrow> exn + (run_row option \<times> db)" where
  "close_orphan c new_id now r db =
     bindE (orphan_outcome c r db) (\<lambda>outcome.
     case claim_run (rn_id r) (\<lambda>q. rn_status q \<in> set ACTIVE_STATUSES)
            (ended RunFailed now 1 outcome) db of
       None \<Rightarrow> Inr (None, db)
     | Some (run, db1) \<Rightarrow>
         bindE (settle_usage c run now Interrupted (Some ServiceError) db1) (\<lambda>(run', usage, db2).
         bindE (require_internal_run_consistency db2 run' True) (\<lambda>t.
         bindE (make_event c run' (new_id (rn_id run')) ''run.failed''
                  (py_dict [(''status'', PStr (lit ''failed'')),
                            (''error_code'', PStr (lit ''service_restarted'')),
                            (''usage'', usage)])
                  (rn_last_seq run') now) (\<lambda>e.
         bindE (insert_event e db2) (\<lambda>db3.
         Inr (Some run', put_thread (t\<lparr>th_updated_at := now\<rparr>) db3))))))"

fun close_orphans ::
  "codec \<Rightarrow> (pystr \<Rightarrow> pystr) \<Rightarrow> int \<Rightarrow> run_row list \<Rightarrow> db \<Rightarrow> exn + (run_row list \<times> db)" where
  "close_orphans c new_id now [] db = Inr ([], db)"
| "close_orphans c new_id now (r # rs) db =
     bindE (close_orphan c new_id now r db) (\<lambda>(closed, db1).
     bindE (close_orphans c new_id now rs db1) (\<lambda>(runs, db2).
     Inr ((case closed of None \<Rightarrow> runs | Some run \<Rightarrow> run # runs), db2)))"

definition fail_orphaned_runs ::
  "codec \<Rightarrow> (pystr \<Rightarrow> pystr) \<Rightarrow> int \<Rightarrow> db \<Rightarrow> (exn + run_view list) \<times> db" where
  "fail_orphaned_runs c new_id now db =
     and_then
       (transact
          (close_orphans c new_id now
             (order_by rn_created_at rn_id
                (filter (\<lambda>r. rn_status r \<in> set ACTIVE_STATUSES) (db_runs db))) db) db)
       (\<lambda>runs db'. (traverse (run_view_of c) runs, db'))"

end
