(* ===== verification/Run_Queries.thy ===== *)
theory Run_Queries
  imports Run_Store
begin

text \<open>
  repository.py, class \<open>ProductRepository\<close>, the operations that only read: a Run, its audit
  evidence, the context handed to a Runtime, the replay of its events, and the usage of an
  account. Last the fail-closed guard that every method runs first.
\<close>

section \<open>Reading a Run\<close>

definition get_run :: "codec \<Rightarrow> pystr \<Rightarrow> principal \<Rightarrow> db \<Rightarrow> exn + run_view" where
  "get_run c rid p db =
     (case find_run db rid of
        None \<Rightarrow> Inl (ResourceNotFoundError ''run'')
      | Some r \<Rightarrow> bindE (require_authorized_run db r p) (\<lambda>_. run_view_of c r))"

definition get_run_evidence ::
  "pystr \<Rightarrow> principal \<Rightarrow> db \<Rightarrow> exn + (execution_plan option \<times> execution_outcome option)" where
  "get_run_evidence rid p db =
     (case find_run db rid of
        None \<Rightarrow> Inl (ResourceNotFoundError ''run'')
      | Some r \<Rightarrow>
          bindE (require_authorized_run db r p) (\<lambda>_.
          bindE (case rn_execution_plan r of
                   None \<Rightarrow> Inr None
                 | Some plan \<Rightarrow> bindE (validate_execution_plan plan) (\<lambda>x. Inr (Some x))) (\<lambda>plan.
          bindE (case rn_execution_outcome r of
                   None \<Rightarrow> Inr None
                 | Some out \<Rightarrow> bindE (validate_execution_outcome out) (\<lambda>x. Inr (Some x))) (\<lambda>out.
          Inr (plan, out)))))"

text \<open>The messages of completed Runs of the thread, and of the Run itself.\<close>

definition in_context :: "db \<Rightarrow> run_row \<Rightarrow> message_row \<Rightarrow> bool" where
  "in_context db run m \<longleftrightarrow>
     ms_thread_id m = rn_thread_id run
     \<and> (case ms_run_id m of
          None \<Rightarrow> False
        | Some i \<Rightarrow>
            (case find_run db i of
               None \<Rightarrow> False
             | Some r \<Rightarrow> rn_status r = RunCompleted \<or> rn_id r = rn_id run))"

definition get_run_context :: "pystr \<Rightarrow> db \<Rightarrow> exn + (pystr \<times> message list)" where
  "get_run_context rid db =
     (case find_run db rid of
        None \<Rightarrow> Inl (ResourceNotFoundError ''run'')
      | Some run \<Rightarrow>
          (case find_thread db (rn_thread_id run) of
             None \<Rightarrow> Inl (ResourceNotFoundError ''run_ownership'')
           | Some t \<Rightarrow>
               bindE (require_internal_run_consistency db run False) (\<lambda>_.
               bindE (require_thread_run_consistency db t) (\<lambda>_.
               let messages = map message_view
                     (order_by ms_created_at ms_id (filter (in_context db run) (db_messages db)))
               in if \<not> list_ex (\<lambda>m. message_run_id m = Some rid \<and> message_role m = UserRole) messages
                  then Inl (ResourceNotFoundError ''message'')
                  else Inr (rn_thread_id run, messages)))))"

definition get_events ::
  "codec \<Rightarrow> pystr \<Rightarrow> int \<Rightarrow> principal \<Rightarrow> db \<Rightarrow> exn + event_envelope list" where
  "get_events c rid after_seq p db =
     (case find_run db rid of
        None \<Rightarrow> Inl (ResourceNotFoundError ''run'')
      | Some r \<Rightarrow>
          bindE (require_authorized_run db r p) (\<lambda>_.
          traverse (event_view c)
            (sort_key ev_seq (filter (\<lambda>e. ev_seq e > after_seq) (events_of db rid)))))"

section \<open>Usage of an account\<close>

datatype usage_range = Last7Days | Last30Days | AllTime

record account_view =
  ac_display_name :: pystr
  ac_organization :: "pystr option"
  ac_extensions :: display_extensions

record usage_scope =
  us_range :: usage_range
  us_from_at :: "int option"
  us_to_at :: int
  us_thread_id :: "pystr option"

record run_counts =
  rc_total :: nat
  rc_completed :: nat
  rc_failed :: nat
  rc_cancelled :: nat
  rc_active :: nat

record account_usage =
  au_account :: account_view
  au_scope :: usage_scope
  au_runs :: run_counts
  au_model_calls :: usage_metric
  au_retries :: usage_metric
  au_input_tokens :: usage_metric
  au_output_tokens :: usage_metric
  au_cached_tokens :: usage_metric
  au_reasoning_tokens :: usage_metric
  au_total_tokens :: usage_metric

text \<open>The default display name of the account, four CJK characters.\<close>

definition default_display_name :: pystr where
  "default_display_name = [24403, 21069, 29992, 25143]"

definition make_account_view :: "principal \<Rightarrow> exn + account_view" where
  "make_account_view p =
     (let name = (case display_name p of
                    None \<Rightarrow> default_display_name
                  | Some s \<Rightarrow> if s = [] then default_display_name else s)
      in if len_between 1 200 name
            \<and> (case organization p of None \<Rightarrow> True | Some g \<Rightarrow> length g \<le> 200)
         then Inr \<lparr>ac_display_name = name, ac_organization = organization p,
                   ac_extensions = extensions p\<rparr>
         else Inl ValidationError)"

fun range_cutoff :: "int \<Rightarrow> usage_range \<Rightarrow> int option" where
  "range_cutoff now Last7Days = Some (now - 7 * 86400 * 1000000)"
| "range_cutoff now Last30Days = Some (now - 30 * 86400 * 1000000)"
| "range_cutoff now AllTime = None"

text \<open>The rows of the query: owner, actor, time window and thread must all match.\<close>

definition usage_row ::
  "db \<Rightarrow> pystr \<Rightarrow> int \<Rightarrow> int option \<Rightarrow> pystr option \<Rightarrow> run_row \<Rightarrow> bool" where
  "usage_row db sub now cutoff tid r \<longleftrightarrow>
     (case find_thread db (rn_thread_id r) of
        None \<Rightarrow> False
      | Some t \<Rightarrow> th_owner_subject t = sub)
     \<and> rn_actor_subject r = sub \<and> rn_created_at r \<le> now
     \<and> (case cutoff of None \<Rightarrow> True | Some t \<Rightarrow> t \<le> rn_created_at r)
     \<and> (case tid of None \<Rightarrow> True | Some i \<Rightarrow> rn_thread_id r = i)"

definition usage_rows ::
  "db \<Rightarrow> pystr \<Rightarrow> int \<Rightarrow> int option \<Rightarrow> pystr option \<Rightarrow> run_row list" where
  "usage_rows db sub now cutoff tid =
     order_by rn_created_at rn_id (filter (usage_row db sub now cutoff tid) (db_runs db))"

definition count_runs :: "run_row list \<Rightarrow> run_counts" where
  "count_runs rs =
     (let n = (\<lambda>P. length (filter P (map rn_status rs)))
      in \<lparr>rc_total = length rs, rc_completed = n (\<lambda>s. s = RunCompleted),
          rc_failed = n (\<lambda>s. s = RunFailed), rc_cancelled = n (\<lambda>s. s = RunCancelled),
          rc_active = n (\<lambda>s. s \<in> set ACTIVE_STATUSES)\<rparr>)"

definition require_usage_scope :: "db \<Rightarrow> pystr \<Rightarrow> pystr option \<Rightarrow> exn + unit" where
  "require_usage_scope db sub tid =
     (case tid of
        None \<Rightarrow> Inr ()
      | Some i \<Rightarrow>
          requireE (list_ex (\<lambda>t. th_id t = i \<and> th_owner_subject t = sub) (db_threads db))
            (ResourceNotFoundError ''usage_scope''))"

definition aggregate_counts ::
  "(run_usage \<Rightarrow> int option) \<Rightarrow> run_usage list \<Rightarrow> exn + usage_metric" where
  "aggregate_counts field us =
     bindE (traverse (\<lambda>u. usage_count_metric u field) us) aggregate_usage_metrics"

definition get_account_usage ::
  "codec \<Rightarrow> int \<Rightarrow> principal \<Rightarrow> usage_range \<Rightarrow> pystr option \<Rightarrow> db \<Rightarrow> exn + account_usage" where
  "get_account_usage c now p rng tid db =
     (let cutoff = range_cutoff now rng in
      bindE (require_usage_scope db (subject p) tid) (\<lambda>_.
      let rs = usage_rows db (subject p) now cutoff tid in
      bindE (traverse (\<lambda>r. bindE (run_view_of c r) (\<lambda>v. Inr (rv_usage v))) rs) (\<lambda>us.
      bindE (make_account_view p) (\<lambda>account.
      bindE (aggregate_counts model_call_count us) (\<lambda>calls.
      bindE (aggregate_counts retry_count us) (\<lambda>retries.
      bindE (aggregate_usage_metrics (map input_metric us)) (\<lambda>mi.
      bindE (aggregate_usage_metrics (map output_metric us)) (\<lambda>mo.
      bindE (aggregate_usage_metrics (map cached_metric us)) (\<lambda>mc.
      bindE (aggregate_usage_metrics (map reasoning_metric us)) (\<lambda>mr.
      bindE (aggregate_usage_metrics (map total_metric us)) (\<lambda>mt.
      Inr \<lparr>au_account = account,
           au_scope = \<lparr>us_range = rng, us_from_at = cutoff, us_to_at = now, us_thread_id = tid\<rparr>,
           au_runs = count_runs rs,
           au_model_calls = calls, au_retries = retries, au_input_tokens = mi,
           au_output_tokens = mo, au_cached_tokens = mc, au_reasoning_tokens = mr,
           au_total_tokens = mt\<rparr>)))))))))))"

section \<open>Failing closed\<close>

record repository =
  rp_fatal_error :: "string option"
  rp_db :: db

definition fail_closed :: "string \<Rightarrow> repository \<Rightarrow> repository" where
  "fail_closed reason rp =
     (if rp_fatal_error rp = None then rp\<lparr>rp_fatal_error := Some reason\<rparr> else rp)"

definition require_available :: "repository \<Rightarrow> exn + unit" where
  "require_available rp =
     (case rp_fatal_error rp of
        None \<Rightarrow> Inr ()
      | Some reason \<Rightarrow> Inl (RepositoryUnavailableError reason))"

text \<open>A method on the repository: the guard, then the method on its database.\<close>

definition with_guard :: "(db \<Rightarrow> (exn + 'a) \<times> db) \<Rightarrow> repository \<Rightarrow> (exn + 'a) \<times> repository" where
  "with_guard op rp =
     (case require_available rp of
        Inl e \<Rightarrow> (Inl e, rp)
      | Inr _ \<Rightarrow> (case op (rp_db rp) of (res, db') \<Rightarrow> (res, rp\<lparr>rp_db := db'\<rparr>)))"

end
