(* ===== verification/Store_Schema.thy ===== *)
theory Store_Schema
  imports Run_Queries
begin

text \<open>
  The constraints of the five tables as an invariant of the whole database, and the proof that
  every primitive write keeps it. The inserts keep it because they check it; the updates by
  primary key check nothing, and keep it because of what they leave alone.
\<close>

section \<open>Lookups\<close>

lemma find_run_Some: "find_run db i = Some r \<Longrightarrow> r \<in> set (db_runs db) \<and> rn_id r = i"
  by (auto simp: find_run_def find_Some_iff)

lemma find_thread_Some: "find_thread db i = Some t \<Longrightarrow> t \<in> set (db_threads db) \<and> th_id t = i"
  by (auto simp: find_thread_def find_Some_iff)

lemma find_attempt_row_Some:
  "find_attempt_row db i = Some a \<Longrightarrow> a \<in> set (db_attempts db) \<and> ma_id a = i"
  by (auto simp: find_attempt_row_def find_Some_iff)

lemma find_idempotent_Some:
  "find_idempotent db tid key = Some r \<Longrightarrow>
     r \<in> set (db_runs db) \<and> rn_thread_id r = tid \<and> rn_idempotency_key r = key"
  by (auto simp: find_idempotent_def find_Some_iff)

lemma find_run_None: "find_run db i = None \<longleftrightarrow> i \<notin> rn_id ` set (db_runs db)"
  by (auto simp: find_run_def find_None_iff)

lemma find_thread_None: "find_thread db i = None \<longleftrightarrow> i \<notin> th_id ` set (db_threads db)"
  by (auto simp: find_thread_def find_None_iff)

lemma find_attempt_row_None: "find_attempt_row db i = None \<longleftrightarrow> i \<notin> ma_id ` set (db_attempts db)"
  by (auto simp: find_attempt_row_def find_None_iff)

lemma find_idempotent_None:
  "find_idempotent db tid key = None \<longleftrightarrow>
     (tid, key) \<notin> (\<lambda>r. (rn_thread_id r, rn_idempotency_key r)) ` set (db_runs db)"
  by (auto simp: find_idempotent_def find_None_iff)

lemma find_by_key:
  "distinct (map f xs) \<Longrightarrow> x \<in> set xs \<Longrightarrow> f x = k \<Longrightarrow> List.find (\<lambda>y. f y = k) xs = Some x"
  by (induction xs) auto

section \<open>The constraints as an invariant\<close>

definition run_refs :: "db \<Rightarrow> (pystr \<times> pystr) set" where
  "run_refs db = (\<lambda>r. (rn_id r, rn_thread_id r)) ` set (db_runs db)"

definition keys_distinct :: "db \<Rightarrow> bool" where
  "keys_distinct db \<longleftrightarrow>
     distinct (map th_id (db_threads db)) \<and> distinct (map rn_id (db_runs db))
     \<and> distinct (map ma_id (db_attempts db)) \<and> distinct (map ms_id (db_messages db))
     \<and> distinct (map ev_id (db_events db))"

definition uniques_hold :: "db \<Rightarrow> bool" where
  "uniques_hold db \<longleftrightarrow>
     distinct (map (\<lambda>r. (rn_thread_id r, rn_idempotency_key r)) (db_runs db))
     \<and> distinct (map rn_thread_id (filter is_active (db_runs db)))
     \<and> distinct (map (\<lambda>e. (ev_run_id e, ev_seq e)) (db_events db))
     \<and> distinct (map (\<lambda>a. (ma_run_id a, ma_call_index a, ma_attempt_index a)) (db_attempts db))"

definition references_hold :: "db \<Rightarrow> bool" where
  "references_hold db \<longleftrightarrow>
     rn_thread_id ` set (db_runs db) \<subseteq> th_id ` set (db_threads db)
     \<and> (\<lambda>a. (ma_run_id a, ma_thread_id a)) ` set (db_attempts db) \<subseteq> run_refs db
     \<and> (\<lambda>e. (ev_run_id e, ev_thread_id e)) ` set (db_events db) \<subseteq> run_refs db
     \<and> (\<forall>m \<in> set (db_messages db).
          ms_thread_id m \<in> th_id ` set (db_threads db)
          \<and> (\<forall>rid. ms_run_id m = Some rid \<longrightarrow> (rid, ms_thread_id m) \<in> run_refs db))"

definition schema_ok :: "db \<Rightarrow> bool" where
  "schema_ok db \<longleftrightarrow>
     keys_distinct db \<and> uniques_hold db \<and> references_hold db
     \<and> list_all attempt_checks (db_attempts db)"

lemmas schema_defs = schema_ok_def keys_distinct_def uniques_hold_def references_hold_def

lemma schema_empty [simp]: "schema_ok empty_db"
  by (simp add: schema_defs empty_db_def)

lemma has_run_iff: "has_run db rid tid \<longleftrightarrow> (rid, tid) \<in> run_refs db"
  by (auto simp: has_run_def run_refs_def list_ex_iff)

lemma find_run_intro: "schema_ok db \<Longrightarrow> r \<in> set (db_runs db) \<Longrightarrow> find_run db (rn_id r) = Some r"
  unfolding find_run_def by (rule find_by_key [where f = rn_id]) (simp_all add: schema_defs)

lemma find_thread_intro:
  "schema_ok db \<Longrightarrow> t \<in> set (db_threads db) \<Longrightarrow> find_thread db (th_id t) = Some t"
  unfolding find_thread_def by (rule find_by_key [where f = th_id]) (simp_all add: schema_defs)

lemma find_idempotent_intro:
  assumes "schema_ok db" "r \<in> set (db_runs db)"
  shows "find_idempotent db (rn_thread_id r) (rn_idempotency_key r) = Some r"
proof -
  have "List.find (\<lambda>y. (rn_thread_id y, rn_idempotency_key y)
      = (rn_thread_id r, rn_idempotency_key r)) (db_runs db) = Some r"
    using assms by (intro find_by_key) (simp_all add: schema_defs)
  then show ?thesis by (simp add: find_idempotent_def)
qed

lemma active_run_unique:
  assumes "schema_ok db" "r \<in> set (db_runs db)" "s \<in> set (db_runs db)"
    "is_active r" "is_active s" "rn_thread_id r = rn_thread_id s"
  shows "r = s"
proof -
  have "inj_on rn_thread_id (set (filter is_active (db_runs db)))"
    using assms(1) by (simp add: schema_defs distinct_map)
  with assms show ?thesis by (auto dest: inj_onD)
qed

section \<open>Inserts\<close>

lemma insert_thread_ok:
  assumes "insert_thread t db = Inr db'" shows "db' = db\<lparr>db_threads := db_threads db @ [t]\<rparr>"
    and "schema_ok db \<Longrightarrow> schema_ok db'" and "th_id t \<notin> th_id ` set (db_threads db)"
proof -
  show db': "db' = db\<lparr>db_threads := db_threads db @ [t]\<rparr>"
    and fresh: "th_id t \<notin> th_id ` set (db_threads db)"
    using assms by (auto simp: insert_thread_def find_thread_None split: if_splits)
  show "schema_ok db \<Longrightarrow> schema_ok db'"
    using fresh by (simp add: db' schema_defs run_refs_def) blast
qed

lemma insert_run_ok:
  assumes "insert_run r db = Inr db'"
  shows "db' = db\<lparr>db_runs := db_runs db @ [r]\<rparr>"
    and "schema_ok db \<Longrightarrow> schema_ok db'" and "rn_id r \<notin> rn_id ` set (db_runs db)"
    and "rn_thread_id r \<in> th_id ` set (db_threads db)"
proof -
  have c: "run_constraints r db" and db': "db' = db\<lparr>db_runs := db_runs db @ [r]\<rparr>"
    using assms by (auto simp: insert_run_def split: if_splits)
  show "db' = db\<lparr>db_runs := db_runs db @ [r]\<rparr>" by (fact db')
  show fresh: "rn_id r \<notin> rn_id ` set (db_runs db)"
    and thread: "rn_thread_id r \<in> th_id ` set (db_threads db)"
    using c find_run_None find_thread_None by (auto simp: run_constraints_def)
  assume ok: "schema_ok db"
  have "(rn_thread_id r, rn_idempotency_key r)
      \<notin> (\<lambda>q. (rn_thread_id q, rn_idempotency_key q)) ` set (db_runs db)"
    using c find_idempotent_None by (auto simp: run_constraints_def)
  moreover have "is_active r \<longrightarrow> rn_thread_id r \<notin> rn_thread_id ` set (filter is_active (db_runs db))"
    using c by (auto simp: run_constraints_def list_ex_iff)
  moreover have "run_refs db' = insert (rn_id r, rn_thread_id r) (run_refs db)"
    by (simp add: db' run_refs_def)
  ultimately show "schema_ok db'"
    using ok fresh thread by (simp add: schema_defs db') blast
qed

lemma insert_attempt_ok:
  assumes "insert_attempt a db = Inr db'"
  shows "db' = db\<lparr>db_attempts := db_attempts db @ [a]\<rparr>" and "schema_ok db \<Longrightarrow> schema_ok db'"
proof -
  have c: "attempt_constraints a db" and db': "db' = db\<lparr>db_attempts := db_attempts db @ [a]\<rparr>"
    using assms by (auto simp: insert_attempt_def split: if_splits)
  show "db' = db\<lparr>db_attempts := db_attempts db @ [a]\<rparr>" by (fact db')
  have "ma_id a \<notin> ma_id ` set (db_attempts db)" "(ma_run_id a, ma_thread_id a) \<in> run_refs db"
    "(ma_run_id a, ma_call_index a, ma_attempt_index a)
      \<notin> (\<lambda>a. (ma_run_id a, ma_call_index a, ma_attempt_index a)) ` set (db_attempts db)"
    "attempt_checks a"
    using c find_attempt_row_None by (auto simp: attempt_constraints_def list_ex_iff has_run_iff)
  then show "schema_ok db \<Longrightarrow> schema_ok db'"
    by (simp add: schema_defs db' run_refs_def)
qed

lemma insert_message_ok:
  assumes "insert_message m db = Inr db'"
  shows "db' = db\<lparr>db_messages := db_messages db @ [m]\<rparr>" and "schema_ok db \<Longrightarrow> schema_ok db'"
proof -
  have c: "message_constraints m db" and db': "db' = db\<lparr>db_messages := db_messages db @ [m]\<rparr>"
    using assms by (auto simp: insert_message_def split: if_splits)
  show "db' = db\<lparr>db_messages := db_messages db @ [m]\<rparr>" by (fact db')
  have "ms_id m \<notin> ms_id ` set (db_messages db)" "ms_thread_id m \<in> th_id ` set (db_threads db)"
    "\<forall>rid. ms_run_id m = Some rid \<longrightarrow> (rid, ms_thread_id m) \<in> run_refs db"
    using c find_thread_None [of db "ms_thread_id m"]
    by (auto simp: message_constraints_def list_ex_iff has_run_iff)
  then show "schema_ok db \<Longrightarrow> schema_ok db'"
    by (simp add: schema_defs db' run_refs_def)
qed

lemma insert_event_ok:
  assumes "insert_event e db = Inr db'"
  shows "db' = db\<lparr>db_events := db_events db @ [e]\<rparr>" and "schema_ok db \<Longrightarrow> schema_ok db'"
proof -
  have c: "event_constraints e db" and db': "db' = db\<lparr>db_events := db_events db @ [e]\<rparr>"
    using assms by (auto simp: insert_event_def split: if_splits)
  show "db' = db\<lparr>db_events := db_events db @ [e]\<rparr>" by (fact db')
  have "ev_id e \<notin> ev_id ` set (db_events db)" "(ev_run_id e, ev_thread_id e) \<in> run_refs db"
    "(ev_run_id e, ev_seq e) \<notin> (\<lambda>e. (ev_run_id e, ev_seq e)) ` set (db_events db)"
    using c by (auto simp: event_constraints_def list_ex_iff has_run_iff)
  then show "schema_ok db \<Longrightarrow> schema_ok db'"
    by (simp add: schema_defs db' run_refs_def)
qed

section \<open>Updates\<close>

lemma put_thread_ids [simp]: "map th_id (db_threads (put_thread t db)) = map th_id (db_threads db)"
  by (auto simp: put_thread_def)

lemma put_thread_id_set [simp]: "th_id ` set (db_threads (put_thread t db)) = th_id ` set (db_threads db)"
  using put_thread_ids [of t db] by (metis set_map)

lemma put_thread_tables [simp]:
  "db_runs (put_thread t db) = db_runs db" "db_attempts (put_thread t db) = db_attempts db"
  "db_messages (put_thread t db) = db_messages db" "db_events (put_thread t db) = db_events db"
  by (simp_all add: put_thread_def)

lemma put_run_tables [simp]:
  "db_threads (put_run r db) = db_threads db" "db_attempts (put_run r db) = db_attempts db"
  "db_messages (put_run r db) = db_messages db" "db_events (put_run r db) = db_events db"
  by (simp_all add: put_run_def)

lemma put_thread_ok: "schema_ok db \<Longrightarrow> schema_ok (put_thread t db)"
  by (simp add: schema_defs run_refs_def)

text \<open>What an update of a Run leaves alone.\<close>

definition same_run :: "run_row \<Rightarrow> run_row \<Rightarrow> bool" where
  "same_run q r \<longleftrightarrow>
     rn_id r = rn_id q \<and> rn_thread_id r = rn_thread_id q
     \<and> rn_idempotency_key r = rn_idempotency_key q \<and> rn_actor_subject r = rn_actor_subject q
     \<and> rn_execution_plan r = rn_execution_plan q \<and> rn_metering_version r = rn_metering_version q
     \<and> rn_created_at r = rn_created_at q"

lemma same_run_simps [simp]:
  "same_run r (r\<lparr>rn_status := s\<rparr>) \<longleftrightarrow> True"
  "same_run q (r\<lparr>rn_usage_metrics := u\<rparr>) \<longleftrightarrow> same_run q r"
  "same_run q (ended s n k out r) \<longleftrightarrow> same_run q r"
  "same_run r r"
  by (simp_all add: same_run_def ended_def)

lemma distinct_active_map:
  assumes "\<forall>r \<in> set rs. rn_thread_id (g r) = rn_thread_id r \<and> (is_active (g r) \<longrightarrow> is_active r)"
    and "distinct (map rn_thread_id (filter is_active rs))"
  shows "distinct (map rn_thread_id (filter is_active (map g rs)))"
proof -
  have sub: "rn_thread_id ` set (filter is_active (map g qs)) \<subseteq> rn_thread_id ` set (filter is_active qs)"
    if "\<forall>r \<in> set qs. rn_thread_id (g r) = rn_thread_id r \<and> (is_active (g r) \<longrightarrow> is_active r)" for qs
    using that by force
  show ?thesis
    using assms
  proof (induction rs)
    case (Cons r rs)
    then have ih: "distinct (map rn_thread_id (filter is_active (map g rs)))"
      by (auto split: if_splits)
    have "rn_thread_id r \<notin> rn_thread_id ` set (filter is_active (map g rs))" if "is_active r"
      using Cons.prems that sub [of rs] by auto
    with ih Cons.prems show ?case by auto
  qed simp
qed

lemma put_run_map:
  assumes "schema_ok db" "find_run db (rn_id r) = Some q" "same_run q r"
  shows "map (\<lambda>s. (rn_id s, rn_thread_id s, rn_idempotency_key s, rn_actor_subject s)) (db_runs (put_run r db))
    = map (\<lambda>s. (rn_id s, rn_thread_id s, rn_idempotency_key s, rn_actor_subject s)) (db_runs db)"
proof -
  have "s = q" if "s \<in> set (db_runs db)" "rn_id s = rn_id r" for s
    using find_run_intro [OF assms(1) that(1)] that(2) assms(2) by simp
  then show ?thesis
    using assms(3) by (auto simp: put_run_def same_run_def)
qed

lemma put_run_maps:
  assumes "schema_ok db" "find_run db (rn_id r) = Some q" "same_run q r"
  shows "map rn_id (db_runs (put_run r db)) = map rn_id (db_runs db)"
    and "map (\<lambda>s. (rn_thread_id s, rn_idempotency_key s)) (db_runs (put_run r db))
      = map (\<lambda>s. (rn_thread_id s, rn_idempotency_key s)) (db_runs db)"
    and "map (\<lambda>s. (rn_id s, rn_thread_id s)) (db_runs (put_run r db))
      = map (\<lambda>s. (rn_id s, rn_thread_id s)) (db_runs db)"
    and "map (\<lambda>s. (rn_thread_id s, rn_actor_subject s)) (db_runs (put_run r db))
      = map (\<lambda>s. (rn_thread_id s, rn_actor_subject s)) (db_runs db)"
    and "map rn_thread_id (db_runs (put_run r db)) = map rn_thread_id (db_runs db)"
  using arg_cong [OF put_run_map [OF assms], of "map fst"]
    arg_cong [OF put_run_map [OF assms], of "map (\<lambda>(i, t, k, a). (t, k))"]
    arg_cong [OF put_run_map [OF assms], of "map (\<lambda>(i, t, k, a). (i, t))"]
    arg_cong [OF put_run_map [OF assms], of "map (\<lambda>(i, t, k, a). (t, a))"]
    arg_cong [OF put_run_map [OF assms], of "map (\<lambda>(i, t, k, a). t)"]
  by (simp_all add: comp_def)

lemma put_run_ok:
  assumes "schema_ok db" "find_run db (rn_id r) = Some q" "same_run q r" "is_active r \<Longrightarrow> is_active q"
  shows "schema_ok (put_run r db)" and "run_refs (put_run r db) = run_refs db"
proof -
  note maps = put_run_maps [OF assms(1-3)]
  show refs: "run_refs (put_run r db) = run_refs db"
    using arg_cong [OF maps(3), of set] unfolding run_refs_def by simp
  have "s = q" if "s \<in> set (db_runs db)" "rn_id s = rn_id r" for s
    using find_run_intro [OF assms(1) that(1)] that(2) assms(2) by simp
  then have "\<forall>s \<in> set (db_runs db). rn_thread_id (if rn_id s = rn_id r then r else s) = rn_thread_id s
      \<and> (is_active (if rn_id s = rn_id r then r else s) \<longrightarrow> is_active s)"
    using assms(3,4) by (auto simp: same_run_def)
  then have "distinct (map rn_thread_id
      (filter is_active (map (\<lambda>s. if rn_id s = rn_id r then r else s) (db_runs db))))"
    using assms(1) by (intro distinct_active_map) (simp_all add: schema_defs)
  then have "distinct (map rn_thread_id (filter is_active (db_runs (put_run r db))))"
    by (simp add: put_run_def)
  moreover have "rn_thread_id ` set (db_runs (put_run r db)) = rn_thread_id ` set (db_runs db)"
    using arg_cong [OF maps(5), of set] by simp
  ultimately show "schema_ok (put_run r db)"
    using assms(1) unfolding schema_defs maps(1) maps(2) refs by simp
qed

lemma find_replaced:
  "List.find (\<lambda>y. f y = f x) (map (\<lambda>y. if f y = f x then x else y) ys)
     = (if List.find (\<lambda>y. f y = f x) ys = None then None else Some x)"
  by (induction ys) simp_all

lemma find_put_run [simp]:
  "find_run (put_run r db) (rn_id r) = (if find_run db (rn_id r) = None then None else Some r)"
  unfolding find_run_def put_run_def by (simp add: find_replaced)

lemma put_run_put_run [simp]:
  "rn_id r = rn_id s \<Longrightarrow> put_run r (put_run s db) = put_run r db"
  by (auto simp: put_run_def)

text \<open>What an update of attempts leaves alone.\<close>

definition keeps_attempt :: "(attempt_row \<Rightarrow> attempt_row) \<Rightarrow> bool" where
  "keeps_attempt f \<longleftrightarrow>
     (\<forall>a. ma_id (f a) = ma_id a \<and> ma_run_id (f a) = ma_run_id a \<and> ma_thread_id (f a) = ma_thread_id a
        \<and> ma_call_index (f a) = ma_call_index a \<and> ma_attempt_index (f a) = ma_attempt_index a
        \<and> ma_call_kind (f a) = ma_call_kind a)"

lemma update_attempts_ok:
  assumes "update_attempts P f db = Inr db'" "keeps_attempt f"
  shows "db' = db\<lparr>db_attempts := map (\<lambda>a. if P a then f a else a) (db_attempts db)\<rparr>"
    and "schema_ok db \<Longrightarrow> schema_ok db'"
proof -
  define rows where "rows = map (\<lambda>a. if P a then f a else a) (db_attempts db)"
  have db': "db' = db\<lparr>db_attempts := rows\<rparr>" and checks: "list_all attempt_checks rows"
    using assms(1) by (auto simp: update_attempts_def rows_def Let_def split: if_splits)
  show "db' = db\<lparr>db_attempts := map (\<lambda>a. if P a then f a else a) (db_attempts db)\<rparr>"
    by (simp add: db' rows_def)
  have maps: "map ma_id rows = map ma_id (db_attempts db)"
    "map (\<lambda>a. (ma_run_id a, ma_call_index a, ma_attempt_index a)) rows
      = map (\<lambda>a. (ma_run_id a, ma_call_index a, ma_attempt_index a)) (db_attempts db)"
    "map (\<lambda>a. (ma_run_id a, ma_thread_id a)) rows = map (\<lambda>a. (ma_run_id a, ma_thread_id a)) (db_attempts db)"
    using assms(2) by (auto simp: rows_def keeps_attempt_def)
  have "(\<lambda>a. (ma_run_id a, ma_thread_id a)) ` set rows
      = (\<lambda>a. (ma_run_id a, ma_thread_id a)) ` set (db_attempts db)"
    using arg_cong [OF maps(3), of set] by simp
  then show "schema_ok db \<Longrightarrow> schema_ok db'"
    using checks maps(1,2) by (simp add: schema_defs db' run_refs_def)
qed

end
