(* ===== verification/Run_Lifecycle.thy ===== *)
theory Run_Lifecycle
  imports Store_Schema
begin

text \<open>
  The life of one Run as the database shows it: its row, its event log, its provider attempts and
  its messages. \<open>run_ok\<close> says what all of them have to agree on in every state; \<open>effect\<close>
  says what a transition of one Run may do to the whole database. Each transition of Run_Store is
  shown to have such an effect, and an effect keeps \<open>run_ok\<close> of every other Run.
\<close>

section \<open>Stored events\<close>

definition stored_event :: "codec \<Rightarrow> event_row \<Rightarrow> bool" where
  "stored_event c e \<longleftrightarrow>
     (\<exists>p. ev_type e = lit (event_name (payload_event p)) \<and> ev_payload e = dump_payload c p
        \<and> valid_payload p \<and> replayable p)"

lemma validate_stored:
  assumes "time_round_trip c" "valid_payload p" "replayable p"
  shows "validate_product_event c (lit (event_name (payload_event p))) (dump_payload c p)
    = Inr (dump_payload c p)"
  using assms by (simp add: validate_product_event_def parse_dump_payload)

lemma normalize_stored:
  "normalize_stored_product_event (lit (event_name (payload_event p))) (dump_payload c p)
     = dump_payload c p"
proof (cases p)
  case (RunFailedPayload e u)
  then show ?thesis by (cases e) (simp_all add: normalize_stored_product_event_def)
qed (simp_all add: normalize_stored_product_event_def)

lemma event_view_stored:
  assumes "time_round_trip c" "stored_event c e"
  shows "event_view c e = Inr
    \<lparr>ee_event_id = ev_id e, ee_run_id = ev_run_id e, ee_thread_id = ev_thread_id e,
     ee_seq = ev_seq e, ee_type = ev_type e, ee_occurred_at = ev_occurred_at e,
     ee_data = ev_payload e\<rparr>"
  using assms by (auto simp: stored_event_def event_view_def normalize_stored validate_stored)

lemma parse_message_run:
  "parse_message c (PDict d) = Some m \<Longrightarrow> map_of d (lit ''run_id'') = Some (PStr i)
     \<Longrightarrow> message_run_id m = Some i"
  by (auto simp: parse_message_def bind_eq_Some_conv split: if_splits)

lemma make_event_ok:
  assumes "make_event c run i name data seq now = Inr e"
    and "name = ''message.completed'' \<Longrightarrow>
      \<exists>m. data = py_dict [(''message'', dump_message c m)] \<and> message_run_id m \<noteq> None"
  shows "stored_event c e" and "ev_run_id e = rn_id run" and "ev_seq e = seq"
    and "ev_type e = lit name" and "ev_thread_id e = rn_thread_id run"
proof -
  obtain d where d: "validate_product_event c (lit name) data = Inr d"
    and e: "ev_type e = lit name" "ev_payload e = d" "ev_run_id e = rn_id run" "ev_seq e = seq"
      "ev_thread_id e = rn_thread_id run"
    using assms(1) by (auto simp: make_event_def)
  then show "ev_run_id e = rn_id run" "ev_seq e = seq" "ev_type e = lit name"
    "ev_thread_id e = rn_thread_id run" by simp_all
  obtain t p where tp: "find_event_type (lit name) = Some t" "parse_payload c t data = Some p"
    "d = dump_payload c p"
    using d by (auto simp: validate_product_event_def split: option.splits)
  have p: "payload_event p = t" "valid_payload p" "lit name = lit (event_name t)"
    using tp parse_payload_event parse_payload_valid find_event_type_Some by blast+
  have "replayable p"
  proof (cases p)
    case (MessageCompletedPayload m')
    with p have "name = ''message.completed''" by simp
    then obtain m j where m: "data = py_dict [(''message'', dump_message c m)]"
      "message_run_id m = Some j"
      using assms(2) by auto
    have "parse_message c (dump_message c m) = Some m'"
      using tp(2) p(1) MessageCompletedPayload m(1) by (auto split: if_splits)
    then have "message_run_id m' = Some j"
      unfolding dump_message_def by (rule parse_message_run) (simp add: m(2))
    with MessageCompletedPayload show ?thesis by simp
  qed simp_all
  with p tp(3) e show "stored_event c e"
    unfolding stored_event_def by (intro exI [of _ p]) simp
qed

section \<open>What a Run has to satisfy\<close>

definition runtime_names :: "pystr set" where
  "runtime_names = (\<lambda>t. lit (event_name t)) ` set RUNTIME_EVENT_TYPES"

definition open_trace :: "pystr list \<Rightarrow> bool" where
  "open_trace ts \<longleftrightarrow>
     ts = [] \<or> hd ts = lit ''run.started'' \<and> set (tl ts) \<subseteq> runtime_names"

fun closing_events :: "run_status \<Rightarrow> string list" where
  "closing_events RunCompleted = [''message.completed'', ''run.completed'']"
| "closing_events RunFailed = [''run.failed'']"
| "closing_events RunCancelled = [''run.cancelled'']"
| "closing_events _ = []"

text \<open>The grammar of a log: the start, runtime events, and the closing events of the status.\<close>

definition trace_ok :: "run_status \<Rightarrow> pystr list \<Rightarrow> bool" where
  "trace_ok st ts \<longleftrightarrow>
     (\<exists>us. ts = us @ map lit (closing_events st) \<and> open_trace us
        \<and> (st = RunCreated \<longrightarrow> us = []) \<and> (st \<in> {RunRunning, RunCompleted} \<longrightarrow> us \<noteq> []))"

definition log_ok :: "codec \<Rightarrow> run_row \<Rightarrow> event_row list \<Rightarrow> bool" where
  "log_ok c r evs \<longleftrightarrow>
     0 \<le> rn_last_seq r \<and> map ev_seq evs = [1..rn_last_seq r]
     \<and> trace_ok (rn_status r) (map ev_type evs) \<and> (\<forall>e \<in> set evs. stored_event c e)"

fun status_outcome :: "run_status \<Rightarrow> outcome_status option" where
  "status_outcome RunCompleted = Some OutcomeCompleted"
| "status_outcome RunFailed = Some OutcomeFailed"
| "status_outcome RunCancelled = Some OutcomeCancelled"
| "status_outcome _ = None"

definition outcome_matches :: "run_status \<Rightarrow> execution_outcome option \<Rightarrow> bool" where
  "outcome_matches st out \<longleftrightarrow>
     (case out of
        None \<Rightarrow> False
      | Some x \<Rightarrow> valid_outcome x \<and> status_outcome st = Some (outcome_status x))"

definition row_ok :: "run_row \<Rightarrow> bool" where
  "row_ok r \<longleftrightarrow>
     rn_metering_version r \<in> {None, Some METERING_SCHEMA_VERSION}
     \<and> (\<forall>p. rn_execution_plan r = Some p \<longrightarrow> valid_plan p)
     \<and> (if is_active r
        then rn_execution_outcome r = None \<and> rn_usage_metrics r = None \<and> rn_completed_at r = None
        else rn_completed_at r \<noteq> None
          \<and> (rn_execution_plan r \<noteq> None \<longrightarrow> outcome_matches (rn_status r) (rn_execution_outcome r)))"

definition settled_usage :: "pval option \<Rightarrow> attempt_row list \<Rightarrow> bool" where
  "settled_usage um atts \<longleftrightarrow>
     (\<forall>a \<in> set atts. ma_status a \<noteq> Started)
     \<and> (\<exists>u. um = Some (dump_run_usage u) \<and> valid_run_usage u \<and> usage_state u = FinalState
          \<and> model_call_count u = Some (int (length atts)))"

definition usage_ok :: "run_row \<Rightarrow> attempt_row list \<Rightarrow> bool" where
  "usage_ok r atts \<longleftrightarrow>
     (if rn_metering_version r = None then atts = []
      else \<not> is_active r \<longrightarrow> settled_usage (rn_usage_metrics r) atts)"

definition roles_ok :: "run_row \<Rightarrow> message_row list \<Rightarrow> bool" where
  "roles_ok r ms \<longleftrightarrow>
     map ms_role ms = (if rn_status r = RunCompleted then [UserRole, AssistantRole] else [UserRole])"

definition run_ok :: "codec \<Rightarrow> db \<Rightarrow> run_row \<Rightarrow> bool" where
  "run_ok c db r \<longleftrightarrow>
     row_ok r \<and> log_ok c r (events_of db (rn_id r)) \<and> usage_ok r (attempts_of db (rn_id r))
     \<and> roles_ok r (messages_of db (rn_id r))"

definition lifecycle_ok :: "codec \<Rightarrow> db \<Rightarrow> bool" where
  "lifecycle_ok c db \<longleftrightarrow> (\<forall>r \<in> set (db_runs db). run_ok c db r)"

lemma run_ok_cong:
  "events_of db' (rn_id r) = events_of db (rn_id r) \<Longrightarrow>
   attempts_of db' (rn_id r) = attempts_of db (rn_id r) \<Longrightarrow>
   messages_of db' (rn_id r) = messages_of db (rn_id r) \<Longrightarrow> run_ok c db' r = run_ok c db r"
  by (simp add: run_ok_def)

lemma open_trace_snoc: "open_trace us \<Longrightarrow> us \<noteq> [] \<Longrightarrow> t \<in> runtime_names \<Longrightarrow> open_trace (us @ [t])"
  by (cases us) (auto simp: open_trace_def)

text \<open>Extending the log of an active Run.\<close>

lemma trace_ok_active:
  "trace_ok st ts \<Longrightarrow> st \<in> {RunCreated, RunRunning} \<Longrightarrow>
     open_trace ts \<and> (st = RunCreated \<longrightarrow> ts = []) \<and> (st = RunRunning \<longrightarrow> ts \<noteq> [])"
  by (auto simp: trace_ok_def)

lemma trace_ok_start: "trace_ok RunCreated ts \<Longrightarrow> trace_ok RunRunning (ts @ [lit ''run.started''])"
  by (auto simp: trace_ok_def open_trace_def)

lemma trace_ok_runtime:
  assumes "trace_ok RunRunning ts" "t \<in> runtime_names" shows "trace_ok RunRunning (ts @ [t])"
proof -
  have "open_trace ts" "ts \<noteq> []" using trace_ok_active [OF assms(1)] by simp_all
  then have "open_trace (ts @ [t])" using assms(2) by (rule open_trace_snoc)
  then show ?thesis by (simp add: trace_ok_def)
qed

lemma trace_ok_close:
  assumes "trace_ok st ts" "st = RunRunning \<or> st = RunCreated \<and> st' \<noteq> RunCompleted"
    "st' \<in> {RunCompleted, RunFailed, RunCancelled}"
  shows "trace_ok st' (ts @ map lit (closing_events st'))"
proof -
  have st: "st \<in> {RunCreated, RunRunning}" using assms(2) by auto
  have "open_trace ts" "st = RunRunning \<longrightarrow> ts \<noteq> []" using trace_ok_active [OF assms(1) st] by simp_all
  then show ?thesis
    unfolding trace_ok_def using assms(2,3) by (intro exI [of _ ts]) auto
qed

lemma log_ok_extend:
  assumes "log_ok c r evs" "map ev_seq new = [rn_last_seq r + 1..rn_last_seq r']"
    "rn_last_seq r' = rn_last_seq r + int (length new)" "\<forall>e \<in> set new. stored_event c e"
    "trace_ok (rn_status r') (map ev_type evs @ map ev_type new)"
  shows "log_ok c r' (evs @ new)"
proof -
  have "[1..rn_last_seq r'] = [1..rn_last_seq r] @ [rn_last_seq r + 1..rn_last_seq r']"
    using assms(1,3) upto_split2 [of 1 "rn_last_seq r" "rn_last_seq r'"]
    by (cases "rn_last_seq r = 0") (simp_all add: log_ok_def)
  with assms show ?thesis by (simp add: log_ok_def ball_Un)
qed

section \<open>Effects on the database\<close>

definition thread_keys :: "db \<Rightarrow> (pystr \<times> pystr) list" where
  "thread_keys db = map (\<lambda>t. (th_id t, th_owner_subject t)) (db_threads db)"

definition effect ::
  "codec \<Rightarrow> run_row \<Rightarrow> run_row \<Rightarrow> event_row list \<Rightarrow> message_row list \<Rightarrow> db \<Rightarrow> db \<Rightarrow> bool" where
  "effect c r r' evs ms db db' \<longleftrightarrow>
     find_run db (rn_id r) = Some r \<and> same_run r r' \<and> is_active r
     \<and> schema_ok db' \<and> thread_keys db' = thread_keys db
     \<and> db_runs db' = db_runs (put_run r' db)
     \<and> db_events db' = db_events db @ evs
     \<and> (\<forall>e \<in> set evs. ev_run_id e = rn_id r \<and> stored_event c e)
     \<and> map ev_seq evs = [rn_last_seq r + 1..rn_last_seq r']
     \<and> rn_last_seq r' = rn_last_seq r + int (length evs)
     \<and> db_messages db' = db_messages db @ ms \<and> (\<forall>m \<in> set ms. ms_run_id m = Some (rn_id r))
     \<and> (\<forall>q. q \<noteq> rn_id r \<longrightarrow> attempts_of db' q = attempts_of db q)"

lemma events_of_append:
  "db_events db' = db_events db @ evs \<Longrightarrow> \<forall>e \<in> set evs. ev_run_id e = i \<Longrightarrow>
     events_of db' q = (if q = i then events_of db q @ evs else events_of db q)"
  by (auto simp: events_of_def filter_empty_conv intro!: filter_True)

lemma messages_of_append:
  "db_messages db' = db_messages db @ ms \<Longrightarrow> \<forall>m \<in> set ms. ms_run_id m = Some i \<Longrightarrow>
     messages_of db' q = (if q = i then messages_of db q @ ms else messages_of db q)"
  by (auto simp: messages_of_def filter_empty_conv intro!: filter_True)

lemma effect_children:
  assumes "effect c r r' evs ms db db'"
  shows "events_of db' q = (if q = rn_id r then events_of db q @ evs else events_of db q)"
    and "messages_of db' q = (if q = rn_id r then messages_of db q @ ms else messages_of db q)"
    and "q \<noteq> rn_id r \<Longrightarrow> attempts_of db' q = attempts_of db q"
  using assms events_of_append messages_of_append by (auto simp: effect_def)

lemma effect_rows:
  assumes "effect c r r' evs ms db db'"
  shows "set (db_runs db') \<subseteq> insert r' {q \<in> set (db_runs db). rn_id q \<noteq> rn_id r}"
    and "r' \<in> set (db_runs db')"
    and "q \<in> set (db_runs db) \<Longrightarrow> rn_id q \<noteq> rn_id r \<Longrightarrow> q \<in> set (db_runs db')"
  using assms find_run_Some [of db "rn_id r" r]
  by (force simp: effect_def put_run_def same_run_def)+

lemma effect_lifecycle:
  assumes "effect c r r' evs ms db db'" "lifecycle_ok c db"
    and "trace_ok (rn_status r') (map ev_type (events_of db (rn_id r)) @ map ev_type evs)"
    and "row_ok r'" "usage_ok r' (attempts_of db' (rn_id r))"
    and "roles_ok r' (messages_of db (rn_id r) @ ms)"
  shows "lifecycle_ok c db'"
  unfolding lifecycle_ok_def
proof
  fix q assume q: "q \<in> set (db_runs db')"
  have id: "rn_id r' = rn_id r" and r: "r \<in> set (db_runs db)"
    using assms(1) find_run_Some by (auto simp: effect_def same_run_def)
  note kids = effect_children [OF assms(1)]
  show "run_ok c db' q"
  proof (cases "q = r'")
    case True
    have "log_ok c r (events_of db (rn_id r))"
      using assms(2) r by (auto simp: lifecycle_ok_def run_ok_def)
    then have "log_ok c r' (events_of db (rn_id r) @ evs)"
      using assms(1,3) by (intro log_ok_extend [of c r]) (simp_all add: effect_def)
    with True assms(4-6) kids id show ?thesis by (simp add: run_ok_def)
  next
    case False
    then have "q \<in> set (db_runs db)" "rn_id q \<noteq> rn_id r"
      using q effect_rows(1) [OF assms(1)] by auto
    with assms(2) kids show ?thesis by (simp add: lifecycle_ok_def run_ok_def)
  qed
qed

end
