(* ===== verification/Run_Transitions.thy ===== *)
theory Run_Transitions
  imports Run_Lifecycle
begin

text \<open>
  Every transition of Run_Store, read off its code: either it leaves the database as it is, or
  it has an \<open>effect\<close> on exactly one active Run, with the row, the events and the messages named
  here. Each keeps the constraints and \<open>run_ok\<close> of every Run.
\<close>

section \<open>Building blocks\<close>

lemma and_then_state:
  assumes "and_then m k = (res, s')" "\<And>x s. snd (k x s) = s"
  shows "snd m = s'"
  using assms(1) assms(2) by (cases rule: and_then_cases) (auto simp: prod_eq_iff)

lemma claim_run_Some:
  "claim_run rid P f db = Some (run, db1) \<longleftrightarrow>
     (\<exists>r. find_run db rid = Some r \<and> P r \<and> run = f r \<and> db1 = put_run (f r) db)"
  by (auto simp: claim_run_def split: option.splits)

lemma active_in_list: "rn_status r \<in> set ACTIVE_STATUSES \<longleftrightarrow> is_active r"
  by (simp add: is_active_def)

lemma thread_keys_touch:
  assumes "schema_ok db" "find_thread db i = Some t"
  shows "thread_keys (put_thread (t\<lparr>th_updated_at := now\<rparr>) db) = thread_keys db"
    and "thread_keys (put_thread (t\<lparr>th_title := s, th_updated_at := now\<rparr>) db) = thread_keys db"
proof -
  have "u = t" if "u \<in> set (db_threads db)" "th_id u = th_id t" for u
    using find_thread_intro [OF assms(1) that(1)] that(2) find_thread_Some [OF assms(2)] assms(2) by simp
  then show "thread_keys (put_thread (t\<lparr>th_updated_at := now\<rparr>) db) = thread_keys db"
    "thread_keys (put_thread (t\<lparr>th_title := s, th_updated_at := now\<rparr>) db) = thread_keys db"
    by (auto simp: thread_keys_def put_thread_def)
qed

lemma put_run_same:
  assumes "schema_ok db" "find_run db (rn_id r) = Some r"
  shows "put_run r db = db"
proof -
  have "q = r" if "q \<in> set (db_runs db)" "rn_id q = rn_id r" for q
    using find_run_intro [OF assms(1) that(1)] that(2) assms(2) by simp
  then have "map (\<lambda>q. if rn_id q = rn_id r then r else q) (db_runs db) = db_runs db"
    by (intro map_idI) auto
  then show ?thesis by (simp add: put_run_def)
qed

text \<open>An append of one event to an otherwise finished update of an active Run.\<close>

lemma effect_append:
  assumes "schema_ok db" "find_run db (rn_id r) = Some r" "same_run r r'" "is_active r" "is_active r'"
    and "rn_last_seq r' = rn_last_seq r + 1"
    and "make_event c r' i name data (rn_last_seq r') now = Inr e" "name \<noteq> ''message.completed''"
    and "insert_event e (put_run r' db) = Inr db'"
  shows "effect c r r' [e] [] db db'" and "ev_type e = lit name" and "db_attempts db' = db_attempts db"
proof -
  have id: "rn_id r' = rn_id r" using assms(3) by (simp add: same_run_def)
  have e: "stored_event c e" "ev_run_id e = rn_id r" "ev_seq e = rn_last_seq r'" "ev_type e = lit name"
    using make_event_ok [OF assms(7)] assms(8) id by simp_all
  then show "ev_type e = lit name" by simp
  have ok: "schema_ok (put_run r' db)" using assms(1-5) id by (intro put_run_ok) simp_all
  note ins = insert_event_ok [OF assms(9)]
  then show "db_attempts db' = db_attempts db" by simp
  show "effect c r r' [e] [] db db'"
    using assms(2-6) e ins(1) ins(2) [OF ok] unfolding effect_def
    by (simp add: thread_keys_def attempts_of_def)
qed

section \<open>Settling the usage of a closing Run\<close>

lemma attempts_of_other:
  "q \<noteq> i \<Longrightarrow> keeps_attempt f \<Longrightarrow>
     filter (\<lambda>a. ma_run_id a = q) (map (\<lambda>a. if ma_run_id a = i \<and> P a then f a else a) xs)
       = filter (\<lambda>a. ma_run_id a = q) xs"
  by (induction xs) (auto simp: keeps_attempt_def)

lemma terminal_run_usage_shape:
  "terminal_run_usage run atts t category = Inr u \<Longrightarrow>
     valid_run_usage u \<and> usage_state u = FinalState
     \<and> model_call_count u = Some (int (length atts)) \<and> error_category u = category"
  by (auto simp: terminal_run_usage_def make_run_usage_def split: if_splits)

lemma length_order_by [simp]: "length (order_by f g xs) = length xs"
  by (simp add: order_by_def)

lemma set_order_by [simp]: "set (order_by f g xs) = set xs"
  by (simp add: order_by_def)

lemma write_terminal_usage_ok:
  assumes w: "write_terminal_usage run now st category db = Inr (run', db')"
    and ok: "schema_ok db" and run: "find_run db (rn_id run) = Some run" and st: "st \<noteq> Started"
  shows "\<exists>um. run' = run\<lparr>rn_usage_metrics := um\<rparr>
      \<and> (if rn_metering_version run = None
         then um = rn_usage_metrics run \<and> db_attempts db' = db_attempts db
         else settled_usage um (attempts_of db' (rn_id run)))"
    and "db' = (put_run run' db)\<lparr>db_attempts := db_attempts db'\<rparr>" and "schema_ok db'"
    and "q \<noteq> rn_id run \<Longrightarrow> attempts_of db' q = attempts_of db q"
proof -
  have *: "(\<exists>um. run' = run\<lparr>rn_usage_metrics := um\<rparr>
      \<and> (if rn_metering_version run = None
         then um = rn_usage_metrics run \<and> db_attempts db' = db_attempts db
         else settled_usage um (attempts_of db' (rn_id run))))
    \<and> db' = (put_run run' db)\<lparr>db_attempts := db_attempts db'\<rparr> \<and> schema_ok db'
    \<and> (\<forall>q. q \<noteq> rn_id run \<longrightarrow> attempts_of db' q = attempts_of db q)"
  proof (cases "rn_metering_version run")
    case None
    with w have "run' = run" "db' = db" by (auto simp: write_terminal_usage_def)
    with None ok put_run_same [OF ok run] show ?thesis
      by (auto intro!: exI [of _ "rn_usage_metrics run"])
  next
    case (Some v)
    define P where "P a \<longleftrightarrow> ma_run_id a = rn_id run \<and> ma_status a = Started" for a :: attempt_row
    define f where "f = (\<lambda>a :: attempt_row. a\<lparr>ma_status := st, ma_completed_at := Some now\<rparr>)"
    obtain db1 u where up: "update_attempts P f db = Inr db1"
      and u: "terminal_run_usage run
        (order_by ma_call_index ma_attempt_index (attempts_of db1 (rn_id run))) now category = Inr u"
      and run': "run' = run\<lparr>rn_usage_metrics := Some (dump_run_usage u)\<rparr>" and db': "db' = put_run run' db1"
      using w Some unfolding P_def f_def write_terminal_usage_def
      by (auto simp: Let_def split: if_splits)
    have keeps: "keeps_attempt f" by (simp add: keeps_attempt_def f_def)
    note up' = update_attempts_ok [OF up keeps]
    have atts: "db_attempts db' = map (\<lambda>a. if P a then f a else a) (db_attempts db)"
      by (simp add: db' up'(1))
    have "attempts_of db1 (rn_id run) = attempts_of db' (rn_id run)"
      by (simp add: db' attempts_of_def)
    moreover have "\<forall>a \<in> set (attempts_of db' (rn_id run)). ma_status a \<noteq> Started"
      using st unfolding attempts_of_def atts by (auto simp: P_def f_def)
    ultimately have settled: "settled_usage (Some (dump_run_usage u)) (attempts_of db' (rn_id run))"
      using terminal_run_usage_shape [OF u] by (auto simp: settled_usage_def)
    have find1: "find_run db1 (rn_id run') = Some run"
      using run by (simp add: up'(1) find_run_def run')
    have ok': "schema_ok db'"
      unfolding db' using put_run_ok(1) [OF up'(2) [OF ok] find1] run' by (simp add: is_active_def)
    have eq: "db' = (put_run run' db)\<lparr>db_attempts := db_attempts db'\<rparr>"
      by (simp add: db' up'(1) put_run_def)
    have others: "attempts_of db' q = attempts_of db q" if "q \<noteq> rn_id run" for q
      unfolding attempts_of_def atts P_def by (rule attempts_of_other [OF that keeps])
    have "\<exists>um. run' = run\<lparr>rn_usage_metrics := um\<rparr>
      \<and> (if rn_metering_version run = None
         then um = rn_usage_metrics run \<and> db_attempts db' = db_attempts db
         else settled_usage um (attempts_of db' (rn_id run)))"
      using Some settled run' by (intro exI [of _ "Some (dump_run_usage u)"]) simp
    then show ?thesis by (intro conjI allI impI eq ok' others)
  qed
  then show "\<exists>um. run' = run\<lparr>rn_usage_metrics := um\<rparr>
      \<and> (if rn_metering_version run = None
         then um = rn_usage_metrics run \<and> db_attempts db' = db_attempts db
         else settled_usage um (attempts_of db' (rn_id run)))"
    by (rule conjunct1)
  show "db' = (put_run run' db)\<lparr>db_attempts := db_attempts db'\<rparr>"
    by (rule * [THEN conjunct2, THEN conjunct1])
  show "schema_ok db'" by (rule * [THEN conjunct2, THEN conjunct2, THEN conjunct1])
  show "q \<noteq> rn_id run \<Longrightarrow> attempts_of db' q = attempts_of db q"
    by (rule * [THEN conjunct2, THEN conjunct2, THEN conjunct2, rule_format])
qed

text \<open>The facts about a closing transition, from the claim of the Run to the end of its writes.\<close>

lemma close_effect:
  assumes ok: "schema_ok db" and r: "find_run db (rn_id r) = Some r" "is_active r"
    and st: "status_outcome st \<noteq> None" and ast: "ast \<noteq> Started"
    and settle: "settle_usage c (ended st now (int (length evs)) out r) now ast category
        (put_run (ended st now (int (length evs)) out r) db) = Inr (r', usage, db2)"
    and tail: "schema_ok db'" "thread_keys db' = thread_keys db2" "db_runs db' = db_runs db2"
      "db_attempts db' = db_attempts db2" "db_events db' = db_events db2 @ evs"
      "db_messages db' = db_messages db2 @ ms"
    and evs: "\<forall>e \<in> set evs. ev_run_id e = rn_id r \<and> stored_event c e"
      "map ev_seq evs = [rn_last_seq r + 1..rn_last_seq r + int (length evs)]"
    and ms: "\<forall>m \<in> set ms. ms_run_id m = Some (rn_id r)"
  shows "effect c r r' evs ms db db'"
    and "\<exists>um. r' = (ended st now (int (length evs)) out r)\<lparr>rn_usage_metrics := um\<rparr>"
    and "usage_ok r (attempts_of db (rn_id r)) \<Longrightarrow> usage_ok r' (attempts_of db' (rn_id r))"
proof -
  define run where "run = ended st now (int (length evs)) out r"
  have run: "same_run r run" "\<not> is_active run" "rn_id run = rn_id r"
    "rn_last_seq run = rn_last_seq r + int (length evs)" "rn_metering_version run = rn_metering_version r"
    using st by (cases st; simp add: run_def ended_def same_run_def is_active_iff)+
  have ok1: "schema_ok (put_run run db)"
    using run r by (intro put_run_ok [OF ok, of run r]) simp_all
  have find1: "find_run (put_run run db) (rn_id run) = Some run"
    using find_put_run [of run db] r run(3) by simp
  obtain w: "write_terminal_usage run now ast category (put_run run db) = Inr (r', db2)"
    using settle unfolding run_def [symmetric] settle_usage_def by (auto split: prod.splits)
  note W = write_terminal_usage_ok [OF w ok1 find1 ast]
  obtain um where um: "r' = run\<lparr>rn_usage_metrics := um\<rparr>"
    and settled: "if rn_metering_version run = None
         then um = rn_usage_metrics run \<and> db_attempts db2 = db_attempts db
         else settled_usage um (attempts_of db2 (rn_id run))"
    using W(1) by auto
  then show "\<exists>um. r' = (ended st now (int (length evs)) out r)\<lparr>rn_usage_metrics := um\<rparr>"
    unfolding run_def by blast
  have r': "rn_id r' = rn_id run" "rn_last_seq r' = rn_last_seq run" "same_run r r'"
    using um run(1) by simp_all
  have tables: "db_runs db2 = db_runs (put_run r' db)" "db_events db2 = db_events db"
    "db_messages db2 = db_messages db" "thread_keys db2 = thread_keys db"
    using r' by (subst W(2); simp add: thread_keys_def)+
  have others: "attempts_of db' q = attempts_of db q" if "q \<noteq> rn_id r" for q
    using W(4) [of q] that run(3) tail(4) by (simp add: attempts_of_def)
  show "effect c r r' evs ms db db'"
    unfolding effect_def using r r' run tail tables evs ms others by simp
  have "rn_metering_version r' = rn_metering_version r" "\<not> is_active r'" "rn_usage_metrics r' = um"
    using um run by (simp_all add: is_active_def)
  with settled show "usage_ok r (attempts_of db (rn_id r)) \<Longrightarrow> usage_ok r' (attempts_of db' (rn_id r))"
    using run(3,5) tail(4) by (auto simp: usage_ok_def attempts_of_def split: if_splits)
qed


section \<open>The abstract life of a Run\<close>

text \<open>
  The contract of the repository for one Run, as a machine on its status that emits event names.
\<close>

inductive life :: "run_status \<Rightarrow> run_status \<Rightarrow> string list \<Rightarrow> bool" where
  life_start: "life RunCreated RunRunning [''run.started'']"
| life_emit: "t \<in> set RUNTIME_EVENT_TYPES \<Longrightarrow> life RunRunning RunRunning [event_name t]"
| life_complete: "life RunRunning RunCompleted [''message.completed'', ''run.completed'']"
| life_fail: "st = RunCreated \<or> st = RunRunning \<Longrightarrow> life st RunFailed [''run.failed'']"
| life_cancel: "st = RunCreated \<or> st = RunRunning \<Longrightarrow> life st RunCancelled [''run.cancelled'']"

inductive_cases life_cases: "life st st' names"

lemma life_trace:
  assumes "life st st' names" "trace_ok st ts"
  shows "trace_ok st' (ts @ map lit names)"
  using assms(1)
proof cases
  case life_start
  with assms(2) trace_ok_start show ?thesis by simp
next
  case (life_emit t)
  then have "lit (event_name t) \<in> runtime_names" by (auto simp: runtime_names_def)
  with life_emit assms(2) trace_ok_runtime show ?thesis by simp
qed (use assms(2) trace_ok_close [of st ts st'] in auto)

lemma life_never_ends_twice: "life st st' names \<Longrightarrow> st = RunCreated \<or> st = RunRunning"
  by (erule life_cases) auto

definition moves :: "codec \<Rightarrow> run_row \<Rightarrow> run_row \<Rightarrow> db \<Rightarrow> db \<Rightarrow> bool" where
  "moves c r r' db db' \<longleftrightarrow>
     (\<exists>evs ms names. effect c r r' evs ms db db' \<and> map ev_type evs = map lit names
        \<and> life (rn_status r) (rn_status r') names)
     \<and> (lifecycle_ok c db \<longrightarrow> lifecycle_ok c db')"

lemma moves_effect: "moves c r r' db db' \<Longrightarrow> \<exists>evs ms. effect c r r' evs ms db db'"
  by (auto simp: moves_def)

lemma moves_schema: "moves c r r' db db' \<Longrightarrow> schema_ok db' \<and> thread_keys db' = thread_keys db"
  by (auto simp: moves_def effect_def)

lemma movesI:
  assumes "effect c r r' evs ms db db'" "map ev_type evs = map lit names"
    "life (rn_status r) (rn_status r') names"
    and "lifecycle_ok c db \<Longrightarrow> run_ok c db r \<Longrightarrow> row_ok r'"
    and "lifecycle_ok c db \<Longrightarrow> run_ok c db r \<Longrightarrow> usage_ok r' (attempts_of db' (rn_id r))"
    and "lifecycle_ok c db \<Longrightarrow> run_ok c db r \<Longrightarrow> roles_ok r' (messages_of db (rn_id r) @ ms)"
  shows "moves c r r' db db'"
  unfolding moves_def
proof (intro conjI impI)
  show "\<exists>evs ms names. effect c r r' evs ms db db' \<and> map ev_type evs = map lit names
      \<and> life (rn_status r) (rn_status r') names"
    using assms(1-3) by blast
  assume life: "lifecycle_ok c db"
  have "r \<in> set (db_runs db)"
    using assms(1) find_run_Some by (auto simp: effect_def)
  then have r: "run_ok c db r" using life by (simp add: lifecycle_ok_def)
  then have "trace_ok (rn_status r) (map ev_type (events_of db (rn_id r)))"
    by (simp add: run_ok_def log_ok_def)
  then have "trace_ok (rn_status r') (map ev_type (events_of db (rn_id r)) @ map ev_type evs)"
    using life_trace [OF assms(3)] assms(2) by simp
  then show "lifecycle_ok c db'"
    using effect_lifecycle [OF assms(1) life] assms(4-6) life r by blast
qed

text \<open>Transitions of a Run that stays active keep its row's evidence and its attempts.\<close>

lemma moves_active:
  assumes "effect c r r' evs [] db db'" "map ev_type evs = map lit names"
    "life (rn_status r) (rn_status r') names" "is_active r'" "db_attempts db' = db_attempts db"
    "rn_metering_version r' = rn_metering_version r" "rn_execution_plan r' = rn_execution_plan r"
    "rn_execution_outcome r' = rn_execution_outcome r" "rn_usage_metrics r' = rn_usage_metrics r"
    "rn_completed_at r' = rn_completed_at r"
  shows "moves c r r' db db'"
proof (rule movesI [OF assms(1-3)])
  have act: "is_active r" using assms(1) by (simp add: effect_def)
  assume "run_ok c db r"
  then show "row_ok r'" "usage_ok r' (attempts_of db' (rn_id r))"
    "roles_ok r' (messages_of db (rn_id r) @ [])"
    using assms(4-10) act
    by (auto simp: run_ok_def row_ok_def usage_ok_def roles_ok_def attempts_of_def is_active_iff)
qed

lemma moves_close:
  assumes eff: "effect c r r' evs ms db db'" and names: "map ev_type evs = map lit (closing_events st)"
    and life: "life (rn_status r) st (closing_events st)" and st: "status_outcome st \<noteq> None"
    and r': "r' = (ended st now n out r)\<lparr>rn_usage_metrics := um\<rparr>"
    and usage: "usage_ok r (attempts_of db (rn_id r)) \<Longrightarrow> usage_ok r' (attempts_of db' (rn_id r))"
    and out: "rn_execution_plan r \<noteq> None \<Longrightarrow> outcome_matches st out"
    and roles: "map ms_role ms = (if st = RunCompleted then [AssistantRole] else [])"
  shows "moves c r r' db db'"
proof (rule movesI [OF eff names])
  have act: "is_active r" using eff by (simp add: effect_def)
  have nact: "\<not> is_active r'" "rn_status r' = st"
    using st by (cases st; simp add: r' ended_def is_active_iff)+
  then show "life (rn_status r) (rn_status r') (closing_events st)" using life by simp
  assume r: "run_ok c db r"
  then show "row_ok r'" "usage_ok r' (attempts_of db' (rn_id r))"
    using act nact out usage unfolding run_ok_def row_ok_def by (auto simp: r' ended_def)
  show "roles_ok r' (messages_of db (rn_id r) @ ms)"
    using r roles nact(2) act by (auto simp: run_ok_def roles_ok_def is_active_iff)
qed

section \<open>Starting and emitting\<close>

lemma start_run_moves:
  assumes "start_run c i now rid db = (res, db')" "schema_ok db"
  shows "db' = db \<or> (\<exists>r r'. rn_id r = rid \<and> moves c r r' db db')"
  using assms(1) unfolding start_run_def
proof (cases rule: transact_cases)
  case (committed x)
  show ?thesis
  proof (cases "claim_run rid (\<lambda>r. rn_status r = RunCreated)
      (\<lambda>r. r\<lparr>rn_status := RunRunning, rn_last_seq := rn_last_seq r + 1\<rparr>) db")
    case None
    with committed(1) show ?thesis by (auto split: if_splits)
  next
    case (Some p)
    then obtain r where r: "find_run db rid = Some r" "rn_status r = RunCreated"
      and p: "p = (r\<lparr>rn_status := RunRunning, rn_last_seq := rn_last_seq r + 1\<rparr>,
          put_run (r\<lparr>rn_status := RunRunning, rn_last_seq := rn_last_seq r + 1\<rparr>) db)"
      by (cases p) (auto simp: claim_run_Some)
    define r' where "r' = r\<lparr>rn_status := RunRunning, rn_last_seq := rn_last_seq r + 1\<rparr>"
    obtain e where e: "make_event c r' i ''run.started'' (py_dict [(''status'', PStr (lit ''running''))])
        (rn_last_seq r') now = Inr e" "insert_event e (put_run r' db) = Inr db'"
      using committed(1) unfolding Some p r'_def by auto
    have id: "rn_id r = rid" using find_run_Some r(1) by blast
    have act: "is_active r" "is_active r'" using r(2) by (simp_all add: is_active_iff r'_def)
    note eff = effect_append [OF assms(2) _ _ act _ e(1) _ e(2)]
    have "moves c r r' db db'"
      by (rule moves_active [where evs = "[e]" and names = "[''run.started'']"])
        (use eff r id act life_start in \<open>auto simp: r'_def same_run_def\<close>)
    with id show ?thesis by blast
  qed
qed simp

lemma append_event_tx_moves:
  assumes "append_event_tx c i now rid t v db = Inr (x, db')" "schema_ok db"
    and t: "t \<in> set RUNTIME_EVENT_TYPES"
  shows "db' = db \<or> (\<exists>r r'. rn_id r = rid \<and> moves c r r' db db')"
proof -
  define f where "f = (\<lambda>r :: run_row. r\<lparr>rn_last_seq := rn_last_seq r + 1, rn_first_visible_at :=
      (if t = MessageDeltaEvent \<and> rn_first_visible_at r = None then Some now else rn_first_visible_at r)\<rparr>)"
  note tx = assms(1) [unfolded append_event_tx_def f_def [symmetric]]
  show ?thesis
  proof (cases "claim_run rid (\<lambda>r. rn_status r = RunRunning) f db")
    case None
    with tx show ?thesis by (auto split: if_splits)
  next
    case (Some p)
    then obtain r where r: "find_run db rid = Some r" "rn_status r = RunRunning"
      and p: "p = (f r, put_run (f r) db)"
      by (cases p) (auto simp: claim_run_Some)
    obtain e where e: "make_event c (f r) i (event_name t) v (rn_last_seq (f r)) now = Inr e"
      "insert_event e (put_run (f r) db) = Inr db'"
      using tx unfolding Some p by auto
    have t': "event_name t \<noteq> ''message.completed''" using t by (auto simp: RUNTIME_EVENT_TYPES_def)
    have id: "rn_id r = rid" using find_run_Some r(1) by blast
    have act: "is_active r" "is_active (f r)" using r(2) by (simp_all add: is_active_iff f_def)
    note eff = effect_append [OF assms(2) _ _ act _ e(1) t' e(2)]
    have "moves c r (f r) db db'"
      by (rule moves_active [where evs = "[e]" and names = "[event_name t]"])
        (use eff r id act life_emit [OF t] in \<open>auto simp: f_def same_run_def\<close>)
    with id show ?thesis by blast
  qed
qed

lemma append_active_event_moves:
  assumes "append_active_event c i now rid name data db = (res, db')" "schema_ok db"
  shows "db' = db \<or> (\<exists>r r'. rn_id r = rid \<and> moves c r r' db db')"
proof (cases "validate_runtime_event c name data")
  case (Inl e)
  with assms(1) show ?thesis by (simp add: append_active_event_def)
next
  case (Inr tv)
  obtain t v where tv: "tv = (t, v)" by (cases tv)
  have t: "t \<in> set RUNTIME_EVENT_TYPES"
    using Inr tv by (auto simp: validate_runtime_event_def find_Some_iff split: option.splits)
  have "snd (transact (append_event_tx c i now rid t v db) db) = db'"
    by (rule and_then_state [OF assms(1) [unfolded append_active_event_def Inr tv sum.case prod.case]])
      (simp split: option.split)
  then show ?thesis
    using append_event_tx_moves [OF _ assms(2) t, of c i now rid v]
    by (cases "append_event_tx c i now rid t v db") auto
qed

section \<open>Ending\<close>

lemma settle_usage_facts:
  assumes "settle_usage c run now ast category db = Inr (r', usage, db2)"
    and "schema_ok db" "find_run db (rn_id run) = Some run" "ast \<noteq> Started"
  shows "schema_ok db2" and "db_threads db2 = db_threads db"
    and "rn_id r' = rn_id run" and "rn_last_seq r' = rn_last_seq run" and "rn_thread_id r' = rn_thread_id run"
proof -
  obtain w: "write_terminal_usage run now ast category db = Inr (r', db2)"
    using assms(1) unfolding settle_usage_def by (auto split: prod.splits)
  note W = write_terminal_usage_ok [OF w assms(2-4)]
  show "schema_ok db2" by (rule W(3))
  show "db_threads db2 = db_threads db" by (subst W(2)) simp
  show "rn_id r' = rn_id run" "rn_last_seq r' = rn_last_seq run" "rn_thread_id r' = rn_thread_id run"
    using W(1) by auto
qed

lemma ended_claim:
  assumes "schema_ok db" "find_run db (rn_id r) = Some r" "status_outcome st \<noteq> None"
  shows "schema_ok (put_run (ended st now n out r) db)"
    and "find_run (put_run (ended st now n out r) db) (rn_id (ended st now n out r))
      = Some (ended st now n out r)"
    and "rn_id (ended st now n out r) = rn_id r" and "rn_last_seq (ended st now n out r) = rn_last_seq r + n"
    and "rn_thread_id (ended st now n out r) = rn_thread_id r"
proof -
  have nact: "\<not> is_active (ended st now n out r)"
    using assms(3) by (cases st) (simp_all add: ended_def is_active_iff)
  show id: "rn_id (ended st now n out r) = rn_id r"
    "rn_last_seq (ended st now n out r) = rn_last_seq r + n"
    "rn_thread_id (ended st now n out r) = rn_thread_id r"
    by (simp_all add: ended_def)
  show "schema_ok (put_run (ended st now n out r) db)"
    using assms(2) nact id by (intro put_run_ok [OF assms(1), of _ r]) simp_all
  show "find_run (put_run (ended st now n out r) db) (rn_id (ended st now n out r))
      = Some (ended st now n out r)"
    using find_put_run [of "ended st now n out r" db] assms(2) id by simp
qed

lemma close_single:
  assumes ok: "schema_ok db" and r: "find_run db (rn_id r) = Some r" "is_active r"
    and st: "st = RunFailed \<or> st = RunCancelled" "closing_events st = [name]" and ast: "ast \<noteq> Started"
    and settle: "settle_usage c (ended st now 1 out r) now ast category
        (put_run (ended st now 1 out r) db) = Inr (r', usage, db2)"
    and e: "make_event c r' i name data (rn_last_seq r') now = Inr e" "insert_event e db2 = Inr db3"
    and t: "find_thread db2 tid = Some t"
    and out: "rn_execution_plan r \<noteq> None \<Longrightarrow> outcome_matches st out"
  shows "moves c r r' db (put_thread (t\<lparr>th_updated_at := now\<rparr>) db3)"
proof -
  have st': "status_outcome st \<noteq> None" and name: "name \<noteq> ''message.completed''"
    using st by auto
  note claim = ended_claim [OF ok r(1) st', of now 1 out]
  note S = settle_usage_facts [OF settle claim(1,2) ast]
  note ins = insert_event_ok [OF e(2)]
  have ok3: "schema_ok db3" using ins(2) S(1) by simp
  have t3: "find_thread db3 tid = Some t" using t by (simp add: ins(1) find_thread_def)
  have ev: "stored_event c e" "ev_run_id e = rn_id r" "ev_seq e = rn_last_seq r + 1" "ev_type e = lit name"
    using make_event_ok [OF e(1)] name S claim by simp_all
  have keys: "thread_keys (put_thread (t\<lparr>th_updated_at := now\<rparr>) db3) = thread_keys db2"
    using thread_keys_touch(1) [OF ok3 t3] by (simp add: ins(1) thread_keys_def)
  note eff = close_effect [OF ok r st' ast, where evs = "[e]" and ms = "[]" and now = now and out = out
      and db' = "put_thread (t\<lparr>th_updated_at := now\<rparr>) db3", simplified,
      OF settle put_thread_ok [OF ok3] keys]
  from eff(2) obtain um where r': "r' = (ended st now 1 out r)\<lparr>rn_usage_metrics := um\<rparr>"
    using ev ins by auto
  show ?thesis
  proof (rule moves_close [OF eff(1) _ _ st' r' eff(3) out])
    show "life (rn_status r) st (closing_events st)"
      using st(1) r(2) life_fail [of "rn_status r"] life_cancel [of "rn_status r"]
      by (elim disjE) (simp_all add: is_active_iff)
  qed (use st ev ins in auto)
qed

lemma unchanged_view_same: "unchanged_view c rid db = Inr (r, db') \<Longrightarrow> db' = db"
  by (auto simp: unchanged_view_def split: option.splits)

lemma internal_thread:
  "require_internal_run_consistency db r b = Inr t \<Longrightarrow> find_thread db (rn_thread_id r) = Some t"
  by (auto simp: require_internal_run_consistency_def split: option.splits if_splits)

text \<open>What \<open>ok_after\<close> says: nothing happened, or the named Run moved to the named status.\<close>

definition moved_to :: "codec \<Rightarrow> pystr \<Rightarrow> run_status \<Rightarrow> db \<Rightarrow> db \<Rightarrow> bool" where
  "moved_to c rid st db db' \<longleftrightarrow> (\<exists>r r'. rn_id r = rid \<and> rn_status r' = st \<and> moves c r r' db db')"

definition ok_after :: "codec \<Rightarrow> pystr \<Rightarrow> run_status \<Rightarrow> db \<Rightarrow> db \<Rightarrow> bool" where
  "ok_after c rid st db db' \<longleftrightarrow> db' = db \<or> moved_to c rid st db db'"

lemma close_single_after:
  assumes "schema_ok db" "find_run db rid = Some r" "is_active r"
    and "st = RunFailed \<or> st = RunCancelled" "closing_events st = [name]" "ast \<noteq> Started"
    and settle: "settle_usage c (ended st now 1 out r) now ast category
        (put_run (ended st now 1 out r) db) = Inr (r', usage, db2)"
    and "make_event c r' i name data (rn_last_seq r') now = Inr e" "insert_event e db2 = Inr db3"
    and "find_thread db2 tid = Some t"
    and "rn_execution_plan r \<noteq> None \<Longrightarrow> outcome_matches st out"
  shows "moved_to c rid st db (put_thread (t\<lparr>th_updated_at := now\<rparr>) db3)"
proof -
  have id: "rn_id r = rid" using find_run_Some assms(2) by blast
  have st: "status_outcome st \<noteq> None" using assms(4) by auto
  note claim = ended_claim [OF assms(1) assms(2) [folded id] st, of now 1 out]
  obtain w: "write_terminal_usage (ended st now 1 out r) now ast category
      (put_run (ended st now 1 out r) db) = Inr (r', db2)"
    using settle unfolding settle_usage_def by (auto split: prod.splits)
  have "rn_status r' = st"
    using write_terminal_usage_ok(1) [OF w claim(1,2) assms(6)] by (auto simp: ended_def)
  moreover have "moves c r r' db (put_thread (t\<lparr>th_updated_at := now\<rparr>) db3)"
    using assms id by (intro close_single) simp_all
  ultimately show ?thesis using id unfolding moved_to_def by blast
qed

lemma fail_run_tx_ends:
  assumes tx: "fail_run_tx c i now rid code out category db = Inr (x, db')" and ok: "schema_ok db"
    and out: "valid_outcome out" "outcome_status out = OutcomeFailed"
  shows "db' = db \<and> (\<exists>r. find_run db rid = Some r \<and> \<not> is_active r) \<or> moved_to c rid RunFailed db db'"
proof (cases "claim_run rid (\<lambda>r. rn_status r \<in> set ACTIVE_STATUSES) (ended RunFailed now 1 (Some out)) db")
  case None
  then have "unchanged_view c rid db = Inr (x, db')" using tx by (simp add: fail_run_tx_def)
  moreover from this have "find_run db rid \<noteq> None" by (auto simp: unchanged_view_def split: option.splits)
  ultimately show ?thesis
    using None unchanged_view_same by (auto simp: claim_run_def active_in_list split: if_splits)
next
  case (Some p)
  then obtain r where r: "find_run db rid = Some r" "is_active r"
    and p: "p = (ended RunFailed now 1 (Some out) r, put_run (ended RunFailed now 1 (Some out) r) db)"
    by (cases p) (auto simp: claim_run_Some active_in_list)
  obtain run' usage db2 t e db3 where steps:
    "settle_usage c (ended RunFailed now 1 (Some out) r) now AttemptFailed category
        (put_run (ended RunFailed now 1 (Some out) r) db) = Inr (run', usage, db2)"
    "require_internal_run_consistency db2 run' False = Inr t"
    "make_event c run' i ''run.failed''
       (py_dict [(''status'', PStr (lit ''failed'')),
                 (''error_code'', PStr (lit (failure_code_name code))), (''usage'', usage)])
       (rn_last_seq run') now = Inr e"
    "insert_event e db2 = Inr db3" "db' = put_thread (t\<lparr>th_updated_at := now\<rparr>) db3"
    using tx unfolding fail_run_tx_def Some p by auto
  show ?thesis
    unfolding steps(5)
    by (rule disjI2, rule close_single_after [OF ok r _ _ _ steps(1,3,4) internal_thread [OF steps(2)]])
      (simp_all add: outcome_matches_def out)
qed

lemma fail_run_tx_moves:
  assumes "fail_run_tx c i now rid code out category db = Inr (x, db')" "schema_ok db"
    and "valid_outcome out" "outcome_status out = OutcomeFailed"
  shows "ok_after c rid RunFailed db db'"
  using fail_run_tx_ends [OF assms] by (auto simp: ok_after_def)

lemma cancel_run_tx_moves:
  assumes tx: "cancel_run_tx c i now rid p out category db = Inr (x, db')" and ok: "schema_ok db"
    and out: "valid_outcome out" "outcome_status out = OutcomeCancelled"
  shows "ok_after c rid RunCancelled db db'"
proof -
  obtain q t where q: "find_run db rid = Some q" and t: "find_thread db (rn_thread_id q) = Some t"
    and tx': "(case claim_run rid (\<lambda>r. rn_status r \<in> set ACTIVE_STATUSES)
                      (ended RunCancelled now 1 (Some out)) db of
                 None \<Rightarrow> unchanged_view c rid db
               | Some (run, db1) \<Rightarrow>
                   bindE (settle_usage c run now AttemptCancelled category db1) (\<lambda>(run', usage, db2).
                   bindE (make_event c run' i ''run.cancelled''
                            (py_dict [(''status'', PStr (lit ''cancelled'')), (''usage'', usage)])
                            (rn_last_seq run') now) (\<lambda>e.
                   bindE (insert_event e db2) (\<lambda>db3.
                   Inr (run', put_thread (t\<lparr>th_updated_at := now\<rparr>) db3))))) = Inr (x, db')"
    using tx unfolding cancel_run_tx_def by (auto split: option.splits)
  show ?thesis
  proof (cases "claim_run rid (\<lambda>r. rn_status r \<in> set ACTIVE_STATUSES) (ended RunCancelled now 1 (Some out)) db")
    case None
    with tx' unchanged_view_same show ?thesis by (auto simp: ok_after_def)
  next
    case (Some p)
    then have r: "is_active q"
      and p: "p = (ended RunCancelled now 1 (Some out) q, put_run (ended RunCancelled now 1 (Some out) q) db)"
      using q by (cases p; auto simp: claim_run_Some active_in_list)+
    obtain run' usage db2 e db3 where steps:
      "settle_usage c (ended RunCancelled now 1 (Some out) q) now AttemptCancelled category
          (put_run (ended RunCancelled now 1 (Some out) q) db) = Inr (run', usage, db2)"
      "make_event c run' i ''run.cancelled''
         (py_dict [(''status'', PStr (lit ''cancelled'')), (''usage'', usage)])
         (rn_last_seq run') now = Inr e"
      "insert_event e db2 = Inr db3" "db' = put_thread (t\<lparr>th_updated_at := now\<rparr>) db3"
      using tx' unfolding Some p by auto
    have id: "rn_id q = rid" using find_run_Some q by blast
    note claim = ended_claim [OF ok q [folded id], of RunCancelled now 1 "Some out"]
    have ft: "find_thread db2 (rn_thread_id q) = Some t"
      using settle_usage_facts(2) [OF steps(1) claim(1,2)] t by (simp add: find_thread_def)
    show ?thesis
      unfolding steps(4) ok_after_def
      by (rule disjI2, rule close_single_after [OF ok q r _ _ _ steps(1,2,3) ft])
        (simp_all add: outcome_matches_def out)
  qed
qed

lemma orphaned_run_outcome_ok:
  "orphaned_run_outcome ids = Inr out \<Longrightarrow> outcome_status out = OutcomeFailed"
  by (auto simp: orphaned_run_outcome_def make_outcome_def split: if_splits)

lemma orphan_outcome_ok:
  assumes "orphan_outcome c r db = Inr out" "rn_execution_plan r \<noteq> None"
  shows "outcome_matches RunFailed out"
  using assms orphaned_run_outcome_ok
  by (fastforce simp: orphan_outcome_def outcome_matches_def validate_execution_outcome_def
      split: option.splits if_splits)

lemma close_orphan_moves:
  assumes tx: "close_orphan c new_id now q db = Inr (x, db')" and ok: "schema_ok db"
    and q: "\<And>r. find_run db (rn_id q) = Some r \<Longrightarrow> is_active r \<Longrightarrow> rn_execution_plan r = rn_execution_plan q"
  shows "db' = db \<and> (\<forall>r. find_run db (rn_id q) = Some r \<longrightarrow> \<not> is_active r)
    \<or> moved_to c (rn_id q) RunFailed db db'"
proof -
  obtain out where out: "orphan_outcome c q db = Inr out"
    using tx unfolding close_orphan_def by auto
  show ?thesis
  proof (cases "claim_run (rn_id q) (\<lambda>r. rn_status r \<in> set ACTIVE_STATUSES) (ended RunFailed now 1 out) db")
    case None
    then have "find_run db (rn_id q) = Some r \<Longrightarrow> \<not> is_active r" for r
      by (auto simp: claim_run_def active_in_list split: if_splits)
    with None tx out show ?thesis by (auto simp: close_orphan_def)
  next
    case (Some p)
    then obtain r where r: "find_run db (rn_id q) = Some r" "is_active r"
      and p: "p = (ended RunFailed now 1 out r, put_run (ended RunFailed now 1 out r) db)"
      by (cases p) (auto simp: claim_run_Some active_in_list)
    obtain run' usage db2 t e db3 where steps:
      "settle_usage c (ended RunFailed now 1 out r) now Interrupted (Some ServiceError)
          (put_run (ended RunFailed now 1 out r) db) = Inr (run', usage, db2)"
      "require_internal_run_consistency db2 run' True = Inr t"
      "make_event c run' (new_id (rn_id run')) ''run.failed''
         (py_dict [(''status'', PStr (lit ''failed'')),
                   (''error_code'', PStr (lit ''service_restarted'')), (''usage'', usage)])
         (rn_last_seq run') now = Inr e"
      "insert_event e db2 = Inr db3" "db' = put_thread (t\<lparr>th_updated_at := now\<rparr>) db3"
      using tx unfolding close_orphan_def out bindE_simps Some p by auto
    show ?thesis
      unfolding steps(5)
      by (rule disjI2, rule close_single_after [OF ok r _ _ _ steps(1,3,4) internal_thread [OF steps(2)]])
        (use orphan_outcome_ok [OF out] q [OF r] in auto)
  qed
qed

lemma upto_two: "[n + 1..n + 2] = [n + 1, n + 2 :: int]"
  by (simp add: upto_rec1)

lemma complete_run_tx_moves:
  assumes tx: "complete_run_tx c mi i1 i2 now rid content out category db = Inr (x, db')"
    and ok: "schema_ok db" and out: "valid_outcome out" "outcome_status out = OutcomeCompleted"
  shows "ok_after c rid RunCompleted db db'"
proof (cases "claim_run rid (\<lambda>r. rn_status r = RunRunning) (ended RunCompleted now 2 (Some out)) db")
  case None
  with tx unchanged_view_same show ?thesis by (auto simp: complete_run_tx_def ok_after_def)
next
  case (Some p)
  then obtain r where r: "find_run db rid = Some r" "rn_status r = RunRunning"
    and p: "p = (ended RunCompleted now 2 (Some out) r, put_run (ended RunCompleted now 2 (Some out) r) db)"
    by (cases p) (auto simp: claim_run_Some)
  define m where "m run = \<lparr>ms_id = mi, ms_thread_id = rn_thread_id run, ms_run_id = Some (rn_id run),
      ms_role = AssistantRole, ms_content = content, ms_created_at = now\<rparr>" for run :: run_row
  obtain run' usage db2 t e1 e2 db3 db4 db5 where steps:
    "settle_usage c (ended RunCompleted now 2 (Some out) r) now Interrupted category
        (put_run (ended RunCompleted now 2 (Some out) r) db) = Inr (run', usage, db2)"
    "require_internal_run_consistency db2 run' False = Inr t"
    "make_event c run' i1 ''message.completed''
       (py_dict [(''message'', dump_message c (message_view (m run')))]) (rn_last_seq run' - 1) now = Inr e1"
    "make_event c run' i2 ''run.completed''
       (py_dict [(''status'', PStr (lit ''completed'')), (''usage'', usage)]) (rn_last_seq run') now = Inr e2"
    "insert_message (m run') db2 = Inr db3" "insert_event e1 db3 = Inr db4" "insert_event e2 db4 = Inr db5"
    "db' = put_thread (t\<lparr>th_updated_at := now\<rparr>) db5"
    using tx unfolding complete_run_tx_def Some p m_def by (auto simp: Let_def)
  have id: "rn_id r = rid" using find_run_Some r(1) by blast
  have act: "is_active r" using r(2) by (simp add: is_active_iff)
  have st: "status_outcome RunCompleted \<noteq> None" and ast: "Interrupted \<noteq> Started" by simp_all
  note claim = ended_claim [OF ok r(1) [folded id] st, of now 2 "Some out"]
  note S = settle_usage_facts [OF steps(1) claim(1,2) ast]
  note ins = insert_message_ok [OF steps(5)] insert_event_ok [OF steps(6)] insert_event_ok [OF steps(7)]
  have ok5: "schema_ok db5" using ins(2,4,6) S(1) by blast
  have t5: "find_thread db5 (rn_thread_id run') = Some t"
    using internal_thread [OF steps(2)] by (simp add: ins(1,3,5) find_thread_def)
  have keys: "thread_keys db' = thread_keys db2"
    using thread_keys_touch(1) [OF ok5 t5] by (simp add: steps(8) ins(1,3,5) thread_keys_def)
  have ok': "schema_ok db'" unfolding steps(8) using ok5 by (rule put_thread_ok)
  have msg: "\<exists>m'. py_dict [(''message'', dump_message c (message_view (m run')))]
      = py_dict [(''message'', dump_message c m')] \<and> message_run_id m' \<noteq> None"
    by (rule exI [of _ "message_view (m run')"]) (simp add: message_view_def m_def)
  have ev1: "stored_event c e1" "ev_run_id e1 = rn_id run'" "ev_seq e1 = rn_last_seq run' - 1"
    "ev_type e1 = lit ''message.completed''"
    by (rule make_event_ok [OF steps(3)], rule msg)+
  have ev2: "stored_event c e2" "ev_run_id e2 = rn_id run'" "ev_seq e2 = rn_last_seq run'"
    "ev_type e2 = lit ''run.completed''"
    using make_event_ok [OF steps(4)] by simp_all
  have two: "int (length [e1, e2]) = 2" by simp
  have evs: "\<forall>e \<in> set [e1, e2]. ev_run_id e = rn_id r \<and> stored_event c e"
    "map ev_seq [e1, e2] = [rn_last_seq r + 1..rn_last_seq r + int (length [e1, e2])]"
    using ev1 ev2 S claim upto_two [of "rn_last_seq r"] by simp_all
  have ms: "\<forall>q \<in> set [m run']. ms_run_id q = Some (rn_id r)"
    using S claim by (simp add: m_def)
  have tail: "db_runs db' = db_runs db2" "db_attempts db' = db_attempts db2"
    "db_events db' = db_events db2 @ [e1, e2]" "db_messages db' = db_messages db2 @ [m run']"
    by (simp_all add: steps(8) ins(1,3,5))
  note eff = close_effect [OF ok r(1) [folded id] act st ast steps(1) [folded two] ok' keys tail evs ms]
  from eff(2) obtain um where run': "run' = (ended RunCompleted now 2 (Some out) r)\<lparr>rn_usage_metrics := um\<rparr>"
    by auto
  have "moves c r run' db db'"
  proof (rule moves_close [OF eff(1) _ _ st run' eff(3)])
    show "life (rn_status r) RunCompleted (closing_events RunCompleted)"
      using r(2) life_complete by simp
  qed (use ev1 ev2 out in \<open>simp_all add: outcome_matches_def m_def\<close>)
  with run' id show ?thesis
    unfolding ok_after_def moved_to_def by (intro disjI2 exI conjI) (simp_all add: ended_def)
qed

end
