(* ===== verification/Store_Machine.thy ===== *)
theory Store_Machine
  imports Run_Transitions
begin

text \<open>
  The repository as a state machine on the committed database. \<open>db_step\<close> lets any caller run any
  operation of Repository and Run_Store at any time, with any arguments; the two creating methods
  may have read any earlier state of the same history. \<open>change\<close> is the abstract view: what a
  step does is a sequence of changes of four kinds. The invariant is proved over \<open>change\<close>.
\<close>

section \<open>The invariant\<close>

definition owners_ok :: "db \<Rightarrow> bool" where
  "owners_ok db \<longleftrightarrow>
     (\<forall>r \<in> set (db_runs db). (rn_thread_id r, rn_actor_subject r) \<in> set (thread_keys db))"

definition db_inv :: "codec \<Rightarrow> db \<Rightarrow> bool" where
  "db_inv c db \<longleftrightarrow> schema_ok db \<and> owners_ok db \<and> lifecycle_ok c db"

lemma empty_db_inv: "db_inv c empty_db"
  by (simp add: db_inv_def owners_ok_def lifecycle_ok_def) (simp add: empty_db_def)

section \<open>Kinds of change\<close>

inductive change :: "codec \<Rightarrow> db \<Rightarrow> db \<Rightarrow> bool" for c where
  change_threads:
    "schema_ok db' \<Longrightarrow> set (thread_keys db) \<subseteq> set (thread_keys db') \<Longrightarrow> db_runs db' = db_runs db \<Longrightarrow>
     db_attempts db' = db_attempts db \<Longrightarrow> db_messages db' = db_messages db \<Longrightarrow>
     db_events db' = db_events db \<Longrightarrow> change c db db'"
| change_create:
    "schema_ok db' \<Longrightarrow> thread_keys db' = thread_keys db \<Longrightarrow> rn_id r \<notin> rn_id ` set (db_runs db) \<Longrightarrow>
     (rn_thread_id r, rn_actor_subject r) \<in> set (thread_keys db) \<Longrightarrow>
     r = new_run_row i now p tid key plan \<Longrightarrow> valid_plan plan \<Longrightarrow> m = user_message_row mi r content \<Longrightarrow>
     db_runs db' = db_runs db @ [r] \<Longrightarrow> db_messages db' = db_messages db @ [m] \<Longrightarrow>
     db_attempts db' = db_attempts db \<Longrightarrow> db_events db' = db_events db \<Longrightarrow> change c db db'"
| change_attempts:
    "schema_ok db' \<Longrightarrow> db' = db\<lparr>db_attempts := atts\<rparr> \<Longrightarrow> find_run db rid = Some r \<Longrightarrow> is_active r \<Longrightarrow>
     (\<And>q. q \<noteq> rid \<Longrightarrow> attempts_of db' q = attempts_of db q) \<Longrightarrow>
     (rn_metering_version r = None \<Longrightarrow> attempts_of db rid = [] \<Longrightarrow> attempts_of db' rid = []) \<Longrightarrow>
     change c db db'"
| change_run: "moves c r r' db db' \<Longrightarrow> change c db db'"

lemma children_empty:
  assumes "schema_ok db" "i \<notin> rn_id ` set (db_runs db)"
  shows "events_of db i = []" "attempts_of db i = []" "messages_of db i = []"
proof -
  have no_ref: "(i, t) \<notin> run_refs db" for t using assms(2) by (auto simp: run_refs_def)
  have "(ev_run_id e, ev_thread_id e) \<in> run_refs db" if "e \<in> set (db_events db)" for e
    using assms(1) that by (auto simp: schema_ok_def references_hold_def)
  then show "events_of db i = []" using no_ref by (fastforce simp: events_of_def filter_empty_conv)
  have "(ma_run_id a, ma_thread_id a) \<in> run_refs db" if "a \<in> set (db_attempts db)" for a
    using assms(1) that by (auto simp: schema_ok_def references_hold_def)
  then show "attempts_of db i = []" using no_ref by (fastforce simp: attempts_of_def filter_empty_conv)
  have "ms_run_id m = Some j \<Longrightarrow> (j, ms_thread_id m) \<in> run_refs db" if "m \<in> set (db_messages db)" for m j
    using assms(1) that by (auto simp: schema_ok_def references_hold_def)
  then show "messages_of db i = []" using no_ref by (fastforce simp: messages_of_def filter_empty_conv)
qed

text \<open>What a change may do to one Run that is there before it.\<close>

lemma change_keeps:
  assumes "change c db db'" "r \<in> set (db_runs db)" "schema_ok db"
  shows "set (thread_keys db) \<subseteq> set (thread_keys db')"
    and "schema_ok db'"
    and "\<exists>r'. r' \<in> set (db_runs db') \<and> same_run r r' \<and>
      (\<exists>evs. events_of db' (rn_id r) = events_of db (rn_id r) @ evs)"
    and "\<not> is_active r \<Longrightarrow> r \<in> set (db_runs db')
      \<and> events_of db' (rn_id r) = events_of db (rn_id r)
      \<and> attempts_of db' (rn_id r) = attempts_of db (rn_id r)
      \<and> messages_of db' (rn_id r) = messages_of db (rn_id r)"
proof -
  have main: "set (thread_keys db) \<subseteq> set (thread_keys db') \<and> schema_ok db'
    \<and> (\<exists>r'. r' \<in> set (db_runs db') \<and> same_run r r' \<and>
      (\<exists>evs. events_of db' (rn_id r) = events_of db (rn_id r) @ evs))
    \<and> (\<not> is_active r \<longrightarrow> r \<in> set (db_runs db')
      \<and> events_of db' (rn_id r) = events_of db (rn_id r)
      \<and> attempts_of db' (rn_id r) = attempts_of db (rn_id r)
      \<and> messages_of db' (rn_id r) = messages_of db (rn_id r))"
    using assms(1)
  proof cases
    case change_threads
    then have "events_of db' (rn_id r) = events_of db (rn_id r)"
      "attempts_of db' (rn_id r) = attempts_of db (rn_id r)"
      "messages_of db' (rn_id r) = messages_of db (rn_id r)"
      by (simp_all add: events_of_def attempts_of_def messages_of_def)
    with change_threads assms(2) same_run_simps(4) show ?thesis by auto
  next
    case (change_create n i now p tid key plan m mi content)
    have "rn_id n \<noteq> rn_id r" using change_create(3) assms(2) by auto
    then have "messages_of db' (rn_id r) = messages_of db (rn_id r)"
      using change_create(7,9) by (simp add: messages_of_def user_message_row_def)
    with change_create assms(2) same_run_simps(4) show ?thesis
      by (auto simp: events_of_def attempts_of_def)
  next
    case (change_attempts atts rid q)
    have "\<not> is_active r \<Longrightarrow> rn_id r \<noteq> rid"
      using change_attempts(3,4) find_run_intro [OF assms(3,2)] by auto
    moreover have "db_runs db' = db_runs db" "events_of db' (rn_id r) = events_of db (rn_id r)"
      "messages_of db' (rn_id r) = messages_of db (rn_id r)" "thread_keys db' = thread_keys db"
      by (simp_all add: change_attempts(2) events_of_def messages_of_def thread_keys_def)
    ultimately show ?thesis
      using change_attempts(1,5) assms(2) same_run_simps(4) [of r] by auto
  next
    case (change_run q q')
    then obtain evs ms where eff: "effect c q q' evs ms db db'" using moves_effect by blast
    note kids = effect_children [OF eff]
    have q: "find_run db (rn_id q) = Some q" "is_active q" "same_run q q'" "schema_ok db'"
      "thread_keys db' = thread_keys db"
      using eff by (simp_all add: effect_def)
    show ?thesis
    proof (cases "rn_id r = rn_id q")
      case True
      have "Some r = Some q" using find_run_intro [OF assms(3,2)] q(1) unfolding True by simp
      then have rq: "r = q" by simp
      have "\<exists>evs. events_of db' (rn_id r) = events_of db (rn_id r) @ evs"
        using kids(1) [of "rn_id r"] True by auto
      then have "\<exists>r'. r' \<in> set (db_runs db') \<and> same_run r r' \<and>
          (\<exists>evs. events_of db' (rn_id r) = events_of db (rn_id r) @ evs)"
        using q(3) [folded rq] effect_rows(2) [OF eff] by (intro exI [of _ q'] conjI)
      moreover have "is_active r" using q(2) rq by simp
      ultimately show ?thesis using q(4,5) by (intro conjI) simp_all
    next
      case False
      then have "events_of db' (rn_id r) = events_of db (rn_id r)"
        "attempts_of db' (rn_id r) = attempts_of db (rn_id r)"
        "messages_of db' (rn_id r) = messages_of db (rn_id r)"
        using kids by simp_all
      with q effect_rows(3) [OF eff assms(2) False] same_run_simps(4) [of r] show ?thesis by auto
    qed
  qed
  show "set (thread_keys db) \<subseteq> set (thread_keys db')" by (rule main [THEN conjunct1])
  show "schema_ok db'" by (rule main [THEN conjunct2, THEN conjunct1])
  show "\<exists>r'. r' \<in> set (db_runs db') \<and> same_run r r' \<and>
      (\<exists>evs. events_of db' (rn_id r) = events_of db (rn_id r) @ evs)"
    by (rule main [THEN conjunct2, THEN conjunct2, THEN conjunct1])
  show "\<not> is_active r \<Longrightarrow> r \<in> set (db_runs db')
      \<and> events_of db' (rn_id r) = events_of db (rn_id r)
      \<and> attempts_of db' (rn_id r) = attempts_of db (rn_id r)
      \<and> messages_of db' (rn_id r) = messages_of db (rn_id r)"
    by (rule main [THEN conjunct2, THEN conjunct2, THEN conjunct2, rule_format])
qed

lemma change_thread_keys:
  assumes "change c db db'" shows "set (thread_keys db) \<subseteq> set (thread_keys db')"
  using assms
proof cases
  case (change_run r r')
  then show ?thesis using moves_schema by auto
qed (auto simp: thread_keys_def)

lemma change_schema: "change c db db' \<Longrightarrow> schema_ok db'"
  by (erule change.cases) (auto dest: moves_schema)

lemma new_run_ok:
  assumes "valid_plan plan" "r = new_run_row i now p tid key plan"
  shows "row_ok r" "log_ok c r []" "usage_ok r []" "ms_role m = UserRole \<Longrightarrow> roles_ok r [m]"
  using assms
  by (simp_all add: new_run_row_def row_ok_def log_ok_def usage_ok_def roles_ok_def is_active_iff
      trace_ok_def open_trace_def)

lemma change_owners:
  assumes "change c db db'" "owners_ok db" "schema_ok db"
  shows "owners_ok db'"
  using assms(1)
proof cases
  case (change_run q q')
  then obtain evs ms where eff: "effect c q q' evs ms db db'" using moves_effect by blast
  have keys: "thread_keys db' = thread_keys db" "same_run q q'" "q \<in> set (db_runs db)"
    using eff find_run_Some by (auto simp: effect_def)
  show ?thesis
    unfolding owners_ok_def
  proof
    fix s assume "s \<in> set (db_runs db')"
    then have "s = q' \<or> s \<in> set (db_runs db)" using effect_rows(1) [OF eff] by auto
    with keys assms(2) show "(rn_thread_id s, rn_actor_subject s) \<in> set (thread_keys db')"
      by (auto simp: owners_ok_def same_run_def)
  qed
qed (use assms(2) in \<open>auto simp: owners_ok_def thread_keys_def\<close>)

lemma change_lifecycle:
  assumes "change c db db'" "lifecycle_ok c db" "schema_ok db"
  shows "lifecycle_ok c db'"
  using assms(1)
proof cases
  case change_threads
  then show ?thesis
    using assms(2)
    by (simp add: lifecycle_ok_def run_ok_def events_of_def attempts_of_def messages_of_def)
next
  case (change_create n i now p tid key plan m mi content)
  note fresh = children_empty [OF assms(3) change_create(3)]
  have kids: "events_of db' q = events_of db q" "attempts_of db' q = attempts_of db q"
    "messages_of db' q = (if q = rn_id n then messages_of db q @ [m] else messages_of db q)" for q
    using change_create by (auto simp: events_of_def attempts_of_def messages_of_def user_message_row_def)
  have "run_ok c db' n"
    using new_run_ok [OF change_create(6,5)] fresh kids change_create(7)
    by (simp add: run_ok_def user_message_row_def)
  moreover have "run_ok c db' q" if "q \<in> set (db_runs db)" for q
  proof -
    have "rn_id q \<noteq> rn_id n" using change_create(3) imageI [OF that, of rn_id] by auto
    with kids assms(2) that show ?thesis by (simp add: lifecycle_ok_def run_ok_def)
  qed
  ultimately show ?thesis using change_create(8) by (auto simp: lifecycle_ok_def)
next
  case (change_attempts atts rid q)
  have same: "db_runs db' = db_runs db" "events_of db' s = events_of db s"
    "messages_of db' s = messages_of db s" for s
    using change_attempts by (simp_all add: events_of_def messages_of_def)
  have "run_ok c db' s" if s: "s \<in> set (db_runs db)" for s
  proof (cases "rn_id s = rid")
    case True
    then have "s = q" using find_run_intro [OF assms(3) s] change_attempts(3) by simp
    have "run_ok c db s" using assms(2) s by (simp add: lifecycle_ok_def)
    with \<open>s = q\<close> True change_attempts(4,6) same show ?thesis
      by (auto simp: run_ok_def usage_ok_def split: if_splits)
  next
    case False
    with same change_attempts(5) assms(2) s show ?thesis by (simp add: lifecycle_ok_def run_ok_def)
  qed
  then show ?thesis by (simp add: lifecycle_ok_def same)
next
  case (change_run q q')
  with assms(2) show ?thesis by (simp add: moves_def)
qed

lemma change_inv: "db_inv c db \<Longrightarrow> change c db db' \<Longrightarrow> db_inv c db'"
  using change_schema change_owners change_lifecycle unfolding db_inv_def by blast

lemma changes_inv: "(change c)\<^sup>*\<^sup>* db db' \<Longrightarrow> db_inv c db \<Longrightarrow> db_inv c db'"
  by (induction rule: rtranclp_induct) (auto intro: change_inv)

end
