(* ===== verification/Store_Steps.thy ===== *)
theory Store_Steps
  imports Store_Machine
begin

text \<open>
  Every operation of the repository is a sequence of changes, whatever it returns, and so the
  invariant of Store_Machine holds in every state the repository can reach, under any
  interleaving of its callers.
\<close>

section \<open>Threads\<close>

lemma create_thread_change:
  assumes "create_thread i now p title db = (res, db')" "schema_ok db"
  shows "db' = db \<or> change c db db'"
  using assms(1) unfolding create_thread_def Let_def
proof (cases rule: transact_cases)
  case (committed x)
  then obtain t where t: "insert_thread t db = Inr db'" by auto
  have "change c db db'"
    by (rule change_threads) (use insert_thread_ok [OF t] assms(2) in \<open>auto simp: thread_keys_def\<close>)
  then show ?thesis ..
qed simp

lemma rename_thread_change:
  assumes "rename_thread now tid p title db = (res, db')" "schema_ok db"
  shows "db' = db \<or> change c db db'"
  using assms(1) unfolding rename_thread_def
proof (cases rule: transact_cases)
  case (committed x)
  then obtain t where t: "find_thread db tid = Some t"
    and db': "db' = put_thread (t\<lparr>th_title := title, th_updated_at := now\<rparr>) db"
    by (auto simp: Let_def split: option.splits)
  have "thread_keys db' = thread_keys db"
    unfolding db' by (rule thread_keys_touch(2) [OF assms(2) t])
  then have "change c db db'"
    by (intro change_threads) (simp_all add: db' put_thread_ok assms(2))
  then show ?thesis ..
qed simp

section \<open>Creation\<close>

lemma insert_new_run:
  assumes run: "insert_run r db = Inr db1" and m: "insert_message m db1 = Inr db2"
    and ok: "schema_ok db" and owner: "(tid, subject p) \<in> set (thread_keys db)"
    and r: "r = new_run_row i now p tid key plan" "valid_plan plan" "m = user_message_row mi r content"
  shows "change c db db2" and "schema_ok db2"
proof -
  note i1 = insert_run_ok [OF run] note i2 = insert_message_ok [OF m]
  show ok2: "schema_ok db2" using i1(2) i2(2) ok by blast
  show "change c db db2"
  proof (rule change_create [OF ok2 _ i1(3) _ r(1,2,3)])
    show "(rn_thread_id r, rn_actor_subject r) \<in> set (thread_keys db)"
      using owner by (simp add: r(1) new_run_row_def)
  qed (simp_all add: i1(1) i2(1) thread_keys_def)
qed

lemma touch_thread_change:
  assumes "schema_ok db"
  shows "touch_thread tid now db = db \<or> change c db (touch_thread tid now db)"
proof (cases "find_thread db tid")
  case None
  then show ?thesis by (simp add: touch_thread_def)
next
  case (Some t)
  have "change c db (touch_thread tid now db)"
    by (rule change_threads)
      (simp_all add: touch_thread_def Some put_thread_ok assms thread_keys_touch(1) [OF assms Some])
  then show ?thesis ..
qed

lemma owner_in_keys:
  "find_thread db tid = Some t \<Longrightarrow> (tid, th_owner_subject t) \<in> set (thread_keys db)"
  using find_thread_Some [of db tid t] by (auto simp: thread_keys_def)

lemma create_run_tx_changes:
  assumes tx: "create_run_tx c snap r m p tid key db = Inr (x, db')"
    and ok: "schema_ok db" and snap: "set (thread_keys snap) \<subseteq> set (thread_keys db)"
    and r: "r = new_run_row i now p tid key plan" "valid_plan plan" "m = user_message_row mi r content"
  shows "(change c)\<^sup>*\<^sup>* db db'"
proof -
  obtain t where t: "find_thread snap tid = Some t" and own: "subject p = th_owner_subject t"
    using tx by (auto simp: create_run_tx_def require_thread_owner_def split: option.splits)
  have "(tid, subject p) \<in> set (thread_keys db)"
    using owner_in_keys [OF t] snap own by auto
  note new = insert_new_run [OF _ _ ok this r]
  have "db' = db \<or> (\<exists>db1 db2. insert_run r db = Inr db1 \<and> insert_message m db1 = Inr db2
      \<and> db' = touch_thread tid (rn_created_at r) db2)"
    using tx t by (auto simp: create_run_tx_def split: option.splits if_splits)
  then show ?thesis
  proof
    assume "\<exists>db1 db2. insert_run r db = Inr db1 \<and> insert_message m db1 = Inr db2
      \<and> db' = touch_thread tid (rn_created_at r) db2"
    then obtain db1 db2 where ins: "insert_run r db = Inr db1" "insert_message m db1 = Inr db2"
      and db': "db' = touch_thread tid (rn_created_at r) db2" by blast
    have "change c db db2" "schema_ok db2" by (rule new [OF ins])+
    with touch_thread_change show ?thesis
      unfolding db' by (metis converse_rtranclp_into_rtranclp r_into_rtranclp)
  qed simp
qed

lemma create_run_changes:
  assumes op: "create_run c i mi now p tid content key plan snap db = (res, db')"
    and ok: "schema_ok db" and snap: "set (thread_keys snap) \<subseteq> set (thread_keys db)"
  shows "(change c)\<^sup>*\<^sup>* db db'"
proof (cases "validate_execution_plan plan")
  case (Inl e)
  with op show ?thesis by (simp add: create_run_def)
next
  case (Inr plan')
  then have plan: "plan' = plan" "valid_plan plan"
    by (auto simp: validate_execution_plan_def split: if_splits)
  define r where "r = new_run_row i now p tid key plan"
  define m where "m = user_message_row mi r content"
  note tx = create_run_tx_changes [OF _ ok snap r_def plan(2) m_def]
  have "(case create_run_tx c snap r m p tid key db of
      Inr (Some v, db') \<Rightarrow> (Inr (v, False), db')
    | Inr (None, db') \<Rightarrow> (bindE (run_view_of c r) (\<lambda>v. Inr (v, True)), db')
    | Inl e \<Rightarrow> if e \<noteq> IntegrityError then (Inl e, db)
               else (create_run_recover c p tid key db, db)) = (res, db')"
    using op by (simp only: create_run_def Inr sum.case Let_def r_def m_def plan(1))
  then have "db' = db \<or> (\<exists>x. create_run_tx c snap r m p tid key db = Inr (x, db'))"
    by (auto split: sum.splits prod.splits option.splits if_splits)
  with tx show ?thesis by auto
qed

lemma create_initial_tx_changes:
  assumes tx: "create_initial_tx c snap t r m p content key db = Inr (x, db')"
    and ok: "schema_ok db" and t: "th_id t = tid" "th_owner_subject t = subject p"
    and r: "r = new_run_row i now p tid key plan" "valid_plan plan" "m = user_message_row mi r content'"
  shows "(change c)\<^sup>*\<^sup>* db db'"
proof (cases "find_thread snap (th_id t)")
  case (Some existing)
  with tx show ?thesis by (auto simp: create_initial_tx_def)
next
  case None
  then obtain db1 db2 where ins: "insert_thread t db = Inr db1" "insert_run r db1 = Inr db2"
      "insert_message m db2 = Inr db'"
    using tx by (auto simp: create_initial_tx_def)
  note i1 = insert_thread_ok [OF ins(1)]
  have ok1: "schema_ok db1" using i1(2) ok .
  have "change c db db1"
    by (rule change_threads [OF ok1]) (auto simp: i1(1) thread_keys_def)
  moreover have "(tid, subject p) \<in> set (thread_keys db1)"
    using t by (simp add: i1(1) thread_keys_def)
  then have "change c db1 db'" by (rule insert_new_run(1) [OF ins(2,3) ok1 _ r])
  ultimately show ?thesis by (meson converse_rtranclp_into_rtranclp r_into_rtranclp)
qed

lemma create_initial_run_changes:
  assumes op: "create_initial_run c cc i mi now p tid content key plan snap db = (res, db')"
    and ok: "schema_ok db"
  shows "(change c)\<^sup>*\<^sup>* db db'"
proof (cases "validate_execution_plan plan")
  case (Inl e)
  with op show ?thesis by (simp add: create_initial_run_def)
next
  case (Inr plan')
  then have plan: "plan' = plan" "valid_plan plan"
    by (auto simp: validate_execution_plan_def split: if_splits)
  define r where "r = new_run_row i now p tid key plan"
  define m where "m = user_message_row mi r content"
  define t where "t = \<lparr>th_id = tid, th_owner_subject = subject p,
      th_title = initial_thread_title cc content, th_created_at = now, th_updated_at = now\<rparr>"
  have t: "th_id t = tid" "th_owner_subject t = subject p" by (simp_all add: t_def)
  note tx = create_initial_tx_changes [OF _ ok t r_def plan(2) m_def]
  have "(case create_initial_tx c snap t r m p content key db of
      Inr (Some v, db') \<Rightarrow> (Inr v, db')
    | Inr (None, db') \<Rightarrow> (bindE (run_view_of c r) (\<lambda>v. Inr (thread_summary_of t, v, True)), db')
    | Inl e \<Rightarrow> if e \<noteq> IntegrityError then (Inl e, db)
               else (case find_thread db tid of
                       None \<Rightarrow> (Inl IntegrityError, db)
                     | Some existing \<Rightarrow> (initial_replay_view c db existing p content key, db)))
    = (res, db')"
    using op by (simp only: create_initial_run_def Inr sum.case Let_def r_def m_def t_def plan(1))
  then have "db' = db \<or> (\<exists>x. create_initial_tx c snap t r m p content key db = Inr (x, db'))"
    by (auto split: sum.splits prod.splits option.splits if_splits)
  with tx show ?thesis by auto
qed

section \<open>Attempts\<close>

lemma filter_map_other:
  "(\<And>x. x \<in> set xs \<Longrightarrow> P (g x) = P x \<and> (P x \<longrightarrow> g x = x)) \<Longrightarrow> filter P (map g xs) = filter P xs"
  by (induction xs) auto

lemma start_model_attempt_change:
  assumes "start_model_attempt now rid s db = (res, db')" "schema_ok db"
  shows "db' = db \<or> change c db db'"
  using assms(1) unfolding start_model_attempt_def
proof (cases rule: transact_cases)
  case (committed x)
  then obtain r where r: "find_run db rid = Some r" by (auto split: option.splits)
  have "db' = db \<or> rn_status r = RunRunning \<and> rn_metering_version r \<noteq> None
      \<and> (\<exists>a. ma_run_id a = rid \<and> insert_attempt a db = Inr db')"
  proof (cases "find_started db rid s")
    case None
    with committed(1) show ?thesis
      by (simp add: r split: if_splits) (metis attempt_row.select_convs(2))
  next
    case (Some a)
    with committed(1) show ?thesis by (simp add: r split: if_splits)
  qed
  then show ?thesis
  proof (elim disjE conjE exE)
    fix a assume run: "rn_status r = RunRunning" "rn_metering_version r \<noteq> None"
      and a: "ma_run_id a = rid" "insert_attempt a db = Inr db'"
    note ins = insert_attempt_ok [OF a(2)]
    have "change c db db'"
      by (rule change_attempts [OF ins(2) [OF assms(2)] ins(1) r])
        (use run a(1) in \<open>simp_all add: is_active_iff ins(1) attempts_of_def\<close>)
    then show ?thesis ..
  qed simp
qed simp

lemma update_one_attempt_change:
  assumes up: "update_attempts (\<lambda>b. ma_id b = ma_id a) f db = Inr db'" and keeps: "keeps_attempt f"
    and a: "find_attempt_row db i = Some a" "ma_run_id a = rid"
    and r: "find_run db rid = Some r" "is_active r" and ok: "schema_ok db"
  shows "change c db db'"
proof -
  note up' = update_attempts_ok [OF up keeps]
  have inA: "a \<in> set (db_attempts db)" using find_attempt_row_Some [OF a(1)] by simp
  have inj: "b = a" if "b \<in> set (db_attempts db)" "ma_id b = ma_id a" for b
    using ok inA that by (auto simp: schema_ok_def keys_distinct_def distinct_map dest: inj_onD)
  have others: "attempts_of db' q = attempts_of db q" if "q \<noteq> rid" for q
  proof -
    have "filter (\<lambda>b. ma_run_id b = q) (map (\<lambda>b. if ma_id b = ma_id a then f b else b) (db_attempts db))
      = filter (\<lambda>b. ma_run_id b = q) (db_attempts db)"
    proof (rule filter_map_other)
      fix b assume "b \<in> set (db_attempts db)"
      then have "ma_id b = ma_id a \<Longrightarrow> ma_run_id b \<noteq> q" using inj a(2) that by auto
      then show "(ma_run_id (if ma_id b = ma_id a then f b else b) = q) = (ma_run_id b = q)
          \<and> (ma_run_id b = q \<longrightarrow> (if ma_id b = ma_id a then f b else b) = b)"
        using keeps by (simp add: keeps_attempt_def)
    qed
    then show ?thesis by (simp add: attempts_of_def up'(1))
  qed
  have "attempts_of db rid \<noteq> []"
    using inA a(2) by (auto simp: attempts_of_def filter_empty_conv)
  with others show ?thesis
    by (intro change_attempts [OF up'(2) [OF ok] up'(1) r]) auto
qed

lemma finish_model_attempt_change:
  assumes "finish_model_attempt now rid fin db = (res, db')" "schema_ok db"
  shows "db' = db \<or> change c db db'"
  using assms(1) unfolding finish_model_attempt_def Let_def
proof (cases rule: transact_cases)
  case (committed x)
  then obtain r a where r: "find_run db rid = Some r"
    and a: "owned_attempt db rid (finish_attempt_id fin) ''model_attempt_finish_unknown'' = Inr a"
    by (auto split: option.splits)
  define tv where "tv = (case finish_usage fin of None \<Rightarrow> no_tokens | Some u \<Rightarrow> u)"
  define f where "f = (\<lambda>b :: attempt_row. b\<lparr>ma_status := finish_status fin, ma_completed_at := Some now,
      ma_tokens := tv\<rparr>)"
  have "db' = db \<or> is_active r \<and> update_attempts (\<lambda>b. ma_id b = ma_id a) f db = Inr db'"
    using committed(1) a unfolding f_def tv_def
    by (simp add: r active_in_list split: if_splits)
  moreover have "find_attempt_row db (finish_attempt_id fin) = Some a" "ma_run_id a = rid"
    using a by (auto simp: owned_attempt_def split: option.splits if_splits)
  ultimately show ?thesis
    using update_one_attempt_change [of a f db db' _ rid r c] r assms(2)
    by (auto simp: keeps_attempt_def f_def)
qed simp

lemma record_model_attempt_usage_change:
  assumes "record_model_attempt_usage rid obs db = (res, db')" "schema_ok db"
  shows "db' = db \<or> change c db db'"
  using assms(1) unfolding record_model_attempt_usage_def Let_def
proof (cases rule: transact_cases)
  case (committed x)
  then obtain r a where r: "find_run db rid = Some r"
    and a: "owned_attempt db rid (usage_attempt_id obs) ''model_attempt_usage_unknown'' = Inr a"
    by (auto split: option.splits)
  define f where "f = (\<lambda>b :: attempt_row. b\<lparr>ma_tokens := observed_usage obs\<rparr>)"
  have "db' = db \<or> is_active r \<and> update_attempts (\<lambda>b. ma_id b = ma_id a) f db = Inr db'"
    using committed(1) a unfolding f_def
    by (simp add: r active_in_list split: if_splits)
  moreover have "find_attempt_row db (usage_attempt_id obs) = Some a" "ma_run_id a = rid"
    using a by (auto simp: owned_attempt_def split: option.splits if_splits)
  ultimately show ?thesis
    using update_one_attempt_change [of a f db db' _ rid r c] r assms(2)
    by (auto simp: keeps_attempt_def f_def)
qed simp

section \<open>Ending a Run\<close>

lemma validated_terminal_outcome_ok:
  "validated_terminal_outcome out st code = Inr v \<Longrightarrow>
     v = out \<and> valid_outcome out \<and> outcome_status out = st
     \<and> (st = OutcomeFailed \<longrightarrow> failure_code out = code)"
  by (auto simp: validated_terminal_outcome_def validate_execution_outcome_def split: if_splits)

lemma terminal_method:
  assumes "and_then (transact tx db) (\<lambda>x s. (g x, s)) = (res, db')"
  shows "db' = db \<or> (\<exists>x. tx = Inr (x, db'))"
proof -
  have "snd (transact tx db) = db'" by (rule and_then_state [OF assms]) simp
  then show ?thesis by (cases tx) auto
qed

lemma ok_after_changes: "ok_after c rid st db db' \<Longrightarrow> db' = db \<or> change c db db'"
  unfolding ok_after_def moved_to_def using change_run by blast

lemma complete_run_after:
  assumes "complete_run c mi i1 i2 now rid content out category db = (res, db')" "schema_ok db"
  shows "ok_after c rid RunCompleted db db'"
proof (cases "validated_terminal_outcome out OutcomeCompleted None")
  case (Inl e)
  with assms(1) show ?thesis by (simp add: complete_run_def ok_after_def)
next
  case (Inr v)
  with assms(1) have "and_then (transact (complete_run_tx c mi i1 i2 now rid content v category db) db)
      (\<lambda>run db'. (run_view_of c run, db')) = (res, db')"
    by (simp add: complete_run_def)
  from terminal_method [OF this] show ?thesis
    using complete_run_tx_moves [OF _ assms(2)] validated_terminal_outcome_ok [OF Inr]
    unfolding ok_after_def by blast
qed

lemma fail_run_after:
  assumes "fail_run c i now rid code out category db = (res, db')" "schema_ok db"
  shows "ok_after c rid RunFailed db db'"
proof (cases "validated_terminal_outcome out OutcomeFailed (Some code)")
  case (Inl e)
  with assms(1) show ?thesis by (simp add: fail_run_def ok_after_def)
next
  case (Inr v)
  with assms(1) have "and_then (transact (fail_run_tx c i now rid code v category db) db)
      (\<lambda>run db'. (run_view_of c run, db')) = (res, db')"
    by (simp add: fail_run_def)
  from terminal_method [OF this] show ?thesis
    using fail_run_tx_moves [OF _ assms(2)] validated_terminal_outcome_ok [OF Inr]
    unfolding ok_after_def by blast
qed

lemma cancel_run_after:
  assumes "cancel_run c i now rid p out category db = (res, db')" "schema_ok db"
  shows "ok_after c rid RunCancelled db db'"
proof (cases "validated_terminal_outcome out OutcomeCancelled None")
  case (Inl e)
  with assms(1) show ?thesis by (simp add: cancel_run_def ok_after_def)
next
  case (Inr v)
  with assms(1) have "and_then (transact (cancel_run_tx c i now rid p v category db) db)
      (\<lambda>run db'. (run_view_of c run, db')) = (res, db')"
    by (simp add: cancel_run_def)
  from terminal_method [OF this] show ?thesis
    using cancel_run_tx_moves [OF _ assms(2)] validated_terminal_outcome_ok [OF Inr]
    unfolding ok_after_def by blast
qed

section \<open>The recovery sweep\<close>

lemma find_run_map:
  "find_run db' i = List.find (\<lambda>r. rn_id r = i) (db_runs db')"
  by (simp add: find_run_def)

lemma moves_find:
  assumes "moves c r r' db db'" "schema_ok db"
  shows "find_run db' i = (if i = rn_id r then Some r' else find_run db i)"
proof -
  obtain evs ms where eff: "effect c r r' evs ms db db'" using moves_effect assms(1) by blast
  then have e: "schema_ok db'" "rn_id r' = rn_id r" "find_run db (rn_id r) = Some r"
    "db_runs db' = db_runs (put_run r' db)"
    by (simp_all add: effect_def same_run_def)
  show ?thesis
  proof (cases "i = rn_id r")
    case True
    then show ?thesis using find_run_intro [OF e(1) effect_rows(2) [OF eff]] e(2) by simp
  next
    case False
    have "List.find (\<lambda>q. rn_id q = i) (map (\<lambda>q. if rn_id q = rn_id r' then r' else q) xs)
        = List.find (\<lambda>q. rn_id q = i) xs" for xs
      using False e(2) by (induction xs) auto
    with False show ?thesis by (simp add: find_run_def e(4) put_run_def)
  qed
qed

definition sweep_plans :: "db \<Rightarrow> run_row list \<Rightarrow> bool" where
  "sweep_plans db rs \<longleftrightarrow>
     (\<forall>q \<in> set rs. \<forall>r. find_run db (rn_id q) = Some r \<and> is_active r
        \<longrightarrow> rn_execution_plan r = rn_execution_plan q)"

lemma moved_to_facts:
  assumes "moved_to c rid st db db'" "schema_ok db" "status_outcome st \<noteq> None"
  shows "schema_ok db'" and "change c db db'"
    and "sweep_plans db rs \<Longrightarrow> sweep_plans db' rs"
    and "find_run db' rid = Some r' \<Longrightarrow> rn_status r' = st"
    and "i \<noteq> rid \<Longrightarrow> find_run db' i = find_run db i"
proof -
  obtain r r' where m: "rn_id r = rid" "rn_status r' = st" "moves c r r' db db'"
    using assms(1) by (auto simp: moved_to_def)
  show "schema_ok db'" using moves_schema [OF m(3)] by simp
  show "change c db db'" using change_run [OF m(3)] .
  note find = moves_find [OF m(3) assms(2)]
  show "find_run db' rid = Some q \<Longrightarrow> rn_status q = st" for q using find m(1,2) by simp
  show "i \<noteq> rid \<Longrightarrow> find_run db' i = find_run db i" for i using find m(1) by simp
  have "\<not> is_active r'" using m(2) assms(3) by (cases st) (simp_all add: is_active_iff)
  then show "sweep_plans db rs \<Longrightarrow> sweep_plans db' rs"
    using find by (auto simp: sweep_plans_def split: if_splits)
qed

lemma moved_to_found:
  assumes "moved_to c rid st db db'" "schema_ok db" shows "\<exists>r'. find_run db' rid = Some r'"
proof -
  obtain r r' where "rn_id r = rid" "moves c r r' db db'"
    using assms(1) by (auto simp: moved_to_def)
  then show ?thesis using moves_find [OF _ assms(2), of c r r' db' rid] by simp
qed

lemma close_orphans_ok:
  assumes "close_orphans c new_id now rs db = Inr (runs, db')" "schema_ok db" "sweep_plans db rs"
  shows "(change c)\<^sup>*\<^sup>* db db' \<and> schema_ok db'
    \<and> (\<forall>q \<in> set rs. \<forall>r. find_run db' (rn_id q) = Some r \<longrightarrow> \<not> is_active r)
    \<and> (\<forall>i. i \<notin> rn_id ` set rs \<longrightarrow> find_run db' i = find_run db i)
    \<and> (\<forall>i r. find_run db i = Some r \<and> \<not> is_active r \<longrightarrow> find_run db' i = Some r)
    \<and> (\<forall>i r r'. find_run db i = Some r \<and> is_active r \<and> find_run db' i = Some r'
         \<longrightarrow> is_active r' \<or> rn_status r' = RunFailed)"
  using assms
proof (induction rs arbitrary: runs db)
  case (Cons q rs)
  obtain closed db1 runs1 where one: "close_orphan c new_id now q db = Inr (closed, db1)"
    and rest: "close_orphans c new_id now rs db1 = Inr (runs1, db')"
    using Cons.prems(1) by auto
  have plans: "rn_execution_plan r = rn_execution_plan q"
    if "find_run db (rn_id q) = Some r" "is_active r" for r
    using Cons.prems(3) that by (auto simp: sweep_plans_def)
  have plans_rs: "sweep_plans db rs" using Cons.prems(3) by (simp add: sweep_plans_def)
  have first: "(db1 = db \<or> change c db db1) \<and> schema_ok db1 \<and> sweep_plans db1 rs
    \<and> (\<forall>r. find_run db1 (rn_id q) = Some r \<longrightarrow> \<not> is_active r)
    \<and> (\<forall>i. i \<noteq> rn_id q \<longrightarrow> find_run db1 i = find_run db i)
    \<and> (\<forall>i r. find_run db i = Some r \<and> \<not> is_active r \<longrightarrow> find_run db1 i = Some r)
    \<and> (\<forall>r. find_run db (rn_id q) = Some r \<and> is_active r \<longrightarrow>
         (\<exists>r'. find_run db1 (rn_id q) = Some r' \<and> rn_status r' = RunFailed))"
    using close_orphan_moves [OF one Cons.prems(2) plans]
  proof
    assume "db1 = db \<and> (\<forall>r. find_run db (rn_id q) = Some r \<longrightarrow> \<not> is_active r)"
    with Cons.prems(2) plans_rs show ?thesis by blast
  next
    assume m: "moved_to c (rn_id q) RunFailed db db1"
    note F = moved_to_facts [OF m Cons.prems(2)]
    have was: "is_active r" if "find_run db (rn_id q) = Some r" for r
    proof -
      obtain u u' evs ms where "rn_id u = rn_id q" "effect c u u' evs ms db db1"
        using m moves_effect unfolding moved_to_def by blast
      with that show ?thesis by (simp add: effect_def)
    qed
    have st: "status_outcome RunFailed \<noteq> None" by simp
    show ?thesis
    proof (intro conjI allI impI)
      show "db1 = db \<or> change c db db1" using F(2) [OF st] ..
      show "schema_ok db1" using F(1) [OF st] .
      show "sweep_plans db1 rs" using F(3) [OF st plans_rs] .
      show "\<not> is_active r" if "find_run db1 (rn_id q) = Some r" for r
        using F(4) [OF st that] by (simp add: is_active_iff)
      show "find_run db1 i = find_run db i" if "i \<noteq> rn_id q" for i
        using F(5) [OF st that] .
      show "find_run db1 i = Some r" if "find_run db i = Some r \<and> \<not> is_active r" for i r
        using F(5) [OF st, of i] was that by (cases "i = rn_id q") auto
      show "\<exists>r'. find_run db1 (rn_id q) = Some r' \<and> rn_status r' = RunFailed"
        using F(4) [OF st] moved_to_found [OF m Cons.prems(2)] by blast
    qed
  qed
  then have IH: "(change c)\<^sup>*\<^sup>* db1 db' \<and> schema_ok db'
    \<and> (\<forall>q \<in> set rs. \<forall>r. find_run db' (rn_id q) = Some r \<longrightarrow> \<not> is_active r)
    \<and> (\<forall>i. i \<notin> rn_id ` set rs \<longrightarrow> find_run db' i = find_run db1 i)
    \<and> (\<forall>i r. find_run db1 i = Some r \<and> \<not> is_active r \<longrightarrow> find_run db' i = Some r)
    \<and> (\<forall>i r r'. find_run db1 i = Some r \<and> is_active r \<and> find_run db' i = Some r'
         \<longrightarrow> is_active r' \<or> rn_status r' = RunFailed)"
    using Cons.IH [OF rest] by blast
  have path: "(change c)\<^sup>*\<^sup>* db db'"
    using first IH by (meson converse_rtranclp_into_rtranclp)
  have head: "\<not> is_active r" if "find_run db' (rn_id q) = Some r" for r
  proof (cases "rn_id q \<in> rn_id ` set rs")
    case True
    with IH that show ?thesis by (metis imageE)
  next
    case False
    with IH that first show ?thesis by metis
  qed
  show ?case
  proof (intro conjI ballI allI impI)
    show "(change c)\<^sup>*\<^sup>* db db'" by (rule path)
    show "schema_ok db'" using IH by blast
    show "\<not> is_active r" if "s \<in> set (q # rs)" "find_run db' (rn_id s) = Some r" for s r
    proof (cases "s = q")
      case True
      with head that(2) show ?thesis by simp
    next
      case False
      with that(1) have "s \<in> set rs" by simp
      from IH [THEN conjunct2, THEN conjunct2, THEN conjunct1, rule_format, OF this that(2)]
      show ?thesis .
    qed
    show "find_run db' i = find_run db i" if "i \<notin> rn_id ` set (q # rs)" for i
    proof -
      have "i \<noteq> rn_id q" "i \<notin> rn_id ` set rs" using that by auto
      with IH first show ?thesis by metis
    qed
    show "find_run db' i = Some r" if "find_run db i = Some r \<and> \<not> is_active r" for i r
      using IH first that by blast
    show "is_active r' \<or> rn_status r' = RunFailed"
      if "find_run db i = Some r \<and> is_active r \<and> find_run db' i = Some r'" for i r r'
    proof (cases "i = rn_id q")
      case True
      with first that obtain s where s: "find_run db1 i = Some s" "rn_status s = RunFailed" by metis
      then have "find_run db' i = Some s" using IH by (simp add: is_active_iff)
      with s(2) that show ?thesis by simp
    next
      case False
      with first have "find_run db1 i = find_run db i" by metis
      with IH that show ?thesis by metis
    qed
  qed
qed auto

lemma sweep_plans_initial:
  assumes "schema_ok db" "set rs \<subseteq> set (db_runs db)"
  shows "sweep_plans db rs"
  unfolding sweep_plans_def
proof (intro ballI allI impI)
  fix q r assume "q \<in> set rs" and r: "find_run db (rn_id q) = Some r \<and> is_active r"
  then have "find_run db (rn_id q) = Some q" using find_run_intro [OF assms(1)] assms(2) by auto
  with r show "rn_execution_plan r = rn_execution_plan q" by simp
qed

definition orphans :: "db \<Rightarrow> run_row list" where
  "orphans db =
     order_by rn_created_at rn_id (filter (\<lambda>r. rn_status r \<in> set ACTIVE_STATUSES) (db_runs db))"

lemma set_orphans: "set (orphans db) = {r \<in> set (db_runs db). is_active r}"
  by (auto simp: orphans_def is_active_def)

lemma fail_orphaned_runs_ok:
  assumes "fail_orphaned_runs c new_id now db = (res, db')" "schema_ok db"
  shows "db' = db \<or> (\<exists>runs. close_orphans c new_id now (orphans db) db = Inr (runs, db'))"
  using assms(1) unfolding fail_orphaned_runs_def orphans_def [symmetric] by (rule terminal_method)

lemma fail_orphaned_runs_changes:
  assumes "fail_orphaned_runs c new_id now db = (res, db')" "schema_ok db"
  shows "(change c)\<^sup>*\<^sup>* db db'"
proof -
  have "set (orphans db) \<subseteq> set (db_runs db)" by (auto simp: set_orphans)
  then have plans: "sweep_plans db (orphans db)" by (rule sweep_plans_initial [OF assms(2)])
  from fail_orphaned_runs_ok [OF assms] show ?thesis
    using close_orphans_ok [OF _ assms(2) plans] by auto
qed

section \<open>The state machine\<close>

text \<open>
  The snapshot a creating method has read is a database whose constraints hold and from which the
  current one was reached; every earlier state of a history is one.
\<close>

inductive db_step :: "codec \<Rightarrow> (nat \<Rightarrow> bool) \<Rightarrow> db \<Rightarrow> db \<Rightarrow> bool" for c cc where
  step_create_thread: "create_thread i now p title db = (res, db') \<Longrightarrow> db_step c cc db db'"
| step_rename_thread: "rename_thread now tid p title db = (res, db') \<Longrightarrow> db_step c cc db db'"
| step_create_initial_run:
    "schema_ok snap \<Longrightarrow> (db_step c cc)\<^sup>*\<^sup>* snap db \<Longrightarrow>
     create_initial_run c cc i mi now p tid content key plan snap db = (res, db') \<Longrightarrow>
     db_step c cc db db'"
| step_create_run:
    "schema_ok snap \<Longrightarrow> (db_step c cc)\<^sup>*\<^sup>* snap db \<Longrightarrow>
     create_run c i mi now p tid content key plan snap db = (res, db') \<Longrightarrow> db_step c cc db db'"
| step_start_run: "start_run c i now rid db = (res, db') \<Longrightarrow> db_step c cc db db'"
| step_start_attempt: "start_model_attempt now rid s db = (res, db') \<Longrightarrow> db_step c cc db db'"
| step_finish_attempt: "finish_model_attempt now rid fin db = (res, db') \<Longrightarrow> db_step c cc db db'"
| step_record_usage: "record_model_attempt_usage rid obs db = (res, db') \<Longrightarrow> db_step c cc db db'"
| step_append_event:
    "append_active_event c i now rid name data db = (res, db') \<Longrightarrow> db_step c cc db db'"
| step_complete_run:
    "complete_run c mi i1 i2 now rid content out category db = (res, db') \<Longrightarrow> db_step c cc db db'"
| step_fail_run:
    "fail_run c i now rid code out category db = (res, db') \<Longrightarrow> db_step c cc db db'"
| step_cancel_run:
    "cancel_run c i now rid p out category db = (res, db') \<Longrightarrow> db_step c cc db db'"
| step_fail_orphans:
    "fail_orphaned_runs c new_id now db = (res, db') \<Longrightarrow> db_step c cc db db'"

lemma or_changes: "db' = db \<or> change c db db' \<Longrightarrow> (change c)\<^sup>*\<^sup>* db db'"
  by auto

lemma changes_thread_keys:
  "(change c)\<^sup>*\<^sup>* db db' \<Longrightarrow> set (thread_keys db) \<subseteq> set (thread_keys db')"
  by (induction rule: rtranclp_induct) (use change_thread_keys in blast)+

lemma changes_schema: "(change c)\<^sup>*\<^sup>* db db' \<Longrightarrow> schema_ok db \<Longrightarrow> schema_ok db'"
  by (induction rule: rtranclp_induct) (auto dest: change_schema)

lemma nested_changes:
  assumes "(\<lambda>x y. db_step c cc x y \<and> (schema_ok x \<longrightarrow> (change c)\<^sup>*\<^sup>* x y))\<^sup>*\<^sup>* snap db" "schema_ok snap"
  shows "set (thread_keys snap) \<subseteq> set (thread_keys db)"
proof -
  have "(change c)\<^sup>*\<^sup>* snap db"
    using assms
  proof (induction rule: rtranclp_induct)
    case (step y z)
    then show ?case using changes_schema by (meson rtranclp_trans)
  qed simp
  then show ?thesis by (rule changes_thread_keys)
qed

lemma step_changes:
  assumes "db_step c cc db db'" "schema_ok db"
  shows "(change c)\<^sup>*\<^sup>* db db'"
  using assms
proof (induction rule: db_step.induct)
  case (step_create_initial_run snap db i mi now p tid content key plan res db')
  then show ?case using create_initial_run_changes by blast
next
  case (step_create_run snap db i mi now p tid content key plan res db')
  then show ?case using create_run_changes nested_changes by blast
next
  case (step_create_thread i now p title db res db')
  show ?case by (rule or_changes, rule create_thread_change [OF step_create_thread(1,2)])
next
  case (step_rename_thread now tid p title db res db')
  show ?case by (rule or_changes, rule rename_thread_change [OF step_rename_thread(1,2)])
next
  case (step_start_attempt now rid s db res db')
  show ?case by (rule or_changes, rule start_model_attempt_change [OF step_start_attempt(1,2)])
next
  case (step_finish_attempt now rid fin db res db')
  show ?case by (rule or_changes, rule finish_model_attempt_change [OF step_finish_attempt(1,2)])
next
  case (step_record_usage rid obs db res db')
  show ?case by (rule or_changes, rule record_model_attempt_usage_change [OF step_record_usage(1,2)])
next
  case (step_start_run i now rid db res db')
  show ?case using start_run_moves [OF step_start_run(1,2)] change_run or_changes by metis
next
  case (step_append_event i now rid name data db res db')
  show ?case using append_active_event_moves [OF step_append_event(1,2)] change_run or_changes by metis
next
  case (step_complete_run mi i1 i2 now rid content out category db res db')
  show ?case
    by (rule or_changes, rule ok_after_changes, rule complete_run_after [OF step_complete_run(1,2)])
next
  case (step_fail_run i now rid code out category db res db')
  show ?case by (rule or_changes, rule ok_after_changes, rule fail_run_after [OF step_fail_run(1,2)])
next
  case (step_cancel_run i now rid p out category db res db')
  show ?case
    by (rule or_changes, rule ok_after_changes, rule cancel_run_after [OF step_cancel_run(1,2)])
next
  case (step_fail_orphans new_id now db res db')
  show ?case by (rule fail_orphaned_runs_changes [OF step_fail_orphans(1,2)])
qed

lemma step_inv:
  assumes inv: "db_inv c db" and step: "db_step c cc db db'"
  shows "db_inv c db'"
proof -
  have "schema_ok db" using inv by (simp add: db_inv_def)
  from step_changes [OF step this] inv show ?thesis by (rule changes_inv)
qed

definition db_init :: "db \<Rightarrow> bool" where
  "db_init db \<longleftrightarrow> db = empty_db"

interpretation store: guarded_machine db_init "db_step c cc" "db_inv c" for c cc
  by unfold_locales (auto simp: db_init_def intro: empty_db_inv step_inv)

lemma steps_changes:
  assumes "(db_step c cc)\<^sup>*\<^sup>* db db'" "db_inv c db"
  shows "(change c)\<^sup>*\<^sup>* db db'"
  using assms
proof (induction rule: rtranclp_induct)
  case (step y z)
  note IH = step.IH [OF step.prems]
  have "schema_ok y" using changes_inv [OF IH step.prems] by (simp add: db_inv_def)
  from step_changes [OF step.hyps(2) this] IH show ?case by (metis rtranclp_trans)
qed simp

end
