(* ===== verification/Store_Facts.thy ===== *)
theory Store_Facts
  imports Store_Steps Run_Queries
begin

text \<open>
  What the invariant of Store_Machine gives to the callers of the repository: every view of a
  Run can be built, every Run has its thread and its owner, and a reachable state stays one along
  a history.
\<close>

section \<open>Facts of the invariant\<close>

lemma inv_parts:
  assumes "db_inv c db"
  shows "schema_ok db" "owners_ok db" "lifecycle_ok c db"
  using assms by (simp_all add: db_inv_def)

lemma inv_run:
  assumes "db_inv c db" "r \<in> set (db_runs db)"
  shows "row_ok r" "log_ok c r (events_of db (rn_id r))" "usage_ok r (attempts_of db (rn_id r))"
    "roles_ok r (messages_of db (rn_id r))"
  using inv_parts(3) [OF assms(1)] assms(2) by (simp_all add: lifecycle_ok_def run_ok_def)

lemma inv_find: "db_inv c db \<Longrightarrow> r \<in> set (db_runs db) \<Longrightarrow> find_run db (rn_id r) = Some r"
  using find_run_intro inv_parts(1) by blast

text \<open>The view of a Run never raises.\<close>

lemma run_view_total:
  assumes "db_inv c db" "r \<in> set (db_runs db)"
  shows "\<exists>v. run_view_of c r = Inr v \<and> rv_run_id v = rn_id r \<and> rv_status v = rn_status r
    \<and> rv_last_seq v = rn_last_seq r"
proof -
  note ok = inv_run [OF assms]
  have "\<exists>u. row_usage c r = Inr u"
  proof (cases "is_active r")
    case True
    then have "rn_usage_metrics r = None" using ok(1) by (simp add: row_ok_def)
    then show ?thesis using True by (rule row_usage_open)
  next
    case False
    show ?thesis
    proof (cases "rn_metering_version r")
      case None
      then show ?thesis using unavailable_run_usage_ok [of UnknownState] by (auto simp: row_usage_def)
    next
      case (Some v)
      then have "settled_usage (rn_usage_metrics r) (attempts_of db (rn_id r))"
        using ok(3) False by (simp add: usage_ok_def)
      then show ?thesis using Some by (auto simp: settled_usage_def row_usage_def)
    qed
  qed
  then show ?thesis by (auto simp: run_view_of_def)
qed

text \<open>Every thread owns its Runs.\<close>

lemma thread_of_run:
  assumes "db_inv c db" "r \<in> set (db_runs db)"
  obtains t where "find_thread db (rn_thread_id r) = Some t" "th_owner_subject t = rn_actor_subject r"
proof -
  have "(rn_thread_id r, rn_actor_subject r) \<in> set (thread_keys db)"
    using inv_parts(2) [OF assms(1)] assms(2) by (simp add: owners_ok_def)
  then obtain t where "t \<in> set (db_threads db)" "th_id t = rn_thread_id r"
    "th_owner_subject t = rn_actor_subject r"
    by (auto simp: thread_keys_def)
  then show ?thesis using that find_thread_intro [OF inv_parts(1) [OF assms(1)]] by metis
qed

lemma consistent_thread:
  assumes "db_inv c db" "find_thread db tid = Some t"
  shows "require_thread_run_consistency db t = Inr ()"
proof -
  have "rn_actor_subject r = th_owner_subject t"
    if r: "r \<in> set (db_runs db)" "rn_thread_id r = th_id t" for r
  proof -
    obtain u where "find_thread db (rn_thread_id r) = Some u" "th_owner_subject u = rn_actor_subject r"
      by (rule thread_of_run [OF assms(1) r(1)])
    with assms(2) r(2) find_thread_Some [OF assms(2)] show ?thesis by simp
  qed
  then show ?thesis by (auto simp: require_thread_run_consistency_def requireE_def list_ex_iff)
qed

section \<open>Reading the log\<close>

lemma filter_after:
  "map f xs = [a..b] \<Longrightarrow> filter (\<lambda>x. n < f x) xs = drop (nat (n - a + 1)) xs" for n a b :: int
proof (induction xs arbitrary: a)
  case (Cons x xs)
  then have ab: "f x = a" "map f xs = [a + 1..b]" "a \<le> b"
    by (cases "a \<le> b"; simp add: upto_rec1)+
  show ?case
  proof (cases "n < a")
    case True
    have "\<forall>y \<in> f ` set (x # xs). n < y" using arg_cong [OF Cons.prems, of set] True by auto
    then have "filter (\<lambda>y. n < f y) (x # xs) = x # xs" by (intro filter_True) auto
    with True show ?thesis by simp
  next
    case False
    then have "nat (n - a + 1) = Suc (nat (n - (a + 1) + 1))" by simp
    with Cons.IH [OF ab(2)] ab(1) False show ?thesis by simp
  qed
qed simp

definition envelope :: "event_row \<Rightarrow> event_envelope" where
  "envelope e =
     \<lparr>ee_event_id = ev_id e, ee_run_id = ev_run_id e, ee_thread_id = ev_thread_id e,
      ee_seq = ev_seq e, ee_type = ev_type e, ee_occurred_at = ev_occurred_at e,
      ee_data = ev_payload e\<rparr>"

lemma owner_authorized:
  assumes "db_inv c db" "r \<in> set (db_runs db)"
    and "subject p = rn_actor_subject r" "\<not> is_internal (subject p)"
  obtains t where "require_authorized_run db r p = Inr t"
proof -
  obtain t where "find_thread db (rn_thread_id r) = Some t" "th_owner_subject t = rn_actor_subject r"
    by (rule thread_of_run [OF assms(1,2)])
  with assms(3,4) show ?thesis
    by (intro that [of t]) (simp add: require_authorized_run_def require_run_actor_def)
qed

lemma read_run:
  assumes "db_inv c db" "r \<in> set (db_runs db)"
    and "subject p = rn_actor_subject r" "\<not> is_internal (subject p)"
  shows "\<exists>v. get_run c (rn_id r) p db = Inr v \<and> rv_run_id v = rn_id r \<and> rv_status v = rn_status r
    \<and> rv_last_seq v = rn_last_seq r"
proof -
  obtain t where "require_authorized_run db r p = Inr t" by (rule owner_authorized [OF assms])
  with run_view_total [OF assms(1,2)] inv_find [OF assms(1,2)] show ?thesis by (simp add: get_run_def)
qed

lemma read_events:
  assumes inv: "db_inv c db" and r: "r \<in> set (db_runs db)" and rt: "time_round_trip c"
    and own: "subject p = rn_actor_subject r" "\<not> is_internal (subject p)"
  shows "get_events c (rn_id r) n p db = Inr (map envelope (drop (nat n) (events_of db (rn_id r))))"
proof -
  have seqs: "map ev_seq (events_of db (rn_id r)) = [1..rn_last_seq r]"
    and stored: "\<forall>e \<in> set (events_of db (rn_id r)). stored_event c e"
    using inv_run(2) [OF inv r] by (simp_all add: log_ok_def)
  have "sorted (map ev_seq (drop k (events_of db (rn_id r))))" for k
    using sorted_wrt_drop [of "(\<le>)" "[1..rn_last_seq r]" k] by (simp add: drop_map [symmetric] seqs)
  then have after: "sort_key ev_seq (filter (\<lambda>e. ev_seq e > n) (events_of db (rn_id r)))
      = drop (nat n) (events_of db (rn_id r))"
    using filter_after [OF seqs, of n] by (simp add: sort_key_id_if_sorted)
  have all: "traverse (event_view c) (drop (nat n) (events_of db (rn_id r)))
      = Inr (map envelope (drop (nat n) (events_of db (rn_id r))))"
  proof (rule traverse_all)
    fix e assume "e \<in> set (drop (nat n) (events_of db (rn_id r)))"
    then have "stored_event c e" using stored in_set_dropD by fast
    then show "event_view c e = Inr (envelope e)"
      unfolding envelope_def by (rule event_view_stored [OF rt])
  qed
  obtain t where "require_authorized_run db r p = Inr t" by (rule owner_authorized [OF inv r own])
  then show ?thesis using inv_find [OF inv r] by (simp add: get_events_def after all)
qed

section \<open>Reachable states\<close>

lemma reached_inv: "reaches db_init (db_step c cc) db \<Longrightarrow> db_inv c db"
  by (rule store.reaches_inv)

lemma reached_steps:
  assumes "reaches db_init (db_step c cc) db" "(db_step c cc)\<^sup>*\<^sup>* db db'"
  shows "reaches db_init (db_step c cc) db'" "(change c)\<^sup>*\<^sup>* db db'"
proof -
  show "reaches db_init (db_step c cc) db'"
    using assms(2,1) by (induction rule: rtranclp_induct) (blast intro: reaches_step)+
  show "(change c)\<^sup>*\<^sup>* db db'" using steps_changes [OF assms(2) reached_inv [OF assms(1)]] .
qed

section \<open>Histories\<close>

lemma changes_frozen:
  assumes "(change c)\<^sup>*\<^sup>* db db'" "schema_ok db" "r \<in> set (db_runs db)" "\<not> is_active r"
  shows "schema_ok db' \<and> r \<in> set (db_runs db') \<and> events_of db' (rn_id r) = events_of db (rn_id r)
    \<and> attempts_of db' (rn_id r) = attempts_of db (rn_id r)
    \<and> messages_of db' (rn_id r) = messages_of db (rn_id r)"
  using assms(1)
proof (induction rule: rtranclp_induct)
  case (step y z)
  then have "schema_ok y" "r \<in> set (db_runs y)" by simp_all
  with change_keeps(2,4) [OF step.hyps(2) this(2,1)] step.IH assms(4) show ?case by simp
qed (use assms in simp)

lemma changes_grow:
  assumes "(change c)\<^sup>*\<^sup>* db db'" "schema_ok db" "r \<in> set (db_runs db)"
  shows "schema_ok db' \<and> (\<exists>r' evs. r' \<in> set (db_runs db') \<and> same_run r r'
    \<and> events_of db' (rn_id r) = events_of db (rn_id r) @ evs)"
  using assms(1)
proof (induction rule: rtranclp_induct)
  case base
  have "same_run r r" by (simp add: same_run_def)
  with assms(2,3) show ?case by auto
next
  case (step y z)
  then obtain r' evs where r': "r' \<in> set (db_runs y)" "same_run r r'" "schema_ok y"
    "events_of y (rn_id r) = events_of db (rn_id r) @ evs" by blast
  then have id: "rn_id r' = rn_id r" by (simp add: same_run_def)
  from change_keeps(2,3) [OF step.hyps(2) r'(1,3), unfolded id] r' obtain r'' more_evs
    where "schema_ok z" "r'' \<in> set (db_runs z)" "same_run r' r''"
      "events_of z (rn_id r) = events_of db (rn_id r) @ evs @ more_evs" by auto
  with r'(2) show ?case by (auto simp: same_run_def)
qed

text \<open>
  A path of the abstract machine \<open>life\<close>, with the events it commits. The machine of the whole
  repository refines it, one copy for each Run.
\<close>

inductive life_path :: "run_status \<Rightarrow> run_status \<Rightarrow> string list \<Rightarrow> bool" where
  path_stay: "life_path st st []"
| path_more: "life_path st st' names \<Longrightarrow> life st' st'' ns \<Longrightarrow> life_path st st'' (names @ ns)"

definition follows :: "run_row \<Rightarrow> db \<Rightarrow> run_row \<Rightarrow> db \<Rightarrow> string list \<Rightarrow> bool" where
  "follows r db r' db' names \<longleftrightarrow>
     r' \<in> set (db_runs db') \<and> same_run r r'
     \<and> map ev_type (events_of db' (rn_id r)) = map ev_type (events_of db (rn_id r)) @ map lit names"

lemma change_life:
  assumes "change c db db'" "r \<in> set (db_runs db)" "schema_ok db"
  shows "\<exists>r' names. follows r db r' db' names
    \<and> (names = [] \<and> rn_status r' = rn_status r \<or> life (rn_status r) (rn_status r') names)"
proof -
  have same: ?thesis if "r \<in> set (db_runs db')" "events_of db' (rn_id r) = events_of db (rn_id r)"
    using that by (intro exI [of _ r] exI [of _ "[]"]) (simp add: follows_def)
  show ?thesis
    using assms(1)
  proof cases
    case (change_run q q')
    then obtain evs ms names where eff: "effect c q q' evs ms db db'"
      and names: "map ev_type evs = map lit names" "life (rn_status q) (rn_status q') names"
      by (auto simp: moves_def)
    note kids = effect_children [OF eff]
    have q: "find_run db (rn_id q) = Some q" "same_run q q'" using eff by (simp_all add: effect_def)
    show ?thesis
    proof (cases "rn_id r = rn_id q")
      case True
      then have "r = q" using find_run_intro [OF assms(3,2)] q(1) by (metis option.inject)
      with names q(2) kids(1) effect_rows(2) [OF eff] show ?thesis
        by (intro exI [of _ q'] exI [of _ names]) (simp add: follows_def)
    next
      case False
      show ?thesis
        by (rule same) (use False kids(1) effect_rows(3) [OF eff assms(2)] in simp_all)
    qed
  next
    case change_attempts
    show ?thesis by (rule same) (use assms(2) change_attempts in \<open>simp_all add: events_of_def\<close>)
  qed (rule same; use assms(2) in \<open>simp add: events_of_def\<close>)+
qed

lemma follows_trans:
  "follows r db r' db' n \<Longrightarrow> follows r' db' r'' db'' m \<Longrightarrow> follows r db r'' db'' (n @ m)"
  by (auto simp: follows_def same_run_def)

lemma changes_follow:
  assumes "(change c)\<^sup>*\<^sup>* db db'" "schema_ok db" "r \<in> set (db_runs db)"
  shows "\<exists>r' names. follows r db r' db' names \<and> life_path (rn_status r) (rn_status r') names"
proof -
  have "schema_ok db' \<and> (\<exists>r' names. follows r db r' db' names
      \<and> life_path (rn_status r) (rn_status r') names)"
    using assms(1)
  proof (induction rule: rtranclp_induct)
    case base
    have "follows r db r db []" using assms(3) by (simp add: follows_def)
    then show ?case using assms(2) path_stay by blast
  next
    case (step y z)
    then obtain r' names where r': "follows r db r' y names" "life_path (rn_status r) (rn_status r') names"
      by blast
    then have "r' \<in> set (db_runs y)" by (simp add: follows_def)
    with change_life [OF step.hyps(2)] step.IH obtain r'' ns where ns: "follows r' y r'' z ns"
      "ns = [] \<and> rn_status r'' = rn_status r' \<or> life (rn_status r') (rn_status r'') ns"
      by blast
    have "life_path (rn_status r) (rn_status r'') (names @ ns)"
      using ns(2) r'(2) by (auto intro: path_more)
    with follows_trans [OF r'(1) ns(1)] change_schema [OF step.hyps(2)] show ?case by blast
  qed
  then show ?thesis by blast
qed

lemma sweep_result:
  assumes inv: "db_inv c db" and sweep: "fail_orphaned_runs c new_id now db = (Inr views, db')"
  shows "(\<forall>r \<in> set (db_runs db'). \<not> is_active r)
    \<and> (\<forall>r \<in> set (db_runs db). \<exists>r'. find_run db' (rn_id r) = Some r'
         \<and> (if is_active r then rn_status r' = RunFailed else r' = r))"
proof -
  note ok = inv_parts(1) [OF inv]
  have "set (orphans db) \<subseteq> set (db_runs db)" by (auto simp: set_orphans)
  then have plans: "sweep_plans db (orphans db)" by (rule sweep_plans_initial [OF ok])
  have "db' = db \<or> (\<exists>runs. close_orphans c new_id now (orphans db) db = Inr (runs, db'))"
    by (rule fail_orphaned_runs_ok [OF sweep ok])
  moreover have "\<exists>runs. close_orphans c new_id now (orphans db) db = Inr (runs, db')"
    using sweep unfolding fail_orphaned_runs_def orphans_def [symmetric]
    by (cases "close_orphans c new_id now (orphans db) db") auto
  ultimately obtain runs where "close_orphans c new_id now (orphans db) db = Inr (runs, db')" by blast
  from close_orphans_ok [OF this ok plans]
  have closed: "(change c)\<^sup>*\<^sup>* db db'" "schema_ok db'"
    "\<And>q r. q \<in> set (orphans db) \<Longrightarrow> find_run db' (rn_id q) = Some r \<Longrightarrow> \<not> is_active r"
    "\<And>j. j \<notin> rn_id ` set (orphans db) \<Longrightarrow> find_run db' j = find_run db j"
    "\<And>j r. find_run db j = Some r \<Longrightarrow> \<not> is_active r \<Longrightarrow> find_run db' j = Some r"
    "\<And>j r r'. find_run db j = Some r \<Longrightarrow> is_active r \<Longrightarrow> find_run db' j = Some r'
       \<Longrightarrow> is_active r' \<or> rn_status r' = RunFailed"
    by blast+
  have none: "\<not> is_active r" if "r \<in> set (db_runs db')" for r
  proof (cases "rn_id r \<in> rn_id ` set (orphans db)")
    case True
    then show ?thesis using closed(3) find_run_intro [OF closed(2) that] by (metis imageE)
  next
    case False
    then have "find_run db (rn_id r) = Some r"
      using closed(4) find_run_intro [OF closed(2) that] by metis
    then have "r \<in> set (db_runs db)" using find_run_Some by blast
    with False show ?thesis by (auto simp: set_orphans)
  qed
  have "\<exists>r'. find_run db' (rn_id r) = Some r' \<and> (if is_active r then rn_status r' = RunFailed else r' = r)"
    if r: "r \<in> set (db_runs db)" for r
  proof -
    have found: "find_run db (rn_id r) = Some r" using inv_find [OF inv r] .
    obtain r' names where "follows r db r' db' names" using changes_follow [OF closed(1) ok r] by blast
    then have r': "r' \<in> set (db_runs db')" "rn_id r' = rn_id r" by (auto simp: follows_def same_run_def)
    then have found': "find_run db' (rn_id r) = Some r'"
      using find_run_intro [OF closed(2) r'(1)] by simp
    show ?thesis
      using closed(5) [OF found] closed(6) [OF found _ found'] none [OF r'(1)] found' by auto
  qed
  with none show ?thesis by blast
qed

end
