(* ===== verification/Store_Progress.thy ===== *)
theory Store_Progress
  imports Store_Facts
begin

text \<open>
  What the repository can always do: close an active Run. The lemmas build the transaction step by
  step from a state that satisfies the invariant, a clock that is not behind the attempts of the
  Run, and an event id that is not in use; nothing else a closing transaction checks can fail.
\<close>

section \<open>Settling usage\<close>

definition clock_ok :: "int \<Rightarrow> db \<Rightarrow> bool" where
  "clock_ok now db \<longleftrightarrow> (\<forall>a \<in> set (db_attempts db). ma_started_at a \<le> now)"

lemma update_attempts_total:
  assumes "schema_ok db" "clock_ok now db"
  shows "\<exists>db'. update_attempts P (\<lambda>a. a\<lparr>ma_status := st, ma_completed_at := Some now\<rparr>) db = Inr db'
    \<and> db' = db\<lparr>db_attempts := db_attempts db'\<rparr> \<and> clock_ok now db'"
proof -
  define f where "f a = (if P a then a\<lparr>ma_status := st, ma_completed_at := Some now\<rparr> else a)"
    for a :: attempt_row
  have "attempt_checks (f a) \<and> ma_started_at (f a) \<le> now" if "a \<in> set (db_attempts db)" for a
  proof -
    have "attempt_checks a" "ma_started_at a \<le> now"
      using assms that by (auto simp: schema_ok_def list_all_iff clock_ok_def)
    then show ?thesis by (simp add: f_def attempt_checks_def)
  qed
  then have "list_all attempt_checks (map f (db_attempts db))"
    "clock_ok now (db\<lparr>db_attempts := map f (db_attempts db)\<rparr>)"
    by (auto simp: list_all_iff clock_ok_def)
  then show ?thesis
    unfolding update_attempts_def Let_def f_def by simp
qed

lemma attempts_checked: "schema_ok db \<Longrightarrow> \<forall>a \<in> set (attempts_of db i). attempt_checks a"
  by (auto simp: schema_ok_def list_all_iff attempts_of_def)

lemma settle_total:
  assumes ok: "schema_ok db" and run: "find_run db (rn_id run) = Some run"
    and clock: "clock_ok now db" and version: "rn_metering_version run \<in> {None, Some METERING_SCHEMA_VERSION}"
    and ast: "ast \<noteq> Started"
  shows "\<exists>run' u db2. settle_usage c run now ast category db = Inr (run', dump_run_usage u, db2)
    \<and> valid_run_usage u \<and> clock_ok now db2 \<and> db_events db2 = db_events db
    \<and> db_messages db2 = db_messages db \<and> map rn_id (db_runs db2) = map rn_id (db_runs db)
    \<and> map rn_thread_id (db_runs db2) = map rn_thread_id (db_runs db)
    \<and> (\<exists>um. run' = run\<lparr>rn_usage_metrics := um\<rparr>) \<and> (\<exists>v. run_view_of c run' = Inr v)"
proof (cases "rn_metering_version run")
  case None
  obtain u where "unavailable_run_usage UnknownState = Inr u" "valid_run_usage u"
    using unavailable_run_usage_ok [of UnknownState] by auto
  with None clock show ?thesis
    by (auto simp: settle_usage_def write_terminal_usage_def run_view_of_def row_usage_def
        intro!: exI [of _ u] exI [of _ "rn_usage_metrics run"])
next
  case (Some v)
  then have v: "v = METERING_SCHEMA_VERSION" using version by simp
  let ?P = "\<lambda>a. ma_run_id a = rn_id run \<and> ma_status a = Started"
  obtain db1 where up: "update_attempts ?P (\<lambda>a. a\<lparr>ma_status := ast, ma_completed_at := Some now\<rparr>) db = Inr db1"
    and db1: "db1 = db\<lparr>db_attempts := db_attempts db1\<rparr>" and clock1: "clock_ok now db1"
    using update_attempts_total [OF ok clock] by blast
  have ok1: "schema_ok db1" by (rule update_attempts_ok(2) [OF up _ ok]) (simp add: keeps_attempt_def)
  have "\<forall>a \<in> set (order_by ma_call_index ma_attempt_index (attempts_of db1 (rn_id run))). attempt_checks a"
    using attempts_checked [OF ok1] by simp
  then obtain u where u: "terminal_run_usage run
      (order_by ma_call_index ma_attempt_index (attempts_of db1 (rn_id run))) now category = Inr u"
    "valid_run_usage u"
    using terminal_run_usage_total by blast
  define run' where "run' = run\<lparr>rn_usage_metrics := Some (dump_run_usage u)\<rparr>"
  have w: "write_terminal_usage run now ast category db = Inr (run', put_run run' db1)"
    using up u(1) by (simp add: write_terminal_usage_def Some v Let_def run'_def)
  have view: "\<exists>w. run_view_of c run' = Inr w \<and> rv_usage w = u"
    using u(2) Some by (simp add: run_view_of_def row_usage_def run'_def)
  have runs: "db_runs db1 = db_runs db" "db_events db1 = db_events db" "db_messages db1 = db_messages db"
    by (subst db1, simp)+
  have ids: "map rn_id (db_runs (put_run run' db1)) = map rn_id (db_runs db)"
    by (simp add: put_run_def runs run'_def)
  have tids: "map rn_thread_id (db_runs (put_run run' db1)) = map rn_thread_id (db_runs db)"
  proof -
    have "rn_thread_id run' = rn_thread_id q" if "q \<in> set (db_runs db)" "rn_id q = rn_id run'" for q
    proof -
      have "rn_id q = rn_id run" using that(2) by (simp add: run'_def)
      then have "q = run" using find_run_intro [OF ok that(1)] run by (metis option.inject)
      then show ?thesis by (simp add: run'_def)
    qed
    then show ?thesis by (simp add: put_run_def runs)
  qed
  have "clock_ok now (put_run run' db1)" using clock1 by (simp add: clock_ok_def)
  moreover obtain v where v: "run_view_of c run' = Inr v" "rv_usage v = u" using view by blast
  moreover have "settle_usage c run now ast category db = Inr (run', dump_run_usage u, put_run run' db1)"
    by (simp add: settle_usage_def w v)
  ultimately show ?thesis
    using u(2) ids tids runs run'_def
    by (intro exI [of _ run'] exI [of _ u] exI [of _ "put_run run' db1"] conjI) auto
qed

section \<open>The terminal events\<close>

lemma terminal_event_total:
  assumes "time_round_trip c" "valid_run_usage u"
  shows "validate_product_event c (lit ''run.failed'')
      (py_dict [(''status'', PStr (lit ''failed'')), (''error_code'', PStr (lit (failure_code_name code))),
                (''usage'', dump_run_usage u)])
    = Inr (dump_payload c (RunFailedPayload code (Some u)))"
    and "validate_product_event c (lit ''run.cancelled'')
      (py_dict [(''status'', PStr (lit ''cancelled'')), (''usage'', dump_run_usage u)])
    = Inr (dump_payload c (RunCancelledPayload (Some u)))"
    and "validate_product_event c (lit ''run.completed'')
      (py_dict [(''status'', PStr (lit ''completed'')), (''usage'', dump_run_usage u)])
    = Inr (dump_payload c (RunCompletedPayload (Some u)))"
  using validate_stored [OF assms(1), of "RunFailedPayload code (Some u)"]
    validate_stored [OF assms(1), of "RunCancelledPayload (Some u)"]
    validate_stored [OF assms(1), of "RunCompletedPayload (Some u)"] assms(2)
  by (simp_all add: valid_usage_option_def)

section \<open>Closing with one event\<close>

lemma insert_event_total:
  assumes "schema_ok db" "find_run db (ev_run_id e) = Some q" "rn_thread_id q = ev_thread_id e"
    "find_thread db (ev_thread_id e) \<noteq> None" "ev_id e \<notin> ev_id ` set (db_events db)"
    "ev_seq e \<notin> ev_seq ` set (events_of db (ev_run_id e))"
  shows "insert_event e db = Inr (db\<lparr>db_events := db_events db @ [e]\<rparr>)"
proof -
  have "has_run db (ev_run_id e) (ev_thread_id e)"
    using find_run_Some [OF assms(2)] assms(3) by (auto simp: has_run_def list_ex_iff)
  moreover have "\<not> list_ex (\<lambda>f. ev_id f = ev_id e) (db_events db)"
    using assms(5) by (metis (mono_tags, lifting) imageI list_ex_iff)
  moreover have "\<not> list_ex (\<lambda>f. ev_run_id f = ev_run_id e \<and> ev_seq f = ev_seq e) (db_events db)"
    using assms(6) by (auto simp: list_ex_iff events_of_def image_iff)
  ultimately show ?thesis using assms(4) by (simp add: insert_event_def event_constraints_def)
qed

definition event_of ::
  "run_row \<Rightarrow> pystr \<Rightarrow> string \<Rightarrow> pdict \<Rightarrow> int \<Rightarrow> event_row" where
  "event_of r i name d now =
     \<lparr>ev_id = i, ev_run_id = rn_id r, ev_thread_id = rn_thread_id r, ev_seq = rn_last_seq r,
      ev_type = lit name, ev_occurred_at = now, ev_payload = d\<rparr>"

text \<open>The part all closing transactions share: claim, settle, find the thread.\<close>

lemma settle_claimed:
  assumes inv: "db_inv c db" and r: "r \<in> set (db_runs db)" and clock: "clock_ok now db"
    and st: "status_outcome st \<noteq> None" and ast: "ast \<noteq> Started"
  obtains r' u db2 t v q where "settle_usage c (ended st now n out r) now ast category
        (put_run (ended st now n out r) db) = Inr (r', dump_run_usage u, db2)"
    "valid_run_usage u" "clock_ok now db2" "schema_ok db2"
    "db_events db2 = db_events db" "db_messages db2 = db_messages db"
    "rn_id r' = rn_id r" "rn_thread_id r' = rn_thread_id r" "rn_last_seq r' = rn_last_seq r + n"
    "find_run db2 (rn_id r) = Some q" "rn_thread_id q = rn_thread_id r"
    "find_thread db (rn_thread_id r) = Some t" "find_thread db2 (rn_thread_id r) = Some t"
    "th_owner_subject t = rn_actor_subject r"
    "\<And>b. b \<or> \<not> is_internal (rn_actor_subject r) \<Longrightarrow> require_internal_run_consistency db2 r' b = Inr t"
    "run_view_of c r' = Inr v" "rv_run_id v = rn_id r" "rv_status v = st"
proof -
  define run where "run = ended st now n out r"
  note ok = inv_parts(1) [OF inv]
  have found: "find_run db (rn_id r) = Some r" using inv_find [OF inv r] .
  note claim = ended_claim [OF ok found st, of now n out, folded run_def]
  have fields: "rn_metering_version run = rn_metering_version r" "rn_actor_subject run = rn_actor_subject r"
    "rn_status run = st" "rn_last_seq run = rn_last_seq r + n"
    by (simp_all add: run_def ended_def)
  have version: "rn_metering_version run \<in> {None, Some METERING_SCHEMA_VERSION}"
    using inv_run(1) [OF inv r] fields by (auto simp: row_ok_def)
  have clock': "clock_ok now (put_run run db)" using clock by (simp add: clock_ok_def)
  obtain r' u db2 um v where s: "settle_usage c run now ast category (put_run run db)
      = Inr (r', dump_run_usage u, db2)" "valid_run_usage u" "clock_ok now db2"
    "db_events db2 = db_events db" "r' = run\<lparr>rn_usage_metrics := um\<rparr>" "run_view_of c r' = Inr v"
    "map rn_id (db_runs db2) = map rn_id (db_runs (put_run run db))"
    "map rn_thread_id (db_runs db2) = map rn_thread_id (db_runs (put_run run db))"
    "db_messages db2 = db_messages db"
    using settle_total [OF claim(1,2) clock' version ast, of c category] unfolding put_run_tables by blast
  note S = settle_usage_facts [OF s(1) claim(1,2) ast]
  obtain t where t: "find_thread db (rn_thread_id r) = Some t" "th_owner_subject t = rn_actor_subject r"
    by (rule thread_of_run [OF inv r])
  then have t2: "find_thread db2 (rn_thread_id r) = Some t" using S(2) by (simp add: find_thread_def)
  have r': "rn_id r' = rn_id r" "rn_thread_id r' = rn_thread_id r" "rn_last_seq r' = rn_last_seq r + n"
    "rn_actor_subject r' = rn_actor_subject r" "rn_status r' = st"
    using S claim fields s(5) by simp_all
  have "(rn_id run, rn_thread_id run) \<in> set (zip (map rn_id (db_runs db2)) (map rn_thread_id (db_runs db2)))"
    using find_run_Some [OF claim(2)] unfolding s(7,8) by (auto simp: zip_map_map zip_same_conv_map)
  then obtain q where q: "q \<in> set (db_runs db2)" "rn_id q = rn_id r" "rn_thread_id q = rn_thread_id r"
    using claim by (auto simp: zip_map_map zip_same_conv_map)
  have run2: "find_run db2 (rn_id r) = Some q" using find_run_intro [OF S(1) q(1)] q(2) by simp
  have "require_internal_run_consistency db2 r' b = Inr t" if "b \<or> \<not> is_internal (rn_actor_subject r)" for b
    using that t(2) t2 by (auto simp: require_internal_run_consistency_def r')
  moreover have "rv_run_id v = rn_id r" "rv_status v = st" using s(6) r' by (auto simp: run_view_of_def)
  ultimately show ?thesis
    using that [OF s(1) [unfolded run_def] s(2,3) S(1) s(4,9) r'(1-3) run2 q(3) t(1) t2 t(2)] s(6) by blast
qed

lemma next_seq_free:
  assumes "db_inv c db" "r \<in> set (db_runs db)" "db_events db2 = db_events db" "rn_last_seq r < k"
  shows "k \<notin> ev_seq ` set (events_of db2 (rn_id r))"
proof -
  have "ev_seq ` set (events_of db (rn_id r)) = {1..rn_last_seq r}"
    using inv_run(2) [OF assms(1,2)] by (metis log_ok_def set_map set_upto)
  then show ?thesis using assms(3,4) by (simp add: events_of_def)
qed

lemma close_total:
  assumes inv: "db_inv c db" and r: "r \<in> set (db_runs db)"
    and clock: "clock_ok now db" and fresh: "i \<notin> ev_id ` set (db_events db)"
    and st: "status_outcome st \<noteq> None" and ast: "ast \<noteq> Started"
  shows "\<exists>r' u db2 t v. settle_usage c (ended st now 1 out r) now ast category
        (put_run (ended st now 1 out r) db) = Inr (r', dump_run_usage u, db2)
    \<and> valid_run_usage u \<and> rn_id r' = rn_id r \<and> clock_ok now db2
    \<and> find_thread db (rn_thread_id r) = Some t \<and> th_owner_subject t = rn_actor_subject r
    \<and> require_internal_run_consistency db2 r' True = Inr t
    \<and> (\<not> is_internal (rn_actor_subject r) \<longrightarrow> require_internal_run_consistency db2 r' False = Inr t)
    \<and> (\<forall>name d. insert_event (event_of r' i name d now) db2
         = Inr (db2\<lparr>db_events := db_events db @ [event_of r' i name d now]\<rparr>))
    \<and> run_view_of c r' = Inr v \<and> rv_run_id v = rn_id r \<and> rv_status v = st"
proof (rule settle_claimed [OF inv r clock st ast, of 1 out category], goal_cases)
  case (1 r' u db2 t v q)
  have ins: "insert_event (event_of r' i name d now) db2
      = Inr (db2\<lparr>db_events := db_events db @ [event_of r' i name d now]\<rparr>)" for name d
    using insert_event_total [OF 1(4), of "event_of r' i name d now" q] 1(7,8,9,10,11,13) fresh
      next_seq_free [OF inv r 1(5), of "rn_last_seq r + 1"]
    by (simp add: event_of_def 1(5))
  show ?case
    by (intro exI [of _ r'] exI [of _ u] exI [of _ db2] exI [of _ t] exI [of _ v] conjI allI impI)
      (use 1 ins in simp_all)
qed

text \<open>
  Failing and cancelling an active Run. The transactions agree up to the event; the owner's thread
  is found and its time is set last.
\<close>

lemma fail_total:
  assumes inv: "db_inv c db" and r: "r \<in> set (db_runs db)" "is_active r" "\<not> is_internal (rn_actor_subject r)"
    and clock: "clock_ok now db" and fresh: "i \<notin> ev_id ` set (db_events db)" and rt: "time_round_trip c"
    and out: "valid_outcome out" "outcome_status out = OutcomeFailed" "failure_code out = Some code"
  shows "\<exists>v db'. fail_run c i now (rn_id r) code out category db = (Inr v, db')
    \<and> rv_run_id v = rn_id r \<and> rv_status v = RunFailed"
proof -
  have st: "status_outcome RunFailed \<noteq> None" "AttemptFailed \<noteq> Started" by simp_all
  have claim: "claim_run (rn_id r) (\<lambda>r. rn_status r \<in> set ACTIVE_STATUSES) (ended RunFailed now 1 (Some out)) db
      = Some (ended RunFailed now 1 (Some out) r, put_run (ended RunFailed now 1 (Some out) r) db)"
    using inv_find [OF inv r(1)] r(2) by (simp add: claim_run_def is_active_def)
  obtain r' u db2 t v where s: "settle_usage c (ended RunFailed now 1 (Some out) r) now AttemptFailed category
        (put_run (ended RunFailed now 1 (Some out) r) db) = Inr (r', dump_run_usage u, db2)"
    "valid_run_usage u" "rn_id r' = rn_id r" "require_internal_run_consistency db2 r' False = Inr t"
    "run_view_of c r' = Inr v" "rv_run_id v = rn_id r" "rv_status v = RunFailed"
    and ins: "\<And>name d. insert_event (event_of r' i name d now) db2
      = Inr (db2\<lparr>db_events := db_events db @ [event_of r' i name d now]\<rparr>)"
    using close_total [OF inv r(1) clock fresh st, where out = "Some out" and category = category] r(3)
    by metis
  have ev: "make_event c r' i ''run.failed''
      (py_dict [(''status'', PStr (lit ''failed'')), (''error_code'', PStr (lit (failure_code_name code))),
                (''usage'', dump_run_usage u)]) (rn_last_seq r') now
      = Inr (event_of r' i ''run.failed'' (dump_payload c (RunFailedPayload code (Some u))) now)"
    using terminal_event_total(1) [OF rt s(2), of code] by (simp add: make_event_def event_of_def)
  have "\<exists>db'. fail_run_tx c i now (rn_id r) code out category db = Inr (r', db')"
    by (simp add: fail_run_tx_def claim s(1,3,4) ev [simplified] ins)
  moreover have "validated_terminal_outcome out OutcomeFailed (Some code) = Inr out"
    using out by (simp add: validated_terminal_outcome_def validate_execution_outcome_def)
  ultimately show ?thesis using s(5-7) by (auto simp: fail_run_def)
qed

lemma cancel_total:
  assumes inv: "db_inv c db" and r: "r \<in> set (db_runs db)" "is_active r" "\<not> is_internal (rn_actor_subject r)"
    and clock: "clock_ok now db" and fresh: "i \<notin> ev_id ` set (db_events db)" and rt: "time_round_trip c"
    and out: "valid_outcome out" "outcome_status out = OutcomeCancelled" and p: "subject p = rn_actor_subject r"
  shows "\<exists>v db'. cancel_run c i now (rn_id r) p out category db = (Inr v, db')
    \<and> rv_run_id v = rn_id r \<and> rv_status v = RunCancelled"
proof -
  have st: "status_outcome RunCancelled \<noteq> None" "AttemptCancelled \<noteq> Started" by simp_all
  have found: "find_run db (rn_id r) = Some r" using inv_find [OF inv r(1)] .
  have claim: "claim_run (rn_id r) (\<lambda>r. rn_status r \<in> set ACTIVE_STATUSES) (ended RunCancelled now 1 (Some out)) db
      = Some (ended RunCancelled now 1 (Some out) r, put_run (ended RunCancelled now 1 (Some out) r) db)"
    using found r(2) by (simp add: claim_run_def is_active_def)
  obtain r' u db2 t v where s: "settle_usage c (ended RunCancelled now 1 (Some out) r) now AttemptCancelled category
        (put_run (ended RunCancelled now 1 (Some out) r) db) = Inr (r', dump_run_usage u, db2)"
    "valid_run_usage u" "find_thread db (rn_thread_id r) = Some t" "th_owner_subject t = rn_actor_subject r"
    "run_view_of c r' = Inr v" "rv_run_id v = rn_id r" "rv_status v = RunCancelled"
    and ins: "\<And>name d. insert_event (event_of r' i name d now) db2
      = Inr (db2\<lparr>db_events := db_events db @ [event_of r' i name d now]\<rparr>)"
    using close_total [OF inv r(1) clock fresh st, where out = "Some out" and category = category]
    by metis
  have ev: "make_event c r' i ''run.cancelled''
      (py_dict [(''status'', PStr (lit ''cancelled'')), (''usage'', dump_run_usage u)]) (rn_last_seq r') now
      = Inr (event_of r' i ''run.cancelled'' (dump_payload c (RunCancelledPayload (Some u))) now)"
    using terminal_event_total(2) [OF rt s(2)] by (simp add: make_event_def event_of_def)
  have "\<exists>db'. cancel_run_tx c i now (rn_id r) p out category db = Inr (r', db')"
    using r(3) p
    by (simp add: cancel_run_tx_def found claim s(1,3,4) ev [simplified] ins)
  moreover have "validated_terminal_outcome out OutcomeCancelled None = Inr out"
    using out by (simp add: validated_terminal_outcome_def validate_execution_outcome_def)
  ultimately show ?thesis using s(5-7) by (auto simp: cancel_run_def)
qed

text \<open>Completing a running Run: one message and two events.\<close>

lemma insert_message_total:
  assumes "find_run db rid = Some q" "rn_thread_id q = ms_thread_id m" "ms_run_id m = Some rid"
    "find_thread db (ms_thread_id m) \<noteq> None" "ms_id m \<notin> ms_id ` set (db_messages db)"
  shows "insert_message m db = Inr (db\<lparr>db_messages := db_messages db @ [m]\<rparr>)"
proof -
  have "has_run db rid (ms_thread_id m)"
    using find_run_Some [OF assms(1)] assms(2) by (auto simp: has_run_def list_ex_iff)
  moreover have "\<not> list_ex (\<lambda>n. ms_id n = ms_id m) (db_messages db)"
    using assms(5) by (metis (mono_tags, lifting) imageI list_ex_iff)
  ultimately show ?thesis using assms(3,4) by (simp add: insert_message_def message_constraints_def)
qed

lemma complete_total:
  assumes inv: "db_inv c db" and r: "r \<in> set (db_runs db)" "rn_status r = RunRunning"
      "\<not> is_internal (rn_actor_subject r)"
    and clock: "clock_ok now db" and fresh: "i1 \<notin> ev_id ` set (db_events db)"
      "i2 \<notin> ev_id ` set (db_events db)" "i1 \<noteq> i2" "mi \<notin> ms_id ` set (db_messages db)"
    and rt: "time_round_trip c"
    and out: "valid_outcome out" "outcome_status out = OutcomeCompleted" "failure_code out = None"
  shows "\<exists>v db'. complete_run c mi i1 i2 now (rn_id r) content out category db = (Inr v, db')
    \<and> rv_run_id v = rn_id r \<and> rv_status v = RunCompleted"
proof -
  have st: "status_outcome RunCompleted \<noteq> None" "Interrupted \<noteq> Started" by simp_all
  have claim: "claim_run (rn_id r) (\<lambda>r. rn_status r = RunRunning) (ended RunCompleted now 2 (Some out)) db
      = Some (ended RunCompleted now 2 (Some out) r, put_run (ended RunCompleted now 2 (Some out) r) db)"
    using inv_find [OF inv r(1)] r(2) by (simp add: claim_run_def)
  show ?thesis
  proof (rule settle_claimed [OF inv r(1) clock st, of 2 "Some out" category], goal_cases)
    case (1 r' u db2 t v q)
    define m where "m = \<lparr>ms_id = mi, ms_thread_id = rn_thread_id r, ms_run_id = Some (rn_id r),
      ms_role = AssistantRole, ms_content = content, ms_created_at = now\<rparr>"
    define d where "d = dump_payload c (MessageCompletedPayload (message_view m))"
    define e1 where "e1 = (event_of r' i1 ''message.completed'' d now)\<lparr>ev_seq := rn_last_seq r + 1\<rparr>"
    define e2 where "e2 = event_of r' i2 ''run.completed'' (dump_payload c (RunCompletedPayload (Some u))) now"
    have d: "d = py_dict [(''message'', dump_message c (message_view m))]" by (simp add: d_def)
    have "validate_product_event c (lit ''message.completed'') d = Inr d"
      using validate_stored [OF rt, of "MessageCompletedPayload (message_view m)"]
      by (simp add: d_def message_view_def m_def)
    then have ev1: "make_event c r' i1 ''message.completed'' (py_dict [(''message'', dump_message c (message_view m))])
        (rn_last_seq r' - 1) now = Inr e1"
      by (simp add: make_event_def event_of_def e1_def 1(9) d)
    have ev2: "make_event c r' i2 ''run.completed''
        (py_dict [(''status'', PStr (lit ''completed'')), (''usage'', dump_run_usage u)]) (rn_last_seq r') now
        = Inr e2"
      using terminal_event_total(3) [OF rt 1(2)] by (simp add: make_event_def event_of_def e2_def)
    have im: "insert_message m db2 = Inr (db2\<lparr>db_messages := db_messages db2 @ [m]\<rparr>)"
      by (rule insert_message_total [OF 1(10)]) (use 1(6,11,13) fresh(4) in \<open>simp_all add: m_def\<close>)
    define db3 where "db3 = db2\<lparr>db_messages := db_messages db2 @ [m]\<rparr>"
    have same: "find_run db3 i = find_run db2 i" "find_thread db3 j = find_thread db2 j"
      "events_of db3 i = events_of db2 i" "db_events db3 = db_events db" for i j
      by (simp_all add: db3_def find_run_def find_thread_def events_of_def 1(5))
    have ok3: "schema_ok db3" using insert_message_ok(2) [OF im 1(4)] by (simp add: db3_def)
    have ie1: "insert_event e1 db3 = Inr (db3\<lparr>db_events := db_events db3 @ [e1]\<rparr>)"
      using next_seq_free [OF inv r(1) 1(5), of "rn_last_seq r + 1"] 1(7,8,10,11,13) fresh(1)
      by (intro insert_event_total [OF ok3, where q = q]) (simp_all add: e1_def event_of_def same)
    define db4 where "db4 = db3\<lparr>db_events := db_events db3 @ [e1]\<rparr>"
    have ok4: "schema_ok db4" using insert_event_ok(2) [OF ie1 ok3] by (simp add: db4_def)
    have "events_of db4 (rn_id r) = events_of db2 (rn_id r) @ [e1]"
      by (simp add: db4_def events_of_def e1_def event_of_def 1(5,7) same(4))
    then have seq2: "rn_last_seq r + 2 \<notin> ev_seq ` set (events_of db4 (rn_id r))"
      using next_seq_free [OF inv r(1) 1(5), of "rn_last_seq r + 2"] by (simp add: e1_def)
    have ie2: "insert_event e2 db4 = Inr (db4\<lparr>db_events := db_events db4 @ [e2]\<rparr>)"
      using seq2 1(7,8,9,10,11,13) fresh(2,3)
      by (intro insert_event_total [OF ok4, where q = q])
        (simp_all add: e1_def e2_def event_of_def db4_def same find_run_def find_thread_def
          same [unfolded find_run_def find_thread_def])
    have cons: "require_internal_run_consistency db2 r' False = Inr t" using 1(15) r(3) by simp
    have "\<exists>db'. complete_run_tx c mi i1 i2 now (rn_id r) content out category db = Inr (r', db')"
      using ie2 by (simp add: complete_run_tx_def claim 1(1,7,8) cons Let_def m_def [symmetric]
          ev1 [simplified] ev2 [simplified] im db3_def [symmetric] ie1 db4_def [symmetric])
    moreover have "validated_terminal_outcome out OutcomeCompleted None = Inr out"
      using out by (simp add: validated_terminal_outcome_def validate_execution_outcome_def)
    ultimately show ?case using 1(16-18) by (auto simp: complete_run_def)
  qed
qed

section \<open>The sources of an interrupted Run\<close>

lemma stored_source:
  assumes "time_round_trip c" "stored_event c e" "ev_type e = lit ''source.added''"
  shows "\<exists>i d. validate_product_event c (ev_type e) (ev_payload e) = Inr d
    \<and> dict_get d (lit ''source_id'') = PStr i \<and> len_between 1 128 i"
proof -
  obtain p where p: "ev_type e = lit (event_name (payload_event p))" "ev_payload e = dump_payload c p"
    "valid_payload p" "replayable p"
    using assms(2) by (auto simp: stored_event_def)
  have valid: "validate_product_event c (ev_type e) (ev_payload e) = Inr (dump_payload c p)"
    unfolding p(1,2) by (rule validate_stored [OF assms(1) p(3,4)])
  have "payload_event p = SourceAddedEvent" using p(1) assms(3) by (cases p) simp_all
  then obtain i l t where "p = SourceAddedPayload i l t" by (cases p) simp_all
  with valid p(3) show ?thesis by auto
qed

lemma collect_total:
  assumes "\<forall>e \<in> set es. stored_event c e \<and> ev_type e = lit ''source.added''" "time_round_trip c"
    and "valid_source_ids acc"
  shows "\<exists>ids. collect_source_ids c es acc = Inr ids \<and> valid_source_ids ids"
  using assms(1,3)
proof (induction es arbitrary: acc)
  case (Cons e es)
  then obtain i d where i: "validate_product_event c (ev_type e) (ev_payload e) = Inr d"
    "dict_get d (lit ''source_id'') = PStr i" "len_between 1 128 i"
    using stored_source [OF assms(2)] by (meson list.set_intros(1))
  have "valid_source_ids (if i \<in> set acc then acc else acc @ [i])"
    using Cons.prems(2) i(3) by (auto simp: valid_source_ids_def len_between_def)
  with Cons i(1,2) show ?case by simp
qed simp

lemma orphan_outcome_total:
  assumes inv: "db_inv c db" and r: "r \<in> set (db_runs db)" "is_active r" and rt: "time_round_trip c"
    and same: "\<forall>e \<in> set (events_of db' (rn_id r)). stored_event c e"
  shows "\<exists>out. orphan_outcome c r db' = Inr out"
proof -
  have row: "row_ok r" using inv_run(1) [OF inv r(1)] .
  then have none: "rn_execution_outcome r = None" using r(2) by (simp add: row_ok_def)
  show ?thesis
  proof (cases "rn_execution_plan r")
    case (Some plan)
    then have "valid_plan plan" using row by (simp add: row_ok_def)
    moreover have "\<forall>e \<in> set (sort_key ev_seq (filter (\<lambda>e. ev_type e = lit ''source.added'')
        (events_of db' (rn_id r)))). stored_event c e \<and> ev_type e = lit ''source.added''"
      using same by simp
    from collect_total [OF this rt, of "[]"] obtain ids where
      "collect_source_ids c (sort_key ev_seq (filter (\<lambda>e. ev_type e = lit ''source.added'')
        (events_of db' (rn_id r)))) [] = Inr ids" "valid_source_ids ids"
      by (auto simp: valid_source_ids_def)
    moreover have "valid_identifier (lit ''service_restarted'')"
      by (simp add: valid_identifier_def pattern_eval len_between_def lit_def)
    ultimately show ?thesis
      using none Some
      by (simp add: orphan_outcome_def validate_execution_plan_def orphaned_run_outcome_def
          make_outcome_def validate_execution_outcome_def valid_outcome_def outcome_fields_ok_def
          terminal_semantics_ok_def valid_source_ids_def)
  qed (simp add: orphan_outcome_def none)
qed

section \<open>Closing one orphan, and all of them\<close>

lemma close_orphan_total:
  assumes inv: "db_inv c db" and r: "r \<in> set (db_runs db)" "is_active r" and rt: "time_round_trip c"
    and clock: "clock_ok now db" and fresh: "new_id (rn_id r) \<notin> ev_id ` set (db_events db)"
  shows "\<exists>run db'. close_orphan c new_id now r db = Inr (Some run, db') \<and> clock_ok now db'
    \<and> ev_id ` set (db_events db') = insert (new_id (rn_id r)) (ev_id ` set (db_events db))
    \<and> (\<exists>v. run_view_of c run = Inr v)"
proof -
  have st: "status_outcome RunFailed \<noteq> None" "Interrupted \<noteq> Started" by simp_all
  have "\<forall>e \<in> set (events_of db (rn_id r)). stored_event c e"
    using inv_run(2) [OF inv r(1)] by (simp add: log_ok_def)
  then obtain out where out: "orphan_outcome c r db = Inr out"
    using orphan_outcome_total [OF inv r rt] by blast
  have claim: "claim_run (rn_id r) (\<lambda>q. rn_status q \<in> set ACTIVE_STATUSES) (ended RunFailed now 1 out) db
      = Some (ended RunFailed now 1 out r, put_run (ended RunFailed now 1 out r) db)"
    using inv_find [OF inv r(1)] r(2) by (simp add: claim_run_def is_active_def)
  obtain r' u db2 t v where s: "settle_usage c (ended RunFailed now 1 out r) now Interrupted (Some ServiceError)
        (put_run (ended RunFailed now 1 out r) db) = Inr (r', dump_run_usage u, db2)"
    "valid_run_usage u" "rn_id r' = rn_id r" "clock_ok now db2"
    "require_internal_run_consistency db2 r' True = Inr t" "run_view_of c r' = Inr v"
    and ins: "\<And>name d. insert_event (event_of r' (new_id (rn_id r)) name d now) db2
      = Inr (db2\<lparr>db_events := db_events db @ [event_of r' (new_id (rn_id r)) name d now]\<rparr>)"
    using close_total [OF inv r(1) clock fresh st, where out = out and category = "Some ServiceError"] by metis
  have ev: "make_event c r' (new_id (rn_id r)) ''run.failed''
      (py_dict [(''status'', PStr (lit ''failed'')), (''error_code'', PStr (lit ''service_restarted'')),
                (''usage'', dump_run_usage u)]) (rn_last_seq r') now
      = Inr (event_of r' (new_id (rn_id r)) ''run.failed''
              (dump_payload c (RunFailedPayload ServiceRestarted (Some u))) now)"
    using terminal_event_total(1) [OF rt s(2), of ServiceRestarted]
    by (simp add: make_event_def event_of_def)
  define db3 where "db3 = db2\<lparr>db_events := db_events db @ [event_of r' (new_id (rn_id r)) ''run.failed''
              (dump_payload c (RunFailedPayload ServiceRestarted (Some u))) now]\<rparr>"
  have "close_orphan c new_id now r db = Inr (Some r', put_thread (t\<lparr>th_updated_at := now\<rparr>) db3)"
    by (simp add: close_orphan_def out claim s(1,3,5) ev [simplified] ins db3_def)
  moreover have "clock_ok now (put_thread (t\<lparr>th_updated_at := now\<rparr>) db3)"
    using s(4) by (simp add: clock_ok_def db3_def put_thread_def)
  moreover have "ev_id ` set (db_events (put_thread (t\<lparr>th_updated_at := now\<rparr>) db3))
      = insert (new_id (rn_id r)) (ev_id ` set (db_events db))"
    by (simp add: db3_def put_thread_def event_of_def)
  ultimately show ?thesis using s(6) by blast
qed

lemma close_orphan_next:
  assumes inv: "db_inv c db" and q: "q \<in> set (db_runs db)" "is_active q"
    and one: "close_orphan c new_id now q db = Inr (x, db1)"
  shows "db_inv c db1" and "i \<noteq> rn_id q \<Longrightarrow> find_run db1 i = find_run db i"
proof -
  note ok = inv_parts(1) [OF inv]
  have found: "find_run db (rn_id q) = Some q" using inv_find [OF inv q(1)] .
  then have moved: "moved_to c (rn_id q) RunFailed db db1"
    using close_orphan_moves [OF one ok] q(2) by (metis option.inject)
  have st: "status_outcome RunFailed \<noteq> None" by simp
  note F = moved_to_facts [OF moved ok st]
  show "db_inv c db1" by (rule change_inv [OF inv F(2)])
  show "i \<noteq> rn_id q \<Longrightarrow> find_run db1 i = find_run db i" by (rule F(5))
qed

lemma close_orphans_total:
  assumes "db_inv c db" "set rs \<subseteq> set (db_runs db)" "\<forall>r \<in> set rs. is_active r" "distinct (map rn_id rs)"
    and "clock_ok now db" "inj_on new_id (rn_id ` set rs)"
    and "new_id ` rn_id ` set rs \<inter> ev_id ` set (db_events db) = {}" and rt: "time_round_trip c"
  shows "\<exists>runs db'. close_orphans c new_id now rs db = Inr (runs, db')
    \<and> (\<forall>run \<in> set runs. \<exists>v. run_view_of c run = Inr v)"
  using assms(1-7)
proof (induction rs arbitrary: db)
  case (Cons q rs)
  have q: "q \<in> set (db_runs db)" "is_active q" "new_id (rn_id q) \<notin> ev_id ` set (db_events db)"
    using Cons.prems(2,3,7) by auto
  obtain run db1 where one: "close_orphan c new_id now q db = Inr (Some run, db1)" "clock_ok now db1"
    "ev_id ` set (db_events db1) = insert (new_id (rn_id q)) (ev_id ` set (db_events db))"
    "\<exists>v. run_view_of c run = Inr v"
    using close_orphan_total [of c db q now new_id, OF Cons.prems(1) q(1,2) rt Cons.prems(5) q(3)] by blast
  note after = close_orphan_next [OF Cons.prems(1) q(1,2) one(1)]
  have "\<exists>runs db'. close_orphans c new_id now rs db1 = Inr (runs, db')
    \<and> (\<forall>run \<in> set runs. \<exists>v. run_view_of c run = Inr v)"
  proof (rule Cons.IH)
    show "set rs \<subseteq> set (db_runs db1)"
    proof
      fix r assume r: "r \<in> set rs"
      then have "rn_id r \<noteq> rn_id q" using Cons.prems(4) by (auto simp: image_iff)
      then have "find_run db1 (rn_id r) = Some r"
        using after(2) inv_find [OF Cons.prems(1), of r] Cons.prems(2) r by auto
      then show "r \<in> set (db_runs db1)" using find_run_Some by blast
    qed
    have "new_id (rn_id q) \<notin> new_id ` rn_id ` set rs"
      using Cons.prems(4,6) by (auto simp: inj_on_def)
    then show "new_id ` rn_id ` set rs \<inter> ev_id ` set (db_events db1) = {}"
      using Cons.prems(7) one(3) by auto
  qed (use Cons.prems one(2) after(1) in \<open>auto simp: inj_on_def\<close>)
  with one(1,4) show ?case by fastforce
qed simp

lemma order_by_distinct: "distinct (map f (order_by g h xs)) = distinct (map f xs)"
  by (simp add: distinct_map order_by_def)

lemma sweep_total:
  assumes "db_inv c db" "clock_ok now db" "time_round_trip c"
    and "inj_on new_id (rn_id ` set (db_runs db))"
    and "new_id ` rn_id ` set (db_runs db) \<inter> ev_id ` set (db_events db) = {}"
  shows "\<exists>views db'. fail_orphaned_runs c new_id now db = (Inr views, db')"
proof -
  have "distinct (map rn_id (db_runs db))"
    using inv_parts(1) [OF assms(1)] by (simp add: schema_defs)
  then have dist: "distinct (map rn_id (orphans db))"
    unfolding orphans_def order_by_distinct by (rule distinct_map_filter)
  have sub: "set (orphans db) \<subseteq> set (db_runs db)" "\<forall>r \<in> set (orphans db). is_active r"
    by (auto simp: set_orphans)
  have inj: "inj_on new_id (rn_id ` set (orphans db))"
    using assms(4) sub(1) by (auto intro: inj_on_subset)
  have "new_id ` rn_id ` set (orphans db) \<inter> ev_id ` set (db_events db) = {}"
    using assms(5) sub(1) by auto
  from close_orphans_total [OF assms(1) sub dist assms(2) inj this assms(3)]
  obtain runs db' where runs: "close_orphans c new_id now (orphans db) db = Inr (runs, db')"
    and views: "\<forall>run \<in> set runs. \<exists>v. run_view_of c run = Inr v"
    by blast
  then obtain vs where "traverse (run_view_of c) runs = Inr vs"
    using traverse_ok [of runs "run_view_of c"] by blast
  with runs show ?thesis
    unfolding fail_orphaned_runs_def orphans_def [symmetric] by simp
qed

end
