(* ===== verification/Store_Demo.thy ===== *)
theory Store_Demo
  imports Store_Progress Run_Properties
begin

text \<open>
  A short concrete history of the repository: a thread, a Run with the plan of the sample Agent,
  its start, and the sweep of a restarted process. The witnesses of Store_Properties use it.
\<close>

abbreviation demo_cc :: "nat \<Rightarrow> bool" where
  "demo_cc \<equiv> \<lambda>n. n < 32"

lemma plain_time: "time_round_trip plain_codec"
  by (simp add: time_round_trip_def plain_codec_def)

definition demo_db1 :: db where
  "demo_db1 = snd (create_thread (lit ''t'') 1 anonymous_principal None empty_db)"

definition demo_db2 :: db where
  "demo_db2 = snd (create_run plain_codec (lit ''r'') (lit ''m'') 2 anonymous_principal (lit ''t'')
     (lit ''hi'') (lit ''k'') demo_plan demo_db1 demo_db1)"

definition demo_db3 :: db where
  "demo_db3 = snd (start_run plain_codec (lit ''e'') 3 (lit ''r'') demo_db2)"

definition demo_row :: run_row where
  "demo_row = new_run_row (lit ''r'') 2 anonymous_principal (lit ''t'') (lit ''k'') demo_plan"

definition demo_started_row :: run_row where
  "demo_started_row = demo_row\<lparr>rn_status := RunRunning, rn_last_seq := 1\<rparr>"

lemma demo_plan_valid: "valid_plan demo_plan"
proof -
  have visible: "[lit ''get_current_time''] = visible_tools (kernel_registry demo_kernel) demo_agent demo_decision"
    by (simp add: visible_tools_def demo_agent_def demo_kernel_def enabled_tool_ids_def
        demo_registry_def time_tool_def demo_decision_def)
  have ids: "decision_policy_id demo_decision = kernel_policy_id demo_kernel"
    "decision_policy_version demo_decision = kernel_policy_version demo_kernel"
    by (simp_all add: demo_decision_def demo_kernel_def)
  from build_plan_ok [OF demo_kernel_valid demo_agent_valid hex_env_hex visible ids, of "\<lambda>_. lit ''60''"]
  show ?thesis by (auto simp: demo_plan_def)
qed

lemma demo_subject: "\<not> is_internal (subject anonymous_principal)"
  by (simp add: anonymous_principal_def is_internal_def INTERNAL_SUBJECT_PREFIX_def
      ANONYMOUS_DEVELOPMENT_SUBJECT_def py_startswith_def lit_def)

lemma demo_owner: "require_owner anonymous_principal (subject anonymous_principal) k = Inr ()"
  by (simp add: demo_subject)

lemma demo_db1_eq:
  "demo_db1 = empty_db\<lparr>db_threads := [\<lparr>th_id = lit ''t'', th_owner_subject = subject anonymous_principal,
     th_title = lit ''New conversation'', th_created_at = 1, th_updated_at = 1\<rparr>]\<rparr>"
  by (simp add: demo_db1_def create_thread_def insert_thread_def find_thread_def empty_db_def Let_def)

lemma demo_db2_eq:
  "db_runs demo_db2 = [demo_row]" "db_events demo_db2 = []" "db_attempts demo_db2 = []"
  "db_threads demo_db2 = [\<lparr>th_id = lit ''t'', th_owner_subject = subject anonymous_principal,
     th_title = lit ''New conversation'', th_created_at = 1, th_updated_at = 2\<rparr>]"
  by (simp_all add: demo_db2_def create_run_def validate_execution_plan_def demo_plan_valid
      create_run_tx_def demo_db1_eq find_thread_def empty_db_def require_thread_owner_def
      demo_owner require_thread_run_consistency_def requireE_def find_idempotent_def active_run_def
      insert_run_def run_constraints_def find_run_def new_run_row_def insert_message_def
      message_constraints_def user_message_row_def has_run_def touch_thread_def put_thread_def
      Let_def demo_row_def)

lemma demo_db3_eq:
  "db_runs demo_db3 = [demo_started_row]" "db_attempts demo_db3 = []"
  "map ev_id (db_events demo_db3) = [lit ''e'']"
  by (simp_all add: demo_db3_def start_run_def claim_run_def find_run_def demo_db2_eq demo_row_def
      new_run_row_def put_run_def require_internal_run_consistency_def find_thread_def demo_subject
      make_event_def validate_product_event_def find_event_type_def PRODUCT_EVENT_TYPES_def
      literal_status_def insert_event_def event_constraints_def has_run_def demo_started_row_def)

lemma demo_reached:
  "reaches db_init (db_step plain_codec cc) demo_db1"
  "reaches db_init (db_step plain_codec cc) demo_db2"
  "reaches db_init (db_step plain_codec cc) demo_db3"
proof -
  show 1: "reaches db_init (db_step plain_codec cc) demo_db1"
    unfolding demo_db1_def
    by (rule reaches_step [where s = empty_db], rule reaches_init,
        simp add: db_init_def, rule step_create_thread, rule prod.collapse [symmetric])
  have ok: "schema_ok demo_db1" using inv_parts(1) [OF reached_inv [OF 1]] .
  show 2: "reaches db_init (db_step plain_codec cc) demo_db2"
    unfolding demo_db2_def
    by (rule reaches_step [OF 1], intro step_create_run [where snap = demo_db1])
      (rule ok, simp, rule prod.collapse [symmetric])
  show "reaches db_init (db_step plain_codec cc) demo_db3"
    unfolding demo_db3_def
    by (rule reaches_step [OF 2], rule step_start_run, rule prod.collapse [symmetric])
qed

lemma demo_row_fields:
  "rn_id demo_started_row = lit ''r''" "rn_thread_id demo_started_row = lit ''t''"
  "rn_idempotency_key demo_started_row = lit ''k''" "is_active demo_started_row"
  "rn_last_seq demo_started_row = 1" "rn_status demo_started_row = RunRunning"
  "rn_actor_subject demo_started_row = subject anonymous_principal"
  "rn_metering_version demo_started_row \<noteq> None" "rn_execution_plan demo_started_row \<noteq> None"
  by (simp_all add: demo_started_row_def demo_row_def new_run_row_def is_active_iff)

lemma demo_started_in: "demo_started_row \<in> set (db_runs demo_db3)"
  by (simp add: demo_db3_eq)

end
