(* ===== verification/Store_Properties.thy ===== *)
theory Store_Properties
  imports Store_Demo
begin

text \<open>
  The properties of the repository over every state it can reach: the event log of a Run, the
  immutability of ended Runs, exclusiveness inside a thread, the abstract life of a Run, the
  idempotent creation, the replay of events, ownership, the recovery sweep, and the agreement
  of the usage stored at the end of a Run with the one its ledger computes.
\<close>

section \<open>Logs, ends and exclusiveness\<close>

text \<open>
  C8. In every state the repository can reach, the stored events of a Run are numbered 1, 2, 3
  up to its \<open>last_seq\<close> without a gap or a repetition, in the order they were committed, and
  their types follow the protocol of the Run's status: nothing while it is created, then
  \<open>run.started\<close>, then runtime events, then exactly the closing events of its end.
\<close>

theorem event_log_contiguous:
  assumes "reaches db_init (db_step c cc) db" "r \<in> set (db_runs db)"
  shows "map ev_seq (events_of db (rn_id r)) = [1..rn_last_seq r]
    \<and> trace_ok (rn_status r) (map ev_type (events_of db (rn_id r)))"
  using inv_run(2) [OF reached_inv [OF assms(1)] assms(2)] by (simp add: log_ok_def)

text \<open>
  C7. A Run that has ended is never written again: whatever operations any callers run later, with
  any arguments, its row, its events, its provider attempts and its messages stay as they are.
\<close>

theorem ended_run_frozen:
  assumes "reaches db_init (db_step c cc) db" "r \<in> set (db_runs db)" "\<not> is_active r"
    and "(db_step c cc)\<^sup>*\<^sup>* db db'"
  shows "find_run db' (rn_id r) = Some r
    \<and> events_of db' (rn_id r) = events_of db (rn_id r)
    \<and> attempts_of db' (rn_id r) = attempts_of db (rn_id r)
    \<and> messages_of db' (rn_id r) = messages_of db (rn_id r)"
  using changes_frozen [OF reached_steps(2) [OF assms(1,4)] inv_parts(1) [OF reached_inv [OF assms(1)]] assms(2,3)]
    find_run_intro by blast

text \<open>
  In every reachable state two Runs of one thread that are both active are the same Run, and so
  are two Runs of one thread with the same idempotency key; the actor of a Run is the owner of
  its thread.
\<close>

theorem thread_exclusive:
  assumes "reaches db_init (db_step c cc) db" "r \<in> set (db_runs db)" "q \<in> set (db_runs db)"
    and "rn_thread_id r = rn_thread_id q"
  shows "(is_active r \<and> is_active q \<longrightarrow> r = q)
    \<and> (rn_idempotency_key r = rn_idempotency_key q \<longrightarrow> r = q)
    \<and> (\<exists>t. find_thread db (rn_thread_id r) = Some t
         \<and> th_owner_subject t = rn_actor_subject r \<and> rn_actor_subject q = rn_actor_subject r)"
proof (intro conjI impI)
  note ok = inv_parts(1) [OF reached_inv [OF assms(1)]]
  show "is_active r \<and> is_active q \<Longrightarrow> r = q"
    using active_run_unique [OF ok assms(2,3)] assms(4) by simp
  show "rn_idempotency_key r = rn_idempotency_key q \<Longrightarrow> r = q"
    using find_idempotent_intro [OF ok assms(2)] find_idempotent_intro [OF ok assms(3)] assms(4)
    by (metis option.inject)
  obtain t where t: "find_thread db (rn_thread_id r) = Some t" "th_owner_subject t = rn_actor_subject r"
    by (rule thread_of_run [OF reached_inv [OF assms(1)] assms(2)])
  obtain u where "find_thread db (rn_thread_id q) = Some u" "th_owner_subject u = rn_actor_subject q"
    by (rule thread_of_run [OF reached_inv [OF assms(1)] assms(3)])
  with t assms(4) show "\<exists>t. find_thread db (rn_thread_id r) = Some t
      \<and> th_owner_subject t = rn_actor_subject r \<and> rn_actor_subject q = rn_actor_subject r"
    by auto
qed

text \<open>
  C38. A Run that has ended carries its end completely: the time, an outcome of the status it ended
  with when it has a plan, final usage that counts exactly the stored provider attempts, none of
  which is open; a completed Run has one answer after its one question, any other only the
  question.
\<close>

theorem ended_run_complete:
  assumes "reaches db_init (db_step c cc) db" "r \<in> set (db_runs db)" "\<not> is_active r"
    and "rn_metering_version r \<noteq> None" "rn_execution_plan r \<noteq> None"
  shows "rn_completed_at r \<noteq> None
    \<and> (\<exists>out. rn_execution_outcome r = Some out \<and> valid_outcome out
         \<and> status_outcome (rn_status r) = Some (outcome_status out))
    \<and> (\<forall>a \<in> set (attempts_of db (rn_id r)). ma_status a \<noteq> Started)
    \<and> (\<exists>v. run_view_of c r = Inr v \<and> usage_state (rv_usage v) = FinalState
         \<and> model_call_count (rv_usage v) = Some (int (length (attempts_of db (rn_id r)))))
    \<and> map ms_role (messages_of db (rn_id r))
        = (if rn_status r = RunCompleted then [UserRole, AssistantRole] else [UserRole])"
proof (intro conjI)
  note ok = inv_run [OF reached_inv [OF assms(1)] assms(2)]
  show "rn_completed_at r \<noteq> None" using ok(1) assms(3) by (simp add: row_ok_def)
  have "outcome_matches (rn_status r) (rn_execution_outcome r)"
    using ok(1) assms(3,5) by (simp add: row_ok_def)
  then show "\<exists>out. rn_execution_outcome r = Some out \<and> valid_outcome out
      \<and> status_outcome (rn_status r) = Some (outcome_status out)"
    by (auto simp: outcome_matches_def split: option.splits)
  have settled: "settled_usage (rn_usage_metrics r) (attempts_of db (rn_id r))"
    using ok(3) assms(3,4) by (simp add: usage_ok_def)
  then show "\<forall>a \<in> set (attempts_of db (rn_id r)). ma_status a \<noteq> Started"
    by (simp add: settled_usage_def)
  show "\<exists>v. run_view_of c r = Inr v \<and> usage_state (rv_usage v) = FinalState
      \<and> model_call_count (rv_usage v) = Some (int (length (attempts_of db (rn_id r))))"
    using settled assms(4) by (auto simp: settled_usage_def run_view_of_def row_usage_def)
  show "map ms_role (messages_of db (rn_id r))
      = (if rn_status r = RunCompleted then [UserRole, AssistantRole] else [UserRole])"
    using ok(4) by (simp add: roles_ok_def)
qed

section \<open>The abstract life of a Run\<close>

text \<open>
  C6. Refinement of the abstract life of a Run: along any history, however operations on this and
  other Runs interleave, the status of a Run takes a path of the abstract machine, and what is
  appended to its log are exactly the events of that path; its identity never changes.
\<close>

theorem run_refines_life:
  assumes "reaches db_init (db_step c cc) db" "(db_step c cc)\<^sup>*\<^sup>* db db'" "r \<in> set (db_runs db)"
  shows "\<exists>r' names. r' \<in> set (db_runs db') \<and> same_run r r'
    \<and> life_path (rn_status r) (rn_status r') names
    \<and> map ev_type (events_of db' (rn_id r)) = map ev_type (events_of db (rn_id r)) @ map lit names"
  using changes_follow [OF reached_steps(2) [OF assms(1,2)] inv_parts(1) [OF reached_inv [OF assms(1)]] assms(3)]
  by (auto simp: follows_def)

section \<open>Idempotent creation\<close>

lemma idempotent_views:
  assumes reached: "reaches db_init (db_step c cc) db" and r: "r \<in> set (db_runs db)"
    and key: "rn_thread_id r = tid" "rn_idempotency_key r = key"
    and p: "subject p = rn_actor_subject r" "\<not> is_internal (subject p)"
  obtains t v where "find_thread db tid = Some t" "require_thread_owner t p = Inr ()"
    "require_thread_run_consistency db t = Inr ()" "find_idempotent db tid key = Some r"
    "existing_run_view c r p = Inr v" "rv_run_id v = rn_id r"
proof -
  obtain t where t: "find_thread db tid = Some t" "th_owner_subject t = rn_actor_subject r"
    using thread_of_run [OF reached_inv [OF reached] r] key(1) by blast
  obtain v where v: "run_view_of c r = Inr v" "rv_run_id v = rn_id r"
    using run_view_total [OF reached_inv [OF reached] r] by blast
  show thesis
  proof (rule that)
    show "require_thread_owner t p = Inr ()" using t(2) p by (simp add: require_thread_owner_def)
    show "find_idempotent db tid key = Some r"
      using find_idempotent_intro [OF inv_parts(1) [OF reached_inv [OF reached]] r] key by simp
    show "existing_run_view c r p = Inr v"
      using v p by (simp add: existing_run_view_def require_run_actor_def)
  qed (use t(1) v(2) consistent_thread [OF reached_inv [OF reached] t(1)] in simp_all)
qed

lemma same_owner:
  assumes reached: "reaches db_init (db_step c cc) snap" "(db_step c cc)\<^sup>*\<^sup>* snap db"
    and t: "find_thread snap tid = Some t" and u: "find_thread db tid = Some u"
  shows "th_owner_subject t = th_owner_subject u"
proof -
  have "(tid, th_owner_subject t) \<in> set (thread_keys db)"
    using owner_in_keys [OF t] changes_thread_keys [OF reached_steps(2) [OF reached]] by blast
  then obtain w where w: "w \<in> set (db_threads db)" "th_id w = tid" "th_owner_subject w = th_owner_subject t"
    by (auto simp: thread_keys_def)
  have "schema_ok db" using inv_parts(1) [OF reached_inv [OF reached_steps(1) [OF reached]]] .
  then have "find_thread db tid = Some w" using find_thread_intro w by blast
  with u w(3) show ?thesis by simp
qed

text \<open>
  C22. Creating a Run is idempotent. Once a thread has a Run with some key, its owner's request with
  that key, with any content and any plan, returns that Run as not created and writes nothing.
  The same holds when the request had read an older state without the Run, in which it would have
  inserted one: the unique constraint stops the insert and the recovery finds the winner.
\<close>

theorem create_run_idempotent:
  assumes "reaches db_init (db_step c cc) snap" "(db_step c cc)\<^sup>*\<^sup>* snap db"
    and "r \<in> set (db_runs db)" "rn_thread_id r = tid" "rn_idempotency_key r = key"
    and "subject p = rn_actor_subject r" "\<not> is_internal (subject p)" "valid_plan plan"
    and "find_thread snap tid \<noteq> None"
    and "find_idempotent snap tid key \<noteq> None \<or> active_run snap tid = None"
  shows "\<exists>v. create_run c i mi now p tid content key plan snap db = (Inr (v, False), db)
    \<and> rv_run_id v = rn_id r"
proof -
  note reached = reached_steps [OF assms(1,2)]
  obtain u v where db: "find_thread db tid = Some u" "require_thread_owner u p = Inr ()"
    "require_thread_run_consistency db u = Inr ()" "find_idempotent db tid key = Some r"
    "existing_run_view c r p = Inr v" "rv_run_id v = rn_id r"
    by (rule idempotent_views [OF reached(1) assms(3-7)])
  obtain t where t: "find_thread snap tid = Some t" using assms(9) by blast
  have "th_owner_subject t = th_owner_subject u" by (rule same_owner [OF assms(1,2) t db(1)])
  then have own: "require_thread_owner t p = Inr ()" using db(2) by (simp add: require_thread_owner_def)
  note cons = consistent_thread [OF reached_inv [OF assms(1)] t]
  have plan: "validate_execution_plan plan = Inr plan"
    using assms(8) by (simp add: validate_execution_plan_def)
  show ?thesis
  proof (cases "find_idempotent snap tid key")
    case (Some q)
    note q = find_idempotent_Some [OF Some]
    obtain r' where r': "r' \<in> set (db_runs db)" "same_run q r'"
      using changes_follow [OF reached(2) inv_parts(1) [OF reached_inv [OF assms(1)]]] q by (auto simp: follows_def)
    then have "find_idempotent db tid key = Some r'"
      using find_idempotent_intro [OF inv_parts(1) [OF reached_inv [OF reached(1)]] r'(1)] q
      by (simp add: same_run_def)
    with db(4) r'(2) have same: "same_run q r" by simp
    then have "subject p = rn_actor_subject q" using assms(6) by (simp add: same_run_def)
    then obtain w where w: "existing_run_view c q p = Inr w" "rv_run_id w = rn_id q"
      using idempotent_views [OF assms(1) _ _ _ _ assms(7), of q tid key] q by metis
    have "create_run_tx c snap run m p tid key db = Inr (Some w, db)" for run m
      by (simp add: create_run_tx_def t own cons Some w(1))
    then show ?thesis
      using w(2) same by (simp add: create_run_def plan Let_def same_run_def)
  next
    case None
    then have "create_run_tx c snap (new_run_row i now p tid key plan) m p tid key db
        = Inl IntegrityError" for m
      using assms(10)
      by (simp add: create_run_tx_def t own cons insert_run_def run_constraints_def new_run_row_def db(4))
    then show ?thesis
      using db by (simp add: create_run_def plan Let_def create_run_recover_def)
  qed
qed

section \<open>Replay of events\<close>

text \<open>
  C27. Replay is exact: in every reachable state the owner of a Run gets its whole log, numbered
  1 to \<open>last_seq\<close>, and asking for the events after number n gets exactly what the first n
  leave of it. No stored event fails to be read back, whatever the Runs have been through.
\<close>

theorem replay_exact:
  assumes "reaches db_init (db_step c cc) db" "r \<in> set (db_runs db)" "time_round_trip c"
    and "subject p = rn_actor_subject r" "\<not> is_internal (subject p)"
  shows "\<exists>vs. get_events c (rn_id r) 0 p db = Inr vs
    \<and> map ee_seq vs = [1..rn_last_seq r]
    \<and> map ee_event_id vs = map ev_id (events_of db (rn_id r))
    \<and> get_events c (rn_id r) n p db = Inr (drop (nat n) vs)"
proof -
  note inv = reached_inv [OF assms(1)]
  have seqs: "map ev_seq (events_of db (rn_id r)) = [1..rn_last_seq r]"
    using inv_run(2) [OF inv assms(2)] by (simp add: log_ok_def)
  show ?thesis
    unfolding read_events [OF inv assms(2-5)] using seqs by (simp add: drop_map envelope_def comp_def)
qed

section \<open>Stored documents\<close>


section \<open>Ownership\<close>

lemma foreign_denied:
  assumes "reaches db_init (db_step c cc) db" "r \<in> set (db_runs db)" "subject p \<noteq> rn_actor_subject r"
  shows "require_authorized_run db r p = Inl (ResourceForbiddenError RunResource)"
proof -
  obtain t where "find_thread db (rn_thread_id r) = Some t" "th_owner_subject t = rn_actor_subject r"
    by (rule thread_of_run [OF reached_inv [OF assms(1)] assms(2)])
  with assms(3) show ?thesis
    by (simp add: require_authorized_run_def require_owner_def)
qed


section \<open>The recovery sweep\<close>

text \<open>
  C25. Recovery always succeeds and closes exactly what it has to. In every reachable state, with a
  clock that is not behind the attempts and with unused event ids, the sweep of a starting
  process returns: no Run is active after it, every Run that was active has failed, and every
  Run that had ended is as it was.
\<close>

theorem sweep_recovers:
  assumes "reaches db_init (db_step c cc) db" "time_round_trip c" "clock_ok now db"
    and "inj_on new_id (rn_id ` set (db_runs db))"
    and "new_id ` rn_id ` set (db_runs db) \<inter> ev_id ` set (db_events db) = {}"
  shows "\<exists>views db'. fail_orphaned_runs c new_id now db = (Inr views, db')
    \<and> (\<forall>r \<in> set (db_runs db'). \<not> is_active r)
    \<and> (\<forall>r \<in> set (db_runs db). \<exists>r'. find_run db' (rn_id r) = Some r'
         \<and> (if is_active r then rn_status r' = RunFailed else r' = r))"
proof -
  note inv = reached_inv [OF assms(1)]
  obtain views db' where sweep: "fail_orphaned_runs c new_id now db = (Inr views, db')"
    using sweep_total [OF inv assms(3,2,4,5)] by blast
  with sweep_result [OF inv sweep] show ?thesis by blast
qed

text \<open>
  An active Run can always be ended: with a valid outcome, unused ids and a clock not behind
  the attempts, failing it succeeds, so does its owner cancelling it, and so does completing it
  when it is running; each returns the view of this Run in the requested status.
\<close>

theorem active_run_closable:
  assumes "reaches db_init (db_step c cc) db" "r \<in> set (db_runs db)" "is_active r"
    and "\<not> is_internal (rn_actor_subject r)" "time_round_trip c" "clock_ok now db"
    and "i \<notin> ev_id ` set (db_events db)" "valid_outcome out"
  shows "(outcome_status out = OutcomeFailed \<and> failure_code out = Some code \<longrightarrow>
      (\<exists>v db'. fail_run c i now (rn_id r) code out category db = (Inr v, db')
        \<and> rv_run_id v = rn_id r \<and> rv_status v = RunFailed))
    \<and> (outcome_status out = OutcomeCancelled \<and> subject p = rn_actor_subject r \<longrightarrow>
      (\<exists>v db'. cancel_run c i now (rn_id r) p out category db = (Inr v, db')
        \<and> rv_run_id v = rn_id r \<and> rv_status v = RunCancelled))
    \<and> (outcome_status out = OutcomeCompleted \<and> failure_code out = None \<and> rn_status r = RunRunning
        \<and> i2 \<notin> ev_id ` set (db_events db) \<and> i \<noteq> i2 \<and> mi \<notin> ms_id ` set (db_messages db) \<longrightarrow>
      (\<exists>v db'. complete_run c mi i i2 now (rn_id r) content out category db = (Inr v, db')
        \<and> rv_run_id v = rn_id r \<and> rv_status v = RunCompleted))"
  using fail_total [OF reached_inv [OF assms(1)] assms(2-4,6,7,5,8)]
    cancel_total [OF reached_inv [OF assms(1)] assms(2-4,6,7,5,8)]
    complete_total [OF reached_inv [OF assms(1)] assms(2) _ assms(4,6,7) _ _ _ assms(5,8)]
  by (intro conjI impI) blast+

section \<open>The usage of a closed Run and its ledger\<close>

text \<open>A row of the attempts table that mirrors an attempt of the ledger of the Run.\<close>

definition mirrors :: "attempt_row \<Rightarrow> attempt \<Rightarrow> bool" where
  "mirrors a b \<longleftrightarrow>
     ma_id a = start_attempt_id (att_start b) \<and> ma_call_index a = call_index (att_start b)
     \<and> ma_attempt_index a = attempt_index (att_start b) \<and> ma_call_kind a = call_kind (att_start b)
     \<and> ma_status a = att_status b
     \<and> ma_tokens a = (case att_usage b of None \<Rightarrow> no_tokens | Some u \<Rightarrow> u)"

lemma mirrored_tokens:
  "mirrors a b \<Longrightarrow> get_token f (ma_tokens a)
     = (case att_usage b of Some u \<Rightarrow> get_token f u | None \<Rightarrow> None)"
  by (cases f) (auto simp: mirrors_def no_tokens_def split: option.splits)

lemma mirrored_metric: "list_all2 mirrors rows atts \<Longrightarrow> attempt_token_metric rows f = token_metric atts f"
proof -
  assume m: "list_all2 mirrors rows atts"
  have "map (\<lambda>a. get_token f (ma_tokens a)) rows
    = map (\<lambda>b. case att_usage b of Some u \<Rightarrow> get_token f u | None \<Rightarrow> None) atts"
    using m by (induction rule: list_all2_induct) (simp_all add: mirrored_tokens)
  moreover have "rows = [] \<longleftrightarrow> atts = []" using m by auto
  ultimately show ?thesis by (simp add: attempt_token_metric_def token_metric_def)
qed

lemma mirrored_retries:
  "list_all2 mirrors rows atts \<Longrightarrow>
     int (length (filter (\<lambda>a. 1 < ma_attempt_index a) rows)) = retries_of atts"
  by (induction rule: list_all2_induct) (auto simp: retries_of_def mirrors_def)

text \<open>
  C39. The usage the repository stores when it closes a Run is the usage the Run's own ledger reports:
  when the rows of the Run mirror the attempts of its ledger, both give the same number of calls
  and retries and the same five Token metrics with the same availability, for any clock.
\<close>

theorem stored_usage_equals_ledger:
  assumes "list_all2 mirrors rows (ledger_attempts led)"
    and "terminal_run_usage run rows t category = Inr u" "snapshot now category led = Inr w"
  shows "model_call_count u = model_call_count w \<and> retry_count u = retry_count w
    \<and> input_metric u = input_metric w \<and> output_metric u = output_metric w
    \<and> cached_metric u = cached_metric w \<and> reasoning_metric u = reasoning_metric w
    \<and> total_metric u = total_metric w \<and> error_category u = error_category w
    \<and> usage_state u = usage_state w"
proof -
  note metric = mirrored_metric [OF assms(1)]
  have len: "length rows = length (ledger_attempts led)" using assms(1) by (rule list_all2_lengthD)
  show ?thesis
    using assms(2,3) len mirrored_retries [OF assms(1)]
    by (auto simp: terminal_run_usage_def snapshot_def metric Let_def make_run_usage_def split: if_splits)
qed

section \<open>The properties at work on the sample history\<close>

text \<open>The sample history ends with the sweep of a restarted process.\<close>

definition demo_db4 :: db where
  "demo_db4 = snd (fail_orphaned_runs plain_codec (\<lambda>_. lit ''x'') 4 demo_db3)"

definition demo_cancelled :: execution_outcome where
  "demo_cancelled = \<lparr>outcome_status = OutcomeCancelled, stop_reason = lit ''cancelled'',
     failure_code = None, outcome_usage = None, accepted_source_ids = [], result_source_ids = [],
     result_schema_version = None, result_validation = NotRun\<rparr>"

lemma demo_cancelled_valid: "valid_outcome demo_cancelled" "outcome_status demo_cancelled = OutcomeCancelled"
  by (simp_all add: demo_cancelled_def valid_outcome_def outcome_fields_ok_def terminal_semantics_ok_def
      valid_source_ids_def pattern_eval lit_def)

lemma demo_clock: "clock_ok n demo_db3"
  by (simp add: clock_ok_def demo_db3_eq)

lemma demo_fresh: "lit ''x'' \<notin> ev_id ` set (db_events demo_db3)"
proof -
  have "ev_id ` set (db_events demo_db3) = {lit ''e''}"
    using arg_cong [OF demo_db3_eq(3), of set] by simp
  then show ?thesis by simp
qed

lemma demo_sweep_fresh:
  "inj_on (\<lambda>_. lit ''x'') (rn_id ` set (db_runs demo_db3))"
  "(\<lambda>_. lit ''x'') ` rn_id ` set (db_runs demo_db3) \<inter> ev_id ` set (db_events demo_db3) = {}"
  using demo_fresh by (simp_all add: demo_db3_eq(1))

lemma demo_swept:
  "reaches db_init (db_step plain_codec demo_cc) demo_db4"
  "\<exists>r. find_run demo_db4 (lit ''r'') = Some r \<and> rn_status r = RunFailed \<and> same_run demo_started_row r"
proof -
  show reached: "reaches db_init (db_step plain_codec demo_cc) demo_db4"
    unfolding demo_db4_def
    by (rule reaches_step [OF demo_reached(3)], rule step_fail_orphans, rule prod.collapse [symmetric])
  have inv: "db_inv plain_codec demo_db3" by (rule reached_inv [OF demo_reached(3)])
  obtain views db' where sweep: "fail_orphaned_runs plain_codec (\<lambda>_. lit ''x'') 4 demo_db3 = (Inr views, db')"
    using sweep_total [OF inv demo_clock plain_time demo_sweep_fresh] by blast
  then have db': "db' = demo_db4" by (simp add: demo_db4_def)
  obtain r where r: "find_run demo_db4 (lit ''r'') = Some r" "rn_status r = RunFailed"
    using sweep_result [OF inv sweep, unfolded db'] demo_started_in demo_row_fields by fastforce
  have "(change plain_codec)\<^sup>*\<^sup>* demo_db3 demo_db4"
    by (rule fail_orphaned_runs_changes [OF sweep [unfolded db'] inv_parts(1) [OF inv]])
  from changes_follow [OF this inv_parts(1) [OF inv] demo_started_in] obtain q
    where q: "q \<in> set (db_runs demo_db4)" "same_run demo_started_row q" by (auto simp: follows_def)
  then have "find_run demo_db4 (lit ''r'') = Some q"
    using inv_find [OF reached_inv [OF reached] q(1)] demo_row_fields(1) by (simp add: same_run_def)
  with r q(2) show "\<exists>r. find_run demo_db4 (lit ''r'') = Some r \<and> rn_status r = RunFailed
      \<and> same_run demo_started_row r"
    by auto
qed

theorem event_log_contiguous_witness:
  "map ev_seq (events_of demo_db3 (lit ''r'')) = [1]"
  using event_log_contiguous [OF demo_reached(3) [of demo_cc] demo_started_in]
  by (simp add: demo_row_fields)

theorem ended_run_frozen_witness:
  "\<exists>r. find_run (snd (start_run plain_codec (lit ''f'') 9 (lit ''r'') demo_db4)) (lit ''r'') = Some r
    \<and> rn_status r = RunFailed"
proof -
  obtain r where r: "find_run demo_db4 (lit ''r'') = Some r" "rn_status r = RunFailed"
    using demo_swept(2) by blast
  note in_db = find_run_Some [OF r(1)]
  have step: "db_step plain_codec demo_cc demo_db4 (snd (start_run plain_codec (lit ''f'') 9 (lit ''r'') demo_db4))"
    by (rule step_start_run, rule prod.collapse [symmetric])
  from ended_run_frozen [OF demo_swept(1) _ _ r_into_rtranclp [of "db_step plain_codec demo_cc", OF step], of r]
  show ?thesis using r in_db by (auto simp: is_active_iff)
qed

theorem thread_exclusive_witness:
  "\<exists>t. find_thread demo_db3 (lit ''t'') = Some t \<and> th_owner_subject t = subject anonymous_principal"
  using thread_exclusive [OF demo_reached(3) [of demo_cc] demo_started_in demo_started_in]
  by (simp add: demo_row_fields)

theorem ended_run_complete_witness:
  "\<exists>r v. find_run demo_db4 (lit ''r'') = Some r \<and> run_view_of plain_codec r = Inr v
    \<and> usage_state (rv_usage v) = FinalState"
proof -
  obtain r where r: "find_run demo_db4 (lit ''r'') = Some r" "rn_status r = RunFailed"
    and same: "same_run demo_started_row r"
    using demo_swept(2) by blast
  have "\<not> is_active r" "rn_metering_version r \<noteq> None" "rn_execution_plan r \<noteq> None"
    using r(2) same demo_row_fields(8,9) by (simp_all add: is_active_iff same_run_def)
  from ended_run_complete [OF demo_swept(1) _ this] find_run_Some [OF r(1)] r(1) show ?thesis by blast
qed

theorem run_refines_life_witness:
  "\<exists>r' names. same_run demo_row r' \<and> life_path RunCreated (rn_status r') names
    \<and> map ev_type (events_of demo_db3 (lit ''r'')) = map lit names"
proof -
  have step: "db_step plain_codec demo_cc demo_db2 demo_db3"
    unfolding demo_db3_def by (rule step_start_run, rule prod.collapse [symmetric])
  have row: "rn_id demo_row = lit ''r''" "rn_status demo_row = RunCreated"
    by (simp_all add: demo_row_def new_run_row_def)
  have "events_of demo_db2 (lit ''r'') = []" by (simp add: events_of_def demo_db2_eq)
  with run_refines_life [OF demo_reached(2) r_into_rtranclp [of "db_step plain_codec demo_cc", OF step],
      of demo_row] row
  show ?thesis by (auto simp: demo_db2_eq)
qed

text \<open>The repeated request had read the state in which the thread was still empty.\<close>

lemma demo_history: "(db_step plain_codec demo_cc)\<^sup>*\<^sup>* demo_db1 demo_db3"
proof (rule converse_rtranclp_into_rtranclp [of "db_step plain_codec demo_cc"])
  have ok: "schema_ok demo_db1" using inv_parts(1) [OF reached_inv [OF demo_reached(1)]] .
  show "db_step plain_codec demo_cc demo_db1 demo_db2"
    unfolding demo_db2_def
    by (rule step_create_run [where snap = demo_db1], rule ok, simp, rule prod.collapse [symmetric])
  show "(db_step plain_codec demo_cc)\<^sup>*\<^sup>* demo_db2 demo_db3"
    unfolding demo_db3_def
    by (rule r_into_rtranclp, rule step_start_run, rule prod.collapse [symmetric])
qed

theorem create_run_idempotent_witness:
  "\<exists>v. create_run plain_codec (lit ''s'') (lit ''n'') 7 anonymous_principal (lit ''t'') (lit ''again'')
      (lit ''k'') demo_plan demo_db1 demo_db3 = (Inr (v, False), demo_db3)
    \<and> rv_run_id v = lit ''r''"
proof -
  have "find_thread demo_db1 (lit ''t'') \<noteq> None" "active_run demo_db1 (lit ''t'') = None"
    by (simp_all add: demo_db1_eq empty_db_def find_thread_def active_run_def)
  with create_run_idempotent [OF demo_reached(1) demo_history demo_started_in demo_row_fields(2,3)
      demo_row_fields(7) [symmetric] demo_subject demo_plan_valid]
  show ?thesis by (simp add: demo_row_fields(1))
qed

theorem replay_exact_witness:
  "\<exists>vs. get_events plain_codec (lit ''r'') 0 anonymous_principal demo_db3 = Inr vs
    \<and> map ee_seq vs = [1] \<and> get_events plain_codec (lit ''r'') 1 anonymous_principal demo_db3 = Inr []"
proof -
  obtain vs where vs: "get_events plain_codec (lit ''r'') 0 anonymous_principal demo_db3 = Inr vs"
    "map ee_seq vs = [1]" "get_events plain_codec (lit ''r'') 1 anonymous_principal demo_db3 = Inr (drop 1 vs)"
    using replay_exact [OF demo_reached(3) [of demo_cc] demo_started_in plain_time
        demo_row_fields(7) [symmetric] demo_subject, of 1]
    by (auto simp: demo_row_fields(1,5))
  moreover have "drop 1 vs = []" using vs(2) by (cases vs) auto
  ultimately show ?thesis by simp
qed



theorem sweep_recovers_witness:
  "\<exists>views db'. fail_orphaned_runs plain_codec (\<lambda>_. lit ''x'') 4 demo_db3 = (Inr views, db')
    \<and> (\<forall>r \<in> set (db_runs db'). \<not> is_active r)"
  using sweep_recovers [OF demo_reached(3) [of demo_cc] plain_time demo_clock demo_sweep_fresh, of 4]
  by blast

theorem active_run_closable_witness:
  "\<exists>v db'. cancel_run plain_codec (lit ''x'') 4 (lit ''r'') anonymous_principal demo_cancelled None demo_db3
      = (Inr v, db') \<and> rv_status v = RunCancelled"
proof -
  have "\<not> is_internal (rn_actor_subject demo_started_row)"
    using demo_subject by (simp add: demo_row_fields(7))
  from active_run_closable [OF demo_reached(3) [of demo_cc] demo_started_in demo_row_fields(4) this
      plain_time demo_clock demo_fresh demo_cancelled_valid(1)]
  show ?thesis using demo_cancelled_valid(2) demo_row_fields(1,7) by metis
qed

definition demo_attempt_row :: attempt_row where
  "demo_attempt_row = \<lparr>ma_id = demo_attempt_id, ma_run_id = lit ''r'', ma_thread_id = lit ''t'',
     ma_call_index = 1, ma_attempt_index = 1, ma_call_kind = DirectCall, ma_status = Started,
     ma_started_at = 3, ma_completed_at = None, ma_tokens = no_tokens\<rparr>"

theorem stored_usage_equals_ledger_witness:
  "\<exists>u w. terminal_run_usage demo_started_row [demo_attempt_row] 4 None = Inr u
    \<and> snapshot 2 None (fst demo_ledger) = Inr w
    \<and> model_call_count u = model_call_count w \<and> total_metric u = total_metric w"
proof -
  have "ledger_attempts (fst demo_ledger)
      = [new_attempt \<lparr>start_attempt_id = demo_attempt_id, call_index = 1, attempt_index = 1,
          call_kind = DirectCall\<rparr> 1]"
    by (simp add: ledger_attempts_def demo_ledger_def begin_attempt_def register_attempt_def
        new_ledger_def valid_attempt_start_def demo_attempt_id_def put_attempt_def)
  then have mirror: "list_all2 mirrors [demo_attempt_row] (ledger_attempts (fst demo_ledger))"
    by (simp add: mirrors_def demo_attempt_row_def new_attempt_def)
  have "\<forall>a \<in> set [demo_attempt_row]. attempt_checks a"
    by (simp add: attempt_checks_def demo_attempt_row_def no_tokens_def token_fields_def)
  then obtain u where u: "terminal_run_usage demo_started_row [demo_attempt_row] 4 None = Inr u"
    using terminal_run_usage_total by blast
  have "ledger_inv (fst demo_ledger)" using ledger.reaches_inv [OF demo_ledger_reached] by simp
  then obtain w where w: "snapshot 2 None (fst demo_ledger) = Inr w" using snapshot_ok by blast
  from stored_usage_equals_ledger [OF mirror u w] u w show ?thesis by blast
qed

end
