(* ===== verification/Service.thy ===== *)
theory Service
  imports Run_Queries Policy_Kernel
begin

text \<open>
  service.py. The exceptions that reach the service, how one repository call ends under the
  event loop, the class \<open>RunService\<close> with its fail-closed state, admission, cancellation and the
  event stream, and the handlers of the task that executes one Run.

  The task of a Run is split at its awaits into handlers on its phase. What the event loop decides
  is a part of the world: a slot for each coming repository call, with the time the call runs at,
  what wakes its waiting parent, and whether a call that is given up on has committed after all.
\<close>

section \<open>Exceptions\<close>

datatype failure =
    CancelledFailure
  | RuntimeFatal
  | CleanupTimeout
  | ServiceUnavailable string
  | AdmissionTimeout
  | TimedOut
  | ProviderFailure bool
  | Raised exn

text \<open>\<open>ProviderFailure\<close> is an \<open>APIError\<close> of the model client, with its connection subclass.\<close>

fun is_runtime_error :: "exn \<Rightarrow> bool" where
  "is_runtime_error (PolicyViolation _ _) = True"
| "is_runtime_error (UsageMeteringError _) = True"
| "is_runtime_error (ToolInvocationContractError _) = True"
| "is_runtime_error (CapabilityConfigurationError _) = True"
| "is_runtime_error (PolicyKernelConfigurationError _) = True"
| "is_runtime_error (IdentityConfigurationError _) = True"
| "is_runtime_error (RepositoryUnavailableError _) = True"
| "is_runtime_error _ = False"

fun safe_exception_log_fields :: "failure \<Rightarrow> string \<times> string" where
  "safe_exception_log_fields (ProviderFailure True) = (''provider_connection'', ''APIConnectionError'')"
| "safe_exception_log_fields AdmissionTimeout = (''runtime_error'', ''RuntimeError'')"
| "safe_exception_log_fields RuntimeFatal = (''runtime_error'', ''RuntimeError'')"
| "safe_exception_log_fields CleanupTimeout = (''runtime_error'', ''RuntimeError'')"
| "safe_exception_log_fields (ServiceUnavailable reason) = (''runtime_error'', ''RuntimeError'')"
| "safe_exception_log_fields (Raised e) =
     (if is_runtime_error e then (''runtime_error'', ''RuntimeError'')
      else (''unexpected'', ''UnclassifiedError''))"
| "safe_exception_log_fields _ = (''unexpected'', ''UnclassifiedError'')"

definition policy_error_category :: "run_failure_code \<Rightarrow> pystr \<Rightarrow> run_error_category" where
  "policy_error_category code reason =
     (if code = RunTimeout then TimeoutError
      else if code \<in> {ModelStepLimit, ToolCallLimit, RepeatedToolCallCode, NoProgressCode}
      then LimitError
      else if code = ToolNotAllowedCode then AccessOrInputError
      else if code \<in> {ResultSchemaInvalidCode, SourceValidationFailedCode}
      then ValidationErrorCategory
      else if py_startswith (lit ''tool_'') reason then ToolError
      else InternalError)"

fun exception_error_category :: "failure \<Rightarrow> run_error_category" where
  "exception_error_category (ProviderFailure _) = ProviderError"
| "exception_error_category _ = InternalError"

section \<open>One repository call\<close>

text \<open>
  \<open>_finish_repository_call\<close>: what wakes the waiting loop before its grace period is over, and
  how the loop ends. The child either settles or is expired by its own deadline; the parent's
  cancellation is only remembered.
\<close>

datatype child = Settled | Expired

datatype wake = OperationDone child | ParentCancelled

datatype call_answer = CallReturned child | CallCancelled child | CallQuarantined

fun finish_repository_call :: "bool \<Rightarrow> wake list \<Rightarrow> call_answer" where
  "finish_repository_call parent_cancelled [] = CallQuarantined"
| "finish_repository_call parent_cancelled (OperationDone ch # ws) =
     (if parent_cancelled then CallCancelled ch else CallReturned ch)"
| "finish_repository_call parent_cancelled (ParentCancelled # ws) = finish_repository_call True ws"

section \<open>The state of the service\<close>

record service =
  sv_closed :: bool
  sv_fatal :: "string option"
  sv_tasks :: "(pystr \<times> bool) list"
  sv_quarantined :: nat

text \<open>
  \<open>sv_tasks\<close> are the registered tasks with whether a cancellation is outstanding; the
  executions and the locks are registered and discarded together with their task.
\<close>

record slot =
  sl_now :: int
  sl_wakes :: "wake list"
  sl_late :: bool

record world =
  wd_service :: service
  wd_repository :: repository
  wd_slots :: "slot list"

definition next_slot :: "world \<Rightarrow> slot" where
  "next_slot w =
     (case wd_slots w of [] \<Rightarrow> \<lparr>sl_now = 0, sl_wakes = [], sl_late = False\<rparr> | s # _ \<Rightarrow> s)"

definition wd_db :: "world \<Rightarrow> db" where
  "wd_db w = rp_db (wd_repository w)"

definition is_healthy :: "service \<Rightarrow> bool" where
  "is_healthy sv \<longleftrightarrow> \<not> sv_closed sv \<and> sv_fatal sv = None"

definition require_repository_safe :: "service \<Rightarrow> failure + unit" where
  "require_repository_safe sv =
     (case sv_fatal sv of None \<Rightarrow> Inr () | Some reason \<Rightarrow> Inl (ServiceUnavailable reason))"

definition require_healthy :: "service \<Rightarrow> failure + unit" where
  "require_healthy sv =
     (if sv_closed sv then Inl (ServiceUnavailable ''run_service_closed'')
      else require_repository_safe sv)"

text \<open>\<open>_request_cancel\<close> on the registered task of a Run: at most one request is outstanding.\<close>

definition request_cancel :: "pystr \<Rightarrow> service \<Rightarrow> service" where
  "request_cancel rid sv =
     sv\<lparr>sv_tasks := map (\<lambda>(i, c). (i, c \<or> i = rid)) (sv_tasks sv)\<rparr>"

definition mark_fatal :: "pystr option \<Rightarrow> string \<Rightarrow> world \<Rightarrow> world" where
  "mark_fatal current reason w =
     w\<lparr>wd_service := (wd_service w)
         \<lparr>sv_fatal := (if sv_fatal (wd_service w) = None then Some reason else sv_fatal (wd_service w)),
          sv_tasks := map (\<lambda>(i, c). (i, c \<or> Some i \<noteq> current)) (sv_tasks (wd_service w))\<rparr>,
       wd_repository := fail_closed reason (wd_repository w)\<rparr>"

text \<open>A method of the repository behind its own guard, on the service's state \<open>'s\<close>.\<close>

type_synonym 'x sys = "world \<times> 'x"

definition on_repository ::
  "(db \<Rightarrow> (exn + 'a) \<times> db) \<Rightarrow> 'x sys \<Rightarrow> (failure + 'a) \<times> 'x sys" where
  "on_repository op st =
     (case with_guard op (wd_repository (fst st)) of
        (r, rp) \<Rightarrow>
          (case r of Inl e \<Rightarrow> Inl (Raised e) | Inr x \<Rightarrow> Inr x,
           (fst st)\<lparr>wd_repository := rp\<rparr>, snd st))"

text \<open>
  A quarantined operation that commits after all has long passed the repository's guard, but what
  it does after its commit already meets the service that has failed closed.
\<close>

definition late_commit ::
  "('x sys \<Rightarrow> (failure + 'a) \<times> 'x sys) \<Rightarrow> 'x sys \<Rightarrow> 'x sys" where
  "late_commit op st =
     (let rp = wd_repository (fst st)
      in case op ((fst st)\<lparr>wd_repository := rp\<lparr>rp_fatal_error := None\<rparr>\<rparr>, snd st) of
           (_, w, x) \<Rightarrow>
             (w\<lparr>wd_repository := (wd_repository w)\<lparr>rp_fatal_error := rp_fatal_error rp\<rparr>\<rparr>, x))"

definition quarantine :: "service \<Rightarrow> service" where
  "quarantine sv = sv\<lparr>sv_quarantined := sv_quarantined sv + 1\<rparr>"

definition repository_call ::
  "pystr option \<Rightarrow> (int \<Rightarrow> 'x sys \<Rightarrow> (failure + 'a) \<times> 'x sys) \<Rightarrow> 'x sys \<Rightarrow>
   (failure + 'a) \<times> 'x sys" where
  "repository_call current op st =
     (case require_repository_safe (wd_service (fst st)) of
        Inl f \<Rightarrow> (Inl f, st)
      | Inr _ \<Rightarrow>
          let s = next_slot (fst st);
              st = ((fst st)\<lparr>wd_slots := tl (wd_slots (fst st))\<rparr>, snd st)
          in (case finish_repository_call False (sl_wakes s) of
                CallReturned Settled \<Rightarrow> op (sl_now s) st
              | CallReturned Expired \<Rightarrow> (Inl TimedOut, st)
              | CallCancelled Settled \<Rightarrow> (Inl CancelledFailure, snd (op (sl_now s) st))
              | CallCancelled Expired \<Rightarrow> (Inl CancelledFailure, st)
              | CallQuarantined \<Rightarrow>
                  (let w = mark_fatal current ''repository_cleanup_timeout''
                             ((fst st)\<lparr>wd_service := quarantine (wd_service (fst st))\<rparr>)
                   in (Inl CleanupTimeout,
                       if sl_late s then late_commit (op (sl_now s)) (w, snd st) else (w, snd st)))))"

section \<open>Launching a Run\<close>

text \<open>
  The three writers of a Run's ledger. The ledger only passes an exception on, so the service's
  own exceptions travel as unnamed ones.
\<close>

fun as_exn :: "failure \<Rightarrow> exn" where
  "as_exn (Raised e) = e"
| "as_exn CancelledFailure = OtherException ''CancelledError''"
| "as_exn RuntimeFatal = OtherException ''RuntimeFatalError''"
| "as_exn CleanupTimeout = OtherException ''RepositoryCleanupTimeout''"
| "as_exn (ServiceUnavailable reason) = OtherException ''RunServiceUnavailable''"
| "as_exn AdmissionTimeout = OtherException ''RunAdmissionTimeout''"
| "as_exn TimedOut = OtherException ''TimeoutError''"
| "as_exn (ProviderFailure connection) = OtherException ''APIError''"

definition attempt_writer ::
  "pystr \<Rightarrow> (int \<Rightarrow> 'a \<Rightarrow> db \<Rightarrow> (exn + 'b) \<times> db) \<Rightarrow> 'a \<Rightarrow> world \<Rightarrow> (exn + unit) \<times> world" where
  "attempt_writer rid op x w =
     (case repository_call (Some rid) (\<lambda>now. on_repository (op now x)) (w, ()) of
        (r, w', _) \<Rightarrow> (case r of Inl f \<Rightarrow> Inl (as_exn f) | Inr _ \<Rightarrow> Inr (), w'))"

definition launch ::
  "pystr \<Rightarrow> world execution \<Rightarrow> world \<Rightarrow> (failure + world execution) \<times> world" where
  "launch rid ex w =
     (case require_healthy (wd_service w) of
        Inl f \<Rightarrow> (Inl f, w)
      | Inr _ \<Rightarrow>
          (case bind_usage_persistence
                  (attempt_writer rid (\<lambda>now s. start_model_attempt now rid s))
                  (attempt_writer rid (\<lambda>now fin. finish_model_attempt now rid fin))
                  (attempt_writer rid (\<lambda>now obs. record_model_attempt_usage rid obs)) ex of
             (Inl e, _) \<Rightarrow> (Inl (Raised e), w)
           | (Inr _, ex') \<Rightarrow>
               (Inr ex',
                w\<lparr>wd_service := (wd_service w)
                    \<lparr>sv_tasks := AList.update rid False (sv_tasks (wd_service w))\<rparr>\<rparr>)))"

definition discard_task :: "pystr \<Rightarrow> world \<Rightarrow> world" where
  "discard_task rid w =
     w\<lparr>wd_service := (wd_service w)
         \<lparr>sv_tasks := AList.delete rid (sv_tasks (wd_service w))\<rparr>\<rparr>"

text \<open>
  \<open>wait_for_idle\<close> and \<open>shutdown\<close>: every registered task ends and is discarded by its callback; of
  the quarantined operations, \<open>done_ops\<close> end within the grace period of the shutdown.
\<close>

definition wait_for_idle :: "world \<Rightarrow> world" where
  "wait_for_idle w = fold discard_task (map fst (sv_tasks (wd_service w))) w"

definition begin_shutdown :: "world \<Rightarrow> world" where
  "begin_shutdown w =
     w\<lparr>wd_service := fold request_cancel (map fst (sv_tasks (wd_service w)))
         ((wd_service w)\<lparr>sv_closed := True\<rparr>)\<rparr>"

definition end_shutdown :: "nat \<Rightarrow> world \<Rightarrow> world" where
  "end_shutdown done_ops w =
     (let w' = wait_for_idle w
      in w'\<lparr>wd_service := (wd_service w')
           \<lparr>sv_quarantined := sv_quarantined (wd_service w') - done_ops\<rparr>\<rparr>)"

section \<open>Admission\<close>

text \<open>
  \<open>create_run\<close> and \<open>create_initial_run\<close>: prepare the execution, and inside one repository call
  commit the Run and, when it is new, launch its task. The launched execution is the second
  component of the state.
\<close>

definition admit ::
  "(db \<Rightarrow> (exn + 'v) \<times> db) \<Rightarrow> ('v \<Rightarrow> pystr \<times> bool) \<Rightarrow> world execution \<Rightarrow>
   world execution option sys \<Rightarrow> (failure + 'v) \<times> world execution option sys" where
  "admit op created ex st =
     (case on_repository op st of
        (Inl f, st') \<Rightarrow> (Inl f, st')
      | (Inr v, st') \<Rightarrow>
          (if snd (created v)
           then (case launch (fst (created v)) ex (fst st') of
                   (Inl f, w) \<Rightarrow> (Inl f, w, snd st')
                 | (Inr ex', w) \<Rightarrow> (Inr v, w, Some ex'))
           else (Inr v, st')))"

definition admission ::
  "(world execution \<Rightarrow> int \<Rightarrow> db \<Rightarrow> (exn + 'v) \<times> db) \<Rightarrow> ('v \<Rightarrow> pystr \<times> bool) \<Rightarrow>
   exn + world execution \<Rightarrow> world \<Rightarrow> (failure + 'v) \<times> world execution option sys" where
  "admission op created prepared w =
     (case require_healthy (wd_service w) of
        Inl f \<Rightarrow> (Inl f, w, None)
      | Inr _ \<Rightarrow>
          (case prepared of
             Inl e \<Rightarrow> (Inl (Raised e), w, None)
           | Inr ex \<Rightarrow>
               (case repository_call None (\<lambda>now. admit (op ex now) created ex) (w, None) of
                  (Inl TimedOut, st) \<Rightarrow> (Inl AdmissionTimeout, st)
                | answer \<Rightarrow> answer)))"

definition service_create_run ::
  "codec \<Rightarrow> pystr \<Rightarrow> pystr \<Rightarrow> principal \<Rightarrow> pystr \<Rightarrow> pystr \<Rightarrow> pystr \<Rightarrow> db \<Rightarrow> exn + world execution \<Rightarrow>
   world \<Rightarrow> (failure + run_view \<times> bool) \<times> world execution option sys" where
  "service_create_run c run_id msg_id p tid message key snap =
     admission
       (\<lambda>ex now. create_run c run_id msg_id now p tid message key (plan_evidence ex) snap)
       (\<lambda>(v, created). (rv_run_id v, created))"

definition service_create_initial_run ::
  "codec \<Rightarrow> (nat \<Rightarrow> bool) \<Rightarrow> pystr \<Rightarrow> pystr \<Rightarrow> principal \<Rightarrow> pystr \<Rightarrow> pystr \<Rightarrow> pystr \<Rightarrow> db \<Rightarrow>
   exn + world execution \<Rightarrow> world \<Rightarrow>
   (failure + thread_summary \<times> run_view \<times> bool) \<times> world execution option sys" where
  "service_create_initial_run c cc run_id msg_id p tid message key snap =
     admission
       (\<lambda>ex now.
          create_initial_run c cc run_id msg_id now p tid message key (plan_evidence ex) snap)
       (\<lambda>(t, v, created). (rv_run_id v, created))"

section \<open>Cancellation\<close>

text \<open>
  \<open>registered\<close> is the execution of the Run's task when it has one, else \<open>fresh\<close> is
  prepared; \<open>tick\<close> is the monotonic clock.
\<close>

definition service_cancel_run ::
  "codec \<Rightarrow> pystr \<Rightarrow> rat \<Rightarrow> pystr \<Rightarrow> principal \<Rightarrow> exn + world execution \<Rightarrow>
   world execution option sys \<Rightarrow> (failure + run_view) \<times> world execution option sys" where
  "service_cancel_run c event_id tick rid p fresh st =
     (case require_repository_safe (wd_service (fst st)) of
        Inl f \<Rightarrow> (Inl f, st)
      | Inr _ \<Rightarrow>
          (let commit = (\<lambda>known ex st.
                 (case outcome tick OutcomeCancelled (lit ''user_cancelled'') None known ex of
                    Inl e \<Rightarrow> (Inl (Raised e), st)
                  | Inr out \<Rightarrow>
                      repository_call None
                        (\<lambda>now. on_repository
                           (cancel_run c event_id now rid p out (Some CancelledError))) st))
           in (case snd st of
                 None \<Rightarrow>
                   (case fresh of Inl e \<Rightarrow> (Inl (Raised e), st) | Inr ex \<Rightarrow> commit False ex st)
               | Some ex \<Rightarrow>
                   (let w = (fst st)\<lparr>wd_service := request_cancel rid (wd_service (fst st))\<rparr>
                    in case settle_provider_usage_for_terminal (ex, w) of
                         (Inl e, ex', w') \<Rightarrow> (Inl (Raised e), w', Some ex')
                       | (Inr _, ex', w') \<Rightarrow> commit True ex' (w', Some ex')))))"

section \<open>Executing a Run\<close>

text \<open>
  \<open>_execute\<close>. The phase of the task, with the local variables that are live in it. A runtime
  yields events and results, ends, or raises; the deadline and a cancellation arrive as exceptions
  at any await.
\<close>

record stream_state =
  st_result :: "result_value option"
  st_parts :: "pystr list"
  st_chars :: int

datatype phase =
    Launched
  | Loading
  | Streaming stream_state
  | Appending stream_state product_event event_type pdict
  | Completing pystr execution_outcome
  | Failing failure
  | Stopped

type_synonym task_state = "phase \<times> world execution sys"

definition start_task :: "codec \<Rightarrow> pystr \<Rightarrow> pystr \<Rightarrow> world execution sys \<Rightarrow> task_state" where
  "start_task c rid event_id st =
     (case repository_call (Some rid) (\<lambda>now. on_repository (start_run c event_id now rid)) st of
        (Inl f, st') \<Rightarrow> (Failing f, st')
      | (Inr started, st') \<Rightarrow> (if started then Loading else Stopped, st'))"

definition load_context ::
  "(rat \<Rightarrow> pystr) \<Rightarrow> rat \<Rightarrow> pystr \<Rightarrow> world execution sys \<Rightarrow> task_state" where
  "load_context fmt_g tick rid st =
     (case repository_call (Some rid) (\<lambda>now. on_repository (\<lambda>db. (get_run_context rid db, db))) st of
        (Inl f, st') \<Rightarrow> (Failing f, st')
      | (Inr (tid, messages), st') \<Rightarrow>
          (case execution_context fmt_g tick messages (snd st') of
             Inl e \<Rightarrow> (Failing (Raised e), st')
           | Inr _ \<Rightarrow> (Streaming \<lparr>st_result = None, st_parts = [], st_chars = 0\<rparr>, st')))"

text \<open>An event of the runtime: both validations, and the length of a delta.\<close>

definition receive_event ::
  "codec \<Rightarrow> stream_state \<Rightarrow> product_event \<Rightarrow> world execution sys \<Rightarrow> task_state" where
  "receive_event c s ev st =
     (if st_result s \<noteq> None
      then (Failing (Raised (AgentExecutionFailed ''runtime_item_after_result'')), st)
      else
        (case validate_event ev (snd st) of
           Inl e \<Rightarrow> (Failing (Raised e), st)
         | Inr _ \<Rightarrow>
             (case validate_runtime_event c (pe_type ev) (pe_data ev) of
                Inl e \<Rightarrow>
                  (Failing (Raised
                     (case e of
                        ProductEventValidationError _ \<Rightarrow>
                          if pe_type ev = lit ''message.delta'' then ResultSchemaInvalid else e
                      | _ \<Rightarrow> e)), st)
              | Inr (t, data) \<Rightarrow>
                  if t \<noteq> MessageDeltaEvent then (Appending s ev t data, st)
                  else
                    (case dict_get data (lit ''delta'') of
                       PStr delta \<Rightarrow>
                         (let chars = st_chars s + int (length delta)
                          in if chars > max_answer_chars (result_contract (ex_agent (snd st)))
                             then (Failing (Raised ResultSchemaInvalid), st)
                             else (Appending (s\<lparr>st_chars := chars, st_parts := st_parts s @ [delta]\<rparr>)
                                     ev t data, st))
                     | _ \<Rightarrow> (Failing (Raised (OtherException ''TypeError'')), st)))))"

definition receive_result ::
  "stream_state \<Rightarrow> result_value \<Rightarrow> world execution sys \<Rightarrow> task_state" where
  "receive_result s r st =
     (if st_result s \<noteq> None
      then (Failing (Raised (AgentExecutionFailed ''runtime_item_after_result'')), st)
      else (Streaming (s\<lparr>st_result := Some r\<rparr>), st))"

text \<open>\<open>append_and_confirm\<close>, the child of \<open>persist_controlled_event\<close>, and the handler.\<close>

definition append_and_confirm ::
  "codec \<Rightarrow> pystr \<Rightarrow> rat \<Rightarrow> pystr \<Rightarrow> product_event \<Rightarrow> event_type \<Rightarrow> pdict \<Rightarrow> int \<Rightarrow>
   world execution sys \<Rightarrow> (failure + event_envelope option) \<times> world execution sys" where
  "append_and_confirm c event_id tick rid ev t data now st =
     (case on_repository (append_active_event c event_id now rid (lit (event_name t)) data) st of
        (Inl f, st') \<Rightarrow> (Inl f, st')
      | (Inr None, st') \<Rightarrow> (Inr None, st')
      | (Inr (Some e), st') \<Rightarrow>
          (case accept_event tick ev (snd st') of
             (Inl x, ex) \<Rightarrow> (Inl (Raised x), fst st', ex)
           | (Inr _, ex) \<Rightarrow> (Inr (Some e), fst st', ex)))"

definition persist_event ::
  "codec \<Rightarrow> pystr \<Rightarrow> rat \<Rightarrow> pystr \<Rightarrow> stream_state \<Rightarrow> product_event \<Rightarrow> event_type \<Rightarrow> pdict \<Rightarrow>
   world execution sys \<Rightarrow> task_state" where
  "persist_event c event_id tick rid s ev t data st =
     (case repository_call (Some rid) (append_and_confirm c event_id tick rid ev t data) st of
        (Inl f, st') \<Rightarrow> (Failing f, st')
      | (Inr None, st') \<Rightarrow> (Stopped, st')
      | (Inr (Some e), st') \<Rightarrow> (Streaming s, st'))"

text \<open>The end of the stream: the result is validated against the streamed text.\<close>

definition finish_stream :: "rat \<Rightarrow> stream_state \<Rightarrow> world execution sys \<Rightarrow> task_state" where
  "finish_stream tick s st =
     (case st_result s of
        None \<Rightarrow> (Failing (Raised (AgentExecutionFailed ''agent_result_missing'')), st)
      | Some value \<Rightarrow>
          (case validate_result value (Some (concat (st_parts s))) (snd st) of
             (Inl e, ex) \<Rightarrow> (Failing (Raised e), fst st, ex)
           | (Inr result, ex) \<Rightarrow>
               (case outcome tick OutcomeCompleted (lit ''completed'') None True ex of
                  Inl e \<Rightarrow> (Failing (Raised e), fst st, ex)
                | Inr out \<Rightarrow> (Completing (result_text result) out, fst st, ex))))"

text \<open>\<open>_commit_terminal\<close>: every failure but a cancellation and a cleanup timeout is fatal.\<close>

definition commit_terminal ::
  "pystr \<Rightarrow> (int \<Rightarrow> db \<Rightarrow> (exn + 'a) \<times> db) \<Rightarrow> world execution sys \<Rightarrow> task_state" where
  "commit_terminal rid op st =
     (case repository_call (Some rid) (\<lambda>now. on_repository (op now)) st of
        (Inr _, st') \<Rightarrow> (Stopped, st')
      | (Inl CancelledFailure, st') \<Rightarrow> (Stopped, st')
      | (Inl CleanupTimeout, st') \<Rightarrow> (Stopped, st')
      | (Inl _, w, ex) \<Rightarrow>
          (Stopped, mark_fatal (Some rid) ''repository_finalization_failed'' w, ex))"

definition commit_completion ::
  "codec \<Rightarrow> pystr \<Rightarrow> pystr \<Rightarrow> pystr \<Rightarrow> pystr \<Rightarrow> pystr \<Rightarrow> execution_outcome \<Rightarrow>
   world execution sys \<Rightarrow> task_state" where
  "commit_completion c msg_id ev_id1 ev_id2 rid content out =
     commit_terminal rid (\<lambda>now. complete_run c msg_id ev_id1 ev_id2 now rid content out None)"

text \<open>What a failure is stored as: failure code, stop reason and category; or nothing.\<close>

fun terminal_failure ::
  "failure \<Rightarrow> (run_failure_code \<times> pystr \<times> run_error_category) option" where
  "terminal_failure CancelledFailure = None"
| "terminal_failure RuntimeFatal = None"
| "terminal_failure CleanupTimeout = None"
| "terminal_failure (ServiceUnavailable reason) = None"
| "terminal_failure TimedOut = Some (RunTimeout, lit ''run_timeout'', TimeoutError)"
| "terminal_failure (Raised (PolicyViolation code reason)) =
     Some (code, reason, policy_error_category code reason)"
| "terminal_failure f =
     Some (AgentExecutionFailedCode, lit ''agent_execution_failed'', exception_error_category f)"

definition handle_failure ::
  "codec \<Rightarrow> pystr \<Rightarrow> rat \<Rightarrow> pystr \<Rightarrow> failure \<Rightarrow> world execution sys \<Rightarrow> task_state" where
  "handle_failure c event_id tick rid f st =
     (case terminal_failure f of
        None \<Rightarrow>
          (Stopped,
           (if f = RuntimeFatal then mark_fatal (Some rid) ''runtime_cleanup_timeout'' (fst st)
            else fst st), snd st)
      | Some (code, reason, category) \<Rightarrow>
          (let ex = (if f = Raised ResultSchemaInvalid then record_result_validation_failure (snd st)
                     else snd st)
           in case outcome tick OutcomeFailed reason (Some code) True ex of
                Inl e \<Rightarrow> (Stopped, fst st, ex)
              | Inr out \<Rightarrow>
                  commit_terminal rid
                    (\<lambda>now. fail_run c event_id now rid code out (Some category)) (fst st, ex)))"

section \<open>The event stream\<close>

text \<open>
  \<open>stream_events\<close>. One round polls the events and then the Run; the database may change in
  between and between rounds, so a round has the two states its queries see, whether the client
  has gone, and whether the service has failed closed. \<open>None\<close> in the output is a keep-alive.
\<close>

record poll_round =
  pr_fatal :: "string option"
  pr_events_db :: db
  pr_run_db :: db
  pr_disconnected :: bool

fun ended_status :: "run_status \<Rightarrow> bool" where
  "ended_status RunCompleted = True"
| "ended_status RunFailed = True"
| "ended_status RunCancelled = True"
| "ended_status _ = False"

definition last_cursor :: "int \<Rightarrow> event_envelope list \<Rightarrow> int" where
  "last_cursor cursor evs = (if evs = [] then cursor else ee_seq (last evs))"

datatype stream_end = StreamDone | ClientGone | StreamError failure | StreamOpen

fun stream_events ::
  "codec \<Rightarrow> pystr \<Rightarrow> principal \<Rightarrow> rat \<Rightarrow> rat \<Rightarrow> int \<Rightarrow> rat \<Rightarrow> poll_round list \<Rightarrow>
   event_envelope option list \<times> stream_end" where
  "stream_events c rid p poll keepalive cursor elapsed [] = ([], StreamOpen)"
| "stream_events c rid p poll keepalive cursor elapsed (rd # rds) =
     (case pr_fatal rd of
        Some reason \<Rightarrow> ([], StreamError (ServiceUnavailable reason))
      | None \<Rightarrow>
          (case get_events c rid cursor p (pr_events_db rd) of
             Inl e \<Rightarrow> ([], StreamError (Raised e))
           | Inr evs \<Rightarrow>
               let cursor' = last_cursor cursor evs;
                   waited = (if evs = [] then elapsed else 0) + poll;
                   alive = keepalive \<le> waited
               in case get_run c rid p (pr_run_db rd) of
                    Inl e \<Rightarrow> (map Some evs, StreamError (Raised e))
                  | Inr run \<Rightarrow>
                      if ended_status (rv_status run) \<and> rv_last_seq run \<le> cursor'
                      then (map Some evs, StreamDone)
                      else if pr_disconnected rd then (map Some evs, ClientGone)
                      else
                        (case stream_events c rid p poll keepalive cursor'
                                (if alive then 0 else waited) rds of
                           (out, e) \<Rightarrow>
                             (map Some evs @ (if alive then [None] else []) @ out, e))))"

end
