(* ===== verification/Store_Effects.thy ===== *)
theory Store_Effects
  imports Store_Facts
begin

text \<open>
  What the operations of other callers may do to one Run while its task executes it, and what the
  task's own operations write exactly: the event that is appended, the answer that is stored.
\<close>

section \<open>Operations that leave logs and Runs alone\<close>

definition calm :: "db \<Rightarrow> db \<Rightarrow> bool" where
  "calm db db' \<longleftrightarrow> db_events db' = db_events db
     \<and> (\<forall>r \<in> set (db_runs db). r \<in> set (db_runs db')
          \<and> messages_of db' (rn_id r) = messages_of db (rn_id r))"

lemma calm_same: "calm db db"
  by (simp add: calm_def)

lemma calmI:
  "db_events db' = db_events db \<Longrightarrow> db_runs db' = db_runs db \<Longrightarrow> db_messages db' = db_messages db
     \<Longrightarrow> calm db db'"
  by (simp add: calm_def messages_of_def)

lemma create_thread_calm: "create_thread i now p title db = (res, db') \<Longrightarrow> calm db db'"
  unfolding create_thread_def Let_def
  by (erule transact_cases) (auto simp: calm_same dest!: insert_thread_ok(1) intro: calmI)

lemma rename_thread_calm: "rename_thread now tid p title db = (res, db') \<Longrightarrow> calm db db'"
  unfolding rename_thread_def
  by (erule transact_cases) (auto simp: calm_same Let_def split: option.splits intro: calmI)

lemma new_run_calm:
  assumes "insert_run r db = Inr db1" "insert_message m db1 = Inr db2" "ms_run_id m = Some (rn_id r)"
  shows "calm db db2"
proof -
  have fresh: "rn_id q \<noteq> rn_id r" if "q \<in> set (db_runs db)" for q
    using insert_run_ok(3) [OF assms(1)] that by (metis imageI)
  have "messages_of db2 (rn_id q) = messages_of db (rn_id q)" if "q \<in> set (db_runs db)" for q
    using insert_message_ok(1) [OF assms(2)] insert_run_ok(1) [OF assms(1)] fresh [OF that] assms(3)
    by (simp add: messages_of_def)
  then show ?thesis
    using insert_message_ok(1) [OF assms(2)] insert_run_ok(1) [OF assms(1)] by (simp add: calm_def)
qed

lemma touch_thread_tables [simp]:
  "db_runs (touch_thread tid now db) = db_runs db" "db_messages (touch_thread tid now db) = db_messages db"
  "db_events (touch_thread tid now db) = db_events db"
  by (simp_all add: touch_thread_def split: option.split)

lemma create_run_tx_calm:
  assumes "create_run_tx c snap r m p tid key db = Inr (x, db')" "ms_run_id m = Some (rn_id r)"
  shows "calm db db'"
proof -
  have "db' = db \<or> (\<exists>db1 db2. insert_run r db = Inr db1 \<and> insert_message m db1 = Inr db2
      \<and> db' = touch_thread tid (rn_created_at r) db2)"
    using assms(1) by (auto simp: create_run_tx_def split: option.splits if_splits)
  then show ?thesis
  proof (elim disjE exE conjE)
    fix db1 db2
    assume "insert_run r db = Inr db1" "insert_message m db1 = Inr db2"
      and db': "db' = touch_thread tid (rn_created_at r) db2"
    from new_run_calm [OF this(1,2) assms(2)] show ?thesis by (simp add: db' calm_def messages_of_def)
  qed (simp add: calm_same)
qed

lemma create_run_calm:
  assumes "create_run c i mi now p tid content key plan snap db = (res, db')" shows "calm db db'"
proof (cases "validate_execution_plan plan")
  case (Inl e)
  with assms show ?thesis by (simp add: create_run_def calm_same)
next
  case (Inr plan')
  define r where "r = new_run_row i now p tid key plan'"
  define m where "m = user_message_row mi r content"
  have m: "ms_run_id m = Some (rn_id r)" by (simp add: m_def user_message_row_def)
  have "db' = db \<or> (\<exists>x. create_run_tx c snap r m p tid key db = Inr (x, db'))"
    using assms unfolding create_run_def Inr sum.case Let_def r_def [symmetric] m_def [symmetric]
    by (auto split: sum.splits prod.splits option.splits if_splits)
  with create_run_tx_calm [OF _ m] show ?thesis by (auto simp: calm_same)
qed

lemma create_initial_run_calm:
  assumes "create_initial_run c cc i mi now p tid content key plan snap db = (res, db')"
  shows "calm db db'"
proof (cases "validate_execution_plan plan")
  case (Inl e)
  with assms show ?thesis by (simp add: create_initial_run_def calm_same)
next
  case (Inr plan')
  define r where "r = new_run_row i now p tid key plan'"
  define m where "m = user_message_row mi r content"
  define t where "t = \<lparr>th_id = tid, th_owner_subject = subject p,
      th_title = initial_thread_title cc content, th_created_at = now, th_updated_at = now\<rparr>"
  have m: "ms_run_id m = Some (rn_id r)" by (simp add: m_def user_message_row_def)
  have "db' = db \<or> (\<exists>x. create_initial_tx c snap t r m p content key db = Inr (x, db'))"
    using assms
    unfolding create_initial_run_def Inr sum.case Let_def r_def [symmetric] m_def [symmetric]
      t_def [symmetric]
    by (auto split: sum.splits prod.splits option.splits if_splits)
  then have "db' = db \<or> (\<exists>db1 db2. insert_thread t db = Inr db1 \<and> insert_run r db1 = Inr db2
      \<and> insert_message m db2 = Inr db')"
    by (auto simp: create_initial_tx_def split: option.splits)
  then show ?thesis
  proof (elim disjE exE conjE)
    fix db1 db2
    assume t: "insert_thread t db = Inr db1"
      and rm: "insert_run r db1 = Inr db2" "insert_message m db2 = Inr db'"
    from new_run_calm [OF rm m] insert_thread_ok(1) [OF t] show ?thesis
      by (simp add: calm_def messages_of_def)
  qed (simp add: calm_same)
qed

lemma start_model_attempt_calm:
  "start_model_attempt now rid s db = (res, db') \<Longrightarrow> calm db db'"
  unfolding start_model_attempt_def
  by (erule transact_cases)
    (auto simp: calm_same split: option.splits if_splits dest!: insert_attempt_ok(1) intro: calmI)

lemma update_attempts_calm: "update_attempts P f db = Inr db' \<Longrightarrow> calm db db'"
  by (auto simp: update_attempts_def Let_def split: if_splits intro: calmI)

lemma finish_model_attempt_calm:
  "finish_model_attempt now rid fin db = (res, db') \<Longrightarrow> calm db db'"
  unfolding finish_model_attempt_def Let_def
  by (erule transact_cases)
    (auto simp: calm_same split: option.splits if_splits intro: update_attempts_calm)

lemma record_model_attempt_usage_calm:
  "record_model_attempt_usage rid obs db = (res, db') \<Longrightarrow> calm db db'"
  unfolding record_model_attempt_usage_def Let_def
  by (erule transact_cases)
    (auto simp: calm_same split: option.splits if_splits intro: update_attempts_calm)

section \<open>Steps of other callers\<close>

text \<open>
  All steps of the repository but those only the task of the Run takes: starting it, appending its
  events and completing it. Others may fail or cancel it and write its attempts.
\<close>

inductive foreign_step :: "codec \<Rightarrow> (nat \<Rightarrow> bool) \<Rightarrow> pystr \<Rightarrow> db \<Rightarrow> db \<Rightarrow> bool" for c cc rid where
  foreign_create_thread:
    "create_thread i now p title db = (res, db') \<Longrightarrow> foreign_step c cc rid db db'"
| foreign_rename_thread:
    "rename_thread now tid p title db = (res, db') \<Longrightarrow> foreign_step c cc rid db db'"
| foreign_create_initial_run:
    "schema_ok snap \<Longrightarrow> (db_step c cc)\<^sup>*\<^sup>* snap db \<Longrightarrow>
     create_initial_run c cc i mi now p tid content key plan snap db = (res, db') \<Longrightarrow>
     foreign_step c cc rid db db'"
| foreign_create_run:
    "schema_ok snap \<Longrightarrow> (db_step c cc)\<^sup>*\<^sup>* snap db \<Longrightarrow>
     create_run c i mi now p tid content key plan snap db = (res, db') \<Longrightarrow>
     foreign_step c cc rid db db'"
| foreign_start_run:
    "q \<noteq> rid \<Longrightarrow> start_run c i now q db = (res, db') \<Longrightarrow> foreign_step c cc rid db db'"
| foreign_start_attempt:
    "start_model_attempt now q s db = (res, db') \<Longrightarrow> foreign_step c cc rid db db'"
| foreign_finish_attempt:
    "finish_model_attempt now q fin db = (res, db') \<Longrightarrow> foreign_step c cc rid db db'"
| foreign_record_usage:
    "record_model_attempt_usage q obs db = (res, db') \<Longrightarrow> foreign_step c cc rid db db'"
| foreign_append_event:
    "q \<noteq> rid \<Longrightarrow> append_active_event c i now q name data db = (res, db') \<Longrightarrow>
     foreign_step c cc rid db db'"
| foreign_complete_run:
    "q \<noteq> rid \<Longrightarrow> complete_run c mi i1 i2 now q content out category db = (res, db') \<Longrightarrow>
     foreign_step c cc rid db db'"
| foreign_fail_run:
    "fail_run c i now q code out category db = (res, db') \<Longrightarrow> foreign_step c cc rid db db'"
| foreign_cancel_run:
    "cancel_run c i now q p out category db = (res, db') \<Longrightarrow> foreign_step c cc rid db db'"
| foreign_fail_orphans:
    "fail_orphaned_runs c new_id now db = (res, db') \<Longrightarrow> foreign_step c cc rid db db'"

lemma foreign_is_step: "foreign_step c cc rid db db' \<Longrightarrow> db_step c cc db db'"
  by (erule foreign_step.cases) (blast intro: db_step.intros)+

definition quiet :: "pystr \<Rightarrow> db \<Rightarrow> db \<Rightarrow> bool" where
  "quiet rid db db' \<longleftrightarrow> find_run db' rid = find_run db rid
     \<and> events_of db' rid = events_of db rid \<and> messages_of db' rid = messages_of db rid"

definition aborted :: "pystr \<Rightarrow> db \<Rightarrow> bool" where
  "aborted rid db \<longleftrightarrow>
     (\<exists>r. find_run db rid = Some r \<and> (rn_status r = RunFailed \<or> rn_status r = RunCancelled))"

lemma quiet_same: "quiet rid db db"
  by (simp add: quiet_def)

lemma calm_quiet:
  assumes "calm db db'" "schema_ok db'" "find_run db rid = Some r" shows "quiet rid db db'"
proof -
  note r = find_run_Some [OF assms(3)]
  then have "r \<in> set (db_runs db')" "messages_of db' rid = messages_of db rid"
    using assms(1) by (auto simp: calm_def)
  moreover have "events_of db' rid = events_of db rid" using assms(1) by (simp add: calm_def events_of_def)
  moreover have "find_run db' rid = Some r"
    using find_run_intro [OF assms(2) calculation(1)] r by simp
  ultimately show ?thesis using assms(3) by (simp add: quiet_def)
qed

lemma moves_quiet:
  assumes "moves c r r' db db'" "schema_ok db" "rid \<noteq> rn_id r" shows "quiet rid db db'"
proof -
  obtain evs ms where eff: "effect c r r' evs ms db db'" using moves_effect [OF assms(1)] by blast
  show ?thesis
    using moves_find [OF assms(1,2), of rid] effect_children(1,2) [OF eff, of rid] assms(3)
    by (simp add: quiet_def)
qed

lemma moved_quiet:
  assumes "ok_after c q st db db'" "schema_ok db" "st = RunFailed \<or> st = RunCancelled"
  shows "quiet rid db db' \<or> aborted rid db'"
proof -
  have "db' = db \<or> moved_to c q st db db'" using assms(1) by (simp add: ok_after_def)
  then show ?thesis
  proof
    assume m: "moved_to c q st db db'"
    show ?thesis
    proof (cases "rid = q")
      case True
      obtain r' where "find_run db' rid = Some r'" using moved_to_found [OF m assms(2)] True by blast
      moreover have "rn_status r' = st"
        using moved_to_facts(4) [OF m assms(2) _ calculation [unfolded True]] assms(3) by auto
      ultimately show ?thesis using assms(3) by (auto simp: aborted_def)
    next
      case False
      with m moves_quiet assms(2) show ?thesis by (auto simp: moved_to_def)
    qed
  qed (simp add: quiet_same)
qed

lemma sweep_quiet:
  assumes inv: "db_inv c db" and op: "fail_orphaned_runs c new_id now db = (res, db')"
    and found: "find_run db rid = Some r"
  shows "quiet rid db db' \<or> aborted rid db'"
proof -
  note ok = inv_parts(1) [OF inv] note r = find_run_Some [OF found]
  have steps: "(change c)\<^sup>*\<^sup>* db db'" by (rule fail_orphaned_runs_changes [OF op ok])
  show ?thesis
  proof (cases "is_active r")
    case False
    then show ?thesis
      using changes_frozen [OF steps ok] r found find_run_intro [of db' r] by (auto simp: quiet_def)
  next
    case True
    obtain r' names where "follows r db r' db' names" using changes_follow [OF steps ok] r by blast
    then have r': "r' \<in> set (db_runs db')" "rn_id r' = rid" using r by (auto simp: follows_def same_run_def)
    have found': "find_run db' rid = Some r'"
      using find_run_intro [OF changes_schema [OF steps ok] r'(1)] r'(2) by simp
    have "set (orphans db) \<subseteq> set (db_runs db)" by (auto simp: set_orphans)
    then have plans: "sweep_plans db (orphans db)" by (rule sweep_plans_initial [OF ok])
    from fail_orphaned_runs_ok [OF op ok] show ?thesis
    proof (elim disjE exE)
      fix runs assume "close_orphans c new_id now (orphans db) db = Inr (runs, db')"
      note C = close_orphans_ok [OF this ok plans]
      have "r \<in> set (orphans db)" using r True by (simp add: set_orphans)
      then have "\<not> is_active r'" using C found' r by blast
      then have "rn_status r' = RunFailed" using C found found' True by blast
      then show ?thesis using found' by (auto simp: aborted_def)
    qed (simp add: quiet_same)
  qed
qed

lemma foreign_rely:
  assumes step: "foreign_step c cc rid db db'" and inv: "db_inv c db" and found: "find_run db rid = Some r"
  shows "db_inv c db'" and "quiet rid db db' \<or> aborted rid db'"
proof -
  show inv': "db_inv c db'" by (rule step_inv [OF inv foreign_is_step [OF step]])
  note ok = inv_parts(1) [OF inv] note ok' = inv_parts(1) [OF inv']
  note calm = calm_quiet [OF _ ok' found]
  show "quiet rid db db' \<or> aborted rid db'"
    using step
  proof cases
    case (foreign_start_run q i now res)
    then show ?thesis using start_run_moves [OF foreign_start_run(2) ok] moves_quiet [OF _ ok] quiet_same
      by metis
  next
    case (foreign_append_event q i now name data res)
    then show ?thesis
      using append_active_event_moves [OF foreign_append_event(2) ok] moves_quiet [OF _ ok] quiet_same
      by metis
  next
    case (foreign_complete_run q mi i1 i2 now content out category res)
    then have "db' = db \<or> moved_to c q RunCompleted db db'"
      using complete_run_after [OF foreign_complete_run(2) ok] by (simp add: ok_after_def)
    then show ?thesis
      using moves_quiet [OF _ ok] quiet_same foreign_complete_run(1) unfolding moved_to_def by metis
  next
    case (foreign_fail_run i now q code out category res)
    then show ?thesis by (rule moved_quiet [OF fail_run_after [OF _ ok] ok]) simp
  next
    case (foreign_cancel_run i now q p out category res)
    then show ?thesis by (rule moved_quiet [OF cancel_run_after [OF _ ok] ok]) simp
  next
    case (foreign_fail_orphans new_id now res)
    then show ?thesis by (rule sweep_quiet [OF inv _ found])
  next
    case foreign_create_thread
    then show ?thesis by (intro disjI1 calm create_thread_calm)
  next
    case foreign_rename_thread
    then show ?thesis by (intro disjI1 calm rename_thread_calm)
  next
    case foreign_create_initial_run
    then show ?thesis by (intro disjI1 calm create_initial_run_calm)
  next
    case foreign_create_run
    then show ?thesis by (intro disjI1 calm create_run_calm)
  next
    case foreign_start_attempt
    then show ?thesis by (intro disjI1 calm start_model_attempt_calm)
  next
    case foreign_finish_attempt
    then show ?thesis by (intro disjI1 calm finish_model_attempt_calm)
  next
    case foreign_record_usage
    then show ?thesis by (intro disjI1 calm record_model_attempt_usage_calm)
  qed
qed

section \<open>What the task of a Run writes\<close>

lemma runtime_replayable: "payload_event p \<in> set RUNTIME_EVENT_TYPES \<Longrightarrow> replayable p"
  by (cases p) (simp_all add: RUNTIME_EVENT_TYPES_def)

lemma runtime_find:
  "t \<in> set RUNTIME_EVENT_TYPES \<Longrightarrow>
     List.find (\<lambda>u. lit (event_name u) = lit (event_name t)) RUNTIME_EVENT_TYPES = Some t"
  by (cases t) (simp_all add: RUNTIME_EVENT_TYPES_def)

lemma validate_runtime_stored:
  assumes "time_round_trip c" "valid_payload p" "payload_event p = t" "t \<in> set RUNTIME_EVENT_TYPES"
  shows "validate_runtime_event c (lit (event_name t)) (dump_payload c p) = Inr (t, dump_payload c p)"
  using validate_stored [OF assms(1,2)] runtime_replayable [of p] runtime_find assms(3,4)
  by (simp add: validate_runtime_event_def)

text \<open>A validated runtime event is appended unchanged, or nothing happens.\<close>

lemma append_stores:
  assumes op: "append_active_event c i now rid (lit (event_name t)) (dump_payload c p) db = (res, db')"
    and ok: "schema_ok db" and rt: "time_round_trip c"
    and p: "valid_payload p" "payload_event p = t" "t \<in> set RUNTIME_EVENT_TYPES"
  shows "db' = db \<and> (\<forall>x. res \<noteq> Inr (Some x))
    \<or> (\<exists>e r r'. find_run db rid = Some r \<and> rn_status r = RunRunning
         \<and> find_run db' rid = Some r' \<and> rn_status r' = RunRunning
         \<and> events_of db' rid = events_of db rid @ [e]
         \<and> ev_type e = lit (event_name t) \<and> ev_payload e = dump_payload c p
         \<and> messages_of db' rid = messages_of db rid)"
proof -
  have tx: "and_then (transact (append_event_tx c i now rid t (dump_payload c p) db) db)
      (\<lambda>stored db'. case stored of None \<Rightarrow> (Inr None, db')
         | Some e \<Rightarrow> (bindE (event_view c e) (\<lambda>v. Inr (Some v)), db')) = (res, db')"
    using op unfolding append_active_event_def validate_runtime_stored [OF rt p] by simp
  show ?thesis
  proof (cases "append_event_tx c i now rid t (dump_payload c p) db")
    case (Inl x)
    with tx show ?thesis by auto
  next
    case (Inr y)
    then obtain stored db1 where y: "append_event_tx c i now rid t (dump_payload c p) db = Inr (stored, db1)"
      by (cases y) simp
    define f where "f = (\<lambda>r :: run_row. r\<lparr>rn_last_seq := rn_last_seq r + 1, rn_first_visible_at :=
      (if t = MessageDeltaEvent \<and> rn_first_visible_at r = None then Some now else rn_first_visible_at r)\<rparr>)"
    note tx1 = y [unfolded append_event_tx_def f_def [symmetric]]
    show ?thesis
    proof (cases "claim_run rid (\<lambda>r. rn_status r = RunRunning) f db")
      case None
      then have "stored = None \<and> db1 = db" using tx1 by (auto split: if_splits)
      with y tx show ?thesis by auto
    next
      case (Some q)
      then obtain r where r: "find_run db rid = Some r" "rn_status r = RunRunning"
        and q: "q = (f r, put_run (f r) db)"
        by (cases q) (auto simp: claim_run_Some)
      obtain e where e: "make_event c (f r) i (event_name t) (dump_payload c p) (rn_last_seq (f r)) now = Inr e"
        "insert_event e (put_run (f r) db) = Inr db1" and stored: "stored = Some e"
        using tx1 unfolding Some q by auto
      have db': "db' = db1" using y stored tx by auto
      have id: "rn_id r = rid" "rn_id (f r) = rid" using find_run_Some r(1) by (auto simp: f_def)
      note ins = insert_event_ok(1) [OF e(2)]
      have fields: "ev_run_id e = rid" "ev_type e = lit (event_name t)" "ev_payload e = dump_payload c p"
        using e(1) id validate_stored [OF rt p(1) runtime_replayable] p(2,3)
        by (auto simp: make_event_def)
      have "find_run db' rid = Some (f r)"
        using find_put_run [of "f r" db] r(1) id by (simp add: db' ins find_run_def)
      moreover have "rn_status (f r) = RunRunning" using r(2) by (simp add: f_def)
      moreover have "events_of db' rid = events_of db rid @ [e]" "messages_of db' rid = messages_of db rid"
        using fields by (simp_all add: db' ins events_of_def messages_of_def)
      ultimately show ?thesis using r fields by blast
    qed
  qed
qed

text \<open>A completion stores the answer and the outcome with it, or nothing happens.\<close>

lemma complete_stores:
  assumes op: "complete_run c mi i1 i2 now rid content out category db = (res, db')" and ok: "schema_ok db"
  shows "db' = db
      \<and> (\<forall>v. res = Inr v \<longrightarrow> (\<exists>r. find_run db rid = Some r \<and> rn_status r \<noteq> RunRunning)) \<or>
    (\<exists>r r' m e1 e2. find_run db rid = Some r \<and> rn_status r = RunRunning
         \<and> find_run db' rid = Some r' \<and> rn_status r' = RunCompleted \<and> rn_execution_outcome r' = Some out
         \<and> events_of db' rid = events_of db rid @ [e1, e2]
         \<and> ev_type e1 = lit ''message.completed'' \<and> ev_type e2 = lit ''run.completed''
         \<and> messages_of db' rid = messages_of db rid @ [m]
         \<and> ms_role m = AssistantRole \<and> ms_content m = content)"
proof (cases "validated_terminal_outcome out OutcomeCompleted None")
  case (Inl e)
  with op show ?thesis by (auto simp: complete_run_def)
next
  case (Inr v)
  then have v: "v = out" "valid_outcome out" "outcome_status out = OutcomeCompleted"
    using validated_terminal_outcome_ok by blast+
  have "and_then (transact (complete_run_tx c mi i1 i2 now rid content out category db) db)
      (\<lambda>run db'. (run_view_of c run, db')) = (res, db')"
    using op Inr v(1) by (simp add: complete_run_def)
  then consider "db' = db" "\<forall>v. res \<noteq> Inr v"
    | x where "complete_run_tx c mi i1 i2 now rid content out category db = Inr (x, db')"
    by (cases "complete_run_tx c mi i1 i2 now rid content out category db") auto
  then show ?thesis
  proof cases
    case (2 x)
    note tx = this
    show ?thesis
    proof (cases "claim_run rid (\<lambda>r. rn_status r = RunRunning) (ended RunCompleted now 2 (Some out)) db")
      case None
      then have "unchanged_view c rid db = Inr (x, db')" using tx by (simp add: complete_run_tx_def)
      moreover from this have "find_run db rid \<noteq> None" by (auto simp: unchanged_view_def split: option.splits)
      ultimately show ?thesis
        using None unchanged_view_same by (auto simp: claim_run_def split: if_splits)
    next
      case (Some p)
      then obtain r where r: "find_run db rid = Some r" "rn_status r = RunRunning"
        and p: "p = (ended RunCompleted now 2 (Some out) r, put_run (ended RunCompleted now 2 (Some out) r) db)"
        by (cases p) (auto simp: claim_run_Some)
      obtain run' usage db2 t m e1 e2 db3 db4 db5 where steps:
        "settle_usage c (ended RunCompleted now 2 (Some out) r) now Interrupted category
            (put_run (ended RunCompleted now 2 (Some out) r) db) = Inr (run', usage, db2)"
        "m = \<lparr>ms_id = mi, ms_thread_id = rn_thread_id run', ms_run_id = Some (rn_id run'),
            ms_role = AssistantRole, ms_content = content, ms_created_at = now\<rparr>"
        "make_event c run' i1 ''message.completed''
           (py_dict [(''message'', dump_message c (message_view m))]) (rn_last_seq run' - 1) now = Inr e1"
        "make_event c run' i2 ''run.completed''
           (py_dict [(''status'', PStr (lit ''completed'')), (''usage'', usage)]) (rn_last_seq run') now = Inr e2"
        "insert_message m db2 = Inr db3" "insert_event e1 db3 = Inr db4" "insert_event e2 db4 = Inr db5"
        "db' = put_thread (t\<lparr>th_updated_at := now\<rparr>) db5"
        using tx unfolding complete_run_tx_def Some p by (auto simp: Let_def)
      have id: "rn_id r = rid" using find_run_Some r(1) by blast
      have st: "status_outcome RunCompleted \<noteq> None" and ast: "Interrupted \<noteq> Started" by simp_all
      note claim = ended_claim [OF ok r(1) [folded id] st, of now 2 "Some out"]
      obtain w: "write_terminal_usage (ended RunCompleted now 2 (Some out) r) now Interrupted category
          (put_run (ended RunCompleted now 2 (Some out) r) db) = Inr (run', db2)"
        using steps(1) unfolding settle_usage_def by (auto split: prod.splits)
      note W = write_terminal_usage_ok [OF w claim(1,2) ast]
      note ins = insert_message_ok(1) [OF steps(5)] insert_event_ok(1) [OF steps(6)]
        insert_event_ok(1) [OF steps(7)]
      have run': "rn_id run' = rid" "rn_status run' = RunCompleted" "rn_execution_outcome run' = Some out"
        using W(1) id by (auto simp: ended_def)
      have ev: "ev_run_id e1 = rid" "ev_run_id e2 = rid" "ev_type e1 = lit ''message.completed''"
        "ev_type e2 = lit ''run.completed''"
        using steps(3,4) run'(1) by (auto simp: make_event_def)
      have "db_runs db2 = db_runs (put_run run' (put_run (ended RunCompleted now 2 (Some out) r) db))"
        by (subst W(2)) simp
      then have runs: "db_runs db' = db_runs (put_run run' (put_run (ended RunCompleted now 2 (Some out) r) db))"
        by (simp add: steps(8) ins)
      have "find_run db' rid = find_run (put_run run' (put_run (ended RunCompleted now 2 (Some out) r) db)) rid"
        by (simp add: find_run_def runs)
      also have "\<dots> = Some run'"
        using find_put_run [of run' "put_run (ended RunCompleted now 2 (Some out) r) db"] claim(2,3) run'(1) id
        by simp
      finally have found: "find_run db' rid = Some run'" .
      have tables: "db_events db2 = db_events db" "db_messages db2 = db_messages db"
        by (subst W(2), simp)+
      have "events_of db' rid = events_of db rid @ [e1, e2]" "messages_of db' rid = messages_of db rid @ [m]"
        using ev run'(1) by (simp_all add: steps(8) ins tables events_of_def messages_of_def steps(2))
      with r found run'(2,3) ev(3,4) show ?thesis
        by (intro disjI2 exI [of _ r] exI [of _ run'] exI [of _ m] exI [of _ e1] exI [of _ e2])
          (simp add: steps(2))
    qed
  qed simp
qed

text \<open>A failure that returns leaves the Run ended.\<close>

lemma fail_run_ends:
  assumes op: "fail_run c i now rid code out category db = (Inr v, db')" and ok: "schema_ok db"
  shows "\<exists>r. find_run db' rid = Some r \<and> \<not> is_active r"
proof (cases "validated_terminal_outcome out OutcomeFailed (Some code)")
  case (Inl e)
  with op show ?thesis by (simp add: fail_run_def)
next
  case (Inr o')
  note out = validated_terminal_outcome_ok [OF Inr]
  obtain x where "fail_run_tx c i now rid code o' category db = Inr (x, db')"
    using op Inr by (cases "fail_run_tx c i now rid code o' category db") (auto simp: fail_run_def)
  then have "db' = db \<and> (\<exists>r. find_run db rid = Some r \<and> \<not> is_active r) \<or> moved_to c rid RunFailed db db'"
    using fail_run_tx_ends [OF _ ok] out by blast
  then show ?thesis
  proof (elim disjE)
    assume m: "moved_to c rid RunFailed db db'"
    obtain r where "find_run db' rid = Some r" using moved_to_found [OF m ok] by blast
    with moved_to_facts(4) [OF m ok _ this] show ?thesis by (simp add: is_active_iff)
  qed simp
qed

text \<open>A start appends its event, or does not report success.\<close>

lemma start_stores:
  assumes op: "start_run c i now rid db = (res, db')"
  shows "db' = db \<and> res \<noteq> Inr True
    \<or> (\<exists>e r r'. find_run db rid = Some r \<and> rn_status r = RunCreated
         \<and> find_run db' rid = Some r' \<and> rn_status r' = RunRunning
         \<and> events_of db' rid = events_of db rid @ [e] \<and> ev_type e = lit ''run.started''
         \<and> messages_of db' rid = messages_of db rid)"
  using op unfolding start_run_def
proof (cases rule: transact_cases)
  case (committed x)
  show ?thesis
  proof (cases "claim_run rid (\<lambda>r. rn_status r = RunCreated)
      (\<lambda>r. r\<lparr>rn_status := RunRunning, rn_last_seq := rn_last_seq r + 1\<rparr>) db")
    case None
    with committed show ?thesis by (auto split: if_splits)
  next
    case (Some p)
    then obtain r where r: "find_run db rid = Some r" "rn_status r = RunCreated"
      and p: "p = (r\<lparr>rn_status := RunRunning, rn_last_seq := rn_last_seq r + 1\<rparr>,
          put_run (r\<lparr>rn_status := RunRunning, rn_last_seq := rn_last_seq r + 1\<rparr>) db)"
      by (cases p) (auto simp: claim_run_Some)
    define r' where "r' = r\<lparr>rn_status := RunRunning, rn_last_seq := rn_last_seq r + 1\<rparr>"
    obtain e where e: "make_event c r' i ''run.started'' (py_dict [(''status'', PStr (lit ''running''))])
        (rn_last_seq r') now = Inr e" "insert_event e (put_run r' db) = Inr db'"
      using committed(1) unfolding Some p r'_def by auto
    have id: "rn_id r = rid" "rn_id r' = rid" using find_run_Some r(1) by (auto simp: r'_def)
    note ins = insert_event_ok(1) [OF e(2)]
    have fields: "ev_run_id e = rid" "ev_type e = lit ''run.started''"
      using e(1) id by (auto simp: make_event_def)
    have "find_run db' rid = Some r'"
      using find_put_run [of r' db] r(1) id by (simp add: ins find_run_def)
    moreover have "rn_status r' = RunRunning" by (simp add: r'_def)
    moreover have "events_of db' rid = events_of db rid @ [e]" "messages_of db' rid = messages_of db rid"
      using fields by (simp_all add: ins events_of_def messages_of_def)
    ultimately show ?thesis using r fields by blast
  qed
qed simp

end
