(* ===== verification/Service_Safety.thy ===== *)
theory Service_Safety
  imports Service Store_Effects Execution_Safety
begin

text \<open>
  The task that executes a Run as a state machine: its handlers, the exceptions that may reach it
  at an await, the operations of the runtime on the execution, and everything other callers and
  the event loop do to the world. The invariant ties what the task has streamed to what the
  database holds.
\<close>

section \<open>Operations of the runtime\<close>

inductive runtime_op :: "host_env \<Rightarrow> 'w execution \<Rightarrow> 'w execution \<Rightarrow> bool" for env where
  runtime_model: "before_model_call now ex = (r, ex') \<Longrightarrow> runtime_op env ex ex'"
| runtime_response: "after_model_response env now ms ex = (r, ex') \<Longrightarrow> runtime_op env ex ex'"
| runtime_reserve: "reserve_tool_calls env now calls ex = (r, ex') \<Longrightarrow> runtime_op env ex ex'"
| runtime_finalizer: "record_finalizer_signal now ex = (r, ex') \<Longrightarrow> runtime_op env ex ex'"
| runtime_begin: "begin_tool_call env now answer i t args ex = (b, ex') \<Longrightarrow> runtime_op env ex ex'"
| runtime_finish: "finish_tool_call now i t msg ex = (f, ex') \<Longrightarrow> runtime_op env ex ex'"
| runtime_usage: "runtime_op env ex (ex\<lparr>provider_usage := led\<rparr>)"

lemma runtime_is_step: "runtime_op env ex ex' \<Longrightarrow> exec_step env ex ex'"
  by (erule runtime_op.cases) (blast intro: exec_step.intros)+

lemma guarded_keeps: "guarded now ex body = (r, ex') \<Longrightarrow> body = (r, ex') \<or> ex' = ex"
  by (auto elim!: guarded_cases)

lemma record_progress_sources [simp]: "persisted_sources (record_progress fp ex) = persisted_sources ex"
  by (simp add: record_progress_def)

lemma flush_repeats_sources [simp]: "persisted_sources (flush_repeats l ex) = persisted_sources ex"
  by (simp add: flush_repeats_def)

lemma before_model_call_sources:
  "before_model_call now ex = (r, ex') \<Longrightarrow> persisted_sources ex' = persisted_sources ex"
  unfolding before_model_call_def
  by (drule guarded_keeps) (auto simp: count_model_step_def Let_def split: if_splits)

lemma reserve_calls_sources:
  "reserve_calls env calls l ex = (r, ex') \<Longrightarrow> persisted_sources ex' = persisted_sources ex"
  by (induction env calls l ex rule: reserve_calls.induct)
    (auto simp: Let_def split: option.splits sum.splits prod.splits if_splits)

lemma reserve_tool_calls_sources:
  assumes "reserve_tool_calls env now calls ex = (r, ex')"
  shows "persisted_sources ex' = persisted_sources ex"
proof -
  have "persisted_sources ex' = persisted_sources ex"
    if "and_then (reserve_calls env calls l ex1) (\<lambda>l ex2. (Inr (), (flush_repeats l ex2)
          \<lparr>reservations := add_reservations (loop_pending l) (reservations ex2)\<rparr>)) = (r, ex')"
      "persisted_sources ex1 = persisted_sources ex" for l ex1
    using that(1) by (rule and_then_cases) (use that(2) in \<open>auto dest!: reserve_calls_sources\<close>)
  then show ?thesis
    using assms unfolding reserve_tool_calls_def
    by (auto dest!: guarded_keeps simp: Let_def split: if_splits)
qed

lemma accept_source_sources: "persisted_sources (snd (accept_source i s ex)) = persisted_sources ex"
  by (simp add: accept_source_def Let_def split: option.split prod.split)

lemma accept_sources_sources: "persisted_sources (snd (accept_sources i ss ex)) = persisted_sources ex"
proof (induction ss arbitrary: ex)
  case (Cons s ss)
  obtain evs ex1 where step: "accept_source i s ex = (evs, ex1)" by (cases "accept_source i s ex") auto
  obtain evs2 ex2 where rest: "accept_sources i ss ex1 = (evs2, ex2)"
    by (cases "accept_sources i ss ex1") auto
  have "persisted_sources ex2 = persisted_sources ex1" using Cons [of ex1] rest by simp
  also have "\<dots> = persisted_sources ex" using accept_source_sources [of i s ex] step by simp
  finally show ?case using step rest by simp
qed simp

lemma finish_tool_call_sources:
  assumes "finish_tool_call now i t msg ex = (r, ex')"
  shows "persisted_sources ex' = persisted_sources ex"
proof (cases r)
  case (Inl e)
  then show ?thesis using finish_tool_call_failed assms by metis
next
  case (Inr evs)
  from assms [unfolded this] show ?thesis
  proof (rule finish_tool_call_ok)
    fix oc rec evs'
    assume "accept_sources i (outcome_sources oc)
       (record_progress (lit ''tool-fact:'' @ fact_fingerprint oc)
         (ex\<lparr>finished_calls := AList.update i (t, finished_data rec i t oc) (finished_calls ex),
             tool_calls_succeeded := tool_calls_succeeded ex + 1\<rparr>)) = (evs', ex')"
    from arg_cong [where f = "\<lambda>p. persisted_sources (snd p)", OF this] show ?thesis
      by (simp add: accept_sources_sources)
  qed
qed

lemma begin_tool_call_sources:
  assumes "begin_tool_call env now answer i t args ex = (r, ex')"
  shows "persisted_sources ex' = persisted_sources ex"
proof (cases r)
  case (Inl e)
  then show ?thesis using begin_tool_call_failed assms by metis
next
  case (Inr p)
  obtain v ev where "r = Inr (v, ev)" using Inr by (cases p) auto
  from assms [unfolded this] show ?thesis by (rule begin_tool_call_ok) simp
qed

lemma record_assistant_texts_sources:
  "persisted_sources (foldl (record_assistant_text env) ex ms) = persisted_sources ex"
  by (induction ms arbitrary: ex) (simp_all add: record_assistant_text_def Let_def)

lemma after_model_response_sources:
  assumes "after_model_response env now ms ex = (r, ex')"
  shows "persisted_sources ex' = persisted_sources ex"
proof -
  define ex1 where "ex1 = foldl (record_assistant_text env) ex ms"
  have "ex' = ex1 \<or> reserve_tool_calls env now (concat (map ai_tool_calls ms)) ex1 = (r, ex')"
    using assms unfolding after_model_response_def Let_def ex1_def [symmetric]
    by (simp split: if_splits)
  then have "persisted_sources ex' = persisted_sources ex1"
    using reserve_tool_calls_sources by blast
  then show ?thesis by (simp add: ex1_def record_assistant_texts_sources)
qed

lemma record_finalizer_sources:
  "record_finalizer_signal now ex = (r, ex') \<Longrightarrow> persisted_sources ex' = persisted_sources ex"
  unfolding record_finalizer_signal_def by (drule guarded_keeps) auto

lemma runtime_op_sources:
  assumes "runtime_op env ex ex'" shows "persisted_sources ex' = persisted_sources ex"
  using assms
proof cases
  case runtime_model
  then show ?thesis by (rule before_model_call_sources)
next
  case runtime_response
  then show ?thesis by (rule after_model_response_sources)
next
  case runtime_reserve
  then show ?thesis by (rule reserve_tool_calls_sources)
next
  case runtime_finalizer
  then show ?thesis by (rule record_finalizer_sources)
next
  case runtime_begin
  then show ?thesis by (rule begin_tool_call_sources)
next
  case runtime_finish
  then show ?thesis by (rule finish_tool_call_sources)
qed simp

section \<open>Calls to the repository\<close>

lemma on_repository_cases:
  assumes "on_repository op st = (r, st')"
  shows "snd st' = snd st \<and>
    (wd_db (fst st') = wd_db (fst st) \<and> (\<forall>x. r \<noteq> Inr x)
      \<or> (\<exists>res. op (wd_db (fst st)) = (res, wd_db (fst st')) \<and> (\<forall>x. r = Inr x \<longrightarrow> res = Inr x)))"
  using assms
  by (auto simp: on_repository_def with_guard_def require_available_def wd_db_def
      split: option.splits prod.splits sum.splits)

lemma mark_fatal_db [simp]: "wd_db (mark_fatal current reason w) = wd_db w"
  by (simp add: mark_fatal_def wd_db_def fail_closed_def)

lemma finish_cancelled:
  "finish_repository_call False ws = CallCancelled ch \<Longrightarrow> ParentCancelled \<in> set ws"
  by (induction False ws rule: finish_repository_call.induct) (auto split: if_splits)

text \<open>How a call ends. The slot it consumes and the marks of a failure leave the database alone.\<close>

lemma repository_call_ends:
  assumes "repository_call current op st = (r, st')"
  obtains (refused) why where "sv_fatal (wd_service (fst st)) = Some why"
      "r = Inl (ServiceUnavailable why)" "st' = st"
  | (settled) now w0 where "wd_db w0 = wd_db (fst st)" "op now (w0, snd st) = (r, st')"
  | (expired) "r = Inl TimedOut" "wd_db (fst st') = wd_db (fst st)" "snd st' = snd st"
  | (cancelled) now w0 where "ParentCancelled \<in> set (sl_wakes (next_slot (fst st)))"
      "r = Inl CancelledFailure" "wd_db w0 = wd_db (fst st)"
      "st' = snd (op now (w0, snd st)) \<or> st' = (w0, snd st)"
  | (given_up) now w0 w1 where "r = Inl CleanupTimeout" "wd_db w0 = wd_db (fst st)"
      "w0 = mark_fatal current ''repository_cleanup_timeout'' w1"
      "st' = late_commit (op now) (w0, snd st) \<or> st' = (w0, snd st)"
proof (cases "sv_fatal (wd_service (fst st))")
  case (Some why)
  with assms have "r = Inl (ServiceUnavailable why)" "st' = st"
    by (simp_all add: repository_call_def require_repository_safe_def)
  with Some show ?thesis by (rule refused)
next
  case None
  define s where "s = next_slot (fst st)"
  define w0 where "w0 = (fst st)\<lparr>wd_slots := tl (wd_slots (fst st))\<rparr>"
  define wq where "wq = w0\<lparr>wd_service := quarantine (wd_service w0)\<rparr>"
  have w0: "wd_db w0 = wd_db (fst st)" by (simp add: w0_def wd_db_def)
  then have wq: "wd_db (mark_fatal current ''repository_cleanup_timeout'' wq) = wd_db (fst st)"
    by (simp add: wq_def wd_db_def mark_fatal_def fail_closed_def)
  have safe: "require_repository_safe (wd_service (fst st)) = Inr ()"
    using None by (simp add: require_repository_safe_def)
  note call = assms [unfolded repository_call_def safe sum.case Let_def fst_conv snd_conv,
    folded s_def w0_def, folded wq_def]
  show ?thesis
  proof (cases "finish_repository_call False (sl_wakes s)")
    case (CallReturned ch)
    show ?thesis
    proof (cases ch)
      case Settled
      with call CallReturned have "op (sl_now s) (w0, snd st) = (r, st')" by simp
      with w0 show ?thesis by (rule settled)
    next
      case Expired
      with call CallReturned have "r = Inl TimedOut" "st' = (w0, snd st)" by simp_all
      with w0 show ?thesis by (intro expired) simp_all
    qed
  next
    case (CallCancelled ch)
    have "r = Inl CancelledFailure" "st' = snd (op (sl_now s) (w0, snd st)) \<or> st' = (w0, snd st)"
      using call CallCancelled by (cases ch; simp)+
    with finish_cancelled [OF CallCancelled] w0 show ?thesis
      unfolding s_def by (intro cancelled)
  next
    case CallQuarantined
    have "r = Inl CleanupTimeout"
      "st' = late_commit (op (sl_now s)) (mark_fatal current ''repository_cleanup_timeout'' wq, snd st)
        \<or> st' = (mark_fatal current ''repository_cleanup_timeout'' wq, snd st)"
      using call CallQuarantined by (cases "sl_late s"; simp)+
    then show ?thesis by (rule given_up [OF _ wq refl])
  qed
qed

lemma late_commit_state:
  assumes "late_commit op (w, x) = st'"
  obtains w2 r st2 where "wd_db w2 = wd_db w" "wd_service w2 = wd_service w" "op (w2, x) = (r, st2)"
    "wd_db (fst st') = wd_db (fst st2)" "snd st' = snd st2" "wd_service (fst st') = wd_service (fst st2)"
    "rp_fatal_error (wd_repository (fst st')) = rp_fatal_error (wd_repository w)"
proof -
  define w2 where "w2 = w\<lparr>wd_repository := (wd_repository w)\<lparr>rp_fatal_error := None\<rparr>\<rparr>"
  obtain r w3 y where op: "op (w2, x) = (r, w3, y)" by (cases "op (w2, x)") auto
  show ?thesis
    by (rule that [of w2 r "(w3, y)"])
      (use op assms in \<open>auto simp: late_commit_def Let_def w2_def wd_db_def\<close>)
qed

text \<open>A call either applies its operation once, at some time, or leaves the state alone.\<close>

lemma repository_call_cases:
  assumes "repository_call current op st = (r, st')"
  shows "(wd_db (fst st') = wd_db (fst st) \<and> snd st' = snd st \<and> (\<forall>x. r \<noteq> Inr x))
    \<or> (\<exists>now st0 r1 st1. wd_db (fst st0) = wd_db (fst st) \<and> snd st0 = snd st
         \<and> op now st0 = (r1, st1) \<and> wd_db (fst st') = wd_db (fst st1) \<and> snd st' = snd st1
         \<and> (\<forall>x. r = Inr x \<longrightarrow> r1 = Inr x))"
proof -
  have applied: ?thesis if "op now (w0, snd st) = (r1, st1)" "wd_db w0 = wd_db (fst st)"
      "wd_db (fst st') = wd_db (fst st1)" "snd st' = snd st1" "\<forall>x. r = Inr x \<longrightarrow> r1 = Inr x"
    for now w0 r1 st1
    by (intro disjI2 exI [of _ now] exI [of _ "(w0, snd st)"] exI [of _ r1] exI [of _ st1]) (use that in simp)
  from assms show ?thesis
  proof (cases rule: repository_call_ends)
    case (settled now w0)
    with applied show ?thesis by simp
  next
    case (cancelled now w0)
    then show ?thesis
      using applied [OF surjective_pairing] by auto
  next
    case (given_up now w0 w1)
    from given_up(4) show ?thesis
    proof
      assume "st' = late_commit (op now) (w0, snd st)"
      from late_commit_state [OF this [symmetric]] show ?thesis
        using applied given_up(1,2) by (metis sum.distinct(1))
    qed (use given_up in auto)
  qed auto
qed

lemma repository_method_cases:
  assumes "repository_call current (\<lambda>now. on_repository (op now)) st = (r, st')"
  shows "snd st' = snd st \<and>
    (wd_db (fst st') = wd_db (fst st) \<and> (\<forall>x. r \<noteq> Inr x)
      \<or> (\<exists>now res. op now (wd_db (fst st)) = (res, wd_db (fst st')) \<and> (\<forall>x. r = Inr x \<longrightarrow> res = Inr x)))"
  using repository_call_cases [OF assms]
proof (elim disjE exE conjE)
  fix now st0 r1 st1
  assume "wd_db (fst st0) = wd_db (fst st)" "snd st0 = snd st" "on_repository (op now) st0 = (r1, st1)"
    "wd_db (fst st') = wd_db (fst st1)" "snd st' = snd st1" "\<forall>x. r = Inr x \<longrightarrow> r1 = Inr x"
  with on_repository_cases [of "op now" st0 r1 st1] show ?thesis by (metis)
qed simp

end
