(* ===== verification/Service_Task.thy ===== *)
theory Service_Task
  imports Service_Safety
begin

text \<open>
  The task that executes a Run as a state machine: its handlers, the exceptions that may reach it
  at an await, the operations of the runtime on the execution, and everything other callers and
  the event loop do to the world. The invariant ties what the task has streamed to what the
  database holds: the text of the answer and the sources it may cite.
\<close>

section \<open>The text and the sources in the log\<close>

definition event_text :: "event_row \<Rightarrow> pystr" where
  "event_text e =
     (if ev_type e = lit ''message.delta''
      then (case dict_get (ev_payload e) (lit ''delta'') of PStr d \<Rightarrow> d | _ \<Rightarrow> []) else [])"

definition event_sources :: "event_row \<Rightarrow> pystr list" where
  "event_sources e =
     (if ev_type e = lit ''source.added''
      then (case dict_get (ev_payload e) (lit ''source_id'') of PStr s \<Rightarrow> [s] | _ \<Rightarrow> []) else [])"

definition streamed :: "db \<Rightarrow> pystr \<Rightarrow> pystr" where
  "streamed db rid = concat (map event_text (events_of db rid))"

definition logged_sources :: "db \<Rightarrow> pystr \<Rightarrow> pystr list" where
  "logged_sources db rid = concat (map event_sources (events_of db rid))"

definition payload_text :: "payload \<Rightarrow> pystr" where
  "payload_text p = (case p of MessageDeltaPayload d \<Rightarrow> d | _ \<Rightarrow> [])"

lemma event_text_dump:
  "ev_type e = lit (event_name (payload_event p)) \<Longrightarrow> ev_payload e = dump_payload c p
     \<Longrightarrow> event_text e = payload_text p"
  by (cases p) (simp_all add: event_text_def payload_text_def)

lemma event_sources_dump:
  "ev_type e = lit (event_name (payload_event p)) \<Longrightarrow> ev_payload e = dump_payload c p
     \<Longrightarrow> event_sources e = (case p of SourceAddedPayload i l t \<Rightarrow> [i] | _ \<Rightarrow> [])"
  by (cases p) (simp_all add: event_sources_def)

lemma quiet_log:
  assumes "quiet rid db db'"
  shows "streamed db' rid = streamed db rid" "logged_sources db' rid = logged_sources db rid"
  using assms by (simp_all add: quiet_def streamed_def logged_sources_def)

text \<open>A runtime event that passes validation is the dump of a payload with the same source.\<close>

lemma validate_runtime_payload:
  assumes "validate_runtime_event c name d = Inr (t, data)"
  obtains p where "t \<in> set RUNTIME_EVENT_TYPES" "name = lit (event_name t)" "valid_payload p"
    "payload_event p = t" "data = dump_payload c p" "parse_payload c t d = Some p"
proof -
  obtain u where u: "List.find (\<lambda>t. lit (event_name t) = name) RUNTIME_EVENT_TYPES = Some u"
    and data: "bindE (validate_product_event c name d) (\<lambda>d'. Inr (u, d')) = Inr (t, data)"
    using assms by (auto simp: validate_runtime_event_def split: option.splits)
  have t: "u = t" "validate_product_event c name d = Inr data" using data by auto
  have name: "u \<in> set RUNTIME_EVENT_TYPES" "name = lit (event_name u)"
    using u by (auto simp: find_Some_iff)
  obtain p where p: "parse_payload c t d = Some p" "data = dump_payload c p"
    using t name(2) by (auto simp: validate_product_event_def split: option.splits)
  show ?thesis
    by (rule that [of p]) (use t name p parse_payload_valid parse_payload_event in \<open>auto\<close>)
qed

lemma parse_source_id:
  assumes "parse_payload c SourceAddedEvent d = Some p"
  obtains i l t where "p = SourceAddedPayload i l t" "dict_get d (lit ''source_id'') = PStr i"
proof -
  obtain i l t where "p = SourceAddedPayload i l t" "str_field 1 128 ''source_id'' d = Some i"
    using assms by (auto simp: bind_eq_Some_conv split: if_splits)
  then show ?thesis
    using that by (auto simp: str_field_def dict_get_def split: option.splits pval.splits if_splits)
qed

lemma accept_event_sources:
  assumes "accept_event now ev ex = (r, ex')" "s \<in> persisted_sources ex'"
  shows "s \<in> persisted_sources ex
    \<or> pe_type ev = lit ''source.added'' \<and> event_key ''source_id'' ev = Some s"
  using assms
  by (auto simp: accept_event_def validate_event_def source_event_ok_def key_or_empty_def
      split: sum.splits if_splits option.splits)

section \<open>Steps\<close>

text \<open>
  The handlers on the phase of the task; an exception at an await (the deadline, a cancellation,
  the runtime); the runtime's operations on the execution; other callers on the world. The event
  loop may change the slots, the other tasks and the health of the service at will.
\<close>

inductive task_step ::
  "codec \<Rightarrow> (nat \<Rightarrow> bool) \<Rightarrow> (rat \<Rightarrow> pystr) \<Rightarrow> host_env \<Rightarrow> pystr \<Rightarrow> task_state \<Rightarrow> task_state \<Rightarrow> bool"
  for c cc fmt_g env rid where
  task_start: "task_step c cc fmt_g env rid (Launched, st) (start_task c rid i st)"
| task_load: "task_step c cc fmt_g env rid (Loading, st) (load_context fmt_g tick rid st)"
| task_event: "task_step c cc fmt_g env rid (Streaming s, st) (receive_event c s ev st)"
| task_result: "task_step c cc fmt_g env rid (Streaming s, st) (receive_result s v st)"
| task_finish: "task_step c cc fmt_g env rid (Streaming s, st) (finish_stream tick s st)"
| task_persist:
    "task_step c cc fmt_g env rid (Appending s ev t data, st) (persist_event c i tick rid s ev t data st)"
| task_complete:
    "task_step c cc fmt_g env rid (Completing text out, st) (commit_completion c mi i1 i2 rid text out st)"
| task_failure: "task_step c cc fmt_g env rid (Failing f, st) (handle_failure c i tick rid f st)"
| task_raise: "ph \<noteq> Stopped \<Longrightarrow> task_step c cc fmt_g env rid (ph, st) (Failing f, st)"
| task_runtime: "runtime_op env ex ex' \<Longrightarrow> task_step c cc fmt_g env rid (ph, w, ex) (ph, w, ex')"
| task_world:
    "wd_db w' = wd_db w \<or> foreign_step c cc rid (wd_db w) (wd_db w')
     \<Longrightarrow> task_step c cc fmt_g env rid (ph, w, ex) (ph, w', ex)"

section \<open>Invariant\<close>

definition appending_ok :: "codec \<Rightarrow> pystr \<Rightarrow> stream_state \<Rightarrow> product_event \<Rightarrow> event_type \<Rightarrow> pdict \<Rightarrow> bool" where
  "appending_ok c before s ev t data \<longleftrightarrow>
     (\<exists>p. t \<in> set RUNTIME_EVENT_TYPES \<and> pe_type ev = lit (event_name t) \<and> valid_payload p
        \<and> payload_event p = t \<and> data = dump_payload c p
        \<and> concat (st_parts s) = before @ payload_text p
        \<and> (\<forall>i l d. p = SourceAddedPayload i l d \<longrightarrow> event_key ''source_id'' ev = Some i))"

fun phase_ok :: "codec \<Rightarrow> pystr \<Rightarrow> phase \<Rightarrow> bool" where
  "phase_ok c before Launched \<longleftrightarrow> before = []"
| "phase_ok c before Loading \<longleftrightarrow> before = []"
| "phase_ok c before (Streaming s) \<longleftrightarrow> concat (st_parts s) = before"
| "phase_ok c before (Appending s ev t data) \<longleftrightarrow> appending_ok c before s ev t data"
| "phase_ok c before (Completing text out) \<longleftrightarrow> text = before"
| "phase_ok c before _ \<longleftrightarrow> True"

fun sources_ok :: "pystr set \<Rightarrow> 'w execution \<Rightarrow> phase \<Rightarrow> bool" where
  "sources_ok logged ex (Completing text out) \<longleftrightarrow> set (result_source_ids out) \<subseteq> logged"
| "sources_ok logged ex (Failing f) \<longleftrightarrow> True"
| "sources_ok logged ex Stopped \<longleftrightarrow> True"
| "sources_ok logged ex _ \<longleftrightarrow> persisted_sources ex \<subseteq> logged"

definition working :: "codec \<Rightarrow> pystr \<Rightarrow> task_state \<Rightarrow> bool" where
  "working c rid t \<longleftrightarrow>
     (\<exists>r. find_run (wd_db (fst (snd t))) rid = Some r \<and> is_active r)
     \<and> phase_ok c (streamed (wd_db (fst (snd t))) rid) (fst t)
     \<and> sources_ok (set (logged_sources (wd_db (fst (snd t))) rid)) (snd (snd t)) (fst t)"

text \<open>The one answer is the streamed text, and what it cites is in the log.\<close>

definition answered :: "pystr \<Rightarrow> db \<Rightarrow> bool" where
  "answered rid db \<longleftrightarrow>
     (\<exists>r out. find_run db rid = Some r \<and> rn_status r = RunCompleted
        \<and> rn_execution_outcome r = Some out
        \<and> map ms_content (filter (\<lambda>m. ms_role m = AssistantRole) (messages_of db rid)) = [streamed db rid]
        \<and> set (result_source_ids out) \<subseteq> set (logged_sources db rid))"

definition task_inv :: "codec \<Rightarrow> pystr \<Rightarrow> task_state \<Rightarrow> bool" where
  "task_inv c rid t \<longleftrightarrow> time_round_trip c \<and> db_inv c (wd_db (fst (snd t)))
     \<and> (aborted rid (wd_db (fst (snd t))) \<or> answered rid (wd_db (fst (snd t))) \<or> working c rid t)"

definition task_init :: "codec \<Rightarrow> pystr \<Rightarrow> task_state \<Rightarrow> bool" where
  "task_init c rid t \<longleftrightarrow> time_round_trip c \<and> fst t = Launched \<and> db_inv c (wd_db (fst (snd t)))
     \<and> (\<exists>r. find_run (wd_db (fst (snd t))) rid = Some r \<and> rn_status r = RunCreated)
     \<and> persisted_sources (snd (snd t)) = {}"

lemma created_log:
  assumes "db_inv c db" "find_run db rid = Some r" "rn_status r = RunCreated"
  shows "events_of db rid = []"
proof -
  have "trace_ok RunCreated (map ev_type (events_of db rid))"
    using inv_run(2) [OF assms(1)] find_run_Some [OF assms(2)] assms(3)
    by (metis log_ok_def)
  then show ?thesis by (auto simp: trace_ok_def)
qed

lemma task_init_inv: "task_init c rid t \<Longrightarrow> task_inv c rid t"
  by (cases t) (auto simp: task_init_def task_inv_def working_def is_active_iff streamed_def dest: created_log)

text \<open>A database whose Run is as before keeps the invariant, for a phase that asks no more.\<close>

lemma aborted_quiet: "quiet rid db db' \<Longrightarrow> aborted rid db \<Longrightarrow> aborted rid db'"
  by (simp add: quiet_def aborted_def)

lemma answered_quiet: "quiet rid db db' \<Longrightarrow> answered rid db \<Longrightarrow> answered rid db'"
  using quiet_log [of rid db db'] by (simp add: quiet_def answered_def)

lemma working_quiet:
  assumes "quiet rid (wd_db w) (wd_db w')" "working c rid (ph, w, ex)"
    "persisted_sources ex' = persisted_sources ex"
  shows "working c rid (ph, w', ex')"
proof -
  have "sources_ok l ex' ph = sources_ok l ex ph" for l using assms(3) by (cases ph) simp_all
  then show ?thesis using assms(1,2) quiet_log [OF assms(1)] by (simp add: quiet_def working_def)
qed

lemma ended_quiet:
  assumes step: "db_step c cc db db'" and inv: "db_inv c db"
    and ended: "aborted rid db \<or> answered rid db"
  shows "quiet rid db db'"
proof -
  obtain r where r: "find_run db rid = Some r" "\<not> is_active r"
    using ended by (auto simp: aborted_def answered_def is_active_iff)
  note row = find_run_Some [OF r(1)]
  have "(change c)\<^sup>*\<^sup>* db db'" by (rule steps_changes [OF r_into_rtranclp inv]) (rule step)
  note F = changes_frozen [OF this inv_parts(1) [OF inv] conjunct1 [OF row] r(2)]
  then have "find_run db' rid = Some r" using find_run_intro [of db' r] row by simp
  with F row r show ?thesis by (simp add: quiet_def)
qed

section \<open>Every step moves the store by at most one of its steps\<close>

lemma method_db_step:
  assumes "repository_call current (\<lambda>now. on_repository (op now)) (w, ex) = (r, st')"
    "\<And>now res db db'. op now db = (res, db') \<Longrightarrow> db_step c cc db db'"
  shows "wd_db (fst st') = wd_db w \<or> db_step c cc (wd_db w) (wd_db (fst st'))"
  using repository_method_cases [OF assms(1)] assms(2) by auto

lemma commit_terminal_phase: "fst (commit_terminal rid op st) = Stopped"
  by (simp add: commit_terminal_def split: prod.split sum.split failure.split)

lemma commit_terminal_cases:
  assumes "commit_terminal rid op (w, ex) = (ph, w', ex')"
  shows "ph = Stopped \<and> ex' = ex \<and> (wd_db w' = wd_db w \<or> (\<exists>now res. op now (wd_db w) = (res, wd_db w')))"
proof -
  obtain r st where call: "repository_call (Some rid) (\<lambda>now. on_repository (op now)) (w, ex) = (r, st)"
    by (cases "repository_call (Some rid) (\<lambda>now. on_repository (op now)) (w, ex)")
  have "ph = Stopped \<and> ex' = snd st \<and> wd_db w' = wd_db (fst st)"
    using assms by (auto simp: commit_terminal_def call split: sum.splits failure.splits prod.splits)
  with repository_method_cases [OF call] show ?thesis by auto
qed

lemma append_and_confirm_cases:
  assumes "append_and_confirm c i tick rid ev t data now st = (r, st')"
  shows "(wd_db (fst st') = wd_db (fst st) \<and> snd st' = snd st \<and> (\<forall>x. r \<noteq> Inr (Some x)))
    \<or> (\<exists>res. append_active_event c i now rid (lit (event_name t)) data (wd_db (fst st)) = (res, wd_db (fst st'))
         \<and> (\<forall>x. r = Inr (Some x) \<longrightarrow> res = Inr (Some x))
         \<and> (snd st' = snd st \<and> (\<forall>x. r \<noteq> Inr (Some x)) \<or> (\<exists>q. accept_event tick ev (snd st) = (q, snd st'))))"
proof -
  obtain q st1 where on: "on_repository (append_active_event c i now rid (lit (event_name t)) data) st = (q, st1)"
    by (cases "on_repository (append_active_event c i now rid (lit (event_name t)) data) st")
  note cases = on_repository_cases [OF on]
  show ?thesis
  proof (cases q)
    case (Inl f)
    with assms on cases show ?thesis by (auto simp: append_and_confirm_def)
  next
    case (Inr stored)
    then obtain res where res: "append_active_event c i now rid (lit (event_name t)) data (wd_db (fst st))
        = (res, wd_db (fst st1))" "res = Inr stored" "snd st1 = snd st" using cases by auto
    show ?thesis
    proof (cases stored)
      case None
      with assms on Inr res show ?thesis by (auto simp: append_and_confirm_def)
    next
      case (Some e)
      obtain a ex1 where a: "accept_event tick ev (snd st1) = (a, ex1)"
        by (cases "accept_event tick ev (snd st1)")
      have "fst st' = fst st1" "snd st' = ex1" "\<forall>x. r = Inr (Some x) \<longrightarrow> x = e"
        using assms on Inr Some a by (auto simp: append_and_confirm_def split: sum.splits)
      with a res Some show ?thesis by (intro disjI2 exI [of _ res]) auto
    qed
  qed
qed

section \<open>Every step keeps the invariant\<close>

lemma workingI:
  "find_run (wd_db w) rid = Some r \<Longrightarrow> is_active r \<Longrightarrow> phase_ok c (streamed (wd_db w) rid) ph
     \<Longrightarrow> sources_ok (set (logged_sources (wd_db w) rid)) ex ph \<Longrightarrow> working c rid (ph, w, ex)"
  by (simp add: working_def)

lemma working_idle:
  "ph = Stopped \<or> (\<exists>f. ph = Failing f) \<Longrightarrow> find_run (wd_db w) rid = Some r \<Longrightarrow> is_active r
     \<Longrightarrow> working c rid (ph, w, ex)"
  by (auto simp: working_def)

lemma running_active: "rn_status r = RunRunning \<Longrightarrow> is_active r"
  by (simp add: is_active_iff)

lemma log_snoc:
  assumes "events_of db' rid = events_of db rid @ [e]"
  shows "streamed db' rid = streamed db rid @ event_text e"
    "logged_sources db' rid = logged_sources db rid @ event_sources e"
  using assms by (simp_all add: streamed_def logged_sources_def)

lemma start_works:
  assumes w: "working c rid (Launched, w, ex)" and step: "start_task c rid i (w, ex) = (ph, w', ex')"
  shows "working c rid (ph, w', ex')"
proof -
  obtain r st where call: "repository_call (Some rid) (\<lambda>now. on_repository (start_run c i now rid)) (w, ex)
      = (r, st)"
    by (cases "repository_call (Some rid) (\<lambda>now. on_repository (start_run c i now rid)) (w, ex)")
  have ph: "(w', ex') = st" "ph = (if r = Inr True then Loading else ph)"
    "r \<noteq> Inr True \<Longrightarrow> ph = Stopped \<or> (\<exists>f. ph = Failing f)"
    using step by (auto simp: start_task_def call split: sum.splits if_splits)
  obtain q where q: "find_run (wd_db w) rid = Some q" "is_active q" and log: "streamed (wd_db w) rid = []"
    and src: "persisted_sources ex \<subseteq> set (logged_sources (wd_db w) rid)"
    using w by (auto simp: working_def)
  have ex': "ex' = ex" using repository_method_cases [OF call] ph(1) by auto
  consider (same) "wd_db w' = wd_db w" "r \<noteq> Inr True"
    | (started) e q' where "find_run (wd_db w') rid = Some q'" "rn_status q' = RunRunning"
      "events_of (wd_db w') rid = events_of (wd_db w) rid @ [e]" "ev_type e = lit ''run.started''"
  proof -
    from repository_method_cases [OF call] ph(1)
    consider "wd_db w' = wd_db w" "r \<noteq> Inr True"
      | now res where "start_run c i now rid (wd_db w) = (res, wd_db w')" "r = Inr True \<longrightarrow> res = Inr True"
      by auto
    then show ?thesis using start_stores same started by cases blast+
  qed
  then show ?thesis
  proof cases
    case same
    with ph(3) q show ?thesis by (metis working_idle)
  next
    case started
    then have "streamed (wd_db w') rid = []" "logged_sources (wd_db w') rid = logged_sources (wd_db w) rid"
      using log_snoc [OF started(3)] log by (simp_all add: event_text_def event_sources_def)
    then have "working c rid (Loading, w', ex')"
      using started(1) running_active [OF started(2)] src ex' by (intro workingI) auto
    then show ?thesis using ph(2,3) working_idle [OF _ started(1) running_active [OF started(2)]] by metis
  qed
qed

lemma load_works:
  assumes w: "working c rid (Loading, w, ex)" and step: "load_context fmt_g tick rid (w, ex) = (ph, w', ex')"
  shows "working c rid (ph, w', ex')"
proof -
  obtain r st where call: "repository_call (Some rid)
      (\<lambda>now. on_repository (\<lambda>db. (get_run_context rid db, db))) (w, ex) = (r, st)"
    by (cases "repository_call (Some rid) (\<lambda>now. on_repository (\<lambda>db. (get_run_context rid db, db))) (w, ex)")
  have same: "wd_db (fst st) = wd_db w" "snd st = ex" using repository_method_cases [OF call] by auto
  have ph: "(w', ex') = st"
    "(\<exists>f. ph = Failing f) \<or> ph = Streaming \<lparr>st_result = None, st_parts = [], st_chars = 0\<rparr>"
    using step by (auto simp: load_context_def call split: sum.splits prod.splits)
  have db: "wd_db w' = wd_db w" "ex' = ex" using same ph(1) by auto
  from ph(2) w show ?thesis by (auto simp: working_def db)
qed

lemma event_works:
  assumes w: "working c rid (Streaming s, w, ex)" and step: "receive_event c s ev (w, ex) = (ph, w', ex')"
  shows "working c rid (ph, w', ex')"
proof -
  have st: "w' = w" "ex' = ex"
    and ph: "(\<exists>f. ph = Failing f) \<or> (\<exists>s' t data. validate_runtime_event c (pe_type ev) (pe_data ev) = Inr (t, data)
        \<and> ph = Appending s' ev t data
        \<and> st_parts s' = st_parts s @ (case (t, dict_get data (lit ''delta'')) of
             (MessageDeltaEvent, PStr d) \<Rightarrow> [d] | _ \<Rightarrow> [])
        \<and> (t = MessageDeltaEvent \<longrightarrow> (\<exists>d. dict_get data (lit ''delta'') = PStr d)))"
    using step
    by (auto simp: receive_event_def Let_def split: if_splits sum.splits prod.splits pval.splits event_type.splits)
  show ?thesis
  proof (cases "\<exists>f. ph = Failing f")
    case True
    with w show ?thesis by (auto simp: working_def st)
  next
    case False
    then obtain s' t data where v: "validate_runtime_event c (pe_type ev) (pe_data ev) = Inr (t, data)"
      and ph': "ph = Appending s' ev t data"
      and parts: "st_parts s' = st_parts s @ (case (t, dict_get data (lit ''delta'')) of
             (MessageDeltaEvent, PStr d) \<Rightarrow> [d] | _ \<Rightarrow> [])"
      using ph by blast
    obtain p where p: "t \<in> set RUNTIME_EVENT_TYPES" "pe_type ev = lit (event_name t)" "valid_payload p"
        "payload_event p = t" "data = dump_payload c p" "parse_payload c t (pe_data ev) = Some p"
      using validate_runtime_payload [OF v] by metis
    have "concat (st_parts s') = concat (st_parts s) @ payload_text p"
      using parts p(4,5) by (cases p) (auto simp: payload_text_def)
    moreover have "event_key ''source_id'' ev = Some i" if "p = SourceAddedPayload i l d" for i l d
    proof -
      have "parse_payload c SourceAddedEvent (pe_data ev) = Some p" using p(4,6) that by simp
      then show ?thesis by (rule parse_source_id) (use that in \<open>simp add: event_key_def\<close>)
    qed
    ultimately have "appending_ok c (concat (st_parts s)) s' ev t data"
      unfolding appending_ok_def using p by (intro exI [of _ p]) simp
    with w show ?thesis by (auto simp: working_def st ph')
  qed
qed

lemma result_works:
  assumes "working c rid (Streaming s, w, ex)" "receive_result s v (w, ex) = (ph, w', ex')"
  shows "working c rid (ph, w', ex')"
  using assms by (auto simp: receive_result_def working_def split: if_splits)

lemma outcome_result_sources:
  "outcome tick st reason code known ex = Inr out \<Longrightarrow> result_source_ids out = ex_result_source_ids ex"
  by (auto simp: outcome_def make_outcome_def requireE_def split: if_splits sum.splits)

lemma finish_works:
  assumes w: "working c rid (Streaming s, w, ex)" and step: "finish_stream tick s (w, ex) = (ph, w', ex')"
  shows "working c rid (ph, w', ex')"
proof -
  have w': "w' = w" and ph: "(\<exists>f. ph = Failing f) \<or>
      (\<exists>value result out. validate_result value (Some (concat (st_parts s))) ex = (Inr result, ex')
         \<and> outcome tick OutcomeCompleted (lit ''completed'') None True ex' = Inr out
         \<and> ph = Completing (result_text result) out)"
    using step by (auto simp: finish_stream_def split: option.splits sum.splits prod.splits)
  show ?thesis
  proof (cases "\<exists>f. ph = Failing f")
    case True
    with w show ?thesis by (auto simp: working_def w')
  next
    case False
    then obtain v result out where v: "validate_result v (Some (concat (st_parts s))) ex = (Inr result, ex')"
      and out: "outcome tick OutcomeCompleted (lit ''completed'') None True ex' = Inr out"
      and ph': "ph = Completing (result_text result) out"
      using ph by blast
    note V = validate_result_ok [OF v]
    have "set (result_source_ids out) \<subseteq> persisted_sources ex" "result_text result = concat (st_parts s)"
      using V outcome_result_sources [OF out] by simp_all
    with w show ?thesis by (auto simp: working_def w' ph')
  qed
qed

lemma persist_works:
  assumes w: "working c rid (Appending s ev t data, w, ex)" and inv: "db_inv c (wd_db w)"
    and rt: "time_round_trip c"
    and step: "persist_event c i tick rid s ev t data (w, ex) = (ph, w', ex')"
  shows "working c rid (ph, w', ex')"
proof -
  obtain r st where call: "repository_call (Some rid) (append_and_confirm c i tick rid ev t data) (w, ex) = (r, st)"
    by (cases "repository_call (Some rid) (append_and_confirm c i tick rid ev t data) (w, ex)")
  have ph: "(w', ex') = st" "if \<exists>e. r = Inr (Some e) then ph = Streaming s else ph = Stopped \<or> (\<exists>f. ph = Failing f)"
    using step by (auto simp: persist_event_def call split: sum.splits option.splits)
  obtain q where q: "find_run (wd_db w) rid = Some q" "is_active q"
    and app: "appending_ok c (streamed (wd_db w) rid) s ev t data"
    and src: "persisted_sources ex \<subseteq> set (logged_sources (wd_db w) rid)"
    using w by (auto simp: working_def)
  from app obtain p where p: "t \<in> set RUNTIME_EVENT_TYPES" "pe_type ev = lit (event_name t)"
      "valid_payload p" "payload_event p = t" "data = dump_payload c p"
      "concat (st_parts s) = streamed (wd_db w) rid @ payload_text p"
      "\<forall>i l d. p = SourceAddedPayload i l d \<longrightarrow> event_key ''source_id'' ev = Some i"
    unfolding appending_ok_def by blast
  have "(wd_db w' = wd_db w \<and> (\<forall>x. r \<noteq> Inr (Some x)))
    \<or> (\<exists>now res. append_active_event c i now rid (lit (event_name t)) data (wd_db w) = (res, wd_db w')
         \<and> (\<forall>x. r = Inr (Some x) \<longrightarrow> res = Inr (Some x))
         \<and> (ex' = ex \<and> (\<forall>x. r \<noteq> Inr (Some x)) \<or> (\<exists>q. accept_event tick ev ex = (q, ex'))))"
    using repository_call_cases [OF call]
  proof (elim disjE exE conjE)
    fix now st0 r1 st1
    assume st0: "wd_db (fst st0) = wd_db (fst (w, ex))" "snd st0 = snd (w, ex)"
      and op: "append_and_confirm c i tick rid ev t data now st0 = (r1, st1)"
      and st1: "wd_db (fst st) = wd_db (fst st1)" "snd st = snd st1" "\<forall>x. r = Inr x \<longrightarrow> r1 = Inr x"
    have eq: "wd_db (fst st0) = wd_db w" "snd st0 = ex" "wd_db (fst st1) = wd_db w'" "snd st1 = ex'"
      using st0 st1 ph(1) by auto
    from append_and_confirm_cases [OF op, unfolded eq] show ?thesis
    proof (elim disjE exE conjE)
      fix res
      assume "append_active_event c i now rid (lit (event_name t)) data (wd_db w) = (res, wd_db w')"
        "\<forall>x. r1 = Inr (Some x) \<longrightarrow> res = Inr (Some x)" "ex' = ex" "\<forall>x. r1 \<noteq> Inr (Some x)"
      then show ?thesis using st1(3) by (intro disjI2 exI [of _ now] exI [of _ res]) auto
    next
      fix res a
      assume "append_active_event c i now rid (lit (event_name t)) data (wd_db w) = (res, wd_db w')"
        "\<forall>x. r1 = Inr (Some x) \<longrightarrow> res = Inr (Some x)" "accept_event tick ev ex = (a, ex')"
      then show ?thesis using st1(3) by (intro disjI2 exI [of _ now] exI [of _ res]) simp
    qed (use st1(3) in auto)
  qed (use ph(1) in auto)
  then show ?thesis
  proof (elim disjE conjE exE)
    assume "wd_db w' = wd_db w" "\<forall>x. r \<noteq> Inr (Some x)"
    then show ?thesis using ph(2) q by (metis working_idle)
  next
    fix now res
    assume op: "append_active_event c i now rid (lit (event_name t)) data (wd_db w) = (res, wd_db w')"
      and res: "\<forall>x. r = Inr (Some x) \<longrightarrow> res = Inr (Some x)"
      and same: "ex' = ex" "\<forall>x. r \<noteq> Inr (Some x)"
    from append_stores [OF op [unfolded p(5)] inv_parts(1) [OF inv] rt p(3,4,1)] same(2) ph(2) q
    show ?thesis by (metis working_idle running_active)
  next
    fix now res a
    assume op: "append_active_event c i now rid (lit (event_name t)) data (wd_db w) = (res, wd_db w')"
      and res: "\<forall>x. r = Inr (Some x) \<longrightarrow> res = Inr (Some x)"
      and acc: "accept_event tick ev ex = (a, ex')"
    from append_stores [OF op [unfolded p(5)] inv_parts(1) [OF inv] rt p(3,4,1)]
    show ?thesis
    proof (elim disjE exE conjE)
      assume "wd_db w' = wd_db w" "\<forall>x. res \<noteq> Inr (Some x)"
      then show ?thesis using ph(2) q res by (metis working_idle)
    next
      fix e r0 r'
      assume e: "find_run (wd_db w') rid = Some r'" "rn_status r' = RunRunning"
        "events_of (wd_db w') rid = events_of (wd_db w) rid @ [e]"
        "ev_type e = lit (event_name t)" "ev_payload e = dump_payload c p"
      have etext: "event_text e = payload_text p" by (rule event_text_dump) (use e p(4) in simp_all)
      have ids: "event_sources e = (case p of SourceAddedPayload i l t \<Rightarrow> [i] | _ \<Rightarrow> [])"
        by (rule event_sources_dump) (use e p(4) in simp_all)
      have "x \<in> set (logged_sources (wd_db w') rid)" if x: "x \<in> persisted_sources ex'" for x
        using accept_event_sources [OF acc x]
      proof (elim disjE conjE)
        assume "pe_type ev = lit ''source.added''" "event_key ''source_id'' ev = Some x"
        then have "event_sources e = [x]" using p(2,4,7) ids by (cases p) auto
        then show ?thesis using log_snoc(2) [OF e(3)] by simp
      qed (use src log_snoc(2) [OF e(3)] in auto)
      then have "working c rid (Streaming s, w', ex')"
        using e(1) running_active [OF e(2)] p(6) log_snoc(1) [OF e(3)] etext by (intro workingI) auto
      with ph(2) working_idle [OF _ e(1) running_active [OF e(2)]] show ?thesis by metis
    qed
  qed
qed

lemma complete_works:
  assumes w: "working c rid (Completing text out, w, ex)" and inv: "db_inv c (wd_db w)"
    and step: "commit_completion c mi i1 i2 rid text out (w, ex) = (ph, w', ex')"
  shows "working c rid (ph, w', ex') \<or> answered rid (wd_db w')"
proof -
  obtain q where q: "find_run (wd_db w) rid = Some q" "is_active q" and answer: "text = streamed (wd_db w) rid"
    and src: "set (result_source_ids out) \<subseteq> set (logged_sources (wd_db w) rid)"
    using w by (auto simp: working_def)
  have ph: "ph = Stopped" and eff: "wd_db w' = wd_db w
      \<or> (\<exists>now res. complete_run c mi i1 i2 now rid text out None (wd_db w) = (res, wd_db w'))"
    using commit_terminal_cases [OF step [unfolded commit_completion_def]] by auto
  have same: ?thesis if "wd_db w' = wd_db w" using that q ph by (metis working_idle)
  from eff show ?thesis
  proof (elim disjE exE)
    fix now res assume "complete_run c mi i1 i2 now rid text out None (wd_db w) = (res, wd_db w')"
    from complete_stores [OF this inv_parts(1) [OF inv]] show ?thesis
    proof (elim disjE exE conjE)
      fix r r' m e1 e2
      assume r: "find_run (wd_db w) rid = Some r" "rn_status r = RunRunning"
        and r': "find_run (wd_db w') rid = Some r'" "rn_status r' = RunCompleted"
          "rn_execution_outcome r' = Some out"
        and log: "events_of (wd_db w') rid = events_of (wd_db w) rid @ [e1, e2]"
          "ev_type e1 = lit ''message.completed''" "ev_type e2 = lit ''run.completed''"
        and m: "messages_of (wd_db w') rid = messages_of (wd_db w) rid @ [m]"
          "ms_role m = AssistantRole" "ms_content m = text"
      have "map ms_role (messages_of (wd_db w) rid) = [UserRole]"
        using inv_run(4) [OF inv] find_run_Some [OF r(1)] r(2) by (auto simp: roles_ok_def)
      then have "filter (\<lambda>m. ms_role m = AssistantRole) (messages_of (wd_db w) rid) = []"
        by (auto simp: map_eq_Cons_conv)
      moreover have "streamed (wd_db w') rid = streamed (wd_db w) rid"
        "logged_sources (wd_db w') rid = logged_sources (wd_db w) rid"
        using log by (simp_all add: streamed_def logged_sources_def event_text_def event_sources_def)
      ultimately have "answered rid (wd_db w')" using r' m answer src by (simp add: answered_def)
      then show ?thesis ..
    qed (rule same)
  qed (rule same)
qed

lemma handle_failure_cases:
  assumes step: "handle_failure c i tick rid f (w, ex) = (ph, w', ex')"
  shows "ph = Stopped \<and> (wd_db w' = wd_db w
      \<or> (\<exists>code out category now res. fail_run c i now rid code out category (wd_db w) = (res, wd_db w')))"
proof (cases "terminal_failure f")
  case None
  with step show ?thesis by (auto simp: handle_failure_def split: if_splits)
next
  case (Some t)
  then obtain code reason category where t: "terminal_failure f = Some (code, reason, category)"
    by (cases t) simp
  define ex1 where "ex1 = (if f = Raised ResultSchemaInvalid then record_result_validation_failure ex else ex)"
  note step' = step [unfolded handle_failure_def t option.case prod.case Let_def fst_conv snd_conv
    ex1_def [symmetric]]
  show ?thesis
  proof (cases "outcome tick OutcomeFailed reason (Some code) True ex1")
    case (Inl e)
    with step' show ?thesis by simp
  next
    case (Inr out)
    with step' have "commit_terminal rid (\<lambda>now. fail_run c i now rid code out (Some category)) (w, ex1)
        = (ph, w', ex')" by simp
    from commit_terminal_cases [OF this] show ?thesis by blast
  qed
qed

lemma failure_works:
  assumes w: "working c rid (Failing f, w, ex)" and inv: "db_inv c (wd_db w)"
    and step: "handle_failure c i tick rid f (w, ex) = (ph, w', ex')"
  shows "working c rid (ph, w', ex') \<or> aborted rid (wd_db w')"
proof -
  obtain q where q: "find_run (wd_db w) rid = Some q" "is_active q" using w by (auto simp: working_def)
  consider "ph = Stopped" "quiet rid (wd_db w) (wd_db w')" | "aborted rid (wd_db w')"
    using handle_failure_cases [OF step] quiet_same
      moved_quiet [OF fail_run_after [OF _ inv_parts(1) [OF inv]] inv_parts(1) [OF inv]]
    by metis
  then show ?thesis
  proof cases
    case 1
    with q have "find_run (wd_db w') rid = Some q" by (simp add: quiet_def)
    with 1(1) q(2) working_idle show ?thesis by metis
  qed simp
qed

lemma persist_db_step:
  assumes "persist_event c i tick rid s ev t data (w, ex) = (ph, w', ex')"
  shows "wd_db w' = wd_db w \<or> db_step c cc (wd_db w) (wd_db w')"
proof -
  obtain r st where call: "repository_call (Some rid) (append_and_confirm c i tick rid ev t data) (w, ex) = (r, st)"
    by (cases "repository_call (Some rid) (append_and_confirm c i tick rid ev t data) (w, ex)")
  have "(w', ex') = st" using assms by (auto simp: persist_event_def call split: sum.splits option.splits)
  then show ?thesis
    using repository_call_cases [OF call] append_and_confirm_cases step_append_event
    by (metis fst_conv)
qed

text \<open>Every step moves the database by at most one step of the store.\<close>

lemma task_db_step:
  assumes "task_step c cc fmt_g env rid (ph, w, ex) (ph', w', ex')"
  shows "wd_db w' = wd_db w \<or> db_step c cc (wd_db w) (wd_db w')"
  using assms
proof cases
  case (task_start i)
  obtain r st where call: "repository_call (Some rid) (\<lambda>now. on_repository (start_run c i now rid)) (w, ex)
      = (r, st)"
    by (cases "repository_call (Some rid) (\<lambda>now. on_repository (start_run c i now rid)) (w, ex)")
  have "(w', ex') = st" using task_start by (simp add: start_task_def call split: sum.splits)
  then show ?thesis using method_db_step [OF call] step_start_run by (metis fst_conv)
next
  case (task_load tick)
  obtain r st where call: "repository_call (Some rid)
      (\<lambda>now. on_repository (\<lambda>db. (get_run_context rid db, db))) (w, ex) = (r, st)"
    by (cases "repository_call (Some rid) (\<lambda>now. on_repository (\<lambda>db. (get_run_context rid db, db))) (w, ex)")
  have "(w', ex') = st" using task_load by (simp add: load_context_def call split: sum.splits prod.splits)
  then show ?thesis using repository_method_cases [OF call] by auto
next
  case (task_event s ev)
  then show ?thesis by (auto simp: receive_event_def Let_def split: if_splits sum.splits prod.splits pval.splits)
next
  case (task_result s v)
  then show ?thesis by (simp add: receive_result_def split: if_splits)
next
  case (task_finish s tick)
  then show ?thesis by (auto simp: finish_stream_def split: sum.splits prod.splits option.splits)
next
  case (task_persist s ev t data i tick)
  then show ?thesis using persist_db_step by metis
next
  case (task_complete answer out mi i1 i2)
  then show ?thesis using commit_terminal_cases step_complete_run unfolding commit_completion_def by metis
next
  case (task_failure f i tick)
  then show ?thesis using handle_failure_cases step_fail_run by metis
qed (auto intro: foreign_is_step)

lemma ended_step:
  assumes "db' = db \<or> db_step c cc db db'" "db_inv c db" "aborted rid db \<or> answered rid db"
  shows "aborted rid db' \<or> answered rid db'"
proof -
  have "quiet rid db db'" using assms ended_quiet quiet_same by metis
  then show ?thesis using assms(3) aborted_quiet answered_quiet by metis
qed

lemma world_works:
  assumes "working c rid (ph, w, ex)" "db_inv c (wd_db w)"
    "wd_db w' = wd_db w \<or> foreign_step c cc rid (wd_db w) (wd_db w')"
  shows "working c rid (ph, w', ex) \<or> aborted rid (wd_db w')"
proof -
  obtain r where "find_run (wd_db w) rid = Some r" using assms(1) by (auto simp: working_def)
  then have "quiet rid (wd_db w) (wd_db w') \<or> aborted rid (wd_db w')"
    using assms(2,3) foreign_rely(2) quiet_same by metis
  then show ?thesis using working_quiet assms(1) by metis
qed

lemma step_works:
  assumes step: "task_step c cc fmt_g env rid (ph, w, ex) (ph', w', ex')"
    and w: "working c rid (ph, w, ex)" and inv: "db_inv c (wd_db w)" and rt: "time_round_trip c"
  shows "aborted rid (wd_db w') \<or> answered rid (wd_db w') \<or> working c rid (ph', w', ex')"
  using step
proof cases
  case (task_start i)
  with start_works w show ?thesis by metis
next
  case (task_load tick)
  with load_works w show ?thesis by metis
next
  case (task_event s ev)
  with event_works w show ?thesis by metis
next
  case (task_result s v)
  with result_works w show ?thesis by metis
next
  case (task_finish s tick)
  with finish_works w show ?thesis by metis
next
  case (task_persist s ev t data i tick)
  with persist_works w inv rt show ?thesis by metis
next
  case (task_complete answer out mi i1 i2)
  with complete_works w inv show ?thesis by metis
next
  case (task_failure f i tick)
  with failure_works w inv show ?thesis by metis
next
  case (task_raise f)
  with w show ?thesis by (auto simp: working_def)
next
  case task_runtime
  with working_quiet [OF quiet_same w runtime_op_sources] show ?thesis by simp
next
  case task_world
  with world_works w inv show ?thesis by metis
qed

lemma task_step_inv:
  assumes inv: "task_inv c rid t" and step: "task_step c cc fmt_g env rid t t'"
  shows "task_inv c rid t'"
proof -
  obtain ph w ex ph' w' ex' where t: "t = (ph, w, ex)" "t' = (ph', w', ex')"
    by (cases t; cases t') auto
  note I = inv [unfolded task_inv_def t fst_conv snd_conv]
  have moved: "wd_db w' = wd_db w \<or> db_step c cc (wd_db w) (wd_db w')"
    using task_db_step step t by metis
  then have "db_inv c (wd_db w')" using step_inv I by metis
  moreover have "aborted rid (wd_db w') \<or> answered rid (wd_db w') \<or> working c rid t'"
    using I ended_step [OF moved] step_works [OF step [unfolded t]] t(2) by blast
  ultimately show ?thesis using I by (simp add: task_inv_def t(2))
qed

interpretation task: guarded_machine "task_init c rid" "task_step c cc fmt_g env rid" "task_inv c rid"
  for c rid cc fmt_g env
  by unfold_locales (auto intro: task_init_inv task_step_inv)

end
