(* ===== verification/Service_Demo.thy ===== *)
theory Service_Demo
  imports Service_Task Store_Demo Run_Properties
begin

text \<open>
  A Run of the service from its launch to its stored answer, step by step, on the history of
  Store_Demo: started, its context loaded, one delta streamed, the result validated, completed.
\<close>

definition demo_slot :: "int \<Rightarrow> slot" where
  "demo_slot n = \<lparr>sl_now = n, sl_wakes = [OperationDone Settled], sl_late = False\<rparr>"

definition demo_world :: "db \<Rightarrow> slot list \<Rightarrow> world" where
  "demo_world db slots =
     \<lparr>wd_service = \<lparr>sv_closed = False, sv_fatal = None, sv_tasks = [(lit ''r'', False)], sv_quarantined = 0\<rparr>,
      wd_repository = \<lparr>rp_fatal_error = None, rp_db = db\<rparr>, wd_slots = slots\<rparr>"

lemma demo_world_db [simp]: "wd_db (demo_world db slots) = db"
  by (simp add: demo_world_def wd_db_def)

lemma demo_call [simp]:
  "repository_call current op (demo_world db (demo_slot n # slots), x) = op n (demo_world db slots, x)"
  by (simp add: repository_call_def require_repository_safe_def demo_world_def demo_slot_def next_slot_def)

lemma demo_on [simp]:
  "on_repository op (demo_world db slots, x)
     = (case op db of (res, db') \<Rightarrow>
          (case res of Inl e \<Rightarrow> Inl (Raised e) | Inr v \<Rightarrow> Inr v, demo_world db' slots, x))"
  by (simp add: on_repository_def with_guard_def require_available_def demo_world_def split: prod.split)

section \<open>The database\<close>

lemma demo_db2_messages:
  "db_messages demo_db2 = [\<lparr>ms_id = lit ''m'', ms_thread_id = lit ''t'', ms_run_id = Some (lit ''r''),
     ms_role = UserRole, ms_content = lit ''hi'', ms_created_at = 2\<rparr>]"
  by (simp add: demo_db2_def create_run_def validate_execution_plan_def demo_plan_valid
      create_run_tx_def demo_db1_eq find_thread_def empty_db_def require_thread_owner_def
      demo_owner require_thread_run_consistency_def requireE_def find_idempotent_def active_run_def
      insert_run_def run_constraints_def find_run_def new_run_row_def insert_message_def
      message_constraints_def user_message_row_def has_run_def touch_thread_def put_thread_def
      Let_def)

lemma demo_start_ok: "start_run plain_codec (lit ''e'') 3 (lit ''r'') demo_db2 = (Inr True, demo_db3)"
proof -
  obtain res where res: "start_run plain_codec (lit ''e'') 3 (lit ''r'') demo_db2 = (res, demo_db3)"
    by (simp add: demo_db3_def prod_eq_iff)
  have "fst (start_run plain_codec (lit ''e'') 3 (lit ''r'') demo_db2) = Inr True"
    by (simp add: start_run_def claim_run_def find_run_def demo_db2_eq demo_row_def
        new_run_row_def put_run_def require_internal_run_consistency_def find_thread_def demo_subject
        make_event_def validate_product_event_def find_event_type_def PRODUCT_EVENT_TYPES_def
        literal_status_def insert_event_def event_constraints_def has_run_def)
  with res show ?thesis by simp
qed

lemma demo_db3_rest:
  "db_messages demo_db3 = db_messages demo_db2" "db_threads demo_db3 = db_threads demo_db2"
  by (simp_all add: demo_db3_def start_run_def claim_run_def find_run_def demo_db2_eq demo_row_def
      new_run_row_def put_run_def require_internal_run_consistency_def find_thread_def demo_subject
      make_event_def validate_product_event_def find_event_type_def PRODUCT_EVENT_TYPES_def
      literal_status_def insert_event_def event_constraints_def has_run_def)

lemma demo_context_ok: "\<exists>ms. get_run_context (lit ''r'') demo_db3 = Inr (lit ''t'', ms)"
  by (simp add: get_run_context_def find_run_def demo_db3_eq demo_db3_rest demo_db2_messages
      demo_db2_eq find_thread_def demo_started_row_def demo_row_def new_run_row_def
      require_internal_run_consistency_def demo_subject require_thread_run_consistency_def
      requireE_def in_context_def order_by_def message_view_def)

lemma demo_db3_events:
  "db_events demo_db3 = [\<lparr>ev_id = lit ''e'', ev_run_id = lit ''r'', ev_thread_id = lit ''t'', ev_seq = 1,
     ev_type = lit ''run.started'', ev_occurred_at = 3,
     ev_payload = dump_payload plain_codec RunStartedPayload\<rparr>]"
  by (simp add: demo_db3_def start_run_def claim_run_def find_run_def demo_db2_eq demo_row_def
      new_run_row_def put_run_def require_internal_run_consistency_def find_thread_def demo_subject
      make_event_def validate_product_event_def find_event_type_def PRODUCT_EVENT_TYPES_def
      literal_status_def insert_event_def event_constraints_def has_run_def)

definition demo_delta :: payload where
  "demo_delta = MessageDeltaPayload (lit ''hello'')"

definition demo_event :: product_event where
  "demo_event = \<lparr>pe_type = lit ''message.delta'', pe_data = dump_payload plain_codec demo_delta\<rparr>"

definition demo_db_streamed :: db where
  "demo_db_streamed = snd (append_active_event plain_codec (lit ''d'') 5 (lit ''r'') (lit ''message.delta'')
     (dump_payload plain_codec demo_delta) demo_db3)"

lemma demo_delta_valid: "valid_payload demo_delta" "payload_event demo_delta = MessageDeltaEvent"
  by (simp_all add: demo_delta_def len_between_def lit_def)

lemma demo_validated:
  "validate_runtime_event plain_codec (lit ''message.delta'') (dump_payload plain_codec demo_delta)
     = Inr (MessageDeltaEvent, dump_payload plain_codec demo_delta)"
  using validate_runtime_stored [OF plain_time demo_delta_valid] by (simp add: RUNTIME_EVENT_TYPES_def)

lemma demo_event_valid:
  "validate_product_event plain_codec (lit ''message.delta'') (dump_payload plain_codec demo_delta)
     = Inr (dump_payload plain_codec demo_delta)"
  using validate_stored [OF plain_time demo_delta_valid(1)] demo_delta_valid(2) by (simp add: demo_delta_def)

lemma demo_append_ok:
  "\<exists>v. append_active_event plain_codec (lit ''d'') 5 (lit ''r'') (lit ''message.delta'')
     (dump_payload plain_codec demo_delta) demo_db3 = (Inr (Some v), demo_db_streamed)"
proof -
  have "\<exists>v. fst (append_active_event plain_codec (lit ''d'') 5 (lit ''r'') (lit ''message.delta'')
      (dump_payload plain_codec demo_delta) demo_db3) = Inr (Some v)"
    by (simp add: append_active_event_def demo_validated append_event_tx_def claim_run_def find_run_def
        demo_db3_eq(1) demo_db3_rest demo_db2_eq demo_started_row_def demo_row_def new_run_row_def
        put_run_def require_internal_run_consistency_def find_thread_def demo_subject
        make_event_def demo_event_valid insert_event_def event_constraints_def has_run_def
        demo_db3_events event_view_def normalize_stored_product_event_def)
  then show ?thesis by (auto simp: demo_db_streamed_def prod_eq_iff)
qed

section \<open>The run of the task\<close>

definition demo_exec :: "world execution" where
  "demo_exec = demo_run"

definition demo_seen :: "world execution" where
  "demo_seen = demo_exec\<lparr>provider_usage := record_first_visible 7 (provider_usage demo_exec)\<rparr>"

definition demo_answer_result :: agent_result where
  "demo_answer_result = \<lparr>result_version = lit ''1.0.0'', result_text = lit ''hello'', result_sources = []\<rparr>"

definition demo_validated_exec :: "world execution" where
  "demo_validated_exec = demo_seen\<lparr>ex_result_validation := Passed, ex_result_source_ids := []\<rparr>"

definition demo_stream :: stream_state where
  "demo_stream = \<lparr>st_result = None, st_parts = [lit ''hello''], st_chars = 5\<rparr>"

abbreviation demo_fmt :: "rat \<Rightarrow> pystr" where
  "demo_fmt \<equiv> \<lambda>_. lit ''60''"

lemma demo_task_start:
  "start_task plain_codec (lit ''r'') (lit ''e'') (demo_world demo_db2 (demo_slot 3 # slots), demo_exec)
     = (Loading, demo_world demo_db3 slots, demo_exec)"
  by (simp add: start_task_def demo_start_ok)

lemma demo_task_load:
  "load_context demo_fmt 6 (lit ''r'') (demo_world demo_db3 (demo_slot 4 # slots), demo_exec)
     = (Streaming \<lparr>st_result = None, st_parts = [], st_chars = 0\<rparr>, demo_world demo_db3 slots, demo_exec)"
proof -
  obtain ms where "get_run_context (lit ''r'') demo_db3 = Inr (lit ''t'', ms)" using demo_context_ok by blast
  moreover have "ensure_deadline 6 demo_exec = Inr ()"
    by (simp add: ensure_deadline_def demo_exec_def demo_run_def new_execution_def demo_agent_def)
  ultimately show ?thesis by (simp add: load_context_def execution_context_def)
qed

lemma demo_task_event:
  "receive_event plain_codec \<lparr>st_result = None, st_parts = [], st_chars = 0\<rparr> demo_event (w, demo_exec)
     = (Appending demo_stream demo_event MessageDeltaEvent (dump_payload plain_codec demo_delta), w, demo_exec)"
proof -
  have "validate_event demo_event demo_exec = Inr ()" by (simp add: validate_event_def demo_event_def)
  moreover have "max_answer_chars (result_contract (ex_agent demo_exec)) = 8000"
    by (simp add: demo_exec_def demo_run_def new_execution_def demo_agent_def)
  moreover have "dict_get (dump_payload plain_codec demo_delta) (lit ''delta'') = PStr (lit ''hello'')"
    by (simp add: demo_delta_def)
  ultimately show ?thesis
    using demo_validated by (simp add: receive_event_def demo_event_def demo_stream_def lit_def)
qed

lemma demo_task_persist:
  "persist_event plain_codec (lit ''d'') 7 (lit ''r'') demo_stream demo_event MessageDeltaEvent
     (dump_payload plain_codec demo_delta) (demo_world demo_db3 (demo_slot 5 # slots), demo_exec)
     = (Streaming demo_stream, demo_world demo_db_streamed slots, demo_seen)"
proof -
  obtain v where "append_active_event plain_codec (lit ''d'') 5 (lit ''r'') (lit ''message.delta'')
     (dump_payload plain_codec demo_delta) demo_db3 = (Inr (Some v), demo_db_streamed)"
    using demo_append_ok by blast
  moreover have "accept_event 7 demo_event demo_exec = (Inr (), demo_seen)"
    by (simp add: accept_event_def validate_event_def demo_event_def demo_seen_def)
  ultimately show ?thesis by (simp add: persist_event_def append_and_confirm_def)
qed

lemma demo_answer_accepted:
  "validate_result (ResultObject demo_answer_result) (Some (lit ''hello'')) demo_seen
     = (Inr demo_answer_result, demo_validated_exec)"
proof -
  have "valid_agent_result demo_answer_result"
    by (simp add: valid_agent_result_def demo_answer_result_def len_between_def valid_source_ids_def
        py_strip_def lit_def is_space_def)
  moreover have "result_contract (ex_agent demo_seen) = \<lparr>contract_schema_version = lit ''1.0.0'',
      max_answer_chars = 8000, source_policy = SourcesIfToolUsed\<rparr>" "tool_calls_succeeded demo_seen = 0"
    by (simp_all add: demo_seen_def demo_exec_def demo_run_def new_execution_def demo_agent_def
        AGENT_RESULT_SCHEMA_VERSION_def)
  ultimately show ?thesis
    by (simp add: validate_result_def demo_answer_result_def demo_validated_exec_def lit_def)
qed

lemma demo_outcome_ok:
  "\<exists>out. outcome 8 OutcomeCompleted (lit ''completed'') None True demo_validated_exec = Inr out
     \<and> valid_outcome out \<and> outcome_status out = OutcomeCompleted \<and> failure_code out = None"
proof -
  have "exec_inv demo_exec" unfolding demo_exec_def by (rule exec_init_inv [OF demo_init])
  then have seen: "exec_inv demo_seen" by (simp add: demo_seen_def exec_inv_def)
  have "ex_result_validation demo_seen = NotRun"
    by (simp add: demo_seen_def demo_exec_def demo_run_def new_execution_def)
  with validate_result_inv [OF demo_answer_accepted seen] have "exec_inv demo_validated_exec" by simp
  moreover have "valid_identifier (lit ''completed'')" by (simp add: pattern_eval lit_def)
  moreover have "ex_result_validation demo_validated_exec = Passed" by (simp add: demo_validated_exec_def)
  ultimately show ?thesis
    using outcome_valid [of demo_validated_exec "lit ''completed''" OutcomeCompleted None True 8] by auto
qed

lemma demo_streamed_tables:
  "map ev_id (db_events demo_db_streamed) = [lit ''e'', lit ''d'']"
  "db_messages demo_db_streamed = db_messages demo_db2" "db_attempts demo_db_streamed = []"
  by (simp_all add: demo_db_streamed_def append_active_event_def demo_validated append_event_tx_def
      claim_run_def find_run_def demo_db3_eq(1,2) demo_db3_rest demo_db2_eq demo_started_row_def
      demo_row_def new_run_row_def put_run_def require_internal_run_consistency_def find_thread_def
      demo_subject make_event_def demo_event_valid insert_event_def event_constraints_def has_run_def
      demo_db3_events event_view_def normalize_stored_product_event_def)

lemma demo_streamed_reached: "reaches db_init (db_step plain_codec cc) demo_db_streamed"
  unfolding demo_db_streamed_def
  by (rule reaches_step [OF demo_reached(3)], rule step_append_event, rule prod.collapse [symmetric])

lemma demo_streamed_run:
  "\<exists>r. r \<in> set (db_runs demo_db_streamed) \<and> rn_id r = lit ''r'' \<and> rn_status r = RunRunning
     \<and> \<not> is_internal (rn_actor_subject r)
     \<and> streamed demo_db_streamed (lit ''r'') = lit ''hello''"
proof -
  obtain v where app: "append_active_event plain_codec (lit ''d'') 5 (lit ''r'') (lit (event_name MessageDeltaEvent))
     (dump_payload plain_codec demo_delta) demo_db3 = (Inr (Some v), demo_db_streamed)"
    using demo_append_ok by auto
  have inv: "db_inv plain_codec demo_db3" by (rule reached_inv [OF demo_reached(3)])
  obtain e r r' where e: "find_run demo_db3 (lit ''r'') = Some r" "find_run demo_db_streamed (lit ''r'') = Some r'"
      "rn_status r' = RunRunning" "events_of demo_db_streamed (lit ''r'') = events_of demo_db3 (lit ''r'') @ [e]"
      "ev_type e = lit (event_name MessageDeltaEvent)" "ev_payload e = dump_payload plain_codec demo_delta"
    using append_stores [OF app inv_parts(1) [OF inv] plain_time demo_delta_valid]
    by (auto simp: RUNTIME_EVENT_TYPES_def)
  have "streamed demo_db3 (lit ''r'') = []"
    by (simp add: streamed_def events_of_def demo_db3_events event_text_def)
  moreover have "event_text e = lit ''hello''"
    using event_text_dump [of e demo_delta plain_codec] e(5,6) demo_delta_valid(2)
    by (simp add: demo_delta_def payload_text_def)
  ultimately have answer: "streamed demo_db_streamed (lit ''r'') = lit ''hello''"
    using log_snoc(1) [OF e(4)] by simp
  have steps: "(change plain_codec)\<^sup>*\<^sup>* demo_db3 demo_db_streamed"
    by (rule steps_changes [OF r_into_rtranclp inv, where cc = demo_cc])
      (rule step_append_event [OF app])
  from changes_grow [OF steps inv_parts(1) [OF inv] demo_started_in] obtain q
    where q: "q \<in> set (db_runs demo_db_streamed)" "same_run demo_started_row q" by blast
  then have "find_run demo_db_streamed (lit ''r'') = Some q"
    using inv_find [OF reached_inv [OF demo_streamed_reached] q(1)] demo_row_fields(1) by (simp add: same_run_def)
  with e(2,3) q answer show ?thesis
    using demo_subject demo_row_fields(1,7) by (auto simp: same_run_def)
qed

lemma demo_task_complete:
  assumes "valid_outcome out" "outcome_status out = OutcomeCompleted" "failure_code out = None"
  shows "\<exists>db. commit_completion plain_codec (lit ''a'') (lit ''x'') (lit ''y'') (lit ''r'') (lit ''hello'') out
        (demo_world demo_db_streamed [demo_slot 9], demo_validated_exec)
      = (Stopped, demo_world db [], demo_validated_exec)
    \<and> (\<exists>r. find_run db (lit ''r'') = Some r \<and> rn_status r = RunCompleted)"
proof -
  have inv: "db_inv plain_codec demo_db_streamed" by (rule reached_inv [OF demo_streamed_reached])
  obtain r where r: "r \<in> set (db_runs demo_db_streamed)" "rn_id r = lit ''r''" "rn_status r = RunRunning"
    "\<not> is_internal (rn_actor_subject r)" using demo_streamed_run by blast
  have "clock_ok 9 demo_db_streamed" by (simp add: clock_ok_def demo_streamed_tables)
  moreover have "ev_id ` set (db_events demo_db_streamed) = {lit ''e'', lit ''d''}"
    using arg_cong [OF demo_streamed_tables(1), of set] by simp
  moreover have "lit ''a'' \<notin> ms_id ` set (db_messages demo_db_streamed)"
    by (simp add: demo_streamed_tables demo_db2_messages)
  ultimately obtain v db where c: "complete_run plain_codec (lit ''a'') (lit ''x'') (lit ''y'') 9 (lit ''r'')
      (lit ''hello'') out None demo_db_streamed = (Inr v, db)"
    using complete_total [OF inv r(1,3,4) _ _ _ _ _ plain_time assms, of 9 "lit ''x''" "lit ''y''" "lit ''a''"
        "lit ''hello''" None] r(2)
    by auto
  from complete_stores [OF c inv_parts(1) [OF inv]] inv_find [OF inv r(1)] r(2,3)
  have "\<exists>q. find_run db (lit ''r'') = Some q \<and> rn_status q = RunCompleted" by auto
  with c show ?thesis
    by (intro exI [of _ db]) (simp add: commit_completion_def commit_terminal_def)
qed

end
