(* ===== verification/Stream_Safety.thy ===== *)
theory Stream_Safety
  imports Service Store_Facts
begin

text \<open>
  The event stream of service.py over a history of the repository: each round of polls reads the
  events and then the Run, in two states of the history that may differ, and the next round reads
  later ones still.
\<close>

section \<open>Rounds of a history\<close>

fun polls_from :: "(db \<Rightarrow> db \<Rightarrow> bool) \<Rightarrow> db \<Rightarrow> poll_round list \<Rightarrow> bool" where
  "polls_from step db [] \<longleftrightarrow> True"
| "polls_from step db (rd # rds) \<longleftrightarrow>
     step\<^sup>*\<^sup>* db (pr_events_db rd) \<and> step\<^sup>*\<^sup>* (pr_events_db rd) (pr_run_db rd)
     \<and> polls_from step (pr_run_db rd) rds"

fun last_poll :: "db \<Rightarrow> poll_round list \<Rightarrow> db" where
  "last_poll db [] = db"
| "last_poll db (rd # rds) = last_poll (pr_run_db rd) rds"

definition delivered :: "event_envelope option list \<Rightarrow> event_envelope list" where
  "delivered out = List.map_filter id out"

lemma delivered_simps [simp]:
  "delivered [] = []" "delivered (xs @ ys) = delivered xs @ delivered ys"
  "delivered (map Some evs) = evs" "delivered (map (Some \<circ> f) zs) = map f zs"
  "delivered [None] = []"
  by (simp_all add: delivered_def map_filter_def comp_def)

lemma polls_reach: "polls_from step db rds \<Longrightarrow> step\<^sup>*\<^sup>* db (last_poll db rds)"
  by (induction rds arbitrary: db) (auto intro: rtranclp_trans)

text \<open>What a Run and its log are in a later state.\<close>

lemma later_run:
  assumes "(db_step c cc)\<^sup>*\<^sup>* db db'" "db_inv c db" "r \<in> set (db_runs db)"
  obtains r' evs where "db_inv c db'" "r' \<in> set (db_runs db')" "same_run r r'"
    "events_of db' (rn_id r) = events_of db (rn_id r) @ evs" "\<not> is_active r \<Longrightarrow> r' = r \<and> evs = []"
proof -
  note steps = steps_changes [OF assms(1,2)] and ok = inv_parts(1) [OF assms(2)]
  note inv' = changes_inv [OF steps assms(2)]
  show ?thesis
  proof (cases "is_active r")
    case True
    with changes_grow [OF steps ok assms(3)] inv' that show ?thesis by blast
  next
    case False
    have "same_run r r" by (simp add: same_run_def)
    with changes_frozen [OF steps ok assms(3) False] inv' show ?thesis by (intro that [of r "[]"]) simp_all
  qed
qed

lemma log_last:
  assumes "log_ok c r evs" shows "rn_last_seq r = int (length evs)"
proof -
  have "length (map ev_seq evs) = length [1..rn_last_seq r]" "0 \<le> rn_last_seq r"
    using assms by (simp_all only: log_ok_def)
  then show ?thesis by simp
qed

lemma last_cursor_log:
  assumes "map ev_seq evs = [1..n]" "0 \<le> k"
  shows "last_cursor k (map envelope (drop (nat k) evs)) = (if drop (nat k) evs = [] then k else int (length evs))"
proof (cases "drop (nat k) evs = []")
  case True
  then show ?thesis by (simp add: last_cursor_def)
next
  case False
  then have ne: "evs \<noteq> []" by auto
  have len: "length evs = nat n" using arg_cong [OF assms(1), of length] by simp
  have "ev_seq (last evs) = last (map ev_seq evs)" using ne by (simp add: last_map)
  also have "\<dots> = n" using assms(1) ne by (cases "n < 1") (auto simp: upto_rec2)
  finally have "ev_seq (last evs) = int (length evs)" using ne len by (cases "n < 1") auto
  with False show ?thesis by (simp add: last_cursor_def last_map envelope_def)
qed

section \<open>Every event once\<close>

lemma stream_prefix:
  assumes "db_inv c db" "r \<in> set (db_runs db)" "time_round_trip c"
    "subject p = rn_actor_subject r" "\<not> is_internal (subject p)"
    "polls_from (db_step c cc) db rds" "0 \<le> k"
    "stream_events c (rn_id r) p poll keepalive k elapsed rds = (out, e)"
  shows "(\<exists>m. delivered out = map envelope (take m (drop (nat k) (events_of (last_poll db rds) (rn_id r)))))
    \<and> (e = StreamDone \<longrightarrow>
        delivered out = map envelope (drop (nat k) (events_of (last_poll db rds) (rn_id r)))
        \<and> (\<exists>r'. find_run (last_poll db rds) (rn_id r) = Some r' \<and> \<not> is_active r'))
    \<and> (\<forall>x. e \<noteq> StreamError (Raised x))"
  using assms
proof (induction rds arbitrary: db r k elapsed out e)
  case Nil
  then show ?case by (auto intro: exI [of _ 0])
next
  case (Cons rd rds)
  let ?rid = "rn_id r"
  from Cons.prems(6) have h1: "(db_step c cc)\<^sup>*\<^sup>* db (pr_events_db rd)"
    and h2: "(db_step c cc)\<^sup>*\<^sup>* (pr_events_db rd) (pr_run_db rd)"
    and h3: "polls_from (db_step c cc) (pr_run_db rd) rds" by simp_all
  obtain r1 e1 where r1: "db_inv c (pr_events_db rd)" "r1 \<in> set (db_runs (pr_events_db rd))" "same_run r r1"
    using later_run [OF h1 Cons.prems(1,2)] by metis
  then have id1: "rn_id r1 = ?rid" "rn_actor_subject r1 = rn_actor_subject r" by (simp_all add: same_run_def)
  obtain r2 e2 where r2: "db_inv c (pr_run_db rd)" "r2 \<in> set (db_runs (pr_run_db rd))" "same_run r1 r2"
    and log2: "events_of (pr_run_db rd) ?rid = events_of (pr_events_db rd) ?rid @ e2"
    using later_run [OF h2 r1(1,2)] id1(1) by metis
  then have id2: "rn_id r2 = ?rid" "rn_actor_subject r2 = rn_actor_subject r" using id1 by (simp_all add: same_run_def)
  obtain r3 e3 where r3: "r3 \<in> set (db_runs (last_poll db (rd # rds)))" "same_run r2 r3"
      "db_inv c (last_poll db (rd # rds))"
    and log3: "events_of (last_poll db (rd # rds)) ?rid = events_of (pr_run_db rd) ?rid @ e3"
    and frozen: "\<not> is_active r2 \<Longrightarrow> r3 = r2 \<and> e3 = []"
    using later_run [OF polls_reach [OF h3] r2(1,2)] id2(1) by (metis last_poll.simps(2))
  define L1 where "L1 = events_of (pr_events_db rd) ?rid"
  define L where "L = events_of (last_poll db (rd # rds)) ?rid"
  have L: "L = L1 @ e2 @ e3" using log2 log3 by (simp add: L_def L1_def)
  have seqs1: "map ev_seq L1 = [1..rn_last_seq r1]"
    using inv_run(2) [OF r1(1,2)] id1(1) by (simp add: log_ok_def L1_def)
  have evs: "get_events c ?rid k p (pr_events_db rd) = Inr (map envelope (drop (nat k) L1))"
    using read_events [OF r1(1,2) Cons.prems(3), of p k] Cons.prems(4,5) id1 by (simp add: L1_def)
  obtain v where v: "get_run c ?rid p (pr_run_db rd) = Inr v" "rv_status v = rn_status r2"
      "rv_last_seq v = rn_last_seq r2"
    using read_run [OF r2(1,2), of p] Cons.prems(4,5) id2 by auto
  have len2: "rn_last_seq r2 = int (length (L1 @ e2))"
    using log_last [OF inv_run(2) [OF r2(1,2)]] id2(1) log2 by (simp add: L1_def)
  define k' where "k' = last_cursor k (map envelope (drop (nat k) L1))"
  have k': "k' = (if drop (nat k) L1 = [] then k else int (length L1))"
    unfolding k'_def by (rule last_cursor_log [OF seqs1 Cons.prems(7)])
  have parts: "drop (nat k) L = drop (nat k) L1 @ drop (nat k') L" by (simp add: k' L)
  have first: "map envelope (drop (nat k) L1)
      = map envelope (take (length (drop (nat k) L1)) (drop (nat k) L))" by (subst parts) simp
  show ?case unfolding L_def [symmetric]
  proof (cases "pr_fatal rd")
    case (Some reason)
    with Cons.prems(8) show "(\<exists>m. delivered out = map envelope (take m (drop (nat k) L)))
      \<and> (e = StreamDone \<longrightarrow> delivered out = map envelope (drop (nat k) L)
        \<and> (\<exists>r'. find_run (last_poll db (rd # rds)) ?rid = Some r' \<and> \<not> is_active r'))
      \<and> (\<forall>x. e \<noteq> StreamError (Raised x))"
      by (auto intro: exI [of _ 0])
  next
    case None
    define waited where "waited = (if map envelope (drop (nat k) L1) = [] then elapsed else 0) + poll"
    note run = Cons.prems(8) [unfolded stream_events.simps None option.case evs sum.case Let_def
        k'_def [symmetric] waited_def [symmetric] v(1)]
    show "(\<exists>m. delivered out = map envelope (take m (drop (nat k) L)))
      \<and> (e = StreamDone \<longrightarrow> delivered out = map envelope (drop (nat k) L)
        \<and> (\<exists>r'. find_run (last_poll db (rd # rds)) ?rid = Some r' \<and> \<not> is_active r'))
      \<and> (\<forall>x. e \<noteq> StreamError (Raised x))"
    proof (cases "ended_status (rv_status v) \<and> rv_last_seq v \<le> k'")
      case True
      then have end2: "\<not> is_active r2" using v(2) by (cases "rn_status r2") (simp_all add: is_active_iff)
      then have "r3 = r2" "e3 = []" using frozen by simp_all
      then have "int (length L) \<le> k'" using True v(3) len2 L by simp
      then have "drop (nat k') L = []" by (simp add: nat_le_iff le_nat_iff)
      moreover have "find_run (last_poll db (rd # rds)) ?rid = Some r2"
        using inv_find [OF r3(3,1)] \<open>r3 = r2\<close> id2(1) by simp
      moreover have "out = map Some (map envelope (drop (nat k) L1))" "e = StreamDone"
        using run True by simp_all
      moreover have "drop (nat k) L1 = drop (nat k) L" using parts calculation(1) by simp
      ultimately show ?thesis using end2
        by (intro conjI exI [of _ "length L"] exI [of _ r2] impI allI) simp_all
    next
      case False
      show ?thesis
      proof (cases "pr_disconnected rd")
        case True
        then have "out = map Some (map envelope (drop (nat k) L1))" "e = ClientGone"
          using run False by simp_all
        then have "delivered out = map envelope (drop (nat k) L1)" "e = ClientGone" by simp_all
        with first show ?thesis by (metis stream_end.distinct(1) stream_end.distinct(7))
      next
        case conn: False
        obtain out' e' where rest: "stream_events c ?rid p poll keepalive k'
            (if keepalive \<le> waited then 0 else waited) rds = (out', e')"
          by (cases "stream_events c ?rid p poll keepalive k' (if keepalive \<le> waited then 0 else waited) rds")
        have out: "delivered out = map envelope (drop (nat k) L1) @ delivered out'" "e = e'"
          using run False conn rest by auto
        have "0 \<le> k'" using Cons.prems(7) by (simp add: k')
        from Cons.IH [OF r2(1,2) Cons.prems(3) _ Cons.prems(5) h3 this, unfolded id2, OF Cons.prems(4) rest]
        have IH: "(\<exists>m. delivered out' = map envelope (take m (drop (nat k') L)))"
          "e' = StreamDone \<Longrightarrow> delivered out' = map envelope (drop (nat k') L)
            \<and> (\<exists>r'. find_run (last_poll db (rd # rds)) ?rid = Some r' \<and> \<not> is_active r')"
          "\<forall>x. e' \<noteq> StreamError (Raised x)"
          by (simp_all add: L_def)
        obtain m where "delivered out' = map envelope (take m (drop (nat k') L))" using IH(1) by blast
        then have "delivered out = map envelope (take (length (drop (nat k) L1) + m) (drop (nat k) L))"
          unfolding out by (subst parts) simp
        moreover have "delivered out = map envelope (drop (nat k) L)" if "e' = StreamDone"
          using IH(2) [OF that] parts out by simp
        ultimately show ?thesis using IH(2,3) out(2) by blast
      qed
    qed
  qed
qed

end
