(* ===== verification/Service_Properties.thy ===== *)
theory Service_Properties
  imports Service_Demo Stream_Safety Store_Properties
begin

text \<open>
  The properties of the Run service: what its answers and its stream say of the database, and that
  it never goes on after a failure it cannot account for.
\<close>

section \<open>The event stream\<close>

text \<open>
  The event stream delivers every event exactly once. Over any history of the repository, with
  the events and the Run of each round read in different states of it, what the owner of a Run has
  been sent is a prefix of the log after the cursor, in order, with nothing repeated or left out.
  The stream reports its end only when the Run has ended and its whole log has been sent, and no
  stored event makes it fail.
\<close>

theorem stream_exactly_once:
  assumes "reaches db_init (db_step c cc) db" "r \<in> set (db_runs db)" "time_round_trip c"
    and "subject p = rn_actor_subject r" "\<not> is_internal (subject p)"
    and "polls_from (db_step c cc) db rds" "0 \<le> after"
    and "stream_events c (rn_id r) p poll keepalive after 0 rds = (out, e)"
  shows "(\<exists>m. delivered out
        = map envelope (take m (drop (nat after) (events_of (last_poll db rds) (rn_id r)))))
    \<and> (e = StreamDone \<longrightarrow>
        delivered out = map envelope (drop (nat after) (events_of (last_poll db rds) (rn_id r)))
        \<and> (\<exists>r'. find_run (last_poll db rds) (rn_id r) = Some r' \<and> \<not> is_active r'))
    \<and> (\<forall>x. e \<noteq> StreamError (Raised x))"
  by (rule stream_prefix [OF reached_inv [OF assms(1)] assms(2-8)])

section \<open>Failing closed\<close>

lemma mark_fatal_service:
  "\<exists>why. sv_fatal (wd_service (mark_fatal current reason w)) = Some why
    \<and> rp_fatal_error (wd_repository (mark_fatal current reason w)) \<noteq> None
    \<and> (case sv_fatal (wd_service w) of None \<Rightarrow> why = reason | Some earlier \<Rightarrow> why = earlier)"
  by (cases "sv_fatal (wd_service w)") (simp_all add: mark_fatal_def fail_closed_def)

lemma unsafe_call:
  "sv_fatal (wd_service w) = Some why \<Longrightarrow>
     repository_call current op (w, x) = (Inl (ServiceUnavailable why), w, x)"
  by (simp add: repository_call_def require_repository_safe_def)


section \<open>Shutting down\<close>

lemma request_cancel_all:
  "fold request_cancel ids sv
     = sv\<lparr>sv_tasks := map (\<lambda>(q, stopping). (q, stopping \<or> q \<in> set ids)) (sv_tasks sv)\<rparr>"
proof (induction ids arbitrary: sv)
  case (Cons i ids)
  have "(\<lambda>(q, stopping). (q, stopping \<or> q \<in> set ids)) \<circ> (\<lambda>(q, stopping). (q, stopping \<or> q = i))
      = (\<lambda>(q, stopping). (q, stopping \<or> q \<in> set (i # ids)))" by auto
  with Cons show ?case by (simp add: request_cancel_def)
qed simp

lemma discard_all:
  "fold discard_task ids w
     = w\<lparr>wd_service := (wd_service w)
         \<lparr>sv_tasks := filter (\<lambda>t. fst t \<notin> set ids) (sv_tasks (wd_service w))\<rparr>\<rparr>"
proof (induction ids arbitrary: w)
  case (Cons i ids)
  have "filter (\<lambda>t. fst t \<notin> set ids) (AList.delete i ts) = filter (\<lambda>t. fst t \<notin> set (i # ids)) ts" for ts :: "(pystr \<times> bool) list"
    by (induction ts) auto
  with Cons show ?case by (simp add: discard_task_def)
qed simp


section \<open>Failures of a Run\<close>

lemma on_repository_service: "wd_service (fst (snd (on_repository op st))) = wd_service (fst st)"
  by (simp add: on_repository_def split: prod.split)

text \<open>How a terminal write ends: it was confirmed, a cancellation arrived, or the service failed closed.\<close>

definition failed_closed :: "world \<Rightarrow> bool" where
  "failed_closed w \<longleftrightarrow>
     sv_fatal (wd_service w) \<noteq> None \<and> rp_fatal_error (wd_repository w) \<noteq> None"

lemma mark_fatal_closed: "failed_closed (mark_fatal current reason w)"
  using mark_fatal_service [of current reason w] by (auto simp: failed_closed_def)

lemma terminal_call_ends:
  assumes call: "repository_call (Some rid) (\<lambda>now. on_repository (op now)) (w, ex) = (r, w', ex')"
  shows "(\<exists>now v. r = Inr v \<and> op now (wd_db w) = (Inr v, wd_db w'))
    \<or> ParentCancelled \<in> set (sl_wakes (next_slot w)) \<or> r = Inl CleanupTimeout \<and> failed_closed w'
    \<or> (\<exists>f. r = Inl f \<and> f \<noteq> CleanupTimeout \<and> f \<noteq> CancelledFailure)"
  using call
proof (cases rule: repository_call_ends)
  case (settled now w0)
  then have on: "on_repository (op now) (w0, ex) = (r, w', ex')" and db: "wd_db w0 = wd_db w" by simp_all
  show ?thesis
  proof (cases r)
    case (Inl f)
    with on have "f \<noteq> CleanupTimeout \<and> f \<noteq> CancelledFailure"
      by (auto simp: on_repository_def split: prod.splits sum.splits)
    with Inl show ?thesis by simp
  next
    case (Inr v)
    with on_repository_cases [OF on] db show ?thesis by auto
  qed
next
  case (given_up now w0 w1)
  have "failed_closed w0" using mark_fatal_closed given_up(3) by simp
  moreover have "wd_service w' = wd_service w0
      \<and> rp_fatal_error (wd_repository w') = rp_fatal_error (wd_repository w0)"
    using given_up(4)
  proof
    assume "(w', ex') = late_commit (on_repository (op now)) (w0, snd (w, ex))"
    then show ?thesis
      by (rule late_commit_state [OF sym])
        (use on_repository_service in \<open>metis fst_conv snd_conv\<close>)
  qed simp
  ultimately show ?thesis using given_up(1) by (simp add: failed_closed_def)
qed auto

lemma commit_terminal_ends:
  assumes commit: "commit_terminal rid op (w, ex) = (ph, w', ex')"
  shows "(\<exists>now v. op now (wd_db w) = (Inr v, wd_db w'))
    \<or> ParentCancelled \<in> set (sl_wakes (next_slot w)) \<or> failed_closed w'"
proof -
  obtain r w1 ex1 where call: "repository_call (Some rid) (\<lambda>now. on_repository (op now)) (w, ex) = (r, w1, ex1)"
    by (cases "repository_call (Some rid) (\<lambda>now. on_repository (op now)) (w, ex)") auto
  from terminal_call_ends [OF call] show ?thesis
  proof (elim disjE exE conjE)
    fix now v assume "r = Inr v" "op now (wd_db w) = (Inr v, wd_db w1)"
    with commit call show ?thesis by (auto simp: commit_terminal_def)
  next
    assume "r = Inl CleanupTimeout" "failed_closed w1"
    with commit call show ?thesis by (auto simp: commit_terminal_def)
  next
    fix f assume "r = Inl f" "f \<noteq> CleanupTimeout" "f \<noteq> CancelledFailure"
    with commit call have "w' = mark_fatal (Some rid) ''repository_finalization_failed'' w1"
      by (cases f) (auto simp: commit_terminal_def)
    then show ?thesis using mark_fatal_closed by simp
  qed simp
qed


section \<open>Admission\<close>

lemma create_run_new:
  assumes inv: "db_inv c db" and snap: "schema_ok snap" "(db_step c cc)\<^sup>*\<^sup>* snap db"
    and new: "find_run db i = None" "find_run db' i \<noteq> None"
    and op: "create_run c i mi now p tid content key plan snap db = (res, db')"
  shows "\<exists>v. res = Inr (v, True) \<and> rv_run_id v = i
    \<and> (\<exists>r. find_run db' i = Some r \<and> rn_status r = RunCreated)"
proof -
  have inv': "db_inv c db'" by (rule step_inv [OF inv step_create_run [OF snap op]])
  have changed: "db' \<noteq> db" using new by auto
  obtain plan' where plan: "validate_execution_plan plan = Inr plan'"
    using op changed by (cases "validate_execution_plan plan") (auto simp: create_run_def)
  define r where "r = new_run_row i now p tid key plan'"
  define m where "m = user_message_row mi r content"
  note op' = op [unfolded create_run_def plan sum.case Let_def, folded r_def, folded m_def]
  have tx: "create_run_tx c snap r m p tid key db = Inr (None, db')"
    and res: "res = bindE (run_view_of c r) (\<lambda>v. Inr (v, True))"
    using op' changed
    by (auto simp: create_run_tx_def split: sum.splits prod.splits option.splits if_splits)
  obtain db1 db2 where w: "insert_run r db = Inr db1" "insert_message m db1 = Inr db2"
    and db': "db' = touch_thread tid (rn_created_at r) db2"
    using tx changed by (auto simp: create_run_tx_def split: option.splits if_splits)
  have "r \<in> set (db_runs db')"
    using insert_run_ok(1) [OF w(1)] insert_message_ok(1) [OF w(2)] by (simp add: db')
  note view = run_view_total [OF inv' this] and found = inv_find [OF inv' this]
  have "rn_id r = i" "rn_status r = RunCreated" by (simp_all add: r_def new_run_row_def)
  with view found res show ?thesis by auto
qed

lemma admit_service:
  "sv_fatal (wd_service (fst (snd (admit op created ex st)))) = sv_fatal (wd_service (fst st))"
proof -
  obtain r st' where on: "on_repository op st = (r, st')" by (cases "on_repository op st")
  have "wd_service (fst st') = wd_service (fst st)" using on_repository_service [of op st] on by simp
  then show ?thesis
    by (auto simp: admit_def on launch_def split: sum.split prod.split)
qed

definition owned :: "codec \<Rightarrow> pystr \<Rightarrow> world \<times> world execution option \<Rightarrow> bool" where
  "owned c i st \<longleftrightarrow>
     (\<exists>ex. snd st = Some ex \<and> task_init c i (Launched, fst st, ex)
        \<and> i \<in> fst ` set (sv_tasks (wd_service (fst st))))"

lemma launch_owned:
  assumes ex: "exec_init ex" and inv: "db_inv c (wd_db w)" "time_round_trip c"
    and run: "find_run (wd_db w) i = Some r" "rn_status r = RunCreated"
    and launch: "launch i ex w = (res, w')"
  shows "(\<exists>ex'. res = Inr ex' \<and> owned c i (w', Some ex')) \<or> w' = w \<and> \<not> is_healthy (wd_service w)"
proof (cases "require_healthy (wd_service w)")
  case (Inl f)
  then have "\<not> is_healthy (wd_service w)"
    by (auto simp: require_healthy_def require_repository_safe_def is_healthy_def split: if_splits option.splits)
  with Inl launch show ?thesis by (simp add: launch_def)
next
  case (Inr u)
  from ex obtain now where usage: "provider_usage ex = new_ledger now" and src: "persisted_sources ex = {}"
    by (auto simp: exec_init_def new_execution_def)
  have "wd_db (w\<lparr>wd_service := sv\<rparr>) = wd_db w" for sv by (simp add: wd_db_def)
  moreover have "i \<in> fst ` set (AList.update i False ts)" for ts :: "(pystr \<times> bool) list"
    using update_conv' [of i False ts] by (metis dom_map_of_conv_image_fst domI fun_upd_same)
  ultimately show ?thesis
    using launch inv run src
    by (auto simp: launch_def Inr bind_usage_persistence_def bind_persistence_def usage new_ledger_def
        owned_def task_init_def)
qed

text \<open>A new Run in the state after an admitting operation has its task, or the service is unhealthy.\<close>

lemma admit_owned:
  assumes op: "\<And>res db'. op (wd_db (fst st)) = (res, db') \<Longrightarrow> find_run db' i \<noteq> None \<Longrightarrow>
      \<exists>v q. res = Inr v \<and> created v = (i, True) \<and> find_run db' i = Some q \<and> rn_status q = RunCreated
        \<and> db_inv c db'"
    and ex: "exec_init ex" "time_round_trip c" and new: "find_run (wd_db (fst st)) i = None"
    and admit: "admit op created ex st = (r, st')" and found: "find_run (wd_db (fst st')) i \<noteq> None"
  shows "owned c i st' \<or> \<not> is_healthy (wd_service (fst st'))"
proof -
  obtain r1 st1 where on: "on_repository op st = (r1, st1)" by (cases "on_repository op st")
  have db: "wd_db (fst st') = wd_db (fst st1)"
    using admit on by (auto simp: admit_def launch_def wd_db_def split: sum.splits prod.splits if_splits)
  then have "wd_db (fst st1) \<noteq> wd_db (fst st)" using new found by auto
  with on_repository_cases [OF on] obtain res where res: "op (wd_db (fst st)) = (res, wd_db (fst st1))"
      "\<And>x. r1 = Inr x \<Longrightarrow> res = Inr x" by auto
  from op [OF res(1)] found db obtain v q where v: "res = Inr v" "created v = (i, True)"
    and q: "find_run (wd_db (fst st1)) i = Some q" "rn_status q = RunCreated" "db_inv c (wd_db (fst st1))"
    by auto
  have "r1 = Inr v"
    using on res(1) v(1) \<open>wd_db (fst st1) \<noteq> wd_db (fst st)\<close>
    by (auto simp: on_repository_def with_guard_def require_available_def wd_db_def
        split: prod.splits sum.splits option.splits)
  then have "(case launch i ex (fst st1) of (Inl f, w) \<Rightarrow> (Inl f, w, snd st1) | (Inr ex', w) \<Rightarrow> (Inr v, w, Some ex'))
      = (r, st')"
    using admit on v(2) by (simp add: admit_def)
  moreover obtain l w2 where l: "launch i ex (fst st1) = (l, w2)" by (cases "launch i ex (fst st1)")
  moreover note launch_owned [OF ex(1) q(3) ex(2) q(1,2) l]
  ultimately show ?thesis by (auto split: sum.splits)
qed

lemma admission_owned:
  assumes op: "\<And>now res db'. op ex now (wd_db w) = (res, db') \<Longrightarrow> find_run db' i \<noteq> None \<Longrightarrow>
      \<exists>v q. res = Inr v \<and> created v = (i, True) \<and> find_run db' i = Some q \<and> rn_status q = RunCreated
        \<and> db_inv c db'"
    and ex: "exec_init ex" "time_round_trip c" and new: "find_run (wd_db w) i = None"
    and call: "admission op created (Inr ex) w = (r, st')" and found: "find_run (wd_db (fst st')) i \<noteq> None"
  shows "owned c i st' \<or> \<not> is_healthy (wd_service (fst st'))"
proof -
  obtain r1 where "repository_call None (\<lambda>now. admit (op ex now) created ex) (w, None) = (r1, st')"
    using call new found
    by (auto simp: admission_def split: sum.splits prod.splits failure.splits)
  then show ?thesis
  proof (cases rule: repository_call_ends)
    case refused
    with new found show ?thesis by simp
  next
    case (settled now w0)
    with op new found ex show ?thesis by (intro admit_owned [where st = "(w0, None)"]) auto
  next
    case expired
    with new found show ?thesis by simp
  next
    case (cancelled now w0)
    then have "st' = snd (admit (op ex now) created ex (w0, None))" using new found by auto
    then obtain r2 where "admit (op ex now) created ex (w0, None) = (r2, st')"
      by (metis prod.collapse)
    with op cancelled(3) new found ex show ?thesis by (intro admit_owned [where st = "(w0, None)"]) auto
  next
    case (given_up now w0 w1)
    have "failed_closed w0" using mark_fatal_closed given_up(3) by simp
    moreover have "sv_fatal (wd_service (fst st')) = sv_fatal (wd_service w0)"
      using given_up(4)
    proof
      assume "st' = late_commit (admit (op ex now) created ex) (w0, snd (w, None))"
      then show ?thesis
        by (rule late_commit_state [OF sym]) (use admit_service in \<open>metis fst_conv snd_conv\<close>)
    qed simp
    ultimately show ?thesis by (simp add: failed_closed_def is_healthy_def)
  qed
qed


section \<open>The answer\<close>

text \<open>
  C1. The stored answer is what was streamed. Take any interleaving of the task of a new Run with
  its runtime, with exceptions at any await, and with every operation other callers may perform.
  Whenever the Run is completed in the database, its one assistant message is the concatenation of
  the deltas in its log, character for character, and every source its outcome cites is in the log
  as well.
\<close>

theorem answer_is_stream:
  assumes "reaches db_init (db_step c cc) (wd_db w0)" "time_round_trip c"
    and "find_run (wd_db w0) rid = Some r0" "rn_status r0 = RunCreated" "persisted_sources ex0 = {}"
    and "(task_step c cc fmt_g env rid)\<^sup>*\<^sup>* (Launched, w0, ex0) (ph, w, ex)"
    and "find_run (wd_db w) rid = Some r" "rn_status r = RunCompleted"
  shows "\<exists>out. rn_execution_outcome r = Some out
    \<and> map ms_content (filter (\<lambda>m. ms_role m = AssistantRole) (messages_of (wd_db w) rid))
        = [streamed (wd_db w) rid]
    \<and> set (result_source_ids out) \<subseteq> set (logged_sources (wd_db w) rid)"
proof -
  have "task_init c rid (Launched, w0, ex0)"
    using assms(2-5) reached_inv [OF assms(1)] by (simp add: task_init_def)
  then have "task_inv c rid (ph, w, ex)"
    using task.steps_inv [OF assms(6)] task_init_inv by blast
  with assms(7,8) show ?thesis
    by (auto simp: task_inv_def aborted_def answered_def working_def is_active_iff)
qed

section \<open>Witnesses\<close>

lemma demo_history_run:
  "\<exists>w ex r. (task_step plain_codec demo_cc demo_fmt hex_env (lit ''r''))\<^sup>*\<^sup>*
       (Launched, demo_world demo_db2 (map demo_slot [3, 4, 5, 9]), demo_exec) (Stopped, w, ex)
     \<and> find_run (wd_db w) (lit ''r'') = Some r \<and> rn_status r = RunCompleted"
proof -
  let ?step = "task_step plain_codec demo_cc demo_fmt hex_env (lit ''r'')"
  obtain out where out: "outcome 8 OutcomeCompleted (lit ''completed'') None True demo_validated_exec = Inr out"
      "valid_outcome out" "outcome_status out = OutcomeCompleted" "failure_code out = None"
    using demo_outcome_ok by blast
  obtain db r where commit: "commit_completion plain_codec (lit ''a'') (lit ''x'') (lit ''y'') (lit ''r'') (lit ''hello'') out
        (demo_world demo_db_streamed [demo_slot 9], demo_validated_exec)
      = (Stopped, demo_world db [], demo_validated_exec)"
    and r: "find_run db (lit ''r'') = Some r" "rn_status r = RunCompleted"
    using demo_task_complete [OF out(2-4)] by blast
  have finish: "finish_stream 8 (demo_stream\<lparr>st_result := Some (ResultObject demo_answer_result)\<rparr>)
      (demo_world demo_db_streamed [demo_slot 9], demo_seen)
      = (Completing (lit ''hello'') out, demo_world demo_db_streamed [demo_slot 9], demo_validated_exec)"
    by (simp add: finish_stream_def demo_stream_def demo_answer_accepted out(1))
      (simp add: demo_answer_result_def)
  have result: "receive_result demo_stream (ResultObject demo_answer_result) st
      = (Streaming (demo_stream\<lparr>st_result := Some (ResultObject demo_answer_result)\<rparr>), st)"
    for st :: "world execution sys"
    by (simp add: receive_result_def demo_stream_def)
  have start_step: "?step (Launched, demo_world demo_db2 (map demo_slot [3, 4, 5, 9]), demo_exec)
      (Loading, demo_world demo_db3 (map demo_slot [4, 5, 9]), demo_exec)"
    using task_start [of plain_codec demo_cc demo_fmt hex_env "lit ''r''"
        "(demo_world demo_db2 (map demo_slot [3, 4, 5, 9]), demo_exec)" "lit ''e''"]
    by (simp add: demo_task_start)
  have load_step: "?step (Loading, demo_world demo_db3 (map demo_slot [4, 5, 9]), demo_exec)
      (Streaming \<lparr>st_result = None, st_parts = [], st_chars = 0\<rparr>,
      demo_world demo_db3 (map demo_slot [5, 9]), demo_exec)"
    using task_load [of plain_codec demo_cc demo_fmt hex_env "lit ''r''"
        "(demo_world demo_db3 (map demo_slot [4, 5, 9]), demo_exec)" 6]
    by (simp add: demo_task_load)
  have event_step: "?step (Streaming \<lparr>st_result = None, st_parts = [], st_chars = 0\<rparr>,
      demo_world demo_db3 (map demo_slot [5, 9]), demo_exec)
      (Appending demo_stream demo_event MessageDeltaEvent
      (dump_payload plain_codec demo_delta), demo_world demo_db3 (map demo_slot [5, 9]), demo_exec)"
    using task_event [of plain_codec demo_cc demo_fmt hex_env "lit ''r''" "\<lparr>st_result = None, st_parts = [], st_chars = 0\<rparr>"
        "(demo_world demo_db3 (map demo_slot [5, 9]), demo_exec)" demo_event]
    by (simp add: demo_task_event)
  have persist_step: "?step (Appending demo_stream demo_event MessageDeltaEvent
      (dump_payload plain_codec demo_delta), demo_world demo_db3 (map demo_slot [5, 9]), demo_exec)
      (Streaming demo_stream, demo_world demo_db_streamed [demo_slot 9], demo_seen)"
    using task_persist [of plain_codec demo_cc demo_fmt hex_env "lit ''r''" demo_stream demo_event MessageDeltaEvent
        "dump_payload plain_codec demo_delta" "(demo_world demo_db3 (map demo_slot [5, 9]), demo_exec)" "lit ''d''" 7]
    by (simp add: demo_task_persist)
  have result_step: "?step (Streaming demo_stream, demo_world demo_db_streamed [demo_slot 9], demo_seen)
      (Streaming (demo_stream\<lparr>st_result := Some (ResultObject demo_answer_result)\<rparr>),
      demo_world demo_db_streamed [demo_slot 9], demo_seen)"
    using task_result [of plain_codec demo_cc demo_fmt hex_env "lit ''r''" demo_stream
        "(demo_world demo_db_streamed [demo_slot 9], demo_seen)" "ResultObject demo_answer_result"]
    by (simp add: result)
  have finish_step: "?step (Streaming (demo_stream\<lparr>st_result := Some (ResultObject demo_answer_result)\<rparr>),
      demo_world demo_db_streamed [demo_slot 9], demo_seen)
      (Completing (lit ''hello'') out, demo_world demo_db_streamed [demo_slot 9], demo_validated_exec)"
    using task_finish [of plain_codec demo_cc demo_fmt hex_env "lit ''r''"
        "demo_stream\<lparr>st_result := Some (ResultObject demo_answer_result)\<rparr>"
        "(demo_world demo_db_streamed [demo_slot 9], demo_seen)" 8]
    by (simp add: finish)
  have complete_step: "?step (Completing (lit ''hello'') out, demo_world demo_db_streamed [demo_slot 9], demo_validated_exec)
      (Stopped, demo_world db [], demo_validated_exec)"
    using task_complete [of plain_codec demo_cc demo_fmt hex_env "lit ''r''" "lit ''hello''" out
        "(demo_world demo_db_streamed [demo_slot 9], demo_validated_exec)" "lit ''a''" "lit ''x''" "lit ''y''"]
    by (simp add: commit)
  note chain = converse_rtranclp_into_rtranclp [where r = ?step]
  have "?step\<^sup>*\<^sup>* (Launched, demo_world demo_db2 (map demo_slot [3, 4, 5, 9]), demo_exec)
      (Stopped, demo_world db [], demo_validated_exec)"
    by (rule chain [OF start_step] chain [OF load_step] chain [OF event_step] chain [OF persist_step]
        chain [OF result_step] chain [OF finish_step] r_into_rtranclp [where r = ?step, OF complete_step])+
  with r show ?thesis by (metis demo_world_db)
qed

theorem answer_is_stream_witness:
  "\<exists>w r out. find_run (wd_db w) (lit ''r'') = Some r \<and> rn_status r = RunCompleted
    \<and> rn_execution_outcome r = Some out
    \<and> map ms_content (filter (\<lambda>m. ms_role m = AssistantRole) (messages_of (wd_db w) (lit ''r'')))
        = [streamed (wd_db w) (lit ''r'')]
    \<and> set (result_source_ids out) \<subseteq> set (logged_sources (wd_db w) (lit ''r''))"
proof -
  define w0 where "w0 = demo_world demo_db2 (map demo_slot [3, 4, 5, 9])"
  obtain w ex r where run: "(task_step plain_codec demo_cc demo_fmt hex_env (lit ''r''))\<^sup>*\<^sup>*
       (Launched, w0, demo_exec) (Stopped, w, ex)"
    and r: "find_run (wd_db w) (lit ''r'') = Some r" "rn_status r = RunCompleted"
    using demo_history_run unfolding w0_def by blast
  have start: "reaches db_init (db_step plain_codec demo_cc) (wd_db w0)"
    "find_run (wd_db w0) (lit ''r'') = Some demo_row" "rn_status demo_row = RunCreated"
    "persisted_sources demo_exec = {}"
    by (simp_all add: w0_def demo_reached(2) find_run_def demo_db2_eq demo_row_def new_run_row_def
        demo_exec_def demo_run_def new_execution_def)
  note stored = answer_is_stream [OF start(1) plain_time start(2-4) run r]
  show ?thesis using stored r by (elim exE, intro exI conjI) (assumption | elim conjE)+
qed



theorem stream_exactly_once_witness:
  "\<exists>out e m. stream_events plain_codec (lit ''r'') anonymous_principal 1 15 0 0
      [\<lparr>pr_fatal = None, pr_events_db = demo_db2, pr_run_db = demo_db3, pr_disconnected = False\<rparr>,
       \<lparr>pr_fatal = None, pr_events_db = demo_db_streamed, pr_run_db = demo_db_streamed,
        pr_disconnected = True\<rparr>] = (out, e)
    \<and> delivered out = map envelope (take m (events_of demo_db_streamed (lit ''r'')))"
proof -
  define rds where "rds = [\<lparr>pr_fatal = None, pr_events_db = demo_db2, pr_run_db = demo_db3, pr_disconnected = False\<rparr>,
       \<lparr>pr_fatal = None, pr_events_db = demo_db_streamed, pr_run_db = demo_db_streamed, pr_disconnected = True\<rparr>]"
  obtain out e where run: "stream_events plain_codec (rn_id demo_row) anonymous_principal 1 15 0 0 rds = (out, e)"
    by (metis prod.exhaust)
  have row: "demo_row \<in> set (db_runs demo_db2)" "rn_id demo_row = lit ''r''"
      "subject anonymous_principal = rn_actor_subject demo_row"
    by (simp_all add: demo_db2_eq demo_row_def new_run_row_def)
  have "(db_step plain_codec demo_cc)\<^sup>*\<^sup>* demo_db2 demo_db3"
    unfolding demo_db3_def by (rule r_into_rtranclp, rule step_start_run, rule prod.collapse [symmetric])
  moreover have "(db_step plain_codec demo_cc)\<^sup>*\<^sup>* demo_db3 demo_db_streamed"
    unfolding demo_db_streamed_def
    by (rule r_into_rtranclp, rule step_append_event, rule prod.collapse [symmetric])
  ultimately have polls: "polls_from (db_step plain_codec demo_cc) demo_db2 rds"
    by (simp add: rds_def)
  have last: "last_poll demo_db2 rds = demo_db_streamed" by (simp add: rds_def)
  from stream_exactly_once [OF demo_reached(2) row(1) plain_time row(3) demo_subject polls _ run] row(2) run
  show ?thesis unfolding rds_def [symmetric] last by auto
qed

end
