(* ===== verification/Runtime_Messages.thy ===== *)
theory Runtime_Messages
  imports Execution
begin

text \<open>
  agent_runtime.py, the functions on one message of the model provider: the Token usage it reports
  and how that travels through the framework's metadata, its public text, its Tool signals, and the
  last AI message of a conversation.
\<close>

section \<open>Messages\<close>

text \<open>
  An \<open>AIMessage\<close> of the framework, whole or a stream chunk: the content and the Tool calls of
  \<open>ai_message\<close>, and what else the adapter reads. Only a chunk has \<open>tool_call_chunks\<close>.
\<close>

record model_message = ai_message +
  mm_chunk :: bool
  mm_name :: "pystr option"
  mm_invalid_calls :: "pval list"
  mm_call_chunks :: "pval list"
  mm_kwargs :: pdict
  mm_metadata :: pdict

datatype chat_message =
    AiMessage model_message
  | ToolResult tool_message
  | OtherMessage pystr pval

definition ai_text :: "pystr option \<Rightarrow> pystr \<Rightarrow> pdict list \<Rightarrow> model_message" where
  "ai_text name text calls =
     \<lparr>ai_content = PStr text, ai_tool_calls = calls, mm_chunk = False, mm_name = name,
      mm_invalid_calls = [], mm_call_chunks = [], mm_kwargs = [], mm_metadata = []\<rparr>"

definition make_tool_call :: "pystr \<Rightarrow> pystr \<Rightarrow> pdict \<Rightarrow> pdict" where
  "make_tool_call call_id name arguments =
     py_dict [(''id'', PStr call_id), (''name'', PStr name), (''args'', PDict arguments),
              (''type'', PStr (lit ''tool_call''))]"

section \<open>Reported usage\<close>

definition PROVIDER_USAGE_KEY :: pystr where
  "PROVIDER_USAGE_KEY = lit ''work_assistant_provider_usage''"

definition usage_invalid :: exn where
  "usage_invalid = AgentExecutionFailed ''provider_usage_invalid''"

definition reported_nonnegative_int :: "pdict \<Rightarrow> string \<Rightarrow> exn + int option" where
  "reported_nonnegative_int source key =
     (case map_of source (lit key) of
        None \<Rightarrow> Inr None
      | Some (PInt n) \<Rightarrow> if n < 0 then Inl usage_invalid else Inr (Some n)
      | Some _ \<Rightarrow> Inl usage_invalid)"

text \<open>The optional detail objects, which have to be dictionaries where they are present.\<close>

fun usage_details :: "pval \<Rightarrow> exn + pdict option" where
  "usage_details PNone = Inr None"
| "usage_details (PDict d) = Inr (Some d)"
| "usage_details _ = Inl usage_invalid"

definition reported_cached :: "pdict option \<Rightarrow> pdict \<Rightarrow> exn + int option" where
  "reported_cached details raw =
     (case details of
        Some d \<Rightarrow>
          (if map_of d (lit ''cached_tokens'') \<noteq> None
           then reported_nonnegative_int d ''cached_tokens''
           else reported_nonnegative_int raw ''prompt_cache_hit_tokens'')
      | None \<Rightarrow> reported_nonnegative_int raw ''prompt_cache_hit_tokens'')"

definition reported_reasoning :: "pdict option \<Rightarrow> exn + int option" where
  "reported_reasoning details =
     (case details of
        Some d \<Rightarrow>
          (if map_of d (lit ''reasoning_tokens'') \<noteq> None
           then reported_nonnegative_int d ''reasoning_tokens'' else Inr None)
      | None \<Rightarrow> Inr None)"

definition make_token_usage :: "token_usage \<Rightarrow> exn + token_usage" where
  "make_token_usage u = (if valid_token_usage u then Inr u else Inl ValidationError)"

definition no_reported_field :: "token_usage \<Rightarrow> bool" where
  "no_reported_field u \<longleftrightarrow> list_all (\<lambda>f. get_token f u = None) token_fields"

definition auditable_provider_usage :: "pval \<Rightarrow> exn + token_usage option" where
  "auditable_provider_usage raw_usage =
     (case raw_usage of
        PNone \<Rightarrow> Inr None
      | PDict raw \<Rightarrow>
          bindE (usage_details (dict_get raw (lit ''prompt_tokens_details''))) (\<lambda>prompt.
          bindE (usage_details (dict_get raw (lit ''completion_tokens_details''))) (\<lambda>completion.
          bindE (reported_cached prompt raw) (\<lambda>cached.
          bindE (reported_reasoning completion) (\<lambda>reasoning.
          bindE (reported_nonnegative_int raw ''prompt_tokens'') (\<lambda>inp.
          bindE (reported_nonnegative_int raw ''completion_tokens'') (\<lambda>out.
          bindE (reported_nonnegative_int raw ''total_tokens'') (\<lambda>total.
          let values = \<lparr>input_tokens = inp, output_tokens = out, cached_tokens = cached,
                        reasoning_tokens = reasoning, total_tokens = total\<rparr>
          in if no_reported_field values then Inr None
             else bindE (make_token_usage values) (\<lambda>u. Inr (Some u)))))))))
      | _ \<Rightarrow> Inl usage_invalid)"

section \<open>Usage in the metadata of a message\<close>

definition dump_token_usage :: "token_usage \<Rightarrow> pval" where
  "dump_token_usage u =
     PDict (py_dict
       [(''input_tokens'', dump_int (input_tokens u)), (''output_tokens'', dump_int (output_tokens u)),
        (''cached_tokens'', dump_int (cached_tokens u)),
        (''reasoning_tokens'', dump_int (reasoning_tokens u)),
        (''total_tokens'', dump_int (total_tokens u))])"

definition parse_token_usage :: "codec \<Rightarrow> pval \<Rightarrow> token_usage option" where
  "parse_token_usage c v =
     Option.bind (as_dict v) (\<lambda>d.
     if \<not> only_keys [''input_tokens'', ''output_tokens'', ''cached_tokens'', ''reasoning_tokens'',
                     ''total_tokens''] d then None else
     Option.bind (opt_nat_field c ''input_tokens'' d) (\<lambda>i.
     Option.bind (opt_nat_field c ''output_tokens'' d) (\<lambda>out.
     Option.bind (opt_nat_field c ''cached_tokens'' d) (\<lambda>k.
     Option.bind (opt_nat_field c ''reasoning_tokens'' d) (\<lambda>r.
     Option.bind (opt_nat_field c ''total_tokens'' d) (\<lambda>t.
     case make_token_usage \<lparr>input_tokens = i, output_tokens = out, cached_tokens = k,
                            reasoning_tokens = r, total_tokens = t\<rparr> of
       Inr u \<Rightarrow> Some u | Inl _ \<Rightarrow> None))))))"

text \<open>
  \<open>_convert_chunk_to_generation_chunk\<close>: the chunk the framework built from the raw one, if any,
  with the usage of the raw one in its metadata.
\<close>

definition convert_chunk :: "pval \<Rightarrow> model_message option \<Rightarrow> exn + model_message option" where
  "convert_chunk raw_usage generation =
     bindE (auditable_provider_usage raw_usage) (\<lambda>usage.
     Inr (case (usage, generation) of
            (Some u, Some m) \<Rightarrow>
              Some (if mm_chunk m
                    then m\<lparr>mm_metadata :=
                            AList.update PROVIDER_USAGE_KEY (dump_token_usage u) (mm_metadata m)\<rparr>
                    else m)
          | _ \<Rightarrow> generation))"

definition usage_from_message :: "codec \<Rightarrow> model_message \<Rightarrow> exn + token_usage option" where
  "usage_from_message c m =
     (case dict_get (mm_metadata m) PROVIDER_USAGE_KEY of
        PNone \<Rightarrow> Inr None
      | payload \<Rightarrow>
          (case parse_token_usage c payload of
             Some u \<Rightarrow> Inr (Some u) | None \<Rightarrow> Inl usage_invalid))"

section \<open>Text\<close>

definition terminal_assistant_text :: "chat_message list \<Rightarrow> pystr" where
  "terminal_assistant_text messages =
     (if messages = [] then []
      else case last messages of
             AiMessage m \<Rightarrow> if ai_tool_calls m \<noteq> [] then [] else content_text (ai_content m)
           | _ \<Rightarrow> [])"

text \<open>The last state the graph yielded: nothing, or its messages.\<close>

definition terminal_state_text :: "chat_message list option \<Rightarrow> pystr" where
  "terminal_state_text state =
     (case state of None \<Rightarrow> [] | Some messages \<Rightarrow> terminal_assistant_text messages)"

definition split_text :: "pystr \<Rightarrow> pystr \<times> pystr" where
  "split_text text = (let split_at = max 1 (length text div 2) in (take split_at text, drop split_at text))"

section \<open>Tool signals\<close>

definition signal_keys :: "string list" where
  "signal_keys = [''function_call'', ''tool_calls'']"

definition signal_block_types :: "string list" where
  "signal_block_types =
     [''function_call'', ''input_json_delta'', ''tool_call'', ''tool_call_chunk'', ''tool_use'']"

definition names_one_of :: "string list \<Rightarrow> pval \<Rightarrow> bool" where
  "names_one_of ks v \<longleftrightarrow> list_ex (\<lambda>k. v = PStr (lit k)) ks"

fun signal_block :: "pval \<Rightarrow> bool" where
  "signal_block (PDict d) = names_one_of signal_block_types (dict_get d (lit ''type''))"
| "signal_block _ = False"

definition has_tool_signal :: "model_message \<Rightarrow> bool" where
  "has_tool_signal m \<longleftrightarrow>
     ai_tool_calls m \<noteq> [] \<or> mm_invalid_calls m \<noteq> []
     \<or> (mm_chunk m \<and> mm_call_chunks m \<noteq> [])
     \<or> list_ex (\<lambda>k. map_of (mm_kwargs m) (lit k) \<noteq> None) signal_keys
     \<or> names_one_of signal_keys (dict_get (mm_metadata m) (lit ''finish_reason''))
     \<or> (case ai_content m of PList blocks \<Rightarrow> list_ex signal_block blocks | _ \<Rightarrow> False)"

section \<open>The public text of a stream chunk\<close>

definition chunk_invalid :: exn where
  "chunk_invalid = AgentExecutionFailed ''finalizer_chunk_invalid''"

fun public_blocks :: "pval list \<Rightarrow> exn + pystr" where
  "public_blocks [] = Inr []"
| "public_blocks (PDict d # blocks) =
     (case as_str (dict_get d (lit ''type'')) of
        Some t \<Rightarrow>
          (if t \<in> text_block_types
           then (case as_str (dict_get d (lit ''text'')) of
                   Some s \<Rightarrow> bindE (public_blocks blocks) (\<lambda>rest. Inr (s @ rest))
                 | None \<Rightarrow> Inl chunk_invalid)
           else public_blocks blocks)
      | None \<Rightarrow> public_blocks blocks)"
| "public_blocks (v # blocks) = public_blocks blocks"

definition public_chunk_text :: "model_message \<Rightarrow> exn + pystr" where
  "public_chunk_text m =
     (if has_tool_signal m then Inl (AgentExecutionFailed ''finalizer_tool_call_forbidden'')
      else case ai_content m of
             PStr s \<Rightarrow> Inr s
           | PList blocks \<Rightarrow> public_blocks blocks
           | _ \<Rightarrow> Inl chunk_invalid)"

section \<open>The last AI message\<close>

fun last_ai_message :: "chat_message list \<Rightarrow> (nat \<times> model_message) option" where
  "last_ai_message [] = None"
| "last_ai_message (x # xs) =
     (case last_ai_message xs of
        Some (i, m) \<Rightarrow> Some (Suc i, m)
      | None \<Rightarrow> (case x of AiMessage m \<Rightarrow> Some (0, m) | _ \<Rightarrow> None))"

lemma last_ai_message_split:
  "last_ai_message xs = Some (i, m) \<Longrightarrow>
     xs = take i xs @ AiMessage m # drop (Suc i) xs \<and> (\<forall>x \<in> set (drop (Suc i) xs). \<nexists>k. x = AiMessage k)"
proof (induction xs arbitrary: i)
  case (Cons x xs)
  show ?case
  proof (cases "last_ai_message xs")
    case None
    then have "\<forall>y \<in> set xs. \<nexists>k. y = AiMessage k"
      by (induction xs) (auto split: option.splits chat_message.splits)
    with Cons.prems None show ?thesis by (auto split: chat_message.splits)
  next
    case (Some p)
    with Cons show ?thesis by (cases p) auto
  qed
qed simp

section \<open>Usage survives the framework\<close>

lemma reported_nonneg: "reported_nonnegative_int d k = Inr v \<Longrightarrow> nonneg v"
  by (auto simp: reported_nonnegative_int_def split: option.splits pval.splits if_splits)

lemma auditable_usage_valid: "auditable_provider_usage raw = Inr (Some u) \<Longrightarrow> valid_token_usage u"
  by (auto simp: auditable_provider_usage_def Let_def make_token_usage_def split: pval.splits if_splits)

text \<open>Only the adapter's own exception is raised: the validators of the record cannot fail.\<close>

lemma auditable_usage_error:
  assumes "auditable_provider_usage raw = Inl e" shows "e = usage_invalid"
proof -
  have ints: "e = usage_invalid" if "reported_nonnegative_int d k = Inl e" for d k
    using that by (auto simp: reported_nonnegative_int_def split: option.splits pval.splits if_splits)
  have details: "e = usage_invalid" if "usage_details v = Inl e" for v
    using that by (cases v) auto
  have made: "make_token_usage u = Inr u"
    if "\<not> no_reported_field u" "\<forall>f. nonneg (get_token f u)" for u
    using that
    by (auto simp: make_token_usage_def valid_token_usage_def no_reported_field_def list_all_iff list_ex_iff)
  have valid: "\<forall>f. nonneg (get_token f \<lparr>input_tokens = i, output_tokens = out, cached_tokens = k,
      reasoning_tokens = r, total_tokens = t\<rparr>)"
    if "nonneg i" "nonneg out" "nonneg k" "nonneg r" "nonneg t" for i out k r t
    using that by (intro allI, rename_tac f, case_tac f) auto
  have cached: "reported_cached p d = Inr v \<Longrightarrow> nonneg v" "reported_cached p d = Inl e \<Longrightarrow> e = usage_invalid"
    for p d v
    by (auto simp: reported_cached_def dest: reported_nonneg ints split: option.splits if_splits)
  have reasoning: "reported_reasoning p = Inr v \<Longrightarrow> nonneg v" "reported_reasoning p = Inl e \<Longrightarrow> e = usage_invalid"
    for p v
    by (auto simp: reported_reasoning_def dest: reported_nonneg ints split: option.splits if_splits)
  show ?thesis
    using assms
    by (auto simp: auditable_provider_usage_def Let_def bindE_eq_Inl made valid cached(1) reasoning(1)
        reported_nonneg dest: ints details cached(2) reasoning(2) split: pval.splits if_splits)
qed

lemma opt_nat_dump: "nonneg v \<Longrightarrow> dict_get d (lit k) = dump_int v \<Longrightarrow> opt_nat_field c k d = Some v"
  by (cases v) (auto simp: opt_nat_field_def)

lemma parse_dump_token_usage: "valid_token_usage u \<Longrightarrow> parse_token_usage c (dump_token_usage u) = Some u"
proof -
  assume u: "valid_token_usage u"
  then have "nonneg (get_token f u)" for f
    by (cases f) (auto simp: valid_token_usage_def token_fields_def)
  note nn = this [of InputTokens] this [of OutputTokens] this [of CachedTokens] this [of ReasoningTokens]
    this [of TotalTokens]
  define d where "d = py_dict [(''input_tokens'', dump_int (input_tokens u)),
      (''output_tokens'', dump_int (output_tokens u)), (''cached_tokens'', dump_int (cached_tokens u)),
      (''reasoning_tokens'', dump_int (reasoning_tokens u)), (''total_tokens'', dump_int (total_tokens u))]"
  have "opt_nat_field c ''input_tokens'' d = Some (input_tokens u)"
    "opt_nat_field c ''output_tokens'' d = Some (output_tokens u)"
    "opt_nat_field c ''cached_tokens'' d = Some (cached_tokens u)"
    "opt_nat_field c ''reasoning_tokens'' d = Some (reasoning_tokens u)"
    "opt_nat_field c ''total_tokens'' d = Some (total_tokens u)"
    using nn by (auto intro!: opt_nat_dump simp: d_def)
  moreover have "only_keys [''input_tokens'', ''output_tokens'', ''cached_tokens'', ''reasoning_tokens'',
      ''total_tokens''] d" by (simp add: d_def)
  moreover have "dump_token_usage u = PDict d" by (simp add: dump_token_usage_def d_def)
  moreover have "\<lparr>input_tokens = input_tokens u, output_tokens = output_tokens u,
      cached_tokens = cached_tokens u, reasoning_tokens = reasoning_tokens u,
      total_tokens = total_tokens u\<rparr> = u" by simp
  ultimately show ?thesis using u
    by (simp only: parse_token_usage_def make_token_usage_def as_dict.simps Option.bind.bind_lunit) simp
qed

text \<open>
  Reported usage reaches the ledger as it was reported. What the adapter reads off a raw
  provider chunk is either nothing, or a valid usage record that is read back unchanged from the
  metadata of the chunk the framework built; anything else is the one public usage failure.
\<close>

theorem provider_usage_roundtrip:
  assumes "convert_chunk raw (Some m) = res" "mm_chunk m" "map_of (mm_metadata m) PROVIDER_USAGE_KEY = None"
  shows "case auditable_provider_usage raw of
      Inl e \<Rightarrow> res = Inl usage_invalid \<and> e = usage_invalid
    | Inr u \<Rightarrow> \<exists>m'. res = Inr (Some m') \<and> usage_from_message c m' = Inr u
        \<and> ai_message.truncate m' = ai_message.truncate m
        \<and> (\<forall>x. u = Some x \<longrightarrow> valid_token_usage x)"
proof (cases "auditable_provider_usage raw")
  case (Inl e)
  with assms(1) auditable_usage_error [OF Inl] show ?thesis by (simp add: convert_chunk_def)
next
  case (Inr u)
  show ?thesis
  proof (cases u)
    case None
    with Inr assms show ?thesis
      by (auto simp: convert_chunk_def usage_from_message_def dict_get_def)
  next
    case (Some x)
    have "valid_token_usage x" using auditable_usage_valid Inr Some by simp
    moreover have "dict_get (AList.update PROVIDER_USAGE_KEY v ms) PROVIDER_USAGE_KEY = v" for v ms
      by (simp add: dict_get_def update_conv')
    moreover have "\<exists>d. dump_token_usage x = PDict d" by (simp add: dump_token_usage_def)
    ultimately show ?thesis
      using Inr Some assms parse_dump_token_usage [of x c]
      by (auto simp: convert_chunk_def usage_from_message_def ai_message.truncate_def)
  qed
qed

definition demo_chunk :: "pystr \<Rightarrow> model_message" where
  "demo_chunk t = (ai_text None t [])\<lparr>mm_chunk := True\<rparr>"

theorem provider_usage_roundtrip_witness:
  "\<exists>m. convert_chunk (PDict (py_dict [(''prompt_tokens'', PInt 7), (''completion_tokens'', PInt 2)]))
       (Some (demo_chunk (lit ''hi''))) = Inr (Some m)
     \<and> usage_from_message plain_codec m = Inr (Some \<lparr>input_tokens = Some 7, output_tokens = Some 2,
          cached_tokens = None, reasoning_tokens = None, total_tokens = None\<rparr>)"
proof -
  let ?raw = "PDict (py_dict [(''prompt_tokens'', PInt 7), (''completion_tokens'', PInt 2)])"
  let ?usage = "\<lparr>input_tokens = Some 7, output_tokens = Some 2, cached_tokens = None,
    reasoning_tokens = None, total_tokens = None\<rparr> :: token_usage"
  have "auditable_provider_usage ?raw = Inr (Some ?usage)"
    by (simp add: auditable_provider_usage_def reported_cached_def reported_reasoning_def
        reported_nonnegative_int_def no_reported_field_def make_token_usage_def valid_token_usage_def
        token_fields_def dict_get_def lit_def)
  moreover have "mm_chunk (demo_chunk (lit ''hi''))"
    "map_of (mm_metadata (demo_chunk (lit ''hi''))) PROVIDER_USAGE_KEY = None"
    by (simp_all add: demo_chunk_def ai_text_def)
  ultimately show ?thesis
    using provider_usage_roundtrip [OF refl, of "demo_chunk (lit ''hi'')" ?raw plain_codec] by auto
qed

end
