(* ===== verification/Runtime_Stream.thy ===== *)
theory Runtime_Stream
  imports Runtime_Messages Service
begin

text \<open>
  agent_runtime.py, the public answer stream: the context of one Run of the runtime, how received
  text is cut into public deltas, and \<open>_stream_final_response\<close>.

  The loop of the stream waits for the next item of the provider and for its own timer. Each round
  has the readings of the clock (a function of their number), whether the next item arrived before
  the timer, what other tasks did to the execution meanwhile, and whether the n-th public event of
  the round was interrupted at its await. The items of the provider are a list; its end is the end
  of the stream, and an exception at the await of an item (a deadline, a cancellation, an error of
  the client) is an item too.
\<close>

section \<open>The context of a Run\<close>

record model_request =
  mr_messages :: "chat_message list"
  mr_system :: "pystr option"
  mr_tools :: "pystr option list"
  mr_tool_choice :: "pystr option"
  mr_settings :: pdict
  mr_response_format :: bool

record 'w runtime_context =
  rc_execution :: "'w execution"
  rc_built :: built_context
  rc_events :: "product_event list"
  rc_final_text :: "pystr option"
  rc_finalizer_request :: "model_request option"
  rc_pending_call :: "pystr option"
  rc_completed_call :: "pystr option"
  rc_public_events :: int
  rc_retry_used :: bool

type_synonym 'w rt = "'w runtime_context \<times> 'w"

definition new_context :: "'w execution \<Rightarrow> built_context \<Rightarrow> 'w runtime_context" where
  "new_context ex built =
     \<lparr>rc_execution = ex, rc_built = built, rc_events = [], rc_final_text = None,
      rc_finalizer_request = None, rc_pending_call = None, rc_completed_call = None,
      rc_public_events = 0, rc_retry_used = False\<rparr>"

definition on_execution ::
  "('w execution \<times> 'w \<Rightarrow> 'a \<times> 'w execution \<times> 'w) \<Rightarrow> 'w rt \<Rightarrow> 'a \<times> 'w rt" where
  "on_execution op st =
     (case op (rc_execution (fst st), snd st) of
        (r, ex, w) \<Rightarrow> (r, (fst st)\<lparr>rc_execution := ex\<rparr>, w))"

text \<open>An operation of the execution that does not reach the outer state.\<close>

definition locally :: "('w execution \<Rightarrow> 'a \<times> 'w execution) \<Rightarrow> 'w execution \<times> 'w \<Rightarrow> 'a \<times> 'w execution \<times> 'w" where
  "locally op st = (case op (fst st) of (r, ex) \<Rightarrow> (r, ex, snd st))"

definition meanwhile :: "('w execution \<times> 'w \<Rightarrow> 'w execution \<times> 'w) \<Rightarrow> 'w rt \<Rightarrow> 'w rt" where
  "meanwhile others st =
     (case others (rc_execution (fst st), snd st) of (ex, w) \<Rightarrow> ((fst st)\<lparr>rc_execution := ex\<rparr>, w))"

section \<open>Public events\<close>

definition delta_event :: "pystr \<Rightarrow> product_event" where
  "delta_event d = \<lparr>pe_type = lit ''message.delta'', pe_data = py_dict [(''delta'', PStr d)]\<rparr>"

text \<open>\<open>emit\<close> puts the event on the queue of the Run; the await may be interrupted.\<close>

definition emit_public ::
  "failure option \<Rightarrow> product_event \<Rightarrow> 'w runtime_context \<Rightarrow> (failure + unit) \<times> 'w runtime_context" where
  "emit_public broken ev ctx =
     (let ctx1 = ctx\<lparr>rc_public_events := rc_public_events ctx + 1\<rparr>
      in case broken of
           Some f \<Rightarrow> (Inl f, ctx1)
         | None \<Rightarrow> (Inr (), ctx1\<lparr>rc_events := rc_events ctx1 @ [ev]\<rparr>))"

definition PUBLIC_DELTA_MAX_CHARS :: nat where
  "PUBLIC_DELTA_MAX_CHARS = 8000"

definition STREAM_DELTA_TARGET_CHARS :: nat where
  "STREAM_DELTA_TARGET_CHARS = 24"

definition STREAM_DELTA_MIN_PHRASE_CHARS :: nat where
  "STREAM_DELTA_MIN_PHRASE_CHARS = 3"

definition STREAM_DELTA_MAX_WAIT_SECONDS :: rat where
  "STREAM_DELTA_MAX_WAIT_SECONDS = 16 / 100"

lemmas stream_constants =
  PUBLIC_DELTA_MAX_CHARS_def STREAM_DELTA_TARGET_CHARS_def STREAM_DELTA_MIN_PHRASE_CHARS_def

function frames :: "pystr \<Rightarrow> pystr list" where
  "frames text =
     (if text = [] then []
      else take PUBLIC_DELTA_MAX_CHARS text # frames (drop PUBLIC_DELTA_MAX_CHARS text))"
  by pat_completeness auto

termination
  by (relation "measure length") (auto simp: stream_constants)

declare frames.simps [simp del]

type_synonym interruption = "nat \<Rightarrow> failure option"

fun emit_frames ::
  "interruption \<Rightarrow> nat \<Rightarrow> pystr list \<Rightarrow> 'w runtime_context \<Rightarrow> (failure + nat) \<times> 'w runtime_context" where
  "emit_frames broken n [] ctx = (Inr n, ctx)"
| "emit_frames broken n (d # ds) ctx =
     (case emit_public (broken n) (delta_event d) ctx of
        (Inl f, ctx1) \<Rightarrow> (Inl f, ctx1)
      | (Inr _, ctx1) \<Rightarrow> emit_frames broken (Suc n) ds ctx1)"

definition emit_stream_chunk ::
  "interruption \<Rightarrow> nat \<Rightarrow> pystr \<Rightarrow> 'w runtime_context \<Rightarrow> (failure + nat) \<times> 'w runtime_context" where
  "emit_stream_chunk broken n text ctx = emit_frames broken n (frames text) ctx"

section \<open>Where a delta ends\<close>

text \<open>The line ends and punctuation marks, ASCII and full width.\<close>

definition PHRASE_BOUNDARIES :: "nat list" where
  "PHRASE_BOUNDARIES =
     [10, 13, 44, 46, 33, 63, 59, 58, 65292, 12290, 65281, 65311, 65307, 65306, 12289]"

fun last_boundary :: "nat \<Rightarrow> pystr \<Rightarrow> nat" where
  "last_boundary index [] = 0"
| "last_boundary index (ch # window) =
     max (if ch \<in> set PHRASE_BOUNDARIES then index + 1 else 0) (last_boundary (index + 1) window)"

definition flush_prefix_length :: "pystr \<Rightarrow> nat" where
  "flush_prefix_length text =
     (if length text < STREAM_DELTA_MIN_PHRASE_CHARS then 0
      else
        let boundary = last_boundary 0 (take STREAM_DELTA_TARGET_CHARS text)
        in if STREAM_DELTA_MIN_PHRASE_CHARS \<le> boundary then boundary
           else if STREAM_DELTA_TARGET_CHARS \<le> length text then STREAM_DELTA_TARGET_CHARS
           else 0)"

lemma last_boundary_bound: "last_boundary i w \<le> i + length w"
  by (induction i w rule: last_boundary.induct) auto

lemma flush_prefix_bounds:
  assumes "0 < flush_prefix_length text"
  shows "3 \<le> flush_prefix_length text \<and> flush_prefix_length text \<le> 24 \<and> flush_prefix_length text \<le> length text"
proof -
  have "last_boundary 0 (take 24 text) \<le> min 24 (length text)"
    using last_boundary_bound [of 0 "take 24 text"] by simp
  with assms show ?thesis
    by (auto simp: flush_prefix_length_def stream_constants Let_def split: if_splits)
qed

lemma flush_prefix_none: "flush_prefix_length text = 0 \<Longrightarrow> length text < 24"
  by (auto simp: flush_prefix_length_def stream_constants Let_def split: if_splits)

section \<open>One item of the provider\<close>

record stream_locals =
  fs_parts :: "pystr list"
  fs_buffer :: pystr
  fs_visible :: bool
  fs_chars :: int
  fs_flush_at :: "rat option"

definition no_text :: stream_locals where
  "no_text = \<lparr>fs_parts = [], fs_buffer = [], fs_visible = False, fs_chars = 0, fs_flush_at = None\<rparr>"

record 'w stream_round =
  sr_clock :: "nat \<Rightarrow> rat"
  sr_ready :: bool
  sr_others :: "'w execution \<times> 'w \<Rightarrow> 'w execution \<times> 'w"
  sr_broken :: interruption

datatype stream_item = ItemChunk model_message | ItemOther | ItemRaises failure

function flush_prefixes ::
  "(nat \<Rightarrow> rat) \<Rightarrow> interruption \<Rightarrow> nat \<Rightarrow> stream_locals \<Rightarrow> 'w runtime_context \<Rightarrow>
   (failure + unit) \<times> stream_locals \<times> 'w runtime_context" where
  "flush_prefixes clock broken n l ctx =
     (let prefix_length = flush_prefix_length (fs_buffer l)
      in if prefix_length = 0 then (Inr (), l, ctx)
         else
           let l1 = l\<lparr>fs_buffer := drop prefix_length (fs_buffer l)\<rparr>
           in case emit_stream_chunk broken n (take prefix_length (fs_buffer l)) ctx of
                (Inl f, ctx1) \<Rightarrow> (Inl f, l1, ctx1)
              | (Inr m, ctx1) \<Rightarrow>
                  flush_prefixes clock broken m
                    (l1\<lparr>fs_flush_at :=
                         if fs_buffer l1 \<noteq> [] then Some (clock (m + 2) + STREAM_DELTA_MAX_WAIT_SECONDS)
                         else None\<rparr>) ctx1)"
  by pat_completeness auto

termination
proof (relation "measure (\<lambda>(_, _, _, l, _). length (fs_buffer l))", simp)
  fix broken :: interruption and n m :: nat and l :: stream_locals and x y
    and clock :: "nat \<Rightarrow> rat" and ctx ctx1 :: "'w runtime_context"
  assume x: "x = flush_prefix_length (fs_buffer l)" "x \<noteq> 0" and y: "y = l\<lparr>fs_buffer := drop x (fs_buffer l)\<rparr>"
  then have "0 < x" "x \<le> length (fs_buffer l)" using flush_prefix_bounds [of "fs_buffer l"] by simp_all
  with y show "((clock, broken, m, y\<lparr>fs_flush_at := if fs_buffer y \<noteq> []
        then Some (clock (m + 2) + STREAM_DELTA_MAX_WAIT_SECONDS) else None\<rparr>, ctx1), clock, broken, n, l, ctx)
      \<in> measure (\<lambda>(_, _, _, l, _). length (fs_buffer l))"
    by simp
qed

declare flush_prefixes.simps [simp del]

definition timer_flush ::
  "interruption \<Rightarrow> stream_locals \<Rightarrow> 'w runtime_context \<Rightarrow>
   (failure + unit) \<times> stream_locals \<times> 'w runtime_context" where
  "timer_flush broken l ctx =
     (if fs_buffer l = [] then (Inl (Raised (AgentExecutionFailed ''finalizer_flush_state_invalid'')), l, ctx)
      else if length (fs_buffer l) < STREAM_DELTA_MIN_PHRASE_CHARS
      then (Inr (), l\<lparr>fs_flush_at := None\<rparr>, ctx)
      else
        (case emit_stream_chunk broken 0 (fs_buffer l) ctx of
           (Inl f, ctx1) \<Rightarrow> (Inl f, l, ctx1)
         | (Inr _, ctx1) \<Rightarrow> (Inr (), l\<lparr>fs_buffer := [], fs_flush_at := None\<rparr>, ctx1)))"

definition observe_chunk_usage ::
  "codec \<Rightarrow> pystr \<Rightarrow> model_message \<Rightarrow> 'w execution \<Rightarrow> (exn + unit) \<times> 'w execution" where
  "observe_chunk_usage c attempt m ex =
     (case usage_from_message c m of
        Inl e \<Rightarrow> (Inl e, ex)
      | Inr None \<Rightarrow> (Inr (), ex)
      | Inr (Some u) \<Rightarrow> observe_provider_usage attempt u ex)"

definition append_delta ::
  "(nat \<Rightarrow> rat) \<Rightarrow> interruption \<Rightarrow> int \<Rightarrow> pystr \<Rightarrow> stream_locals \<Rightarrow> 'w runtime_context \<Rightarrow>
   (failure + unit) \<times> stream_locals \<times> 'w runtime_context" where
  "append_delta clock broken max_chars delta l ctx =
     (if delta = [] then (Inr (), l, ctx)
      else
        let l1 = l\<lparr>fs_chars := fs_chars l + int (length delta)\<rparr>
        in if max_chars < fs_chars l1 then (Inl (Raised ResultSchemaInvalid), l1, ctx)
           else
             let l2 = l1\<lparr>fs_parts := fs_parts l1 @ [delta], fs_buffer := fs_buffer l1 @ delta,
                          fs_visible := fs_visible l1 \<or> py_strip delta \<noteq> []\<rparr>
             in if \<not> fs_visible l2 then (Inr (), l2, ctx)
                else
                  flush_prefixes clock broken 0
                    (if fs_flush_at l2 = None
                     then l2\<lparr>fs_flush_at := Some (clock 1 + STREAM_DELTA_MAX_WAIT_SECONDS)\<rparr>
                     else l2) ctx)"

definition take_chunk ::
  "codec \<Rightarrow> pystr \<Rightarrow> int \<Rightarrow> 'w stream_round \<Rightarrow> model_message \<Rightarrow> stream_locals \<Rightarrow> 'w runtime_context \<Rightarrow>
   (failure + unit) \<times> stream_locals \<times> 'w runtime_context" where
  "take_chunk c attempt max_chars rd m l ctx =
     (case observe_chunk_usage c attempt m (rc_execution ctx) of
        (Inl e, ex) \<Rightarrow> (Inl (Raised e), l, ctx\<lparr>rc_execution := ex\<rparr>)
      | (Inr _, ex) \<Rightarrow>
          (case public_chunk_text m of
             Inl e \<Rightarrow> (Inl (Raised e), l, ctx\<lparr>rc_execution := ex\<rparr>)
           | Inr delta \<Rightarrow>
               append_delta (sr_clock rd) (sr_broken rd) max_chars delta l (ctx\<lparr>rc_execution := ex\<rparr>)))"

section \<open>The loop\<close>

definition flush_due :: "'w stream_round \<Rightarrow> stream_locals \<Rightarrow> bool" where
  "flush_due rd l \<longleftrightarrow> (case fs_flush_at l of None \<Rightarrow> False | Some t \<Rightarrow> t \<le> sr_clock rd 0)"

text \<open>
  The result is \<open>None\<close> while the loop still waits after the given rounds. Without a timer the loop
  waits until an item has arrived.
\<close>

fun stream_rounds ::
  "codec \<Rightarrow> pystr \<Rightarrow> int \<Rightarrow> 'w stream_round list \<Rightarrow> stream_item list \<Rightarrow> stream_locals \<Rightarrow> 'w rt \<Rightarrow>
   (failure + unit) option \<times> stream_locals \<times> 'w rt" where
  "stream_rounds c attempt max_chars [] items l st = (None, l, st)"
| "stream_rounds c attempt max_chars (rd # rds) items l st =
     (let st1 = meanwhile (sr_others rd) st;
          proceed = (\<lambda>(r, l', ctx) items'.
            case r of
              Inl f \<Rightarrow> (Some (Inl f), l', ctx, snd st1)
            | Inr _ \<Rightarrow> stream_rounds c attempt max_chars rds items' l' (ctx, snd st1))
      in if flush_due rd l \<or> \<not> sr_ready rd \<and> fs_flush_at l \<noteq> None
         then proceed (timer_flush (sr_broken rd) l (fst st1)) items
         else if \<not> sr_ready rd then stream_rounds c attempt max_chars rds items l st1
         else
           case items of
             [] \<Rightarrow> (Some (Inr ()), l, st1)
           | ItemRaises f # items' \<Rightarrow> (Some (Inl f), l, st1)
           | ItemOther # items' \<Rightarrow> (Some (Inl (Raised chunk_invalid)), l, st1)
           | ItemChunk m # items' \<Rightarrow> proceed (take_chunk c attempt max_chars rd m l (fst st1)) items')"

section \<open>The final response\<close>

definition FORBIDDEN_MODEL_SETTINGS :: "string list" where
  "FORBIDDEN_MODEL_SETTINGS =
     [''function_call'', ''functions'', ''parallel_tool_calls'', ''tool_choice'', ''tools'']"

definition tool_free :: "model_request \<Rightarrow> bool" where
  "tool_free request \<longleftrightarrow>
     \<not> (list_ex (\<lambda>k. map_of (mr_settings request) (lit k) \<noteq> None) FORBIDDEN_MODEL_SETTINGS
        \<or> mr_tools request \<noteq> [] \<or> mr_tool_choice request \<notin> {None, Some (lit ''none'')})"

definition provider_messages :: "model_request \<Rightarrow> chat_message list" where
  "provider_messages request =
     (case mr_system request of None \<Rightarrow> [] | Some s \<Rightarrow> [OtherMessage (lit ''system'') (PStr s)])
     @ mr_messages request"

text \<open>
  What one call of the provider meets: the clock, the id of the attempt, the items the provider
  sends for the messages it got, the rounds of the loop, and an interruption of the last delta.
\<close>

record 'w stream_script =
  ss_now :: rat
  ss_started_at :: rat
  ss_attempt :: pystr
  ss_provider :: "chat_message list \<Rightarrow> stream_item list"
  ss_rounds :: "'w stream_round list"
  ss_finished_at :: rat
  ss_broken :: interruption

fun stream_status :: "failure + 'a \<Rightarrow> attempt_status" where
  "stream_status (Inr _) = Succeeded"
| "stream_status (Inl CancelledFailure) = AttemptCancelled"
| "stream_status (Inl _) = AttemptFailed"

text \<open>After the provider has closed the stream: the answer, and the rest of the buffer.\<close>

definition conclude_stream ::
  "interruption \<Rightarrow> stream_locals \<Rightarrow> 'w rt \<Rightarrow> (failure + pystr) \<times> 'w rt" where
  "conclude_stream broken l st =
     (let final_text = concat (fs_parts l)
      in if py_strip final_text = [] then (Inl (Raised ResultSchemaInvalid), st)
         else if fs_buffer l = [] then (Inr final_text, st)
         else
           (case emit_stream_chunk broken 0 (fs_buffer l) (fst st) of
              (Inl f, ctx) \<Rightarrow> (Inl f, ctx, snd st)
            | (Inr _, ctx) \<Rightarrow> (Inr final_text, ctx, snd st)))"

definition stream_final_response ::
  "codec \<Rightarrow> 'w stream_script \<Rightarrow> model_request \<Rightarrow> model_call_kind \<Rightarrow> 'w rt \<Rightarrow>
   (failure + pystr) option \<times> 'w rt" where
  "stream_final_response c s request kind st =
     (if \<not> tool_free request
      then (Some (Inl (Raised (AgentExecutionFailed ''finalizer_tool_configuration_forbidden''))), st)
      else
        let max_chars = max_answer_chars (result_contract (ex_agent (rc_execution (fst st))))
        in case on_execution
                  (begin_provider_attempt (ss_now s) (ss_started_at s) (ss_attempt s) kind None) st of
             (Inl e, st1) \<Rightarrow> (Some (Inl (Raised e)), st1)
           | (Inr attempt, st1) \<Rightarrow>
               (case stream_rounds c attempt max_chars (ss_rounds s)
                       (ss_provider s (provider_messages request)) no_text st1 of
                  (None, l, st2) \<Rightarrow> (None, st2)
                | (Some r, l, st2) \<Rightarrow>
                    (case on_execution
                            (finish_provider_attempt (ss_finished_at s) attempt (stream_status r)) st2 of
                       (Inl e, st3) \<Rightarrow> (Some (Inl (Raised e)), st3)
                     | (Inr _, st3) \<Rightarrow>
                         (case r of
                            Inl f \<Rightarrow> (Some (Inl f), st3)
                          | Inr _ \<Rightarrow>
                              (case conclude_stream (ss_broken s) l st3 of
                                 (answer, st4) \<Rightarrow> (Some answer, st4))))))"

end
