(* ===== verification/Runtime_Protocol.thy ===== *)
theory Runtime_Protocol
  imports Runtime_Stream
begin

text \<open>
  agent_runtime.py, the middleware around the agent framework: \<open>apply_model_policy\<close> before and after
  each model call, with the one retry of the first decision, \<open>apply_tool_policy\<close> around each Tool
  call, and \<open>finalize_after_agent\<close> at the exit of the graph, which streams the public answer. The
  three share the host-private control call by which the model declares its decision complete.

  The framework's handlers (the model, the Tools) are functions on the request and on everything that
  may change while they are awaited; readings of the clock and fresh ids come with a script.
\<close>

section \<open>The control call\<close>

definition FINALIZE_CONTROL_TOOL_ID :: pystr where
  "FINALIZE_CONTROL_TOOL_ID = lit ''host__finalize_answer''"

definition FINALIZE_CONTROL_RESULT :: pystr where
  "FINALIZE_CONTROL_RESULT = lit ''finalizer_ready''"

definition FINALIZE_DECISION_PROTOCOL :: pystr where
  "FINALIZE_DECISION_PROTOCOL = py_join [10]
     [lit ''<host_finalization_protocol>'',
      lit ''`host__finalize_answer` is a Host-private completion declaration, never an answer'',
      lit ''or an external capability. Call it exactly once with `{}` and no assistant text.'',
      lit ''If no external Tool is needed, call it alone. You may include it in the same'',
      lit ''Tool-call batch as terminal-eligible Tools only when that exact batch contains'',
      lit ''every external lookup needed to answer the user'' @ [39] @ lit ''s complete request. Otherwise,'',
      lit ''omit it, run the required Tools, continue planning, and declare completion in a'',
      lit ''later model turn. Never combine it with a non-terminal Tool.'',
      lit ''</host_finalization_protocol>'']"

definition is_control :: "pdict \<Rightarrow> bool" where
  "is_control call \<longleftrightarrow> dict_get call (lit ''name'') = PStr FINALIZE_CONTROL_TOOL_ID"

definition failing :: "string \<Rightarrow> failure" where
  "failing reason = Raised (AgentExecutionFailed reason)"

section \<open>The first decision and its retry\<close>

record model_response =
  mp_result :: "chat_message list"
  mp_structured :: bool

type_synonym 'w model_handler =
  "nat \<Rightarrow> model_request \<Rightarrow> 'w rt \<Rightarrow> (failure + model_response) \<times> 'w rt"

definition can_retry_initial_decision :: "rat \<Rightarrow> 'w runtime_context \<Rightarrow> exn + bool" where
  "can_retry_initial_decision now ctx =
     bindE (usage_evidence now (rc_execution ctx)) (\<lambda>usage.
     Inr (\<not> rc_retry_used ctx \<and> used_model_steps usage = 1 \<and> used_tool_calls_attempted usage = 0
          \<and> rc_public_events ctx = 0 \<and> rc_final_text ctx = None \<and> rc_pending_call ctx = None
          \<and> rc_completed_call ctx = None))"

fun observe_results ::
  "codec \<Rightarrow> pystr \<Rightarrow> chat_message list \<Rightarrow> 'w execution \<Rightarrow> (exn + unit) \<times> 'w execution" where
  "observe_results c attempt [] ex = (Inr (), ex)"
| "observe_results c attempt (AiMessage m # ms) ex =
     and_then (observe_chunk_usage c attempt m ex) (\<lambda>_. observe_results c attempt ms)"
| "observe_results c attempt (x # ms) ex = observe_results c attempt ms ex"

definition invoke_attempt ::
  "codec \<Rightarrow> rat \<Rightarrow> pystr \<Rightarrow> ('w rt \<Rightarrow> (failure + model_response) \<times> 'w rt) \<Rightarrow> 'w rt \<Rightarrow>
   (failure + model_response) \<times> 'w rt" where
  "invoke_attempt c finished_at attempt call st =
     (let settle = (\<lambda>r st1.
            case on_execution (finish_provider_attempt finished_at attempt (stream_status r)) st1 of
              (Inl e, st2) \<Rightarrow> (Inl (Raised e), st2)
            | (Inr _, st2) \<Rightarrow> (r, st2))
      in case call st of
           (Inl f, st1) \<Rightarrow> settle (Inl f) st1
         | (Inr response, st1) \<Rightarrow>
             (case on_execution (locally (observe_results c attempt (mp_result response))) st1 of
                (Inl e, st2) \<Rightarrow> settle (Inl (Raised e)) st2
              | (Inr _, st2) \<Rightarrow> settle (Inr response) st2))"

definition FIRST_DECISION_RETRY_BACKOFF_SECONDS :: rat where
  "FIRST_DECISION_RETRY_BACKOFF_SECONDS = 15 / 100"

text \<open>The readings of the clock, the two fresh ids, and what interrupts the pause, if anything.\<close>

record decision_script =
  ds_now :: rat
  ds_started_at :: rat
  ds_attempt :: pystr
  ds_finished_at :: rat
  ds_checked_at :: rat
  ds_remaining_at :: rat
  ds_pause :: "failure option"
  ds_retry_now :: rat
  ds_retry_begin :: rat
  ds_retry_started_at :: rat
  ds_retry_attempt :: pystr
  ds_retry_finished_at :: rat

definition retry_decision ::
  "codec \<Rightarrow> decision_script \<Rightarrow> pystr \<Rightarrow> ('w rt \<Rightarrow> (failure + model_response) \<times> 'w rt) \<Rightarrow> 'w rt \<Rightarrow>
   (failure + model_response) \<times> 'w rt" where
  "retry_decision c s first call st =
     (let st1 = ((fst st)\<lparr>rc_retry_used := True\<rparr>, snd st)
      in case ds_pause s of
           Some f \<Rightarrow> (Inl f, st1)
         | None \<Rightarrow>
             (case on_execution (locally (before_model_call (ds_retry_now s))) st1 of
                (Inl e, st2) \<Rightarrow> (Inl (Raised e), st2)
              | (Inr _, st2) \<Rightarrow>
                  (case on_execution
                          (begin_provider_attempt (ds_retry_begin s) (ds_retry_started_at s)
                             (ds_retry_attempt s) DecisionCall (Some first)) st2 of
                     (Inl e, st3) \<Rightarrow> (Inl (Raised e), st3)
                   | (Inr attempt, st3) \<Rightarrow>
                       invoke_attempt c (ds_retry_finished_at s) attempt call st3)))"

definition initial_decision ::
  "codec \<Rightarrow> decision_script \<Rightarrow> 'w model_handler \<Rightarrow> model_request \<Rightarrow> 'w rt \<Rightarrow>
   (failure + model_response) \<times> 'w rt" where
  "initial_decision c s handler request st =
     (case on_execution
             (begin_provider_attempt (ds_now s) (ds_started_at s) (ds_attempt s) DecisionCall None) st of
        (Inl e, st1) \<Rightarrow> (Inl (Raised e), st1)
      | (Inr first, st1) \<Rightarrow>
          (case invoke_attempt c (ds_finished_at s) first (handler 0 request) st1 of
             (Inl (ProviderFailure True), st2) \<Rightarrow>
               (case can_retry_initial_decision (ds_checked_at s) (fst st2) of
                  Inl e \<Rightarrow> (Inl (Raised e), st2)
                | Inr can \<Rightarrow>
                    if \<not> can
                       \<or> remaining_seconds (ds_remaining_at s) (rc_execution (fst st2))
                          \<le> FIRST_DECISION_RETRY_BACKOFF_SECONDS
                    then (Inl (ProviderFailure True), st2)
                    else retry_decision c s first (handler 1 request) st2)
           | answer \<Rightarrow> answer))"

section \<open>The model policy\<close>

definition decision_prompt :: "'w runtime_context \<Rightarrow> pystr" where
  "decision_prompt ctx =
     system_prompt (rc_built ctx)
     @ (if visible_tool_ids (rc_execution ctx) \<noteq> [] then [10, 10] @ FINALIZE_DECISION_PROTOCOL else [])"

definition controlled_request :: "'w runtime_context \<Rightarrow> model_request \<Rightarrow> model_request" where
  "controlled_request ctx request =
     (let visible = visible_tool_ids (rc_execution ctx)
      in request\<lparr>mr_tools :=
                   filter (\<lambda>t. case t of
                      None \<Rightarrow> False | Some n \<Rightarrow> n \<in> set visible \<or> n = FINALIZE_CONTROL_TOOL_ID) (mr_tools request),
                 mr_tool_choice := Some (if visible \<noteq> [] then lit ''required'' else lit ''none''),
                 mr_system := Some (decision_prompt ctx)\<rparr>)"

definition answer_request :: "'w runtime_context \<Rightarrow> model_request \<Rightarrow> model_request" where
  "answer_request ctx request =
     request\<lparr>mr_tools := [], mr_tool_choice := Some (lit ''none''),
             mr_system := Some (system_prompt (rc_built ctx))\<rparr>"

text \<open>Storing a streamed answer in the context, after the execution has counted its text.\<close>

definition keep_answer ::
  "host_env \<Rightarrow> rat \<Rightarrow> pystr option \<Rightarrow> pystr \<Rightarrow> 'w rt \<Rightarrow> (failure + model_message) \<times> 'w rt" where
  "keep_answer env now name final_text st =
     (let m = ai_text name final_text []
      in case on_execution (locally (after_model_response env now [ai_message.truncate m])) st of
           (Inl e, st1) \<Rightarrow> (Inl (Raised e), st1)
         | (Inr _, st1) \<Rightarrow> (Inr m, (fst st1)\<lparr>rc_final_text := Some final_text\<rparr>, snd st1))"

definition nonempty_str :: "pval \<Rightarrow> bool" where
  "nonempty_str v \<longleftrightarrow> (case v of PStr s \<Rightarrow> s \<noteq> [] | _ \<Rightarrow> False)"

definition call_ids :: "pdict list \<Rightarrow> pval list" where
  "call_ids calls = map (\<lambda>call. dict_get call (lit ''id'')) calls"

definition control_signal_ok :: "'w runtime_context \<Rightarrow> model_message \<Rightarrow> bool" where
  "control_signal_ok ctx m \<longleftrightarrow>
     (let controls = filter is_control (ai_tool_calls m); ids = call_ids (ai_tool_calls m)
      in \<not> (length controls \<noteq> 1
           \<or> \<not> nonempty_str (dict_get (hd controls) (lit ''id''))
           \<or> list_ex (\<lambda>i. \<not> nonempty_str i) ids
           \<or> \<not> distinct ids
           \<or> dict_get (hd controls) (lit ''args'') \<noteq> PDict []
           \<or> py_strip (content_text (ai_content m)) \<noteq> []
           \<or> mm_invalid_calls m \<noteq> []
           \<or> rc_pending_call ctx \<noteq> None
           \<or> rc_completed_call ctx \<noteq> None))"

definition terminal_call :: "'w execution \<Rightarrow> pdict \<Rightarrow> exn + bool" where
  "terminal_call ex call =
     (case as_str (dict_get call (lit ''name'')) of
        None \<Rightarrow> Inr False
      | Some t \<Rightarrow>
          if t \<notin> set (visible_tool_ids ex) then Inr False
          else bindE (require_tool (ex_registry ex) t) (\<lambda>r. Inr (terminal_after_success r)))"

fun all_terminal :: "'w execution \<Rightarrow> pdict list \<Rightarrow> exn + bool" where
  "all_terminal ex [] = Inr True"
| "all_terminal ex (call # calls) =
     bindE (terminal_call ex call) (\<lambda>b. if b then all_terminal ex calls else Inr False)"

record 'w policy_script =
  ps_now :: rat
  ps_direct :: "'w stream_script"
  ps_decision :: decision_script
  ps_handler :: "'w model_handler"
  ps_counted_at :: rat
  ps_signalled_at :: rat

definition count_response ::
  "host_env \<Rightarrow> rat \<Rightarrow> ai_message \<Rightarrow> 'w rt \<Rightarrow> (failure + unit) \<times> 'w rt" where
  "count_response env now m st =
     (case on_execution (locally (after_model_response env now [m])) st of
        (Inl e, st1) \<Rightarrow> (Inl (Raised e), st1) | (Inr _, st1) \<Rightarrow> (Inr (), st1))"

definition accept_signal ::
  "host_env \<Rightarrow> 'w policy_script \<Rightarrow> model_message \<Rightarrow> 'w rt \<Rightarrow> (failure + unit) \<times> 'w rt" where
  "accept_signal env s m st =
     (let controls = filter is_control (ai_tool_calls m);
          external = filter (\<lambda>call. \<not> is_control call) (ai_tool_calls m);
          signal = (\<lambda>st1.
            let st2 = ((fst st1)\<lparr>rc_pending_call := as_str (dict_get (hd controls) (lit ''id''))\<rparr>, snd st1)
            in case on_execution (locally (record_finalizer_signal (ps_signalled_at s))) st2 of
                 (Inl e, st3) \<Rightarrow> (Inl (Raised e), st3) | (Inr _, st3) \<Rightarrow> (Inr (), st3))
      in if \<not> control_signal_ok (fst st) m then (Inl (failing ''finalizer_signal_invalid''), st)
         else
           case all_terminal (rc_execution (fst st)) external of
             Inl e \<Rightarrow> (Inl (Raised e), st)
           | Inr False \<Rightarrow> (Inl (failing ''finalizer_signal_invalid''), st)
           | Inr True \<Rightarrow>
               if external = [] then signal st
               else
                 (case count_response env (ps_counted_at s)
                         (ai_message.truncate m\<lparr>ai_tool_calls := external\<rparr>) st of
                    (Inl f, st1) \<Rightarrow> (Inl f, st1) | (Inr _, st1) \<Rightarrow> signal st1))"

definition accept_decision ::
  "host_env \<Rightarrow> 'w policy_script \<Rightarrow> model_message \<Rightarrow> 'w rt \<Rightarrow> (failure + unit) \<times> 'w rt" where
  "accept_decision env s m st =
     (if list_ex is_control (ai_tool_calls m) then accept_signal env s m st
      else if ai_tool_calls m = [] \<and> has_tool_signal m
      then (Inl (failing ''terminal_tool_signal_invalid''), st)
      else if ai_tool_calls m = [] \<and> py_strip (content_text (ai_content m)) = []
      then (Inl (failing ''finalizer_signal_required''), st)
      else count_response env (ps_counted_at s) (ai_message.truncate m) st)"

definition decide ::
  "codec \<Rightarrow> host_env \<Rightarrow> 'w policy_script \<Rightarrow> model_request \<Rightarrow> 'w rt \<Rightarrow>
   (failure + model_response) \<times> 'w rt" where
  "decide c env s request st =
     (case initial_decision c (ps_decision s) (ps_handler s) (controlled_request (fst st) request)
             ((fst st)\<lparr>rc_finalizer_request := Some (answer_request (fst st) request)\<rparr>, snd st) of
        (Inl f, st1) \<Rightarrow> (Inl f, st1)
      | (Inr response, st1) \<Rightarrow>
          (case mp_result response of
             [AiMessage m] \<Rightarrow>
               if mr_response_format request \<or> mp_structured response
               then (Inl (failing ''finalizer_structured_response_unsupported''), st1)
               else
                 (case accept_decision env s m st1 of
                    (Inl f, st2) \<Rightarrow> (Inl f, st2) | (Inr _, st2) \<Rightarrow> (Inr response, st2))
           | _ \<Rightarrow> (Inl (failing ''model_response_invalid''), st1)))"

text \<open>The result is \<open>None\<close> while a direct answer still streams.\<close>

definition apply_model_policy ::
  "codec \<Rightarrow> host_env \<Rightarrow> 'w policy_script \<Rightarrow> model_request \<Rightarrow> 'w rt \<Rightarrow>
   (failure + model_response) option \<times> 'w rt" where
  "apply_model_policy c env s request st =
     (case on_execution (locally (before_model_call (ps_now s))) st of
        (Inl e, st1) \<Rightarrow> (Some (Inl (Raised e)), st1)
      | (Inr _, st1) \<Rightarrow>
          if visible_tool_ids (rc_execution (fst st1)) \<noteq> []
          then (case decide c env s request st1 of (r, st2) \<Rightarrow> (Some r, st2))
          else if rc_final_text (fst st1) \<noteq> None
          then (Some (Inl (failing ''multiple_terminal_model_responses'')), st1)
          else
            (case stream_final_response c (ps_direct s) (answer_request (fst st1) request) DirectCall st1 of
               (None, st2) \<Rightarrow> (None, st2)
             | (Some (Inl f), st2) \<Rightarrow> (Some (Inl f), st2)
             | (Some (Inr final_text), st2) \<Rightarrow>
                 (case keep_answer env (ps_counted_at s) None final_text st2 of
                    (Inl f, st3) \<Rightarrow> (Some (Inl f), st3)
                  | (Inr m, st3) \<Rightarrow>
                      (Some (Inr \<lparr>mp_result = [AiMessage m], mp_structured = False\<rparr>), st3))))"

section \<open>The exit of the graph\<close>

definition exit_invalid :: exn where
  "exit_invalid = AgentExecutionFailed ''finalizer_exit_invalid''"

fun tool_result :: "chat_message \<Rightarrow> tool_message option" where
  "tool_result (ToolResult msg) = Some msg"
| "tool_result _ = None"

definition all_tool_results :: "chat_message list \<Rightarrow> tool_message list option" where
  "all_tool_results messages =
     (if list_all (\<lambda>x. tool_result x \<noteq> None) messages
      then Some (List.map_filter tool_result messages) else None)"

text \<open>Every call has an id of its own and exactly one successful result.\<close>

definition results_complete :: "pdict list \<Rightarrow> tool_message list \<Rightarrow> bool" where
  "results_complete calls results \<longleftrightarrow>
     (\<lambda>msg. PStr (tm_call_id msg)) ` set results = set (call_ids calls)
     \<and> list_all (\<lambda>msg. tm_status msg = lit ''success'') results"

text \<open>
  What \<open>finalize_after_agent\<close> does with the last AI message and what follows it: the messages the
  answer is to be written from, or a jump back to the model (\<open>None\<close>).
\<close>

definition plan_without_calls ::
  "'w runtime_context \<Rightarrow> chat_message list \<Rightarrow> model_message \<Rightarrow> chat_message list \<Rightarrow>
   exn + chat_message list option" where
  "plan_without_calls ctx before m after =
     (if after \<noteq> [] \<or> has_tool_signal m \<or> py_strip (content_text (ai_content m)) = []
         \<or> rc_completed_call ctx \<noteq> None \<or> rc_pending_call ctx \<noteq> None
      then Inl exit_invalid else Inr (Some before))"

definition sanitized_decision :: "model_message \<Rightarrow> pdict list \<Rightarrow> chat_message" where
  "sanitized_decision m external = AiMessage (ai_text (mm_name m) [] external)"

definition plan_with_calls ::
  "'w runtime_context \<Rightarrow> chat_message list \<Rightarrow> model_message \<Rightarrow> chat_message list \<Rightarrow>
   exn + chat_message list option" where
  "plan_with_calls ctx before m after =
     (let calls = ai_tool_calls m; ids = call_ids calls;
          controls = filter is_control calls; external = filter (\<lambda>call. \<not> is_control call) calls
      in if list_ex (\<lambda>i. \<not> nonempty_str i) ids \<or> \<not> distinct ids \<or> length after \<noteq> length calls
         then Inl exit_invalid
         else
           case all_tool_results after of
             None \<Rightarrow> Inl exit_invalid
           | Some results \<Rightarrow>
               if \<not> results_complete calls results then Inl exit_invalid
               else
                 bindE (if external = [] then Inr False else all_terminal (rc_execution ctx) external)
                   (\<lambda>terminal_batch.
                 if controls = []
                 then (if \<not> terminal_batch \<or> rc_completed_call ctx \<noteq> None \<or> rc_pending_call ctx \<noteq> None
                       then Inl exit_invalid else Inr None)
                 else if length controls \<noteq> 1 \<or> (external \<noteq> [] \<and> \<not> terminal_batch)
                    \<or> rc_completed_call ctx \<noteq> as_str (dict_get (hd controls) (lit ''id''))
                    \<or> rc_pending_call ctx \<noteq> None
                 then Inl exit_invalid
                 else if external = [] then Inr (Some before)
                 else
                   Inr (Some (before @ sanitized_decision m external
                     # map ToolResult
                         (filter (\<lambda>msg. PStr (tm_call_id msg) \<in> set (call_ids external)) results)))))"

definition exit_plan ::
  "'w runtime_context \<Rightarrow> chat_message list \<Rightarrow> exn + (chat_message list option \<times> model_message)" where
  "exit_plan ctx messages =
     (if rc_pending_call ctx \<noteq> None \<or> rc_finalizer_request ctx = None then Inl exit_invalid
      else
        case last_ai_message messages of
          None \<Rightarrow> Inl exit_invalid
        | Some (i, m) \<Rightarrow>
            bindE ((if ai_tool_calls m = [] then plan_without_calls else plan_with_calls)
                     ctx (take i messages) m (drop (Suc i) messages))
              (\<lambda>plan. Inr (plan, m)))"

datatype after_agent = NothingLeft | JumpToModel | FinalMessages "chat_message list"

record 'w exit_script =
  xs_now :: rat
  xs_stream :: "'w stream_script"
  xs_counted_at :: rat

definition write_answer ::
  "codec \<Rightarrow> host_env \<Rightarrow> 'w exit_script \<Rightarrow> chat_message list \<Rightarrow> model_message \<Rightarrow> 'w rt \<Rightarrow>
   (failure + after_agent) option \<times> 'w rt" where
  "write_answer c env s finalizer_messages m st =
     (case on_execution (locally (before_model_call (xs_now s))) st of
        (Inl e, st1) \<Rightarrow> (Some (Inl (Raised e)), st1)
      | (Inr _, st1) \<Rightarrow>
          (case rc_finalizer_request (fst st1) of
             None \<Rightarrow> (Some (Inl (Raised exit_invalid)), st1)
           | Some request \<Rightarrow>
               (case stream_final_response c (xs_stream s)
                       (answer_request (fst st1) (request\<lparr>mr_messages := finalizer_messages\<rparr>))
                       FinalizerCall st1 of
                  (None, st2) \<Rightarrow> (None, st2)
                | (Some (Inl f), st2) \<Rightarrow> (Some (Inl f), st2)
                | (Some (Inr final_text), st2) \<Rightarrow>
                    (case keep_answer env (xs_counted_at s) (mm_name m) final_text st2 of
                       (Inl f, st3) \<Rightarrow> (Some (Inl f), st3)
                     | (Inr answer, st3) \<Rightarrow> (Some (Inr (FinalMessages [AiMessage answer])), st3)))))"

definition finalize_after_agent ::
  "codec \<Rightarrow> host_env \<Rightarrow> 'w exit_script \<Rightarrow> chat_message list \<Rightarrow> 'w rt \<Rightarrow>
   (failure + after_agent) option \<times> 'w rt" where
  "finalize_after_agent c env s messages st =
     (if rc_final_text (fst st) \<noteq> None then (Some (Inr NothingLeft), st)
      else
        case exit_plan (fst st) messages of
          Inl e \<Rightarrow> (Some (Inl (Raised e)), st)
        | Inr (None, m) \<Rightarrow> (Some (Inr JumpToModel), st)
        | Inr (Some finalizer_messages, m) \<Rightarrow> write_answer c env s finalizer_messages m st)"

section \<open>The Tool policy\<close>

text \<open>
  The handler of a Tool call returns a \<open>ToolMessage\<close> or some other value (\<open>None\<close>). An interruption of
  an await is not among the exceptions here; whatever has been done before it stays done.
\<close>

type_synonym 'w tool_handler = "pdict \<Rightarrow> 'w rt \<Rightarrow> (exn + tool_message option) \<times> 'w rt"

record tool_script =
  ts_now :: rat
  ts_later :: rat
  ts_answer :: "exn + capability_decision"

definition control_result_ok :: "pystr \<Rightarrow> tool_message \<Rightarrow> bool" where
  "control_result_ok i msg \<longleftrightarrow>
     \<not> (tm_call_id msg \<noteq> i \<or> tm_name msg \<notin> {None, Some FINALIZE_CONTROL_TOOL_ID}
        \<or> tm_status msg \<noteq> lit ''success'' \<or> content_text (tm_content msg) \<noteq> FINALIZE_CONTROL_RESULT)"

definition run_control_call ::
  "tool_script \<Rightarrow> 'w tool_handler \<Rightarrow> pystr \<Rightarrow> pdict \<Rightarrow> pdict \<Rightarrow> 'w rt \<Rightarrow> (exn + tool_message) \<times> 'w rt" where
  "run_control_call s handler i arguments call st =
     (if arguments \<noteq> [] \<or> rc_pending_call (fst st) \<noteq> Some i \<or> rc_completed_call (fst st) \<noteq> None
      then (Inl (AgentExecutionFailed ''finalizer_signal_invalid''), st)
      else
        case ensure_deadline (ts_now s) (rc_execution (fst st)) of
          Inl e \<Rightarrow> (Inl e, st)
        | Inr _ \<Rightarrow>
            (case handler call st of
               (Inl e, st1) \<Rightarrow> (Inl e, st1)
             | (Inr None, st1) \<Rightarrow> (Inl (AgentExecutionFailed ''finalizer_signal_invalid''), st1)
             | (Inr (Some msg), st1) \<Rightarrow>
                 if \<not> control_result_ok i msg
                 then (Inl (AgentExecutionFailed ''finalizer_signal_invalid''), st1)
                 else
                   (Inr msg,
                    (fst st1)\<lparr>rc_pending_call := None, rc_completed_call := Some i\<rparr>, snd st1)))"

text \<open>\<open>execute_tool_call\<close> works on the execution and an outer state, here the context around it.\<close>

definition run_tool_call ::
  "host_env \<Rightarrow> tool_script \<Rightarrow> 'w tool_handler \<Rightarrow> pystr \<Rightarrow> pystr \<Rightarrow> pdict \<Rightarrow> pdict \<Rightarrow> 'w rt \<Rightarrow>
   (exn + tool_message) \<times> 'w rt" where
  "run_tool_call env s handler i t arguments call st =
     (let invoke = (\<lambda>validated (ex, out).
            case handler (AList.update (lit ''args'') (PDict validated) call)
                   ((fst out)\<lparr>rc_execution := ex\<rparr>, snd out) of
              (r, out') \<Rightarrow> (r, rc_execution (fst out'), out'));
          emit = (\<lambda>ev (ex, out). (Inr (), ex, snd (emit_public None ev (fst out)), snd out))
      in case execute_tool_call env (ts_now s) (ts_later s) (ts_answer s) i t arguments invoke emit
                (rc_execution (fst st), st) of
           (r, ex, out) \<Rightarrow> (r, (fst out)\<lparr>rc_execution := ex\<rparr>, snd out))"

definition apply_tool_policy ::
  "host_env \<Rightarrow> tool_script \<Rightarrow> 'w tool_handler \<Rightarrow> pdict \<Rightarrow> 'w rt \<Rightarrow> (exn + tool_message) \<times> 'w rt" where
  "apply_tool_policy env s handler call st =
     (case (as_str (dict_get call (lit ''id'')), as_str (dict_get call (lit ''name'')),
            as_dict (dict_get call (lit ''args''))) of
        (Some i, Some t, Some arguments) \<Rightarrow>
          if t = FINALIZE_CONTROL_TOOL_ID then run_control_call s handler i arguments call st
          else run_tool_call env s handler i t arguments call st
      | _ \<Rightarrow> (Inl (AgentExecutionFailed ''tool_call_invalid''), st))"

end
