(* ===== verification/Runtime_Stream_Safety.thy ===== *)
theory Runtime_Stream_Safety
  imports Runtime_Stream
begin

text \<open>
  What the public answer stream sends: the deltas are the received text cut into short pieces, in
  order, with nothing lost, added or repeated, whatever the clock, the provider and other tasks do.
\<close>

section \<open>Sending deltas\<close>

text \<open>What no part of the stream touches of the context.\<close>

definition private_state ::
  "'w runtime_context \<Rightarrow>
   built_context \<times> pystr option \<times> model_request option \<times> pystr option \<times> pystr option \<times> bool" where
  "private_state ctx =
     (rc_built ctx, rc_final_text ctx, rc_finalizer_request ctx, rc_pending_call ctx,
      rc_completed_call ctx, rc_retry_used ctx)"

definition sends :: "'w runtime_context \<Rightarrow> pystr list \<Rightarrow> 'w runtime_context \<Rightarrow> bool" where
  "sends ctx ds ctx' \<longleftrightarrow>
     rc_events ctx' = rc_events ctx @ map delta_event ds \<and> private_state ctx' = private_state ctx"

lemma sends_refl [simp]: "sends ctx [] ctx"
  by (simp add: sends_def)

lemma sends_trans [trans]: "sends a ds b \<Longrightarrow> sends b es ctx \<Longrightarrow> sends a (ds @ es) ctx"
  by (simp add: sends_def)

lemma sends_execution [simp]:
  "sends (ctx\<lparr>rc_execution := ex\<rparr>) ds ctx' = sends ctx ds ctx'"
  "sends ctx ds (ctx'\<lparr>rc_execution := ex\<rparr>) = sends ctx ds ctx'"
  by (simp_all add: sends_def private_state_def)

lemma sends_on_execution: "sends (fst st) [] (fst (snd (on_execution op st)))"
  by (simp add: on_execution_def split: prod.split)

lemma sends_meanwhile [simp]: "sends (fst (meanwhile others st)) ds ctx = sends (fst st) ds ctx"
  by (simp add: meanwhile_def split: prod.split)

lemma frames_short: "text \<noteq> [] \<Longrightarrow> length text \<le> 8000 \<Longrightarrow> frames text = [text]"
  by (subst frames.simps) (simp add: PUBLIC_DELTA_MAX_CHARS_def frames.simps)

lemma emit_short:
  assumes "emit_stream_chunk broken n text ctx = (r, ctx')" "text \<noteq> []" "length text \<le> 8000"
  shows "case r of Inl f \<Rightarrow> sends ctx [] ctx' | Inr m \<Rightarrow> sends ctx [text] ctx'"
  using assms
  by (auto simp: emit_stream_chunk_def frames_short emit_public_def sends_def private_state_def Let_def
      split: option.splits)

section \<open>Cutting the buffer\<close>

abbreviation phrase :: "pystr \<Rightarrow> bool" where
  "phrase d \<equiv> 3 \<le> length d \<and> length d \<le> 24"

text \<open>A timer is armed only while something waits to be sent.\<close>

definition armed :: "stream_locals \<Rightarrow> bool" where
  "armed l \<longleftrightarrow> (fs_flush_at l \<noteq> None \<longrightarrow> fs_buffer l \<noteq> [])"

definition same_text :: "stream_locals \<Rightarrow> stream_locals \<Rightarrow> bool" where
  "same_text l l' \<longleftrightarrow>
     fs_parts l' = fs_parts l \<and> fs_visible l' = fs_visible l \<and> fs_chars l' = fs_chars l"

lemma flush_prefixes_sends:
  assumes "flush_prefixes clock broken n l ctx = (r, l', ctx')" "armed l"
  shows "\<exists>ds rest. sends ctx ds ctx' \<and> list_all phrase ds \<and> fs_buffer l = concat ds @ rest
    \<and> same_text l l' \<and> (r = Inr () \<longrightarrow> rest = fs_buffer l' \<and> length rest < 24 \<and> armed l')"
  using assms
proof (induction "length (fs_buffer l)" arbitrary: n l ctx rule: less_induct)
  case less
  define k where "k = flush_prefix_length (fs_buffer l)"
  define l1 where "l1 = l\<lparr>fs_buffer := drop k (fs_buffer l)\<rparr>"
  note run = less.prems(1) [unfolded flush_prefixes.simps [of _ _ _ l] Let_def k_def [symmetric],
      folded l1_def]
  show ?case
  proof (cases "k = 0")
    case True
    with run less.prems(2) flush_prefix_none [of "fs_buffer l"] show ?thesis
      by (intro exI [of _ "[]"] exI [of _ "fs_buffer l"]) (auto simp: k_def same_text_def)
  next
    case False
    then have k: "phrase (take k (fs_buffer l))" "take k (fs_buffer l) \<noteq> []" "k \<le> length (fs_buffer l)"
      using flush_prefix_bounds [of "fs_buffer l"] by (auto simp: k_def)
    obtain r1 ctx1 where e: "emit_stream_chunk broken n (take k (fs_buffer l)) ctx = (r1, ctx1)"
      by (cases "emit_stream_chunk broken n (take k (fs_buffer l)) ctx")
    have sent: "case r1 of Inl f \<Rightarrow> sends ctx [] ctx1 | Inr m \<Rightarrow> sends ctx [take k (fs_buffer l)] ctx1"
      by (rule emit_short [OF e k(2)]) (use k in simp)
    show ?thesis
    proof (cases r1)
      case (Inl f)
      with run False e sent show ?thesis
        by (intro exI [of _ "[]"] exI [of _ "fs_buffer l"]) (auto simp: l1_def same_text_def)
    next
      case (Inr m)
      define l2 where "l2 = l1\<lparr>fs_flush_at := if fs_buffer l1 \<noteq> []
          then Some (clock (m + 2) + STREAM_DELTA_MAX_WAIT_SECONDS) else None\<rparr>"
      have "flush_prefixes clock broken m l2 ctx1 = (r, l', ctx')"
        using run False e Inr by (simp add: l2_def)
      moreover have "length (fs_buffer l2) < length (fs_buffer l)" "armed l2"
        using False k by (auto simp: l2_def l1_def armed_def)
      ultimately obtain ds rest where rest: "sends ctx1 ds ctx'" "list_all phrase ds"
        "fs_buffer l2 = concat ds @ rest" "same_text l2 l'"
        "r = Inr () \<longrightarrow> rest = fs_buffer l' \<and> length rest < 24 \<and> armed l'"
        using less.hyps by blast
      have "sends ctx (take k (fs_buffer l) # ds) ctx'"
        using sends_trans [of ctx "[take k (fs_buffer l)]" ctx1 ds ctx'] sent Inr rest(1) by simp
      moreover have "fs_buffer l = concat (take k (fs_buffer l) # ds) @ rest"
        using rest(3) append_take_drop_id [of k "fs_buffer l"] by (simp add: l2_def l1_def)
      moreover have "same_text l l'" using rest(4) by (simp add: same_text_def l2_def l1_def)
      ultimately show ?thesis using rest(2,5) k(1)
        by (intro exI [of _ "take k (fs_buffer l) # ds"] exI [of _ rest] conjI) auto
    qed
  qed
qed

section \<open>The loop\<close>

text \<open>
  What holds between the rounds: the deltas sent and the buffer are the text received, the buffer
  is short once anything was visible, and the bound is kept.
\<close>

definition received :: "stream_locals \<Rightarrow> pystr" where
  "received l = concat (fs_parts l)"

lemma received_frame [simp]:
  "received (l\<lparr>fs_buffer := b\<rparr>) = received l" "received (l\<lparr>fs_flush_at := t\<rparr>) = received l"
  "received (l\<lparr>fs_chars := n\<rparr>) = received l" "received (l\<lparr>fs_visible := v\<rparr>) = received l"
  by (simp_all add: received_def)

lemma received_same: "same_text l l' \<Longrightarrow> received l' = received l"
  by (simp add: received_def same_text_def)

definition stream_inv :: "int \<Rightarrow> pystr list \<Rightarrow> stream_locals \<Rightarrow> bool" where
  "stream_inv mx ds l \<longleftrightarrow>
     received l = concat ds @ fs_buffer l \<and> list_all phrase ds \<and> armed l
     \<and> fs_chars l = int (length (received l)) \<and> length (received l) \<le> nat mx
     \<and> (if fs_visible l then length (fs_buffer l) < 24 else ds = [] \<and> fs_flush_at l = None \<and> list_all is_space (received l))"

lemma strip_blank: "py_strip s = [] \<longleftrightarrow> list_all is_space s"
proof (cases "dropWhile is_space s")
  case Nil
  then have "list_all is_space s" by (simp add: dropWhile_eq_Nil_conv list_all_iff)
  moreover have "py_strip s = []" unfolding py_strip_def Nil by simp
  ultimately show ?thesis by simp
next
  case (Cons a t)
  then have "\<not> is_space a" by (metis hd_dropWhile list.distinct(1) list.sel(1))
  moreover have "a \<in> set s" using Cons by (metis list.set_intros(1) set_dropWhileD)
  ultimately show ?thesis using Cons
    by (auto simp: py_strip_def dropWhile_eq_Nil_conv list_all_iff)
qed

text \<open>What still holds when the loop was left with an exception.\<close>

definition stream_sent :: "int \<Rightarrow> pystr list \<Rightarrow> stream_locals \<Rightarrow> bool" where
  "stream_sent mx ds l \<longleftrightarrow>
     (\<exists>rest. received l = concat ds @ rest) \<and> list_all phrase ds \<and> length (received l) \<le> nat mx"

lemma stream_inv_sent: "stream_inv mx ds l \<Longrightarrow> stream_sent mx ds l"
  by (auto simp: stream_inv_def stream_sent_def)

lemma timer_flush_sends:
  assumes "timer_flush broken l ctx = (r, l', ctx')" "stream_inv mx ds l" "fs_flush_at l \<noteq> None"
  shows "\<exists>es. sends ctx es ctx' \<and> same_text l l' \<and> stream_sent mx (ds @ es) l'
    \<and> (r = Inr () \<longrightarrow> stream_inv mx (ds @ es) l')"
proof -
  have vis: "fs_visible l" and buf: "fs_buffer l \<noteq> []" "length (fs_buffer l) < 24"
    using assms(2,3) by (auto simp: stream_inv_def armed_def split: if_splits)
  show ?thesis
  proof (cases "length (fs_buffer l) < 3")
    case True
    with assms buf have "r = Inr ()" "l' = l\<lparr>fs_flush_at := None\<rparr>" "ctx' = ctx"
      by (simp_all add: timer_flush_def STREAM_DELTA_MIN_PHRASE_CHARS_def)
    moreover from this have "stream_inv mx ds l'" using assms(2) vis
      by (auto simp: stream_inv_def armed_def)
    ultimately show ?thesis using stream_inv_sent [of mx ds l']
      by (intro exI [of _ "[]"]) (simp add: same_text_def)
  next
    case False
    obtain r1 ctx1 where e: "emit_stream_chunk broken 0 (fs_buffer l) ctx = (r1, ctx1)"
      by (cases "emit_stream_chunk broken 0 (fs_buffer l) ctx")
    have sent: "case r1 of Inl f \<Rightarrow> sends ctx [] ctx1 | Inr m \<Rightarrow> sends ctx [fs_buffer l] ctx1"
      by (rule emit_short [OF e buf(1)]) (use buf in simp)
    show ?thesis
    proof (cases r1)
      case (Inl f)
      with assms(1) False buf(1) e have "r = Inl f" "l' = l" "ctx' = ctx1"
        by (simp_all add: timer_flush_def STREAM_DELTA_MIN_PHRASE_CHARS_def)
      with sent Inl stream_inv_sent [OF assms(2)] show ?thesis
        by (intro exI [of _ "[]"]) (simp add: same_text_def)
    next
      case (Inr m)
      with assms(1) False buf(1) e have "r = Inr ()" "l' = l\<lparr>fs_buffer := [], fs_flush_at := None\<rparr>" "ctx' = ctx1"
        by (simp_all add: timer_flush_def STREAM_DELTA_MIN_PHRASE_CHARS_def)
      moreover from this have "stream_inv mx (ds @ [fs_buffer l]) l'"
        using assms(2) False vis buf by (auto simp: stream_inv_def armed_def)
      ultimately show ?thesis using sent Inr stream_inv_sent [of mx "ds @ [fs_buffer l]" l']
        by (intro exI [of _ "[fs_buffer l]"]) (simp add: same_text_def)
    qed
  qed
qed

lemma append_delta_sends:
  assumes "append_delta clock broken mx delta l ctx = (r, l', ctx')" "stream_inv mx ds l"
  shows "\<exists>es. sends ctx es ctx' \<and> stream_sent mx (ds @ es) l'
    \<and> received l' \<in> {received l, received l @ delta}
    \<and> (r = Inr () \<longrightarrow> stream_inv mx (ds @ es) l' \<and> received l' = received l @ delta)"
proof -
  define l1 where "l1 = l\<lparr>fs_chars := fs_chars l + int (length delta)\<rparr>"
  define l2 where "l2 = l1\<lparr>fs_parts := fs_parts l1 @ [delta], fs_buffer := fs_buffer l1 @ delta,
      fs_visible := fs_visible l1 \<or> py_strip delta \<noteq> []\<rparr>"
  define l3 where "l3 = (if fs_flush_at l2 = None
      then l2\<lparr>fs_flush_at := Some (clock 1 + STREAM_DELTA_MAX_WAIT_SECONDS)\<rparr> else l2)"
  have text2: "received l2 = received l @ delta" by (simp add: received_def l2_def l1_def)
  have text3: "received l3 = received l2" by (simp add: l3_def)
  note run = assms(1) [unfolded append_delta_def Let_def, folded l1_def, folded l2_def, folded l3_def]
  consider (empty) "delta = []" | (long) "delta \<noteq> []" "mx < fs_chars l1"
    | (blank) "delta \<noteq> []" "fs_chars l1 \<le> mx" "\<not> fs_visible l2"
    | (shown) "delta \<noteq> []" "fs_chars l1 \<le> mx" "fs_visible l2" by linarith
  then show ?thesis
  proof cases
    case empty
    with run assms(2) stream_inv_sent [OF assms(2)] show ?thesis
      by (intro exI [of _ "[]"]) simp
  next
    case long
    then have "r = Inl (Raised ResultSchemaInvalid)" "l' = l1" "ctx' = ctx" using run by simp_all
    with stream_inv_sent [OF assms(2)] show ?thesis
      by (intro exI [of _ "[]"]) (simp add: stream_sent_def l1_def)
  next
    case blank
    with run have "r = Inr ()" "l' = l2" "ctx' = ctx" by simp_all
    moreover have "stream_inv mx ds l2"
      using blank assms(2) text2 unfolding stream_inv_def
      by (auto simp: armed_def strip_blank l2_def l1_def split: if_splits)
    ultimately show ?thesis using stream_inv_sent [of mx ds l2]
      by (intro exI [of _ "[]"]) (simp add: text2)
  next
    case shown
    with run have "flush_prefixes clock broken 0 l3 ctx = (r, l', ctx')" by simp
    moreover have "armed l3" using shown by (simp add: armed_def l3_def l2_def)
    ultimately obtain es rest where f: "sends ctx es ctx'" "list_all phrase es"
      "fs_buffer l3 = concat es @ rest" "same_text l3 l'"
      "r = Inr () \<longrightarrow> rest = fs_buffer l' \<and> length rest < 24 \<and> armed l'"
      using flush_prefixes_sends by blast
    have l3: "received l3 = received l @ delta" "fs_buffer l3 = fs_buffer l @ delta" "fs_visible l3"
      "fs_chars l3 = fs_chars l + int (length delta)" "fs_chars l3 \<le> mx"
      using shown text2 text3 by (simp_all add: l3_def l2_def l1_def)
    then have whole: "received l' = received l @ delta" using received_same [OF f(4)] by simp
    have bound: "length (received l') \<le> nat mx"
      using l3(4,5) assms(2) whole by (simp add: stream_inv_def)
    have cut: "received l' = concat (ds @ es) @ rest"
      using whole f(3) l3(2) assms(2) by (simp add: stream_inv_def)
    have count: "fs_chars l' = int (length (received l'))" "fs_visible l'"
      using f(4) l3(3,4) assms(2) whole by (simp_all add: same_text_def stream_inv_def)
    from bound cut have sent: "stream_sent mx (ds @ es) l'"
      using f(2) assms(2) unfolding stream_sent_def by (intro conjI exI) (auto simp: stream_inv_def)
    moreover have "stream_inv mx (ds @ es) l'" if "r = Inr ()"
      using that f(5) cut count bound sent unfolding stream_inv_def stream_sent_def by auto
    ultimately show ?thesis using f(1) whole by (intro exI [of _ es]) simp
  qed
qed

text \<open>The public text of the items, up to the first that is no chunk of text, and whether all are.\<close>

fun public_text :: "stream_item list \<Rightarrow> pystr \<times> bool" where
  "public_text [] = ([], True)"
| "public_text (ItemChunk m # items) =
     (case public_chunk_text m of
        Inr t \<Rightarrow> (t @ fst (public_text items), snd (public_text items))
      | Inl e \<Rightarrow> ([], False))"
| "public_text (ItemRaises f # items) = ([], False)"
| "public_text (ItemOther # items) = ([], False)"

lemma take_chunk_sends:
  assumes "take_chunk c attempt mx rd m l ctx = (r, l', ctx')" "stream_inv mx ds l"
  shows "\<exists>es. sends ctx es ctx' \<and> stream_sent mx (ds @ es) l'
    \<and> (received l' = received l \<or> (\<exists>t. public_chunk_text m = Inr t \<and> received l' = received l @ t))
    \<and> (r = Inr () \<longrightarrow> stream_inv mx (ds @ es) l'
          \<and> (\<exists>t. public_chunk_text m = Inr t \<and> received l' = received l @ t))"
proof -
  obtain r1 ex where o: "observe_chunk_usage c attempt m (rc_execution ctx) = (r1, ex)"
    by (cases "observe_chunk_usage c attempt m (rc_execution ctx)")
  note run = assms(1) [unfolded take_chunk_def o prod.case]
  show ?thesis
  proof (cases "\<exists>t. r1 = Inr () \<and> public_chunk_text m = Inr t")
    case False
    with run have "\<exists>e. r = Inl (Raised e)" "l' = l" "ctx' = ctx\<lparr>rc_execution := ex\<rparr>"
      by (auto split: sum.splits)
    with stream_inv_sent [OF assms(2)] show ?thesis by (intro exI [of _ "[]"]) auto
  next
    case True
    then obtain t where t: "r1 = Inr ()" "public_chunk_text m = Inr t" by blast
    with run have "append_delta (sr_clock rd) (sr_broken rd) mx t l (ctx\<lparr>rc_execution := ex\<rparr>) = (r, l', ctx')"
      by simp
    from append_delta_sends [OF this assms(2)] t(2) show ?thesis by auto
  qed
qed

lemma stream_rounds_sends:
  assumes "stream_rounds c attempt mx rds items l st = (res, l', st')" "stream_inv mx ds l"
  shows "\<exists>es. sends (fst st) es (fst st') \<and> stream_sent mx (ds @ es) l'
    \<and> (\<exists>t rest. received l' = received l @ t \<and> fst (public_text items) = t @ rest)
    \<and> (res = Some (Inr ()) \<longrightarrow> stream_inv mx (ds @ es) l'
          \<and> received l' = received l @ fst (public_text items) \<and> snd (public_text items))"
  using assms
proof (induction rds arbitrary: items l st ds)
  case Nil
  then show ?case using stream_inv_sent [OF Nil(2)] by (intro exI [of _ "[]"]) simp
next
  case (Cons rd rds)
  define st1 where "st1 = meanwhile (sr_others rd) st"
  have from1: "sends (fst st) es ctx" if "sends (fst st1) es ctx" for es ctx
    using that by (simp add: st1_def)
  note run = Cons.prems(1) [unfolded stream_rounds.simps Let_def, folded st1_def]
  note inv = Cons.prems(2)
  consider (timer) "flush_due rd l \<or> \<not> sr_ready rd \<and> fs_flush_at l \<noteq> None"
    | (wait) "\<not> (flush_due rd l \<or> \<not> sr_ready rd \<and> fs_flush_at l \<noteq> None)" "\<not> sr_ready rd"
    | (item) "\<not> (flush_due rd l \<or> \<not> sr_ready rd \<and> fs_flush_at l \<noteq> None)" "sr_ready rd" by blast
  then show ?case
  proof cases
    case timer
    then have on: "fs_flush_at l \<noteq> None" by (auto simp: flush_due_def split: option.splits)
    obtain r1 l1 ctx1 where f: "timer_flush (sr_broken rd) l (fst st1) = (r1, l1, ctx1)"
      by (metis prod_cases3)
    from timer_flush_sends [OF f inv on] obtain es where es: "sends (fst st1) es ctx1" "same_text l l1"
      "stream_sent mx (ds @ es) l1" "r1 = Inr () \<longrightarrow> stream_inv mx (ds @ es) l1" by blast
    show ?thesis
    proof (cases r1)
      case (Inl x)
      with run timer f es(3) from1 [OF es(1)] received_same [OF es(2)] show ?thesis
        by (intro exI [of _ es]) auto
    next
      case (Inr u)
      with run timer f have "stream_rounds c attempt mx rds items l1 (ctx1, snd st1) = (res, l', st')" by simp
      from Cons.IH [OF this, of "ds @ es"] es(4) Inr obtain fs where fs: "sends ctx1 fs (fst st')"
        "stream_sent mx (ds @ es @ fs) l'"
        "\<exists>t rest. received l' = received l1 @ t \<and> fst (public_text items) = t @ rest"
        "res = Some (Inr ()) \<longrightarrow> stream_inv mx (ds @ es @ fs) l'
           \<and> received l' = received l1 @ fst (public_text items) \<and> snd (public_text items)" by auto
      from sends_trans [OF from1 [OF es(1)] fs(1)] fs(2-4) received_same [OF es(2)] show ?thesis
        by (intro exI [of _ "es @ fs"]) simp
    qed
  next
    case wait
    with run have "stream_rounds c attempt mx rds items l st1 = (res, l', st')" by simp
    from Cons.IH [OF this inv] obtain es where es: "sends (fst st1) es (fst st')" "stream_sent mx (ds @ es) l'"
      "\<exists>t rest. received l' = received l @ t \<and> fst (public_text items) = t @ rest"
      "res = Some (Inr ()) \<longrightarrow> stream_inv mx (ds @ es) l'
         \<and> received l' = received l @ fst (public_text items) \<and> snd (public_text items)" by blast
    with from1 [OF es(1)] show ?thesis by blast
  next
    case item
    show ?thesis
    proof (cases "\<exists>m is. items = ItemChunk m # is")
      case False
      with run item have "l' = l" "fst st' = fst st1" "res = Some (Inr ()) \<longrightarrow> items = []"
        by (auto split: list.splits stream_item.splits)
      with inv stream_inv_sent [OF inv] from1 [of "[]"] show ?thesis
        by (intro exI [of _ "[]"]) auto
    next
      case True
      then obtain m is' where it: "items = ItemChunk m # is'" by blast
      obtain r1 l1 ctx1 where f: "take_chunk c attempt mx rd m l (fst st1) = (r1, l1, ctx1)"
        by (metis prod_cases3)
      from take_chunk_sends [OF f inv] obtain es where es: "sends (fst st1) es ctx1"
        "stream_sent mx (ds @ es) l1"
        "received l1 = received l \<or> (\<exists>t. public_chunk_text m = Inr t \<and> received l1 = received l @ t)"
        "r1 = Inr () \<longrightarrow> stream_inv mx (ds @ es) l1
           \<and> (\<exists>t. public_chunk_text m = Inr t \<and> received l1 = received l @ t)" by blast
      show ?thesis
      proof (cases r1)
        case (Inl x)
        with run item it f have "l' = l1" "fst st' = ctx1" "res = Some (Inl x)" by auto
        moreover have "\<exists>t rest. received l1 = received l @ t \<and> fst (public_text items) = t @ rest"
          using es(3) it by auto
        ultimately show ?thesis using es(2) from1 [OF es(1)] by (intro exI [of _ es]) simp
      next
        case (Inr u)
        with run item it f have "stream_rounds c attempt mx rds is' l1 (ctx1, snd st1) = (res, l', st')" by simp
        from Cons.IH [OF this, of "ds @ es"] es(4) Inr obtain fs where fs: "sends ctx1 fs (fst st')"
          "stream_sent mx (ds @ es @ fs) l'"
          "\<exists>t rest. received l' = received l1 @ t \<and> fst (public_text is') = t @ rest"
          "res = Some (Inr ()) \<longrightarrow> stream_inv mx (ds @ es @ fs) l'
             \<and> received l' = received l1 @ fst (public_text is') \<and> snd (public_text is')" by auto
        obtain t where t: "public_chunk_text m = Inr t" "received l1 = received l @ t" using es(4) Inr by auto
        with fs(3,4) it have "\<exists>t rest. received l' = received l @ t \<and> fst (public_text items) = t @ rest"
          "res = Some (Inr ()) \<longrightarrow> received l' = received l @ fst (public_text items) \<and> snd (public_text items)"
          by auto
        with sends_trans [OF from1 [OF es(1)] fs(1)] fs(2,4) show ?thesis
          by (intro exI [of _ "es @ fs"]) simp
      qed
    qed
  qed
qed

section \<open>The whole answer\<close>

lemma stream_inv_start: "stream_inv mx [] no_text"
  by (simp add: stream_inv_def no_text_def armed_def received_def)

lemma phrases_nonempty: "list_all phrase ds \<Longrightarrow> list_all (\<lambda>d. 0 < length d \<and> length d \<le> 24) ds"
  by (auto simp: list_all_iff)

text \<open>What a call may have done: the deltas it sent, and the answer it returned, if it has.\<close>

definition stream_report ::
  "int \<Rightarrow> stream_item list \<Rightarrow> bool \<Rightarrow> (failure + pystr) option \<Rightarrow> pystr list \<Rightarrow> bool" where
  "stream_report mx items free res ds \<longleftrightarrow>
     list_all (\<lambda>d. 0 < length d \<and> length d \<le> 24) ds \<and> list_all (\<lambda>d. 3 \<le> length d) (butlast ds)
     \<and> length (concat ds) \<le> nat mx \<and> (\<exists>rest. fst (public_text items) = concat ds @ rest)
     \<and> (\<forall>answer. res = Some (Inr answer) \<longrightarrow>
          answer = concat ds \<and> py_strip answer \<noteq> [] \<and> free \<and> public_text items = (answer, True))"

lemma report_partly:
  assumes "list_all phrase ds" "length (concat ds) \<le> nat mx" "\<exists>rest. fst (public_text items) = concat ds @ rest"
    and "\<forall>answer. res \<noteq> Some (Inr answer)"
  shows "stream_report mx items free res ds"
  using assms by (auto simp: stream_report_def list_all_iff dest: in_set_butlastD)

lemma report_full:
  assumes "list_all phrase ds" "d = [] \<longrightarrow> ds' = ds" "d \<noteq> [] \<longrightarrow> ds' = ds @ [d]" "length d < 24"
    and "answer = concat ds @ d" "length answer \<le> nat mx" "public_text items = (answer, True)"
    and "py_strip answer \<noteq> []" "free"
  shows "stream_report mx items free (Some (Inr answer)) ds'"
  using assms by (cases "d = []") (auto simp: stream_report_def list_all_iff dest: in_set_butlastD)

lemma conclude_sends:
  assumes "conclude_stream broken l st = (r, st')" "stream_inv mx ds l" "public_text items = (received l, True)"
  shows "\<exists>es. sends (fst st) es (fst st') \<and> stream_report mx items True (Some r) (ds @ es)"
proof -
  have sent: "received l = concat ds @ fs_buffer l" "list_all phrase ds" "length (received l) \<le> nat mx"
    using assms(2) by (auto simp: stream_inv_def)
  have partly: "stream_report mx items True (Some r) ds" if "\<forall>answer. r \<noteq> Inr answer"
    using that sent assms(3) by (intro report_partly) auto
  note run = assms(1) [unfolded conclude_stream_def Let_def, folded received_def]
  show ?thesis
  proof (cases "py_strip (received l) = []")
    case True
    with run partly show ?thesis by (intro exI [of _ "[]"]) auto
  next
    case False
    then have short: "length (fs_buffer l) < 24"
      using assms(2) by (auto simp: stream_inv_def strip_blank split: if_splits)
    note full = report_full [OF sent(2) _ _ short sent(1,3) assms(3) False TrueI]
    show ?thesis
    proof (cases "fs_buffer l = []")
      case True
      with run False full [of ds] show ?thesis by (intro exI [of _ "[]"]) auto
    next
      case buf: False
      obtain r1 ctx where e: "emit_stream_chunk broken 0 (fs_buffer l) (fst st) = (r1, ctx)"
        by (cases "emit_stream_chunk broken 0 (fs_buffer l) (fst st)")
      have last: "case r1 of Inl f \<Rightarrow> sends (fst st) [] ctx | Inr m \<Rightarrow> sends (fst st) [fs_buffer l] ctx"
        by (rule emit_short [OF e buf]) (use short in simp)
      show ?thesis
      proof (cases r1)
        case (Inl f)
        with run False buf e last partly show ?thesis by (intro exI [of _ "[]"]) auto
      next
        case (Inr m)
        with run False buf e last full [of "ds @ [fs_buffer l]"] show ?thesis
          by (intro exI [of _ "[fs_buffer l]"]) auto
      qed
    qed
  qed
qed

lemma final_response_sends:
  assumes "stream_final_response c s request kind st = (res, st')"
  shows "\<exists>ds. sends (fst st) ds (fst st')
    \<and> stream_report (max_answer_chars (result_contract (ex_agent (rc_execution (fst st)))))
        (ss_provider s (provider_messages request)) (tool_free request) res ds"
proof -
  define mx where "mx = max_answer_chars (result_contract (ex_agent (rc_execution (fst st))))"
  define items where "items = ss_provider s (provider_messages request)"
  obtain r1 st1 where b: "on_execution (begin_provider_attempt (ss_now s) (ss_started_at s)
      (ss_attempt s) kind None) st = (r1, st1)"
    by (cases "on_execution (begin_provider_attempt (ss_now s) (ss_started_at s) (ss_attempt s) kind None) st")
  note run = assms [unfolded stream_final_response_def Let_def b prod.case, folded mx_def items_def]
  have start: "sends (fst st) [] (fst st1)" using sends_on_execution [of st] b by (metis snd_conv)
  show ?thesis unfolding mx_def [symmetric] items_def [symmetric]
  proof (cases "tool_free request \<and> (\<exists>a. r1 = Inr a)")
    case False
    with run have "st' = st \<or> st' = st1" "\<forall>answer. res \<noteq> Some (Inr answer)"
      by (auto split: sum.splits if_splits)
    with start show "\<exists>ds. sends (fst st) ds (fst st') \<and> stream_report mx items (tool_free request) res ds"
      by (intro exI [of _ "[]"]) (auto intro: report_partly)
  next
    case True
    then obtain attempt where a: "r1 = Inr attempt" and free: "tool_free request" by blast
    obtain res2 l st2 where loop: "stream_rounds c attempt mx (ss_rounds s) items no_text st1 = (res2, l, st2)"
      by (metis prod_cases3)
    from stream_rounds_sends [OF loop stream_inv_start] obtain ds where ds: "sends (fst st1) ds (fst st2)"
      "stream_sent mx ds l" "\<exists>t rest. received l = t \<and> fst (public_text items) = t @ rest"
      "res2 = Some (Inr ()) \<longrightarrow> stream_inv mx ds l
         \<and> received l = fst (public_text items) \<and> snd (public_text items)"
      by (auto simp: received_def no_text_def)
    have partly: "stream_report mx items (tool_free request) res ds" if "\<forall>answer. res \<noteq> Some (Inr answer)"
      using that ds(2,3) by (intro report_partly) (auto simp: stream_sent_def)
    note before = sends_trans [OF start ds(1)]
    show "\<exists>ds. sends (fst st) ds (fst st') \<and> stream_report mx items (tool_free request) res ds"
    proof (cases res2)
      case None
      with run a free loop have "st' = st2" "res = None" by auto
      with before partly show ?thesis by auto
    next
      case (Some r2)
      obtain r3 st3 where fin: "on_execution (finish_provider_attempt (ss_finished_at s) attempt
          (stream_status r2)) st2 = (r3, st3)"
        by (cases "on_execution (finish_provider_attempt (ss_finished_at s) attempt (stream_status r2)) st2")
      have "sends (fst st2) [] (fst st3)" using sends_on_execution [of st2] fin by (metis snd_conv)
      note after = sends_trans [OF before this]
      note run3 = run [unfolded a loop Some prod.case sum.case option.case fin]
      show ?thesis
      proof (cases "r3 = Inr () \<and> r2 = Inr ()")
        case False
        with run3 free have "st' = st3" "\<forall>answer. res \<noteq> Some (Inr answer)" by (auto split: sum.splits)
        with after partly show ?thesis by auto
      next
        case True
        then obtain r where concl: "conclude_stream (ss_broken s) l st3 = (r, st')" "res = Some r"
          using run3 free by (auto split: prod.splits)
        have inv: "stream_inv mx ds l" "public_text items = (received l, True)"
          using ds(4) True Some by (auto simp: prod_eq_iff)
        from conclude_sends [OF concl(1) inv] obtain es where
          "sends (fst st3) es (fst st')" "stream_report mx items True (Some r) (ds @ es)" by blast
        with sends_trans [OF after] concl(2) free show ?thesis by auto
      qed
    qed
  qed
qed

section \<open>The stream ends\<close>

lemma timer_flush_disarms: "timer_flush broken l ctx = (Inr u, l', ctx') \<Longrightarrow> fs_flush_at l' = None"
  by (auto simp: timer_flush_def split: if_splits prod.splits sum.splits)

lemma stream_rounds_return:
  "\<forall>rd \<in> set rds. sr_ready rd \<Longrightarrow> 2 * length items + of_bool (fs_flush_at l \<noteq> None) < length rds \<Longrightarrow>
     fst (stream_rounds c attempt mx rds items l st) \<noteq> None"
proof (induction rds arbitrary: items l st)
  case (Cons rd rds)
  define st1 where "st1 = meanwhile (sr_others rd) st"
  show ?case
  proof (cases "flush_due rd l")
    case True
    then have on: "fs_flush_at l \<noteq> None" by (auto simp: flush_due_def split: option.splits)
    obtain r l1 ctx1 where f: "timer_flush (sr_broken rd) l (fst st1) = (r, l1, ctx1)"
      by (metis prod_cases3)
    show ?thesis
    proof (cases r)
      case (Inl x)
      with True f show ?thesis by (simp add: Let_def flip: st1_def)
    next
      case (Inr u)
      have "fst (stream_rounds c attempt mx rds items l1 (ctx1, snd st1)) \<noteq> None"
        using Cons.prems on timer_flush_disarms [OF f [unfolded Inr]] by (intro Cons.IH) auto
      with True f Inr show ?thesis by (simp add: Let_def flip: st1_def)
    qed
  next
    case False
    show ?thesis
    proof (cases "\<exists>m is. items = ItemChunk m # is")
      case other: False
      with False Cons.prems(1) show ?thesis
        by (cases items; cases "hd items") (simp_all add: Let_def)
    next
      case True
      then obtain m is' where it: "items = ItemChunk m # is'" by blast
      obtain r l1 ctx1 where f: "take_chunk c attempt mx rd m l (fst st1) = (r, l1, ctx1)"
        by (metis prod_cases3)
      show ?thesis
      proof (cases r)
        case (Inl x)
        with False Cons.prems(1) it f show ?thesis by (simp add: Let_def flip: st1_def)
      next
        case (Inr u)
        have "fst (stream_rounds c attempt mx rds is' l1 (ctx1, snd st1)) \<noteq> None"
          using Cons.prems it by (intro Cons.IH) (auto simp: of_bool_def)
        with False Cons.prems(1) it f Inr show ?thesis by (simp add: Let_def flip: st1_def)
      qed
    qed
  qed
qed simp

end
