(* ===== verification/Runtime_Safety.thy ===== *)
theory Runtime_Safety
  imports Runtime_Protocol Runtime_Stream_Safety
begin

text \<open>
  The runtime of one Run as a state machine: its middleware in any order the framework may call it,
  with other tasks working on the execution in between. What is shown to the user is exactly the
  answer the runtime keeps.
\<close>

section \<open>Quiet changes\<close>

text \<open>The text of the deltas among some public events.\<close>

definition event_delta :: "product_event \<Rightarrow> pystr" where
  "event_delta ev =
     (if pe_type ev = lit ''message.delta''
      then (case dict_get (pe_data ev) (lit ''delta'') of PStr s \<Rightarrow> s | _ \<Rightarrow> []) else [])"

definition shown :: "product_event list \<Rightarrow> pystr" where
  "shown evs = concat (map event_delta evs)"

lemma shown_simps [simp]:
  "shown [] = []" "shown (evs @ evs') = shown evs @ shown evs'" "shown (map delta_event ds) = concat ds"
  by (simp_all add: shown_def comp_def event_delta_def delta_event_def)

text \<open>Nothing more is shown, and the kept answer stays.\<close>

definition quiet :: "'w rt \<Rightarrow> 'w rt \<Rightarrow> bool" where
  "quiet st st' \<longleftrightarrow>
     rc_final_text (fst st') = rc_final_text (fst st)
     \<and> (\<exists>evs. rc_events (fst st') = rc_events (fst st) @ evs
          \<and> (\<forall>ev \<in> set evs. pe_type ev \<noteq> lit ''message.delta''))"

lemma quiet_refl [simp]: "quiet st st"
  by (simp add: quiet_def)

lemma quiet_trans [trans]:
  assumes "quiet st st'" "quiet st' st''" shows "quiet st st''"
proof -
  obtain e f where "rc_events (fst st') = rc_events (fst st) @ e" "rc_events (fst st'') = rc_events (fst st') @ f"
    "\<forall>ev \<in> set e. pe_type ev \<noteq> lit ''message.delta''" "\<forall>ev \<in> set f. pe_type ev \<noteq> lit ''message.delta''"
    using assms by (auto simp: quiet_def)
  with assms show ?thesis unfolding quiet_def by (intro conjI exI [of _ "e @ f"]) auto
qed

lemma shown_silent: "\<forall>ev \<in> set evs. pe_type ev \<noteq> lit ''message.delta'' \<Longrightarrow> shown evs = []"
  by (simp add: shown_def event_delta_def)

lemma quiet_shown: "quiet st st' \<Longrightarrow> shown (rc_events (fst st')) = shown (rc_events (fst st))"
  by (auto simp: quiet_def shown_silent)

lemma quiet_update [simp]:
  "quiet st (ctx\<lparr>rc_execution := ex\<rparr>, w) = quiet st (ctx, w)"
  "quiet st (ctx\<lparr>rc_finalizer_request := rq\<rparr>, w) = quiet st (ctx, w)"
  "quiet st (ctx\<lparr>rc_pending_call := i\<rparr>, w) = quiet st (ctx, w)"
  "quiet st (ctx\<lparr>rc_completed_call := i\<rparr>, w) = quiet st (ctx, w)"
  "quiet st (ctx\<lparr>rc_retry_used := b\<rparr>, w) = quiet st (ctx, w)"
  "quiet (fst st, w') st' = quiet st st'"
  "quiet st (fst st', w') = quiet st st'"
  by (simp_all add: quiet_def)

lemma quiet_on_execution [simp]: "quiet st (snd (on_execution op st'))= quiet st st'"
  by (simp add: on_execution_def split: prod.split)

lemma quiet_meanwhile [simp]: "quiet st (meanwhile others st') = quiet st st'"
  by (simp add: meanwhile_def split: prod.split)

lemma on_execution_quiet: "on_execution op st = (r, st') \<Longrightarrow> quiet st st'"
  by (metis quiet_on_execution quiet_refl snd_conv)

section \<open>What the handlers may do\<close>

definition quiet_model :: "'w model_handler \<Rightarrow> bool" where
  "quiet_model handler \<longleftrightarrow> (\<forall>n request st. quiet st (snd (handler n request st)))"

definition quiet_tool :: "'w tool_handler \<Rightarrow> bool" where
  "quiet_tool handler \<longleftrightarrow> (\<forall>call st. quiet st (snd (handler call st)))"

section \<open>The model policy\<close>

lemma invoke_attempt_quiet:
  assumes "invoke_attempt c t attempt call st = (r, st')" "\<forall>st. quiet st (snd (call st))"
  shows "quiet st st'"
proof -
  have first: "quiet st (snd (call st))" using assms(2) by blast
  have settle: "quiet st st''"
    if "(case on_execution (finish_provider_attempt t attempt x) st1 of
           (Inl e, st2) \<Rightarrow> (Inl (Raised e), st2) | (Inr _, st2) \<Rightarrow> (y, st2)) = (r, st'')" "quiet st st1"
    for x st1 y st''
    using that on_execution_quiet [of "finish_provider_attempt t attempt x" st1] quiet_trans [of st st1]
    by (auto split: prod.splits sum.splits)
  obtain r1 st1 where call: "call st = (r1, st1)" by (metis prod.exhaust)
  with first have q: "quiet st st1" by simp
  obtain r2 st2 where o: "on_execution (locally (observe_results c attempt (mp_result (projr r1)))) st1 = (r2, st2)"
    by (metis prod.exhaust)
  have "quiet st st2" by (rule quiet_trans [OF q on_execution_quiet [OF o]])
  with assms(1) call q o settle show ?thesis
    by (cases r1; cases r2) (auto simp: invoke_attempt_def Let_def)
qed

lemma retry_quiet:
  assumes "retry_decision c s first call st = (r, st')" "\<forall>st. quiet st (snd (call st))"
  shows "quiet st st'"
proof -
  define st1 where "st1 = ((fst st)\<lparr>rc_retry_used := True\<rparr>, snd st)"
  have q1: "quiet st st1" by (simp add: st1_def)
  note run = assms(1) [unfolded retry_decision_def Let_def, folded st1_def]
  obtain r2 st2 where b: "on_execution (locally (before_model_call (ds_retry_now s))) st1 = (r2, st2)"
    by (cases "on_execution (locally (before_model_call (ds_retry_now s))) st1")
  obtain r3 st3 where p: "on_execution (begin_provider_attempt (ds_retry_begin s) (ds_retry_started_at s)
      (ds_retry_attempt s) DecisionCall (Some first)) st2 = (r3, st3)"
    by (metis prod.exhaust)
  have q2: "quiet st st2" by (rule quiet_trans [OF q1 on_execution_quiet [OF b]])
  have q3: "quiet st st3" by (rule quiet_trans [OF q2 on_execution_quiet [OF p]])
  show ?thesis
    using run q1 q2 q3 b p invoke_attempt_quiet [OF _ assms(2)] quiet_trans [OF q3]
    by (cases "ds_pause s"; cases r2; cases r3) auto
qed

lemma initial_decision_quiet:
  assumes "initial_decision c s handler request st = (r, st')" "quiet_model handler"
  shows "quiet st st'"
proof -
  have calls: "\<forall>st. quiet st (snd (handler n request st))" for n using assms(2) by (simp add: quiet_model_def)
  obtain r1 st1 where b: "on_execution (begin_provider_attempt (ds_now s) (ds_started_at s) (ds_attempt s)
      DecisionCall None) st = (r1, st1)"
    by (metis prod.exhaust)
  note q1 = on_execution_quiet [OF b] and run = assms(1) [unfolded initial_decision_def b prod.case]
  show ?thesis
  proof (cases r1)
    case (Inl e)
    with run q1 show ?thesis by simp
  next
    case (Inr first)
    obtain r2 st2 where i: "invoke_attempt c (ds_finished_at s) first (handler 0 request) st1 = (r2, st2)"
      by (metis prod.exhaust)
    have q2: "quiet st st2" by (rule quiet_trans [OF q1 invoke_attempt_quiet [OF i calls]])
    have "quiet st st'" if "retry_decision c s first (handler 1 request) st2 = (r, st')"
      by (rule quiet_trans [OF q2 retry_quiet [OF that calls]])
    with run Inr i q2 show ?thesis
      by (auto split: sum.splits failure.splits bool.splits if_splits)
  qed
qed

lemma count_response_quiet: "count_response env now m st = (r, st') \<Longrightarrow> quiet st st'"
  by (auto simp: count_response_def split: prod.splits sum.splits dest: on_execution_quiet)

lemma accept_decision_quiet:
  assumes "accept_decision env s m st = (r, st')" shows "quiet st st'"
proof -
  have signal: "quiet st st3"
    if "on_execution (locally (record_finalizer_signal t)) ((fst st1)\<lparr>rc_pending_call := i\<rparr>, snd st1) = (r2, st3)"
      "quiet st st1" for t st1 i r2 st3
    using on_execution_quiet [OF that(1)] quiet_trans [of st "((fst st1)\<lparr>rc_pending_call := i\<rparr>, snd st1)" st3] that(2)
    by simp
  show ?thesis
    using assms
    by (auto simp: accept_decision_def accept_signal_def Let_def dest: count_response_quiet signal
        split: if_splits sum.splits bool.splits prod.splits)
qed

section \<open>The Tool policy\<close>

lemma accept_sources_types:
  "accept_sources i ss ex = (evs, ex') \<Longrightarrow> \<forall>ev \<in> set evs. pe_type ev = lit ''source.added''"
  by (induction ss arbitrary: ex evs)
    (fastforce simp: accept_source_def Let_def split: prod.splits option.splits)+

lemma execute_tool_call_preserves:
  assumes handler: "\<And>v p. Q (snd p) \<Longrightarrow> Q (snd (snd (handler v p)))"
    and emit: "\<And>ev p. Q (snd p) \<Longrightarrow> pe_type ev \<noteq> lit ''message.delta'' \<Longrightarrow> Q (snd (snd (emit ev p)))"
    and run: "execute_tool_call env now later answer i t arguments handler emit st = (r, ex', out')"
    and start: "Q (snd st)"
  shows "Q out'"
proof -
  have all: "Q (snd (snd (emit_all emit evs p)))"
    if "\<forall>ev \<in> set evs. pe_type ev \<noteq> lit ''message.delta''" "Q (snd p)" for evs p
    using that
  proof (induction evs arbitrary: p)
    case (Cons ev evs)
    obtain r1 p1 where e: "emit ev p = (r1, p1)" by (cases "emit ev p")
    then have "Q (snd p1)" using emit [of p ev] Cons.prems by simp
    with Cons e show ?case by (cases r1) simp_all
  qed simp
  show ?thesis
  proof (cases "begin_tool_call env now answer i t arguments (fst st)")
    case (Pair r0 ex0)
    show ?thesis
    proof (cases r0)
      case (Inl e)
      with run Pair start show ?thesis by (simp add: execute_tool_call_def)
    next
      case (Inr vs)
      obtain v started where vs: "vs = (v, started)" by (cases vs)
      have began: "pe_type started = lit ''tool.started''"
        using Pair unfolding Inr vs by (rule begin_tool_call_ok) simp
      obtain r1 p1 where e: "emit started (ex0, snd st) = (r1, p1)" by (cases "emit started (ex0, snd st)")
      have q1: "Q (snd p1)" using emit [of "(ex0, snd st)" started] start began e by simp
      obtain r2 p2 where h: "handler v p1 = (r2, p2)" by (cases "handler v p1")
      have q2: "Q (snd p2)" using handler [OF q1, of v] h by simp
      have finish: "Q (snd (snd (emit_all emit evs (ex3, snd p2))))"
        if "finish_tool_call later i t msg (fst p2) = (Inr evs, ex3)" for msg evs ex3
      proof (rule all)
        show "\<forall>ev \<in> set evs. pe_type ev \<noteq> lit ''message.delta''"
          using that by (rule finish_tool_call_ok) (auto dest!: accept_sources_types)
      qed (simp add: q2)
      show ?thesis
        using run q1 q2 unfolding execute_tool_call_def Pair Inr vs sum.case prod.case e
        by (cases r1)
          (auto simp: h and_then_def split: sum.splits option.splits prod.splits dest!: finish)
    qed
  qed
qed

lemma emit_public_quiet:
  "pe_type ev \<noteq> lit ''message.delta'' \<Longrightarrow> quiet st (ctx, w) \<Longrightarrow> quiet st (snd (emit_public None ev ctx), w)"
  by (auto simp: emit_public_def quiet_def)

lemma apply_tool_policy_quiet:
  assumes "apply_tool_policy env s handler call st = (r, st')" "quiet_tool handler"
  shows "quiet st st'"
proof -
  have handled: "quiet st (snd (handler x st1))" if "quiet st st1" for x st1
    by (rule quiet_trans [OF that]) (use assms(2) in \<open>unfold quiet_tool_def, blast\<close>)
  have control: "quiet st st'" if "run_control_call s handler i arguments call st = (r, st')" for i arguments
    using that handled [of st call]
    by (auto simp: run_control_call_def split: if_splits sum.splits option.splits prod.splits)
  have tool: "quiet st st'" if run: "run_tool_call env s handler i t arguments call st = (r, st')" for i t arguments
  proof -
    define invoke where "invoke = (\<lambda>validated (ex, out).
        case handler (AList.update (lit ''args'') (PDict validated) call) ((fst out)\<lparr>rc_execution := ex\<rparr>, snd out) of
          (r, out') \<Rightarrow> (r, rc_execution (fst out'), out'))"
    define emit where "emit = (\<lambda>ev (ex, out :: 'a rt).
        (Inr () :: exn + unit, ex :: 'a execution, snd (emit_public None ev (fst out)), snd out))"
    obtain r1 ex out where call: "execute_tool_call env (ts_now s) (ts_later s) (ts_answer s) i t arguments
        invoke emit (rc_execution (fst st), st) = (r1, ex, out)"
      by (metis prod_cases3)
    have "quiet st (snd (snd (invoke v p)))" if "quiet st (snd p)" for v p
    proof -
      have "quiet st ((fst (snd p))\<lparr>rc_execution := fst p\<rparr>, snd (snd p))" using that by simp
      from handled [OF this, of "AList.update (lit ''args'') (PDict v) call"] show ?thesis
        by (cases p) (auto simp: invoke_def split: prod.splits)
    qed
    moreover have "quiet st (snd (snd (emit ev p)))"
      if "quiet st (snd p)" "pe_type ev \<noteq> lit ''message.delta''" for ev p
      using emit_public_quiet [OF that(2), of st "fst (snd p)" "snd (snd p)"] that(1)
      by (cases p) (auto simp: emit_def)
    ultimately have "quiet st out"
      using execute_tool_call_preserves [where Q = "quiet st", OF _ _ call] by simp
    moreover have "st' = ((fst out)\<lparr>rc_execution := ex\<rparr>, snd out)"
      using run call by (simp add: run_tool_call_def Let_def invoke_def emit_def)
    ultimately show ?thesis by simp
  qed
  show ?thesis
    using assms(1) control tool
    by (auto simp: apply_tool_policy_def split: option.splits if_splits)
qed

section \<open>Streaming the answer\<close>

text \<open>A change that shows an answer and keeps it, where none was kept.\<close>

definition answers :: "'w rt \<Rightarrow> 'w rt \<Rightarrow> bool" where
  "answers st st' \<longleftrightarrow>
     rc_final_text (fst st) = None
     \<and> (\<exists>t. rc_final_text (fst st') = Some t \<and> py_strip t \<noteq> []
          \<and> shown (rc_events (fst st')) = shown (rc_events (fst st)) @ t)"

lemma stream_and_keep:
  assumes "stream_final_response c s request kind st1 = (Some (Inr t), st2)"
    and "keep_answer env now name t st2 = (Inr m, st3)" "quiet st st1" "rc_final_text (fst st) = None"
  shows "answers st st3 \<and> content_text (ai_content m) = t \<and> ai_tool_calls m = []"
proof -
  obtain ds where ds: "rc_events (fst st2) = rc_events (fst st1) @ map delta_event ds" "concat ds = t"
    "py_strip t \<noteq> []"
    using final_response_sends [OF assms(1)] by (auto simp: sends_def stream_report_def)
  have "rc_events (fst st3) = rc_events (fst st2)" "rc_final_text (fst st3) = Some t"
    "content_text (ai_content m) = t" "ai_tool_calls m = []"
    using assms(2) by (auto simp: keep_answer_def Let_def on_execution_def ai_text_def split: sum.splits prod.splits)
  with ds assms(4) quiet_shown [OF assms(3)] show ?thesis by (simp add: answers_def)
qed

lemma model_policy_effect:
  assumes "apply_model_policy c env s request st = (Some (Inr response), st')" "quiet_model (ps_handler s)"
  shows "quiet st st' \<or> answers st st'"
proof -
  obtain r1 st1 where b: "on_execution (locally (before_model_call (ps_now s))) st = (r1, st1)"
    by (metis prod.exhaust)
  note q1 = on_execution_quiet [OF b] and run = assms(1) [unfolded apply_model_policy_def b prod.case]
  show ?thesis
  proof (cases "visible_tool_ids (rc_execution (fst st1)) = []")
    case False
    define st0 where "st0 = ((fst st1)\<lparr>rc_finalizer_request := Some (answer_request (fst st1) request)\<rparr>, snd st1)"
    obtain r2 st2 where d: "initial_decision c (ps_decision s) (ps_handler s) (controlled_request (fst st1) request)
        st0 = (r2, st2)"
      by (metis prod.exhaust)
    have "quiet st st0" using q1 by (simp add: st0_def)
    from quiet_trans [OF this initial_decision_quiet [OF d assms(2)]] have q2: "quiet st st2" .
    from run False have "decide c env s request st1 = (Inr response, st')"
      by (auto split: sum.splits prod.splits)
    then have "st' = st2 \<or> (\<exists>m r. accept_decision env s m st2 = (r, st'))"
      using d by (auto simp: decide_def st0_def split: sum.splits list.splits chat_message.splits if_splits prod.splits)
    with q2 quiet_trans [OF q2 accept_decision_quiet] show ?thesis by blast
  next
    case True
    with run obtain t st2 m where s: "rc_final_text (fst st1) = None"
      "stream_final_response c (ps_direct s) (answer_request (fst st1) request) DirectCall st1 = (Some (Inr t), st2)"
      "keep_answer env (ps_counted_at s) None t st2 = (Inr m, st')"
      by (auto split: sum.splits option.splits prod.splits if_splits)
    have "rc_final_text (fst st) = None" using s(1) q1 by (simp add: quiet_def)
    with stream_and_keep [OF s(2,3) q1] show ?thesis by blast
  qed
qed

lemma exit_effect:
  assumes "finalize_after_agent c env s messages st = (Some (Inr r), st')"
  shows "quiet st st' \<or> answers st st'"
proof (cases "st' = st")
  case False
  then obtain ms m where plan: "exit_plan (fst st) messages = Inr (Some ms, m)" "rc_final_text (fst st) = None"
    and run: "write_answer c env s ms m st = (Some (Inr r), st')"
    using assms by (auto simp: finalize_after_agent_def split: if_splits sum.splits option.splits prod.splits)
  obtain r1 st1 where b: "on_execution (locally (before_model_call (xs_now s))) st = (r1, st1)"
    by (metis prod.exhaust)
  note run' = run [unfolded write_answer_def b prod.case]
  then obtain rq t st2 answer where
    "stream_final_response c (xs_stream s) (answer_request (fst st1) (rq\<lparr>mr_messages := ms\<rparr>)) FinalizerCall st1
      = (Some (Inr t), st2)"
    "keep_answer env (xs_counted_at s) (mm_name m) t st2 = (Inr answer, st')"
    by (auto split: sum.splits option.splits prod.splits)
  from stream_and_keep [OF this on_execution_quiet [OF b] plan(2)] show ?thesis by blast
qed simp

section \<open>The machine\<close>

text \<open>
  The framework calls the middleware in any order, other tasks work on the execution in between, and
  an exception of the model policy or at the exit ends the graph (the first component is False).
\<close>

inductive runtime_step ::
  "codec \<Rightarrow> host_env \<Rightarrow> bool \<times> 'w rt \<Rightarrow> bool \<times> 'w rt \<Rightarrow> bool" for c env where
  policy_model: "quiet_model (ps_handler s) \<Longrightarrow> apply_model_policy c env s request st = (Some r, st') \<Longrightarrow>
     runtime_step c env (True, st) (\<not> isl r, st')"
| policy_tool: "quiet_tool handler \<Longrightarrow> apply_tool_policy env ts handler call st = (r, st') \<Longrightarrow>
     runtime_step c env (True, st) (alive, st')"
| policy_exit: "finalize_after_agent c env xs messages st = (Some r, st') \<Longrightarrow>
     runtime_step c env (True, st) (\<not> isl r, st')"
| policy_others: "runtime_step c env (True, st) (True, meanwhile others st)"

inductive_cases runtime_step_cases: "runtime_step c env (alive, st) (alive', st')"

definition runtime_init :: "bool \<times> 'w rt \<Rightarrow> bool" where
  "runtime_init p \<longleftrightarrow> (\<exists>ex built w. p = (True, new_context ex built, w))"

definition runtime_inv :: "bool \<times> 'w rt \<Rightarrow> bool" where
  "runtime_inv p \<longleftrightarrow>
     (fst p \<longrightarrow>
        shown (rc_events (fst (snd p)))
          = (case rc_final_text (fst (snd p)) of None \<Rightarrow> [] | Some t \<Rightarrow> t)
        \<and> (\<forall>t. rc_final_text (fst (snd p)) = Some t \<longrightarrow> py_strip t \<noteq> []))"

lemma quiet_inv: "runtime_inv (True, st) \<Longrightarrow> quiet st st' \<Longrightarrow> runtime_inv (alive, st')"
  using quiet_shown [of st st'] by (auto simp: runtime_inv_def quiet_def)

lemma answers_inv: "runtime_inv (True, st) \<Longrightarrow> answers st st' \<Longrightarrow> runtime_inv (alive, st')"
  by (auto simp: runtime_inv_def answers_def)

lemma runtime_step_inv:
  assumes "runtime_inv p" "runtime_step c env p q" shows "runtime_inv q"
  using assms(2,1)
proof (induction rule: runtime_step.induct)
  case (policy_model s request st r st')
  show ?case
  proof (cases r)
    case (Inr response)
    with policy_model model_policy_effect [of c env s request st response st'] quiet_inv answers_inv
    show ?thesis by blast
  qed (simp add: runtime_inv_def)
next
  case (policy_tool handler ts call st r st' alive)
  then show ?case using apply_tool_policy_quiet quiet_inv by blast
next
  case (policy_exit xs messages st r st')
  show ?case
  proof (cases r)
    case (Inr after)
    with policy_exit exit_effect [of c env xs messages st after st'] quiet_inv answers_inv
    show ?thesis by blast
  qed (simp add: runtime_inv_def)
next
  case (policy_others st others)
  then show ?case using quiet_inv quiet_meanwhile quiet_refl by metis
qed

interpretation runtime: guarded_machine runtime_init "runtime_step c env" runtime_inv for c env
proof
  show "runtime_inv p" if "runtime_init p" for p :: "bool \<times> 'a rt"
    using that by (auto simp: runtime_init_def runtime_inv_def new_context_def)
qed (rule runtime_step_inv)

end
