(* ===== verification/Runtime_Runner.thy ===== *)
theory Runtime_Runner
  imports Runtime_Safety
begin

text \<open>
  agent_runtime.py, the classes \<open>_RuntimeLifecycle\<close> and \<open>DeepSeekAgentRunner\<close>: how a Run's producer
  task is cancelled, observed and quarantined, and the bounded queue between the producer and the
  service.

  A future is a number. How it ends, if it does, is a function of it (an end may name further futures
  of the framework's cleanup); which futures have ended by now comes with each operation.
\<close>

section \<open>The lifecycle\<close>

type_synonym fut = nat

datatype future_end = EndsReturned | EndsRaised | EndsCancelled "fut list"

record lifecycle =
  lc_fatal :: "string option"
  lc_observed :: "fut set"
  lc_quarantined :: "fut set"

definition new_lifecycle :: lifecycle where
  "new_lifecycle = \<lparr>lc_fatal = None, lc_observed = {}, lc_quarantined = {}\<rparr>"

definition runtime_healthy :: "lifecycle \<Rightarrow> bool" where
  "runtime_healthy lc \<longleftrightarrow> lc_fatal lc = None"

text \<open>\<open>RuntimeUnavailable\<close> is a \<open>RuntimeFatalError\<close>.\<close>

definition require_runtime_healthy :: "lifecycle \<Rightarrow> failure + unit" where
  "require_runtime_healthy lc = (if lc_fatal lc \<noteq> None then Inl RuntimeFatal else Inr ())"

definition mark_runtime_fatal :: "lifecycle \<Rightarrow> lifecycle" where
  "mark_runtime_fatal lc =
     (if lc_fatal lc = None then lc\<lparr>lc_fatal := Some ''runtime_cleanup_timeout''\<rparr> else lc)"

definition nested_futures :: "(fut \<Rightarrow> future_end) \<Rightarrow> fut \<Rightarrow> fut list" where
  "nested_futures ends f =
     (case ends f of EndsCancelled gs \<Rightarrow> filter (\<lambda>g. g \<noteq> f) gs | _ \<Rightarrow> [])"

definition observe_future :: "(fut \<Rightarrow> future_end) \<Rightarrow> fut \<Rightarrow> lifecycle \<Rightarrow> fut list \<times> lifecycle" where
  "observe_future ends f lc =
     (if f \<in> lc_observed lc then ([], lc)
      else (nested_futures ends f, lc\<lparr>lc_observed := insert f (lc_observed lc)\<rparr>))"

lemma observe_measure:
  assumes "f \<in> set over"
  shows "card (set over - lc_observed (snd (observe_future ends f lc))) < card (set over - lc_observed lc)
    \<or> snd (observe_future ends f lc) = lc \<and> fst (observe_future ends f lc) = []"
proof (cases "f \<in> lc_observed lc")
  case False
  have "card (set over - insert f (lc_observed lc)) < card (set over - lc_observed lc)"
    using assms False by (intro psubset_card_mono) auto
  with False show ?thesis by (simp add: observe_future_def)
qed (simp add: observe_future_def)

text \<open>The recursion on nested futures runs before the rest of the list.\<close>

function quarantine_futures ::
  "(fut \<Rightarrow> future_end) \<Rightarrow> fut list \<Rightarrow> fut list \<Rightarrow> lifecycle \<Rightarrow> lifecycle" where
  "quarantine_futures ends over [] lc = lc"
| "quarantine_futures ends over (f # fs) lc =
     (if f \<in> set over
      then quarantine_futures ends over (fst (observe_future ends f lc) @ fs) (snd (observe_future ends f lc))
      else quarantine_futures ends over fs (lc\<lparr>lc_quarantined := insert f (lc_quarantined lc)\<rparr>))"
  by pat_completeness auto

termination
  by (relation "measures [\<lambda>(_, over, _, lc). card (set over - lc_observed lc), \<lambda>(_, _, fs, _). length fs]")
    (use observe_measure in force)+

text \<open>The callback of a quarantined future, and giving up on what is still pending.\<close>

definition observe_quarantined :: "(fut \<Rightarrow> future_end) \<Rightarrow> fut list \<Rightarrow> fut \<Rightarrow> lifecycle \<Rightarrow> lifecycle" where
  "observe_quarantined ends over f lc =
     (case observe_future ends f (lc\<lparr>lc_quarantined := lc_quarantined lc - {f}\<rparr>) of
        (nested, lc1) \<Rightarrow> if nested = [] then lc1 else quarantine_futures ends over nested lc1)"

definition give_up :: "(fut \<Rightarrow> future_end) \<Rightarrow> fut list \<Rightarrow> fut list \<Rightarrow> lifecycle \<Rightarrow> lifecycle" where
  "give_up ends over pending lc = quarantine_futures ends over pending (mark_runtime_fatal lc)"

fun observe_all :: "(fut \<Rightarrow> future_end) \<Rightarrow> fut list \<Rightarrow> lifecycle \<Rightarrow> fut list \<times> lifecycle" where
  "observe_all ends [] lc = ([], lc)"
| "observe_all ends (f # fs) lc =
     (case observe_future ends f lc of
        (nested, lc1) \<Rightarrow> (case observe_all ends fs lc1 of (later, lc2) \<Rightarrow> (nested @ later, lc2)))"

text \<open>
  One round of \<open>finish_producer\<close>: whether the grace is over before the wait, whether a second
  cancellation interrupts it, which futures have ended after it, and whether the grace is over then.
\<close>

record cleanup_round =
  cr_expired :: bool
  cr_cancelled :: bool
  cr_over :: "fut list"
  cr_late :: bool

fun cleanup_rounds ::
  "(fut \<Rightarrow> future_end) \<Rightarrow> cleanup_round list \<Rightarrow> fut list \<Rightarrow> lifecycle \<Rightarrow> (failure + unit) option \<times> lifecycle" where
  "cleanup_rounds ends rds [] lc = (Some (Inr ()), lc)"
| "cleanup_rounds ends [] pending lc = (None, lc)"
| "cleanup_rounds ends (rd # rds) pending lc =
     (if cr_expired rd \<or> cr_cancelled rd
      then (Some (Inl RuntimeFatal), give_up ends (cr_over rd) pending lc)
      else
        (case observe_all ends (filter (\<lambda>f. f \<in> set (cr_over rd)) pending) lc of
           (nested, lc1) \<Rightarrow>
             let pending1 = filter (\<lambda>f. f \<notin> set (cr_over rd)) pending @ nested
             in if pending1 \<noteq> [] \<and> cr_late rd
                then (Some (Inl RuntimeFatal), give_up ends (cr_over rd) pending1 lc1)
                else cleanup_rounds ends rds pending1 lc1))"

text \<open>
  \<open>finish_producer\<close>: the futures it asks to be cancelled (the producer, at most once), its result
  (\<open>None\<close> while it waits) and the lifecycle after it.
\<close>

definition finish_producer ::
  "(fut \<Rightarrow> future_end) \<Rightarrow> cleanup_round list \<Rightarrow> fut \<Rightarrow> bool \<Rightarrow> fut list \<Rightarrow> bool \<Rightarrow> lifecycle \<Rightarrow>
   fut list \<times> (failure + unit) option \<times> lifecycle" where
  "finish_producer ends rds producer cancel over cancelling lc =
     (if cancel \<and> producer \<notin> set over \<and> \<not> cancelling then [producer] else [],
      cleanup_rounds ends rds [producer] lc)"

section \<open>Nothing is lost track of\<close>

text \<open>A future is accounted for when it has been observed or is quarantined.\<close>

definition accounted :: "lifecycle \<Rightarrow> fut set" where
  "accounted lc = lc_observed lc \<union> lc_quarantined lc"

definition nested_accounted :: "(fut \<Rightarrow> future_end) \<Rightarrow> fut set \<Rightarrow> lifecycle \<Rightarrow> bool" where
  "nested_accounted ends pending lc \<longleftrightarrow>
     (\<forall>f \<in> lc_observed lc. set (nested_futures ends f) \<subseteq> accounted lc \<union> pending)"

lemma observe_accounts:
  assumes "observe_future ends f lc = (nested, lc')" "nested_accounted ends P lc" "P \<subseteq> insert f Q"
  shows "nested_accounted ends (set nested \<union> Q) lc' \<and> lc_observed lc' = insert f (lc_observed lc)
    \<and> lc_quarantined lc' = lc_quarantined lc \<and> lc_fatal lc' = lc_fatal lc"
  using assms
  by (auto simp: observe_future_def nested_accounted_def accounted_def split: if_splits) blast+

lemma observe_all_accounts:
  assumes "observe_all ends fs lc = (nested, lc')" "nested_accounted ends P lc" "P \<subseteq> set fs \<union> Q"
  shows "nested_accounted ends (set nested \<union> Q) lc' \<and> lc_observed lc' = set fs \<union> lc_observed lc
    \<and> lc_quarantined lc' = lc_quarantined lc \<and> lc_fatal lc' = lc_fatal lc"
  using assms
proof (induction fs arbitrary: lc nested P Q)
  case (Cons f fs)
  obtain n1 lc1 where o: "observe_future ends f lc = (n1, lc1)" by (cases "observe_future ends f lc")
  obtain n2 where r: "observe_all ends fs lc1 = (n2, lc')" "nested = n1 @ n2"
    using Cons.prems(1) o by (auto split: prod.splits)
  from observe_accounts [OF o Cons.prems(2), of "set fs \<union> Q"] Cons.prems(3)
  have one: "nested_accounted ends (set n1 \<union> (set fs \<union> Q)) lc1" "lc_observed lc1 = insert f (lc_observed lc)"
    "lc_quarantined lc1 = lc_quarantined lc" "lc_fatal lc1 = lc_fatal lc" by auto
  from Cons.IH [OF r(1) one(1), of "set n1 \<union> Q"] one r(2) show ?case by (auto simp: Un_ac)
qed (auto simp: nested_accounted_def)

lemma quarantine_accounts:
  "nested_accounted ends (set fs \<union> Q) lc \<Longrightarrow>
     nested_accounted ends Q (quarantine_futures ends over fs lc)
     \<and> set fs \<union> accounted lc \<subseteq> accounted (quarantine_futures ends over fs lc)
     \<and> lc_observed lc \<subseteq> lc_observed (quarantine_futures ends over fs lc)
     \<and> lc_fatal (quarantine_futures ends over fs lc) = lc_fatal lc"
proof (induction ends over fs lc rule: quarantine_futures.induct)
  case (1 ends over lc)
  then show ?case by simp
next
  case (2 ends over f fs lc)
  show ?case
  proof (cases "f \<in> set over")
    case True
    obtain n lc1 where o: "observe_future ends f lc = (n, lc1)" by (cases "observe_future ends f lc")
    from observe_accounts [OF o 2(3), of "set fs \<union> Q"]
    have "nested_accounted ends (set (n @ fs) \<union> Q) lc1" "lc_observed lc1 = insert f (lc_observed lc)"
      "lc_quarantined lc1 = lc_quarantined lc" "lc_fatal lc1 = lc_fatal lc" by (auto simp: Un_ac)
    with 2(1) [OF True] o True show ?thesis by (auto simp: accounted_def)
  next
    case False
    have "nested_accounted ends (set fs \<union> Q) (lc\<lparr>lc_quarantined := insert f (lc_quarantined lc)\<rparr>)"
      using 2(3) by (auto simp: nested_accounted_def accounted_def)
    with 2(2) [OF False] False show ?thesis by (auto simp: accounted_def)
  qed
qed

lemma give_up_accounts:
  assumes "nested_accounted ends (set pending) lc"
  shows "nested_accounted ends {} (give_up ends over pending lc)"
    "set pending \<union> accounted lc \<subseteq> accounted (give_up ends over pending lc)"
    "lc_observed lc \<subseteq> lc_observed (give_up ends over pending lc)"
    "lc_fatal (give_up ends over pending lc) \<noteq> None"
proof -
  have "nested_accounted ends (set pending \<union> {}) (mark_runtime_fatal lc)"
    "accounted (mark_runtime_fatal lc) = accounted lc"
    "lc_observed (mark_runtime_fatal lc) = lc_observed lc" "lc_fatal (mark_runtime_fatal lc) \<noteq> None"
    using assms by (auto simp: mark_runtime_fatal_def nested_accounted_def accounted_def)
  with quarantine_accounts [OF this(1), of over]
  show "nested_accounted ends {} (give_up ends over pending lc)"
    "set pending \<union> accounted lc \<subseteq> accounted (give_up ends over pending lc)"
    "lc_observed lc \<subseteq> lc_observed (give_up ends over pending lc)"
    "lc_fatal (give_up ends over pending lc) \<noteq> None" by (auto simp: give_up_def)
qed

lemma cleanup_accounts:
  assumes "cleanup_rounds ends rds pending lc = (Some r, lc')" "nested_accounted ends (set pending) lc"
  shows "nested_accounted ends {} lc' \<and> set pending \<union> accounted lc \<subseteq> accounted lc'
    \<and> lc_observed lc \<subseteq> lc_observed lc'
    \<and> (r = Inr () \<longrightarrow> set pending \<subseteq> lc_observed lc' \<and> lc_fatal lc' = lc_fatal lc
          \<and> lc_quarantined lc' = lc_quarantined lc)
    \<and> (r \<noteq> Inr () \<longrightarrow> r = Inl RuntimeFatal \<and> lc_fatal lc' \<noteq> None)"
  using assms
proof (induction rds arbitrary: pending lc)
  case Nil
  then show ?case by (cases pending) auto
next
  case (Cons rd rds)
  show ?case
  proof (cases "pending = [] \<or> cr_expired rd \<or> cr_cancelled rd")
    case True
    then show ?thesis
    proof (cases "pending = []")
      case True
      with Cons.prems show ?thesis by auto
    next
      case False
      with True Cons.prems(1) have "r = Inl RuntimeFatal" "lc' = give_up ends (cr_over rd) pending lc"
        by (cases pending; auto)+
      with give_up_accounts [OF Cons.prems(2)] show ?thesis by auto
    qed
  next
    case False
    then obtain p ps where pend: "pending = p # ps" and go: "\<not> (cr_expired rd \<or> cr_cancelled rd)"
      by (cases pending) auto
    obtain nested lc1 where o: "observe_all ends (filter (\<lambda>f. f \<in> set (cr_over rd)) pending) lc = (nested, lc1)"
      by (metis prod.exhaust)
    define pending1 where "pending1 = filter (\<lambda>f. f \<notin> set (cr_over rd)) pending @ nested"
    note run = Cons.prems(1) [unfolded pend cleanup_rounds.simps, folded pend, unfolded o prod.case
        Let_def if_not_P [OF go], folded pending1_def]
    have "set pending \<subseteq> set (filter (\<lambda>f. f \<in> set (cr_over rd)) pending)
        \<union> set (filter (\<lambda>f. f \<notin> set (cr_over rd)) pending)" by auto
    from observe_all_accounts [OF o Cons.prems(2) this]
    have lc1: "nested_accounted ends (set pending1) lc1"
      "lc_observed lc1 = set (filter (\<lambda>f. f \<in> set (cr_over rd)) pending) \<union> lc_observed lc"
      "lc_quarantined lc1 = lc_quarantined lc" "lc_fatal lc1 = lc_fatal lc"
      by (auto simp: pending1_def Un_commute)
    then have covers: "set pending \<union> accounted lc \<subseteq> set pending1 \<union> accounted lc1"
      "set pending \<subseteq> set pending1 \<union> lc_observed lc1"
      by (auto simp: pending1_def accounted_def)
    have grow: "lc_observed lc \<subseteq> lc_observed lc1" using lc1(2) by blast
    show ?thesis
    proof (cases "pending1 \<noteq> [] \<and> cr_late rd")
      case True
      with run have "r = Inl RuntimeFatal" "lc' = give_up ends (cr_over rd) pending1 lc1" by simp_all
      with give_up_accounts [OF lc1(1), of "cr_over rd"] covers grow show ?thesis by auto
    next
      case late: False
      with run have "cleanup_rounds ends rds pending1 lc1 = (Some r, lc')" by auto
      note rest = Cons.IH [OF this lc1(1)]
      with grow covers lc1(3,4) show ?thesis by (auto 0 3)
    qed
  qed
qed

section \<open>The queue between the producer and the service\<close>

datatype runtime_item = ItemEvent product_event | ItemResult agent_result

datatype queue_entry = Entry runtime_item | EntryError failure | EntryEnd

text \<open>
  What the producer still has to put before its \<open>finally\<close> (its events, and then the result or the
  exception it caught), or that it is in the \<open>finally\<close>, or over; and what the consumer has done.
\<close>

datatype producer_state = Producing "queue_entry list" | Closing | ProducerOver

datatype consumer_state = Consuming | ReachedEnd | RaisedError failure | Abandoned

record run_queue =
  rq_capacity :: nat
  rq_queue :: "queue_entry list"
  rq_producer :: producer_state
  rq_consumer :: consumer_state
  rq_yielded :: "runtime_item list"

definition queue_capacity :: "'w execution \<Rightarrow> int" where
  "queue_capacity ex = max_tool_calls (budget (ex_agent ex)) * 3 + 6"

definition new_queue :: "nat \<Rightarrow> queue_entry list \<Rightarrow> run_queue" where
  "new_queue capacity entries =
     \<lparr>rq_capacity = capacity, rq_queue = [], rq_producer = Producing entries, rq_consumer = Consuming,
      rq_yielded = []\<rparr>"

text \<open>The exit of \<open>produce\<close>: without a consumer nobody needs the end marker.\<close>

definition leave_producer :: "run_queue \<Rightarrow> run_queue" where
  "leave_producer q =
     q\<lparr>rq_producer := (if rq_consumer q = Consuming then Closing else ProducerOver)\<rparr>"

definition take_entry :: "queue_entry \<Rightarrow> queue_entry list \<Rightarrow> run_queue \<Rightarrow> run_queue" where
  "take_entry x xs q =
     (case x of
        Entry item \<Rightarrow> q\<lparr>rq_queue := xs, rq_yielded := rq_yielded q @ [item]\<rparr>
      | EntryError f \<Rightarrow> q\<lparr>rq_queue := xs, rq_consumer := RaisedError f\<rparr>
      | EntryEnd \<Rightarrow> q\<lparr>rq_queue := xs, rq_consumer := ReachedEnd\<rparr>)"

inductive queue_step :: "run_queue \<Rightarrow> run_queue \<Rightarrow> bool" where
  queue_put: "rq_producer q = Producing (x # xs) \<Longrightarrow> length (rq_queue q) < rq_capacity q \<Longrightarrow>
     queue_step q (q\<lparr>rq_queue := rq_queue q @ [x], rq_producer := Producing xs\<rparr>)"
| queue_finish: "rq_producer q = Producing [] \<Longrightarrow> queue_step q (leave_producer q)"
| queue_cancel: "rq_producer q = Producing xs \<Longrightarrow> rq_consumer q \<noteq> Consuming \<Longrightarrow>
     queue_step q (leave_producer q)"
| queue_mark: "rq_producer q = Closing \<Longrightarrow> length (rq_queue q) < rq_capacity q \<Longrightarrow>
     queue_step q (q\<lparr>rq_queue := rq_queue q @ [EntryEnd], rq_producer := ProducerOver\<rparr>)"
| queue_skip: "rq_producer q = Closing \<Longrightarrow> rq_consumer q \<noteq> Consuming \<Longrightarrow>
     queue_step q (q\<lparr>rq_producer := ProducerOver\<rparr>)"
| queue_get: "rq_consumer q = Consuming \<Longrightarrow> rq_queue q = x # xs \<Longrightarrow>
     queue_step q (take_entry x xs q)"
| queue_abandon: "rq_consumer q = Consuming \<Longrightarrow> queue_step q (q\<lparr>rq_consumer := Abandoned\<rparr>)"

text \<open>Items before the first exception are what the consumer gets to see.\<close>

fun produced_items :: "queue_entry list \<Rightarrow> runtime_item list" where
  "produced_items (Entry item # xs) = item # produced_items xs"
| "produced_items _ = []"

fun left_to_put :: "producer_state \<Rightarrow> queue_entry list" where
  "left_to_put (Producing xs) = xs"
| "left_to_put _ = []"

definition no_end :: "queue_entry list \<Rightarrow> bool" where
  "no_end xs \<longleftrightarrow> EntryEnd \<notin> set xs"

text \<open>While the consumer reads, what it has and what is under way are the entries in order.\<close>

definition under_way :: "queue_entry list \<Rightarrow> run_queue \<Rightarrow> bool" where
  "under_way rest q \<longleftrightarrow>
     (case rq_consumer q of
        Consuming \<Rightarrow>
          (if rq_producer q = ProducerOver then rq_queue q = rest @ [EntryEnd]
           else rest = rq_queue q @ left_to_put (rq_producer q))
      | ReachedEnd \<Rightarrow> rest = []
      | RaisedError f \<Rightarrow> \<exists>xs. rest = EntryError f # xs
      | Abandoned \<Rightarrow> True)"

definition queue_inv :: "nat \<Rightarrow> queue_entry list \<Rightarrow> run_queue \<Rightarrow> bool" where
  "queue_inv capacity entries q \<longleftrightarrow>
     rq_capacity q = capacity \<and> length (rq_queue q) \<le> capacity
     \<and> (\<exists>rest. entries = map Entry (rq_yielded q) @ rest \<and> under_way rest q)"

lemma queue_inv_keep:
  assumes "queue_inv capacity entries q" "rq_capacity q' = rq_capacity q" "rq_yielded q' = rq_yielded q"
    and "length (rq_queue q') \<le> capacity" "\<And>rest. under_way rest q \<Longrightarrow> under_way rest q'"
  shows "queue_inv capacity entries q'"
  using assms by (auto simp: queue_inv_def)

lemma queue_inv_bound:
  "queue_inv capacity entries q \<Longrightarrow> rq_capacity q = capacity \<and> length (rq_queue q) \<le> capacity"
  by (simp add: queue_inv_def)

lemma queue_get_inv:
  assumes "queue_inv capacity entries q" "no_end entries" "rq_consumer q = Consuming" "rq_queue q = x # xs"
  shows "queue_inv capacity entries (take_entry x xs q)"
proof -
  obtain rest where rest: "entries = map Entry (rq_yielded q) @ rest"
    "if rq_producer q = ProducerOver then x # xs = rest @ [EntryEnd]
     else rest = (x # xs) @ left_to_put (rq_producer q)"
    using assms unfolding queue_inv_def under_way_def by (auto split: if_splits)
  have bound: "rq_capacity q = capacity" "length xs \<le> capacity" using assms by (auto simp: queue_inv_def)
  show ?thesis
  proof (cases rest)
    case Nil
    with rest assms(3) bound show ?thesis
      by (auto simp: queue_inv_def under_way_def take_entry_def split: if_splits intro!: exI [of _ "[]"])
  next
    case (Cons y ys)
    then have "x = y" using rest(2) by (auto split: if_splits)
    have "y \<noteq> EntryEnd" using assms(2) rest(1) Cons by (auto simp: no_end_def)
    with rest assms(3) bound Cons \<open>x = y\<close> show ?thesis
      by (cases y) (auto simp: queue_inv_def under_way_def take_entry_def split: if_splits)
  qed
qed

lemma queue_step_inv:
  assumes "queue_inv capacity entries q" "no_end entries" "queue_step q q'"
  shows "queue_inv capacity entries q'"
  using assms(3,1,2)
proof (induction rule: queue_step.induct)
  case (queue_get q x xs)
  then show ?case by (intro queue_get_inv)
next
  case (queue_put q x xs)
  note inv = queue_put(3) and bound = queue_inv_bound [OF queue_put(3)]
  show ?case
    by (rule queue_inv_keep [OF inv])
      (use queue_put(1,2) bound in
        \<open>cases "rq_consumer q"; simp add: under_way_def leave_producer_def\<close>)+
next
  case (queue_finish q)
  note inv = queue_finish(2) and bound = queue_inv_bound [OF queue_finish(2)]
  show ?case
    by (rule queue_inv_keep [OF inv])
      (use queue_finish(1) bound in
        \<open>cases "rq_consumer q"; simp add: under_way_def leave_producer_def\<close>)+
next
  case (queue_cancel q xs)
  note inv = queue_cancel(3) and bound = queue_inv_bound [OF queue_cancel(3)]
  show ?case
    by (rule queue_inv_keep [OF inv])
      (use queue_cancel(1,2) bound in
        \<open>cases "rq_consumer q"; simp add: under_way_def leave_producer_def\<close>)+
next
  case (queue_mark q)
  note inv = queue_mark(3) and bound = queue_inv_bound [OF queue_mark(3)]
  show ?case
    by (rule queue_inv_keep [OF inv])
      (use queue_mark(1,2) bound in
        \<open>cases "rq_consumer q"; simp add: under_way_def leave_producer_def\<close>)+
next
  case (queue_skip q)
  note inv = queue_skip(3) and bound = queue_inv_bound [OF queue_skip(3)]
  show ?case
    by (rule queue_inv_keep [OF inv])
      (use queue_skip(1,2) bound in
        \<open>cases "rq_consumer q"; simp add: under_way_def leave_producer_def\<close>)+
next
  case (queue_abandon q)
  note inv = queue_abandon(2) and bound = queue_inv_bound [OF queue_abandon(2)]
  show ?case
    by (rule queue_inv_keep [OF inv])
      (use queue_abandon(1) bound in
        \<open>cases "rq_consumer q"; simp add: under_way_def leave_producer_def\<close>)+
qed

lemma new_queue_inv: "queue_inv capacity entries (new_queue capacity entries)"
  by (simp add: queue_inv_def new_queue_def under_way_def)

definition queue_start :: "nat \<Rightarrow> queue_entry list \<Rightarrow> run_queue \<Rightarrow> bool" where
  "queue_start capacity entries q \<longleftrightarrow> no_end entries \<and> q = new_queue capacity entries"

interpretation queue: guarded_machine "queue_start capacity entries" queue_step
  "\<lambda>q. no_end entries \<and> queue_inv capacity entries q" for capacity entries
  by unfold_locales (auto simp: queue_start_def new_queue_inv intro: queue_step_inv)

lemma yielded_prefix:
  "entries = map Entry ys @ rest \<Longrightarrow> \<exists>zs. produced_items entries = ys @ zs
     \<and> (rest = [] \<or> (\<exists>f xs. rest = EntryError f # xs) \<longrightarrow> zs = [])"
  by (induction ys arbitrary: entries) auto

text \<open>
  C28. The queue of a Run neither loses nor reorders anything and never blocks the Run. At every moment
  it holds at most its capacity, and what the service has been given is a prefix of what the producer
  put; a stream that ends normally has delivered all of it, one that raises has delivered everything
  before the exception. As long as the consumer reads, the producer can
  proceed or there is something to read; once it has gone, the producer can always leave, however
  full the queue.
\<close>

theorem queue_delivers:
  assumes "reaches (queue_start capacity entries) queue_step q" "0 < capacity"
  shows "length (rq_queue q) \<le> capacity
    \<and> (\<exists>zs. produced_items entries = rq_yielded q @ zs
          \<and> (rq_consumer q = ReachedEnd \<or> (\<exists>f. rq_consumer q = RaisedError f) \<longrightarrow> zs = []))
    \<and> (rq_consumer q = Consuming \<longrightarrow> (\<exists>q'. queue_step q q' \<and> rq_consumer q' \<noteq> Abandoned))
    \<and> (rq_consumer q \<noteq> Consuming \<and> rq_producer q \<noteq> ProducerOver \<longrightarrow>
         (\<exists>q'. queue_step q q' \<and> rq_producer q' = ProducerOver))"
proof -
  have inv: "queue_inv capacity entries q" using queue.reaches_inv [OF assms(1)] by simp
  then obtain rest where rest: "entries = map Entry (rq_yielded q) @ rest" "under_way rest q"
    and bound: "rq_capacity q = capacity" "length (rq_queue q) \<le> capacity"
    by (auto simp: queue_inv_def)
  have "\<exists>zs. produced_items entries = rq_yielded q @ zs
      \<and> (rq_consumer q = ReachedEnd \<or> (\<exists>f. rq_consumer q = RaisedError f) \<longrightarrow> zs = [])"
    using yielded_prefix [OF rest(1)] rest(2) by (auto simp: under_way_def)
  moreover have "\<exists>q'. queue_step q q' \<and> rq_producer q' = ProducerOver"
    if "rq_consumer q \<noteq> Consuming" "rq_producer q \<noteq> ProducerOver"
  proof (cases "rq_producer q")
    case (Producing xs)
    with queue_cancel [OF Producing that(1)] that(1) show ?thesis by (auto simp: leave_producer_def)
  next
    case Closing
    with queue_skip [OF Closing that(1)] show ?thesis by auto
  qed (use that in simp)
  moreover have "\<exists>q'. queue_step q q' \<and> rq_consumer q' \<noteq> Abandoned" if reading: "rq_consumer q = Consuming"
  proof (cases "rq_queue q")
    case (Cons x xs)
    with queue_get [OF reading Cons] reading show ?thesis by (auto simp: take_entry_def split: queue_entry.splits)
  next
    case Nil
    then have room: "length (rq_queue q) < rq_capacity q" using assms(2) bound by simp
    show ?thesis
    proof (cases "rq_producer q")
      case (Producing ys)
      then show ?thesis
        using queue_finish [of q] queue_put [OF _ room] reading
        by (cases ys) (fastforce simp: leave_producer_def)+
    next
      case Closing
      with queue_mark [OF Closing room] reading show ?thesis by auto
    next
      case ProducerOver
      with rest(2) reading Nil show ?thesis by (simp add: under_way_def)
    qed
  qed
  ultimately show ?thesis using bound(2) by blast
qed

theorem queue_delivers_witness:
  "\<exists>q :: run_queue. rq_yielded q = [ItemEvent (delta_event (lit ''hi''))] \<and> rq_consumer q = ReachedEnd
    \<and> length (rq_queue q) \<le> 18"
proof -
  let ?e = "Entry (ItemEvent (delta_event (lit ''hi'')))"
  define q0 where "q0 = new_queue 18 [?e]"
  define q1 where "q1 = q0\<lparr>rq_queue := [?e], rq_producer := Producing []\<rparr>"
  define q2 where "q2 = leave_producer q1"
  define q3 where "q3 = q2\<lparr>rq_queue := [?e, EntryEnd], rq_producer := ProducerOver\<rparr>"
  define q4 where "q4 = take_entry ?e [EntryEnd] q3"
  define q5 where "q5 = take_entry EntryEnd [] q4"
  have s1: "queue_step q0 q1"
    using queue_put [of q0 ?e "[]"] by (simp add: q1_def) (simp add: q0_def new_queue_def)
  have s2: "queue_step q1 q2"
    using queue_finish [of q1] by (simp add: q2_def) (simp add: q1_def)
  have "rq_producer q2 = Closing" "rq_queue q2 = [?e]" "rq_capacity q2 = 18"
    by (simp_all add: q2_def leave_producer_def q1_def q0_def new_queue_def)
  then have s3: "queue_step q2 q3" using queue_mark [of q2] by (simp add: q3_def)
  have q3: "rq_consumer q3 = Consuming" "rq_queue q3 = [?e, EntryEnd]"
    by (simp_all add: q3_def q2_def leave_producer_def q1_def q0_def new_queue_def)
  have s4: "queue_step q3 q4" unfolding q4_def by (rule queue_get [OF q3])
  have "rq_consumer q4 = Consuming" "rq_queue q4 = [EntryEnd]"
    using q3 by (simp_all add: q4_def take_entry_def)
  then have s5: "queue_step q4 q5" unfolding q5_def by (rule queue_get)
  have "reaches (queue_start 18 [?e]) queue_step q0"
    by (rule reaches_init) (simp add: queue_start_def no_end_def q0_def)
  then have "reaches (queue_start 18 [?e]) queue_step q5"
    by (rule reaches_step [OF reaches_step [OF reaches_step [OF reaches_step [OF reaches_step]]]])
      (rule s1 s2 s3 s4 s5)+
  then have "length (rq_queue q5) \<le> 18" using queue_delivers [of 18 "[?e]" q5] by simp
  moreover have "rq_yielded q5 = [ItemEvent (delta_event (lit ''hi''))]" "rq_consumer q5 = ReachedEnd"
    by (simp_all add: q5_def q4_def take_entry_def)
      (simp add: q3_def q2_def leave_producer_def q1_def q0_def new_queue_def)
  ultimately show ?thesis by blast
qed

section \<open>The result of a Run\<close>

definition generated_source_ids :: "'w execution \<Rightarrow> pystr list" where
  "generated_source_ids ex = map fst (accepted_sources ex)"

definition make_agent_result :: "pystr \<Rightarrow> pystr list \<Rightarrow> exn + agent_result" where
  "make_agent_result answer sources =
     (let r = \<lparr>result_version = lit ''1.0.0'', result_text = answer, result_sources = sources\<rparr>
      in if valid_agent_result r then Inr r else Inl ValidationError)"

definition runner_result :: "chat_message list option \<Rightarrow> 'w runtime_context \<Rightarrow> exn + agent_result" where
  "runner_result latest_state ctx =
     (let final_text = terminal_state_text latest_state
      in if final_text = [] \<or> rc_final_text ctx \<noteq> Some final_text
         then Inl (AgentExecutionFailed ''assistant_message_missing'')
         else make_agent_result final_text (generated_source_ids (rc_execution ctx)))"

section \<open>Cleaning up\<close>

text \<open>
  C29. No future of a Run is lost track of. Whatever the futures of a producer and of the framework's
  nested cleanup do, and whatever ends the wait for them (they end, the grace runs out before or
  after a wait, a second cancellation): finishing the producer asks for at most one cancellation, and
  afterwards the producer and every future an observed one named have been observed or are
  quarantined. It succeeds only if everything it waited for has been observed; otherwise the runtime
  has failed stop and refuses every later Run.
\<close>

theorem producer_accounted:
  assumes "finish_producer ends rds producer cancel over cancelling lc = (cancelled, Some r, lc')"
    and "nested_accounted ends {producer} lc"
  shows "set cancelled \<subseteq> {producer} \<and> length cancelled \<le> 1
    \<and> producer \<in> accounted lc' \<and> accounted lc \<subseteq> accounted lc' \<and> nested_accounted ends {} lc'
    \<and> (r = Inr () \<longrightarrow> producer \<in> lc_observed lc' \<and> lc_quarantined lc' = lc_quarantined lc
          \<and> runtime_healthy lc' = runtime_healthy lc)
    \<and> (r \<noteq> Inr () \<longrightarrow> r = Inl RuntimeFatal \<and> \<not> runtime_healthy lc'
          \<and> require_runtime_healthy lc' = Inl RuntimeFatal)"
  using assms cleanup_accounts [of ends rds "[producer]" lc r lc']
  by (auto simp: finish_producer_def runtime_healthy_def require_runtime_healthy_def split: if_splits)

theorem producer_accounted_witness:
  "\<exists>lc :: lifecycle. lc_quarantined lc = {1} \<and> lc_observed lc = {0} \<and> \<not> runtime_healthy lc
     \<and> nested_accounted (\<lambda>f. if f = 0 then EndsCancelled [1] else EndsReturned) {} lc"
proof -
  let ?ends = "\<lambda>f. if f = 0 then EndsCancelled [1] else EndsReturned"
  let ?rd = "\<lparr>cr_expired = False, cr_cancelled = False, cr_over = [0], cr_late = True\<rparr>"
  define lc where "lc = \<lparr>lc_fatal = Some ''runtime_cleanup_timeout'', lc_observed = {0}, lc_quarantined = {1}\<rparr>"
  have "finish_producer ?ends [?rd] 0 True [] False new_lifecycle = ([0], Some (Inl RuntimeFatal), lc)"
    by (simp add: finish_producer_def new_lifecycle_def observe_future_def nested_futures_def give_up_def
        mark_runtime_fatal_def lc_def Let_def)
  moreover have "nested_accounted ?ends {0} new_lifecycle" by (simp add: nested_accounted_def new_lifecycle_def)
  ultimately have "nested_accounted ?ends {} lc \<and> \<not> runtime_healthy lc"
    using producer_accounted [of ?ends "[?rd]" 0 True "[]" False new_lifecycle "[0]" "Inl RuntimeFatal" lc]
    by simp
  then show ?thesis by (intro exI [of _ lc]) (simp add: lc_def)
qed

end
