(* ===== verification/Runtime_Properties.thy ===== *)
theory Runtime_Properties
  imports Runtime_Runner Service_Demo
begin

text \<open>
  The properties of the runtime's protocol: what the model that writes the answer gets to read, that
  the control call stays private, and that the first decision is retried at most once. Then the
  witnesses of the runtime's properties.
\<close>

section \<open>The public answer\<close>

text \<open>
  C4. The public answer is what the provider sent, whatever the timing. For any clock, arrival
  order, interruption and concurrent task: the deltas put on the queue are short, non-empty pieces of
  the public text of the provider's chunks, in order, with nothing lost, added or repeated, and
  never more than the answer may have. The call returns a text only if the whole stream was public
  text, the text is not blank and the deltas spell it out exactly, and only for a request without
  Tools.
\<close>

theorem answer_stream_lossless:
  assumes "stream_final_response c s request kind st = (res, st')"
  shows "\<exists>deltas. rc_events (fst st') = rc_events (fst st) @ map delta_event deltas
    \<and> list_all (\<lambda>d. 0 < length d \<and> length d \<le> 24) deltas \<and> list_all (\<lambda>d. 3 \<le> length d) (butlast deltas)
    \<and> length (concat deltas)
        \<le> nat (max_answer_chars (result_contract (ex_agent (rc_execution (fst st)))))
    \<and> (\<exists>rest. fst (public_text (ss_provider s (provider_messages request))) = concat deltas @ rest)
    \<and> (\<forall>answer. res = Some (Inr answer) \<longrightarrow>
          answer = concat deltas \<and> py_strip answer \<noteq> [] \<and> tool_free request
          \<and> public_text (ss_provider s (provider_messages request)) = (answer, True))"
  using final_response_sends [OF assms] by (auto simp: sends_def stream_report_def)

text \<open>
  The loop of the stream ends. Once the items of the provider keep arriving, the call returns an
  answer or a failure after at most two rounds for each item and two more, whatever its timer does
  in between: no state of the buffer and the timer makes it spin.
\<close>

theorem answer_stream_returns:
  assumes "\<forall>rd \<in> set (ss_rounds s). sr_ready rd"
    and "2 * length (ss_provider s (provider_messages request)) + 2 \<le> length (ss_rounds s)"
  shows "fst (stream_final_response c s request kind st) \<noteq> None"
proof -
  have "fst (stream_rounds c attempt mx (ss_rounds s) (ss_provider s (provider_messages request)) no_text st1) \<noteq> None"
    for attempt mx and st1 :: "'a rt"
    using assms by (intro stream_rounds_return) (auto simp: no_text_def)
  then have "fst (stream_rounds c attempt mx (ss_rounds s) (ss_provider s (provider_messages request)) no_text st1)
      = None \<longleftrightarrow> False" for attempt mx and st1 :: "'a rt" by simp
  note never = this [simplified fst_def]
  show ?thesis
    by (auto simp: stream_final_response_def Let_def split: prod.splits sum.splits option.splits)
      (metis never case_prod_conv)
qed

text \<open>
  C3. The result of the runtime is what was streamed. Let the framework call the middleware in any
  order, with any messages and results, while other tasks work on the execution: if the graph ends
  without an exception and the runner returns a result, its text is, character for character, the
  concatenation of the deltas it has put on the queue, it is not blank, and its sources are the ones
  the Tools of the Run delivered.
\<close>

theorem runtime_result_streamed:
  assumes "reaches runtime_init (runtime_step c env) (True, st)"
    and "runner_result latest_state (fst st) = Inr r"
  shows "result_text r = shown (rc_events (fst st)) \<and> py_strip (result_text r) \<noteq> []
    \<and> result_sources r = map fst (accepted_sources (rc_execution (fst st)))"
  using runtime.reaches_inv [OF assms(1)] assms(2)
  by (auto simp: runtime_inv_def runner_result_def make_agent_result_def generated_source_ids_def Let_def
      split: if_splits)

section \<open>The exit of the graph\<close>

lemma all_tool_results_iff: "all_tool_results xs = Some rs \<longleftrightarrow> xs = map ToolResult rs"
proof -
  have "list_all (\<lambda>x. tool_result x \<noteq> None) xs \<longleftrightarrow> (\<exists>rs. xs = map ToolResult rs)"
  proof (induction xs)
    case (Cons x xs)
    have "tool_result x \<noteq> None \<longleftrightarrow> (\<exists>r. x = ToolResult r)" by (cases x) auto
    with Cons show ?case by (auto simp: Cons_eq_map_conv)
  qed simp
  moreover have "List.map_filter tool_result (map ToolResult rs) = rs" for rs
    by (simp add: map_filter_def comp_def)
  ultimately show ?thesis by (auto simp: all_tool_results_def) (metis+)
qed

lemma nonempty_str_iff: "nonempty_str v \<longleftrightarrow> (\<exists>s. v = PStr s \<and> s \<noteq> [])"
  by (cases v) (auto simp: nonempty_str_def)

definition permitted_terminal :: "'w execution \<Rightarrow> pdict \<Rightarrow> bool" where
  "permitted_terminal ex call \<longleftrightarrow>
     (\<exists>t r. dict_get call (lit ''name'') = PStr t \<and> t \<in> set (visible_tool_ids ex)
        \<and> require_tool (ex_registry ex) t = Inr r \<and> terminal_after_success r)"

lemma all_terminal_permitted: "all_terminal ex calls = Inr True \<Longrightarrow> \<forall>call \<in> set calls. permitted_terminal ex call"
  by (induction calls)
    (auto simp: terminal_call_def permitted_terminal_def split: option.splits if_splits)

definition mentions_control :: "pystr \<Rightarrow> chat_message \<Rightarrow> bool" where
  "mentions_control i x \<longleftrightarrow>
     (case x of
        AiMessage m \<Rightarrow> list_ex is_control (ai_tool_calls m)
      | ToolResult msg \<Rightarrow> tm_call_id msg = i
      | _ \<Rightarrow> False)"

lemma one_control:
  assumes "length (filter is_control calls) = 1" "distinct (call_ids calls)"
  obtains call where "filter is_control calls = [call]" "call \<in> set calls"
    "\<forall>e \<in> set (filter (\<lambda>e. \<not> is_control e) calls). dict_get e (lit ''id'') \<noteq> dict_get call (lit ''id'')"
proof -
  obtain call where call: "filter is_control calls = [call]" using assms(1) by (auto simp: length_Suc_conv)
  then have "call \<in> set (filter is_control calls)" by simp
  then have "call \<in> set calls" "is_control call" by simp_all
  moreover have "inj_on (\<lambda>e. dict_get e (lit ''id'')) (set calls)"
    using assms(2) by (simp add: call_ids_def distinct_map)
  ultimately show ?thesis using call by (intro that [of call]) (auto dest: inj_onD)
qed

definition exit_context :: "model_message \<Rightarrow> pdict list \<Rightarrow> tool_message list \<Rightarrow> chat_message list" where
  "exit_context m external results =
     (if external = [] then []
      else sanitized_decision m external
             # map ToolResult (filter (\<lambda>msg. PStr (tm_call_id msg) \<in> set (call_ids external)) results))"

lemma plan_accepts:
  assumes plan: "plan_with_calls ctx before m after = Inr (Some input)"
    and names: "calls = ai_tool_calls m" "external = filter (\<lambda>call. \<not> is_control call) calls"
  obtains results where "after = map ToolResult results" "length results = length calls"
    "results_complete calls results" "list_all nonempty_str (call_ids calls)" "distinct (call_ids calls)"
    "length (filter is_control calls) = 1"
    "external \<noteq> [] \<longrightarrow> all_terminal (rc_execution ctx) external = Inr True"
    "rc_completed_call ctx = as_str (dict_get (hd (filter is_control calls)) (lit ''id''))"
    "input = before @ exit_context m external results"
proof -
  note plan' = plan [unfolded plan_with_calls_def Let_def, folded names, folded names(2)]
  have ok: "\<not> (list_ex (\<lambda>i. \<not> nonempty_str i) (call_ids calls) \<or> \<not> distinct (call_ids calls)
      \<or> length after \<noteq> length calls)"
    using plan' by (auto split: if_splits)
  obtain results where results: "all_tool_results after = Some results" "results_complete calls results"
    using plan' by (auto split: if_splits option.splits)
  then have after: "after = map ToolResult results" by (simp add: all_tool_results_iff)
  obtain terminal_batch where tb: "(if external = [] then Inr False else all_terminal (rc_execution ctx) external)
      = Inr terminal_batch"
    and chosen: "(if filter is_control calls = []
        then (if \<not> terminal_batch \<or> rc_completed_call ctx \<noteq> None \<or> rc_pending_call ctx \<noteq> None
              then Inl exit_invalid else Inr None)
        else if length (filter is_control calls) \<noteq> 1 \<or> (external \<noteq> [] \<and> \<not> terminal_batch)
            \<or> rc_completed_call ctx \<noteq> as_str (dict_get (hd (filter is_control calls)) (lit ''id''))
            \<or> rc_pending_call ctx \<noteq> None
        then Inl exit_invalid
        else if external = [] then Inr (Some before)
        else Inr (Some (before @ sanitized_decision m external
          # map ToolResult (filter (\<lambda>msg. PStr (tm_call_id msg) \<in> set (call_ids external)) results))))
      = Inr (Some input)"
    using plan' [unfolded if_not_P [OF ok] results(1) option.case
        if_not_P [OF iffD2 [OF not_not results(2)]] bindE_eq_Inr]
    by (elim exE conjE) (rule that)
  have controls: "filter is_control calls \<noteq> []"
    using chosen by (intro notI) (simp split: if_splits)
  note chosen' = chosen [unfolded if_not_P [OF controls]]
  have accepted: "\<not> (length (filter is_control calls) \<noteq> 1 \<or> (external \<noteq> [] \<and> \<not> terminal_batch)
      \<or> rc_completed_call ctx \<noteq> as_str (dict_get (hd (filter is_control calls)) (lit ''id''))
      \<or> rc_pending_call ctx \<noteq> None)"
    by (rule notI, rule notE [OF _ chosen']) (simp only: if_True, simp)
  show ?thesis
  proof (rule that [of results])
    show "external \<noteq> [] \<longrightarrow> all_terminal (rc_execution ctx) external = Inr True"
      using tb accepted by (cases "external = []") simp_all
    show "input = before @ exit_context m external results"
      using chosen' [unfolded if_not_P [OF accepted]] by (cases "external = []") (simp_all add: exit_context_def)
  qed (use accepted ok results(2) after in \<open>auto simp: list_all_iff list_ex_iff\<close>)
qed

lemma exit_context_private:
  assumes names: "external = filter (\<lambda>call. \<not> is_control call) calls"
    and call: "filter is_control calls = [call]" "dict_get call (lit ''id'') = PStr k"
      "\<forall>e \<in> set external. dict_get e (lit ''id'') \<noteq> dict_get call (lit ''id'')"
    and results: "results_complete calls results"
  shows "\<forall>x \<in> set (exit_context m external results). \<not> mentions_control k x"
    and "\<forall>msg \<in> set results. tm_call_id msg = k \<or> ToolResult msg \<in> set (exit_context m external results)"
proof -
  have not_external: "PStr k \<notin> set (call_ids external)" using call(2,3) by (auto simp: call_ids_def)
  have "set calls = set (filter is_control calls) \<union> set external" by (auto simp: names)
  then have "set calls = insert call (set external)" unfolding call(1) by simp
  then have ids: "set (call_ids calls) = insert (PStr k) (set (call_ids external))"
    using call(2) by (simp add: call_ids_def)
  show "\<forall>x \<in> set (exit_context m external results). \<not> mentions_control k x"
    using not_external
    by (auto simp: exit_context_def mentions_control_def sanitized_decision_def ai_text_def names list_ex_iff)
  show "\<forall>msg \<in> set results. tm_call_id msg = k \<or> ToolResult msg \<in> set (exit_context m external results)"
  proof
    fix msg assume msg: "msg \<in> set results"
    then have "PStr (tm_call_id msg) \<in> set (call_ids calls)" using results by (auto simp: results_complete_def)
    then have "tm_call_id msg = k \<or> PStr (tm_call_id msg) \<in> set (call_ids external)" using ids by simp
    then show "tm_call_id msg = k \<or> ToolResult msg \<in> set (exit_context m external results)"
      using msg by (auto simp: exit_context_def call_ids_def)
  qed
qed


section \<open>The control signal\<close>

definition reserved_ids :: "tool_reservation list \<Rightarrow> pval set" where
  "reserved_ids rs = (\<lambda>r. PStr (res_call_id r)) ` set rs"

lemma call_parts_id: "call_parts known call = Some (i, t, args) \<Longrightarrow> dict_get call (lit ''id'') = PStr i"
  by (cases "dict_get call (lit ''id'')") (auto simp: call_parts_def split: option.splits if_splits)

lemma reserve_calls_ids:
  "reserve_calls env calls l ex = (Inr l', ex') \<Longrightarrow>
     reserved_ids (loop_pending l') \<subseteq> reserved_ids (loop_pending l) \<union> set (call_ids calls)"
proof (induction calls arbitrary: l)
  case (Cons call calls)
  then obtain i t args v fp l2 where parts: "call_parts (loop_known l) call = Some (i, t, args)"
    and rest: "reserve_calls env calls l2 ex = (Inr l', ex')"
    and l2: "loop_pending l2 = loop_pending l
        @ [\<lparr>res_call_id = i, res_tool_id = t, res_arguments = v, res_fingerprint = fp\<rparr>]"
    by (auto simp: Let_def count_repeat_def split: option.splits sum.splits prod.splits if_splits)
  from Cons.IH [OF rest] show ?case
    using call_parts_id [OF parts] by (auto simp: l2 reserved_ids_def call_ids_def)
qed (simp add: reserved_ids_def)

lemma reserve_calls_same: "reserve_calls env calls l ex = (Inr l', ex') \<Longrightarrow> ex' = ex"
  by (induction calls arbitrary: l)
    (auto simp: Let_def split: option.splits sum.splits prod.splits if_splits)

lemma add_reservations_ids:
  "fst ` set (add_reservations pending rs) = res_call_id ` set pending \<union> fst ` set rs"
  by (induction pending arbitrary: rs) (auto simp: add_reservations_def dom_update)

lemma reserved_externals:
  assumes "reserve_tool_calls env now calls ex = (Inr (), ex')" "i \<in> fst ` set (reservations ex')"
  shows "i \<in> fst ` set (reservations ex) \<or> PStr i \<in> set (call_ids calls)"
proof (cases "calls = []")
  case True
  with assms show ?thesis
    unfolding reserve_tool_calls_def by (auto elim!: guarded_cases)
next
  case False
  define ex1 where "ex1 = ex\<lparr>tool_calls_attempted := tool_calls_attempted ex + int (length calls)\<rparr>"
  define l where "l = \<lparr>loop_pending = [], loop_last = last_tool_fingerprint ex,
    loop_identical = identical_tool_calls ex, loop_repeated = repeated_tool_calls ex,
    loop_known = fst ` set (reservations ex) \<union> fst ` set (started_calls ex)\<rparr>"
  have ex1: "reservations ex1 = reservations ex" and l: "loop_pending l = []" by (simp_all add: ex1_def l_def)
  from assms(1) False have "and_then (reserve_calls env calls l ex1) (\<lambda>l ex2. (Inr (), (flush_repeats l ex2)
      \<lparr>reservations := add_reservations (loop_pending l) (reservations ex2)\<rparr>)) = (Inr (), ex')"
    unfolding reserve_tool_calls_def
    by (auto simp: Let_def elim!: guarded_cases split: if_splits simp flip: ex1_def l_def)
  then obtain l' ex2 where run: "reserve_calls env calls l ex1 = (Inr l', ex2)"
    and ex': "reservations ex' = add_reservations (loop_pending l') (reservations ex2)"
    by (rule and_then_cases) (auto simp: flush_repeats_def)
  from reserve_calls_ids [OF run] reserve_calls_same [OF run] l assms(2) ex1 show ?thesis
    by (auto simp: ex' add_reservations_ids reserved_ids_def)
qed

lemma assistant_texts_reservations:
  "reservations (foldl (record_assistant_text env) ex ms) = reservations ex"
  by (induction ms arbitrary: ex) (simp_all add: record_assistant_text_def record_progress_def Let_def)

lemma count_response_effect:
  assumes "count_response env now m st = (Inr (), st')"
  shows "rc_pending_call (fst st') = rc_pending_call (fst st) \<and> rc_completed_call (fst st') = rc_completed_call (fst st)
    \<and> (\<forall>i \<in> fst ` set (reservations (rc_execution (fst st'))).
          i \<in> fst ` set (reservations (rc_execution (fst st))) \<or> PStr i \<in> set (call_ids (ai_tool_calls m)))"
proof -
  obtain ex where ex: "after_model_response env now [m] (rc_execution (fst st)) = (Inr (), ex)"
    and st': "fst st' = (fst st)\<lparr>rc_execution := ex\<rparr>"
    using assms
    by (auto simp: count_response_def on_execution_def locally_def split: prod.splits sum.splits)
  have "\<forall>i \<in> fst ` set (reservations ex). i \<in> fst ` set (reservations (rc_execution (fst st)))
      \<or> PStr i \<in> set (call_ids (ai_tool_calls m))"
  proof (cases "ai_tool_calls m = []")
    case True
    with ex show ?thesis
      using assistant_texts_reservations [of env "rc_execution (fst st)" "[m]"]
      by (auto simp: after_model_response_def Let_def)
  next
    case False
    with ex have "reserve_tool_calls env now (ai_tool_calls m)
        (foldl (record_assistant_text env) (rc_execution (fst st)) [m]) = (Inr (), ex)"
      by (simp add: after_model_response_def Let_def)
    from reserved_externals [OF this] show ?thesis unfolding assistant_texts_reservations by blast
  qed
  with st' show ?thesis by simp
qed


section \<open>A direct answer, step by step\<close>

definition direct_start :: "unit rt" where
  "direct_start = (new_context (demo_run\<lparr>visible_tool_ids := []\<rparr>)
     \<lparr>builder_version = lit ''1.0.0'', context_layers = [], conversation = [], external_tool_data = []\<rparr>, ())"

definition direct_rt :: "unit rt" where
  "direct_rt = snd (on_execution (locally (before_model_call 6)) direct_start)"

definition direct_begun :: "unit rt" where
  "direct_begun = snd (on_execution (begin_provider_attempt 6 6 demo_attempt_id DirectCall None) direct_rt)"

definition plain_request :: model_request where
  "plain_request = \<lparr>mr_messages = [OtherMessage (lit ''human'') (PStr (lit ''hi''))], mr_system = None,
     mr_tools = [], mr_tool_choice = None, mr_settings = [], mr_response_format = False\<rparr>"

definition direct_request :: model_request where
  "direct_request = answer_request (fst direct_rt) plain_request"

definition ready_round :: "unit stream_round" where
  "ready_round = \<lparr>sr_clock = (\<lambda>_. 6), sr_ready = True, sr_others = (\<lambda>p. p), sr_broken = (\<lambda>_. None)\<rparr>"

definition direct_script :: "unit stream_script" where
  "direct_script = \<lparr>ss_now = 6, ss_started_at = 6, ss_attempt = demo_attempt_id,
     ss_provider = (\<lambda>_. [ItemChunk (demo_chunk (lit ''hello''))]), ss_rounds = replicate 4 ready_round,
     ss_finished_at = 7, ss_broken = (\<lambda>_. None)\<rparr>"

lemma direct_request_free: "tool_free direct_request"
  by (simp add: tool_free_def direct_request_def answer_request_def plain_request_def
      FORBIDDEN_MODEL_SETTINGS_def)

lemma demo_chunk_text:
  "observe_chunk_usage c attempt (demo_chunk t) ex = (Inr (), ex)" "public_chunk_text (demo_chunk t) = Inr t"
  by (simp_all add: demo_chunk_def observe_chunk_usage_def usage_from_message_def public_chunk_text_def
      ai_text_def has_tool_signal_def names_one_of_def signal_keys_def dict_get_def)

lemma hello_kept: "flush_prefix_length (lit ''hello'') = 0" "py_strip (lit ''hello'') = lit ''hello''"
  "frames (lit ''hello'') = [lit ''hello'']" "length (lit ''hello'') = 5"
  by (simp_all add: flush_prefix_length_def stream_constants PHRASE_BOUNDARIES_def lit_def py_strip_def
      frames.simps is_space_def)

lemma hello_flush:
  "fs_buffer l = lit ''hello'' \<Longrightarrow> flush_prefixes clock broken n l ctx = (Inr (), l, ctx)"
  by (subst flush_prefixes.simps) (simp add: hello_kept)

lemma direct_rounds:
  "\<exists>l. stream_rounds c attempt 8000 (ss_rounds direct_script) [ItemChunk (demo_chunk (lit ''hello''))] no_text st
     = (Some (Inr ()), l, st) \<and> fs_parts l = [lit ''hello''] \<and> fs_buffer l = lit ''hello''"
proof -
  have "append_delta (\<lambda>_. 6) (\<lambda>_. None) 8000 (lit ''hello'') no_text ctx
      = (Inr (), \<lparr>fs_parts = [lit ''hello''], fs_buffer = lit ''hello'', fs_visible = True, fs_chars = 5,
           fs_flush_at = Some (6 + STREAM_DELTA_MAX_WAIT_SECONDS)\<rparr>, ctx)" for ctx :: "unit runtime_context"
    by (simp add: append_delta_def hello_flush hello_kept no_text_def Let_def)
  then show ?thesis
    by (cases st) (simp add: direct_script_def ready_round_def numeral_eq_Suc flush_due_def take_chunk_def
        demo_chunk_text no_text_def meanwhile_def STREAM_DELTA_MAX_WAIT_SECONDS_def)
qed

lemma direct_rt_fields:
  "rc_events (fst direct_rt) = []" "rc_final_text (fst direct_rt) = None"
  "accepted_sources (rc_execution (fst direct_rt)) = []" "ex_agent (rc_execution (fst direct_rt)) = demo_agent"
  "provider_usage (rc_execution (fst direct_rt)) = new_ledger 5" "deadline_at (rc_execution (fst direct_rt)) = 65"
  "visible_tool_ids (rc_execution (fst direct_rt)) = []"
  by (simp_all add: direct_rt_def direct_start_def on_execution_def locally_def new_context_def demo_run_def
      new_execution_def before_model_call_def guarded_def ensure_deadline_def demo_agent_def
      count_model_step_def Let_def)

lemma demo_attempt_length: "length demo_attempt_id = 36"
  by (simp add: demo_attempt_id_def)

lemma demo_attempt_start: "valid_attempt_start \<lparr>start_attempt_id = demo_attempt_id, call_index = 1, attempt_index = 1,
    call_kind = DirectCall\<rparr>"
  by (simp add: valid_attempt_start_def demo_attempt_length)

lemma direct_attempt:
  "on_execution (begin_provider_attempt 6 6 demo_attempt_id DirectCall None) direct_rt
     = (Inr demo_attempt_id, direct_begun)"
  by (simp add: direct_begun_def on_execution_def begin_provider_attempt_def ensure_deadline_def
      direct_rt_fields with_usage_def begin_attempt_def register_attempt_def new_ledger_def
      demo_attempt_start Let_def)

lemma direct_finished:
  "\<exists>st. on_execution (finish_provider_attempt 7 demo_attempt_id Succeeded) direct_begun = (Inr (), st)
     \<and> rc_events (fst st) = [] \<and> rc_final_text (fst st) = None
     \<and> accepted_sources (rc_execution (fst st)) = [] \<and> visible_tool_ids (rc_execution (fst st)) = []"
  by (simp add: direct_begun_def on_execution_def begin_provider_attempt_def ensure_deadline_def
      direct_rt_fields with_usage_def begin_attempt_def register_attempt_def new_ledger_def
      demo_attempt_start finish_provider_attempt_def finish_attempt_def finish_attempt_reserve_def
      finish_attempt_commit_def find_attempt_def put_attempt_def new_attempt_def
      valid_attempt_finish_def demo_attempt_length finish_statuses_def persist_pending_finish_def Let_def)

lemma direct_stream:
  "\<exists>st. stream_final_response plain_codec direct_script direct_request DirectCall direct_rt
       = (Some (Inr (lit ''hello'')), st)
     \<and> rc_events (fst st) = [delta_event (lit ''hello'')] \<and> rc_final_text (fst st) = None
     \<and> accepted_sources (rc_execution (fst st)) = []"
proof -
  obtain st where st: "on_execution (finish_provider_attempt 7 demo_attempt_id Succeeded) direct_begun = (Inr (), st)"
    "rc_events (fst st) = []" "rc_final_text (fst st) = None" "accepted_sources (rc_execution (fst st)) = []"
    using direct_finished by blast
  obtain l where l: "stream_rounds plain_codec demo_attempt_id 8000 (ss_rounds direct_script)
      [ItemChunk (demo_chunk (lit ''hello''))] no_text direct_begun = (Some (Inr ()), l, direct_begun)"
    "fs_parts l = [lit ''hello'']" "fs_buffer l = lit ''hello''"
    using direct_rounds by blast
  have fields: "ss_now direct_script = 6" "ss_started_at direct_script = 6" "ss_attempt direct_script = demo_attempt_id"
    "ss_provider direct_script ms = [ItemChunk (demo_chunk (lit ''hello''))]" "ss_finished_at direct_script = 7"
    "ss_broken direct_script = (\<lambda>_. None)" for ms
    by (simp_all add: direct_script_def)
  have "conclude_stream (\<lambda>_. None) l st = (Inr (lit ''hello''), (fst st)\<lparr>rc_public_events := rc_public_events (fst st) + 1,
      rc_events := rc_events (fst st) @ [delta_event (lit ''hello'')]\<rparr>, snd st)"
    using l(2,3) by (simp add: conclude_stream_def hello_kept emit_stream_chunk_def emit_public_def Let_def)
  then show ?thesis
    using st l(1)
    by (simp add: stream_final_response_def direct_request_free fields direct_rt_fields direct_attempt demo_agent_def)
qed

theorem answer_stream_lossless_witness:
  "\<exists>st :: unit rt. \<exists>deltas. stream_final_response plain_codec direct_script direct_request DirectCall direct_rt
       = (Some (Inr (concat deltas)), st)
     \<and> rc_events (fst st) = map delta_event deltas \<and> concat deltas = lit ''hello''"
proof -
  obtain st where st: "stream_final_response plain_codec direct_script direct_request DirectCall direct_rt
      = (Some (Inr (lit ''hello'')), st)"
    using direct_stream by blast
  obtain deltas where "rc_events (fst st) = map delta_event deltas" "lit ''hello'' = concat deltas"
    using answer_stream_lossless [OF st] direct_rt_fields(1) by auto
  with st show ?thesis by (intro exI [of _ st] exI [of _ deltas]) simp
qed

theorem answer_stream_returns_witness:
  "fst (stream_final_response plain_codec direct_script direct_request DirectCall direct_rt) \<noteq> None"
  by (rule answer_stream_returns) (simp_all add: direct_script_def ready_round_def)

definition direct_policy :: "unit policy_script" where
  "direct_policy = \<lparr>ps_now = 6, ps_direct = direct_script,
     ps_decision = \<lparr>ds_now = 6, ds_started_at = 6, ds_attempt = [], ds_finished_at = 6, ds_checked_at = 6,
       ds_remaining_at = 6, ds_pause = None, ds_retry_now = 6, ds_retry_begin = 6, ds_retry_started_at = 6,
       ds_retry_attempt = [], ds_retry_finished_at = 6\<rparr>,
     ps_handler = (\<lambda>n request st. (Inl CancelledFailure, st)), ps_counted_at = 8, ps_signalled_at = 8\<rparr>"

lemma direct_kept:
  assumes "accepted_sources (rc_execution (fst st)) = []"
  shows "\<exists>st'. keep_answer hex_env 8 None (lit ''hello'') st = (Inr (ai_text None (lit ''hello'') []), st')
    \<and> rc_events (fst st') = rc_events (fst st) \<and> rc_final_text (fst st') = Some (lit ''hello'')
    \<and> accepted_sources (rc_execution (fst st')) = []"
  using assms
  by (simp add: keep_answer_def on_execution_def locally_def after_model_response_def record_assistant_text_def
      record_progress_def ai_text_def ai_message.truncate_def Let_def)

lemma direct_policy_run:
  "\<exists>st. apply_model_policy plain_codec hex_env direct_policy plain_request direct_start
       = (Some (Inr \<lparr>mp_result = [AiMessage (ai_text None (lit ''hello'') [])], mp_structured = False\<rparr>), st)
     \<and> rc_events (fst st) = [delta_event (lit ''hello'')] \<and> rc_final_text (fst st) = Some (lit ''hello'')
     \<and> accepted_sources (rc_execution (fst st)) = []"
proof -
  obtain st where st: "stream_final_response plain_codec direct_script direct_request DirectCall direct_rt
      = (Some (Inr (lit ''hello'')), st)"
    "rc_events (fst st) = [delta_event (lit ''hello'')]" "accepted_sources (rc_execution (fst st)) = []"
    using direct_stream by blast
  from direct_kept [OF st(3)] obtain st' where st': "keep_answer hex_env 8 None (lit ''hello'') st
      = (Inr (ai_text None (lit ''hello'') []), st')" "rc_events (fst st') = rc_events (fst st)"
    "rc_final_text (fst st') = Some (lit ''hello'')" "accepted_sources (rc_execution (fst st')) = []" by blast
  have "on_execution (locally (before_model_call 6)) direct_start = (Inr (), direct_rt)"
    by (simp add: direct_rt_def direct_start_def on_execution_def locally_def new_context_def demo_run_def
        new_execution_def before_model_call_def guarded_def ensure_deadline_def demo_agent_def
        count_model_step_def Let_def)
  with st st' show ?thesis
    by (simp add: apply_model_policy_def direct_policy_def direct_rt_fields flip: direct_request_def)
qed

theorem runtime_result_streamed_witness:
  "\<exists>(st :: unit rt) r. runner_result (Some [AiMessage (ai_text None (lit ''hello'') [])]) (fst st) = Inr r
     \<and> rc_events (fst st) = [delta_event (lit ''hello'')] \<and> result_text r = lit ''hello''
     \<and> result_text r = shown (rc_events (fst st)) \<and> py_strip (result_text r) \<noteq> []"
proof -
  obtain st where run: "apply_model_policy plain_codec hex_env direct_policy plain_request direct_start
      = (Some (Inr \<lparr>mp_result = [AiMessage (ai_text None (lit ''hello'') [])], mp_structured = False\<rparr>), st)"
    and st: "rc_events (fst st) = [delta_event (lit ''hello'')]" "rc_final_text (fst st) = Some (lit ''hello'')"
    "accepted_sources (rc_execution (fst st)) = []"
    using direct_policy_run by blast
  have "quiet_model (ps_handler direct_policy)" by (simp add: quiet_model_def direct_policy_def)
  from policy_model [OF this run] have "runtime_step plain_codec hex_env (True, direct_start) (True, st)" by simp
  moreover have "runtime_init (True, direct_start)" by (auto simp: runtime_init_def direct_start_def)
  ultimately have reached: "reaches runtime_init (runtime_step plain_codec hex_env) (True, st)"
    by (meson reaches_init reaches_step)
  obtain r where r: "runner_result (Some [AiMessage (ai_text None (lit ''hello'') [])]) (fst st) = Inr r"
    "result_text r = lit ''hello''"
    using st by (auto simp: runner_result_def terminal_state_text_def terminal_assistant_text_def ai_text_def
        make_agent_result_def generated_source_ids_def valid_agent_result_def len_between_def
        valid_source_ids_def hello_kept Let_def)
  from runtime_result_streamed [OF reached r(1)] r st(1) show ?thesis
    by (intro exI [of _ st] exI [of _ r]) simp
qed

section \<open>A batch with a Tool and the control call\<close>

definition demo_control :: pdict where
  "demo_control = make_tool_call (lit ''c'') FINALIZE_CONTROL_TOOL_ID []"

definition demo_decision_message :: model_message where
  "demo_decision_message = ai_text None [] [demo_call, demo_control]"

definition deciding :: "unit rt" where
  "deciding = (new_context demo_run
     \<lparr>builder_version = lit ''1.0.0'', context_layers = [], conversation = [], external_tool_data = []\<rparr>, ())"

lemma demo_calls:
  "is_control demo_control" "\<not> is_control demo_call"
  "dict_get demo_control (lit ''id'') = PStr (lit ''c'')" "dict_get demo_control (lit ''args'') = PDict []"
  "dict_get demo_call (lit ''id'') = PStr (lit ''call-1'')"
  by (simp_all add: is_control_def demo_control_def demo_call_def make_tool_call_def dict_get_def lit_def
      FINALIZE_CONTROL_TOOL_ID_def)

lemma strip_nothing: "py_strip [] = []"
  by (simp add: py_strip_def)

lemma demo_message:
  "ai_tool_calls demo_decision_message = [demo_call, demo_control]"
  "content_text (ai_content demo_decision_message) = []" "mm_invalid_calls demo_decision_message = []"
  "mm_name demo_decision_message = None"
  by (simp_all add: demo_decision_message_def ai_text_def)

lemma demo_terminal: "all_terminal (demo_run :: unit execution) [demo_call] = Inr True"
  by (simp add: terminal_call_def demo_call_def dict_get_def lit_def demo_run_def new_execution_def
      require_tool_def demo_registry_def time_tool_def)

lemma demo_counted:
  obtains st :: "unit rt" where "count_response hex_env 8
      (ai_message.truncate demo_decision_message\<lparr>ai_tool_calls := [demo_call]\<rparr>) deciding = (Inr (), st)"
    "deadline_at (rc_execution (fst st)) = 65"
proof -
  have "\<exists>ex. reserve_tool_calls hex_env 8 [demo_call] (demo_run :: unit execution) = (Inr (), ex) \<and> deadline_at ex = 65"
    by (simp add: reserve_tool_calls_def guarded_def ensure_deadline_def
        demo_run_def new_execution_def call_parts_def demo_call_def canonicalize_call_def
        require_tool_def demo_registry_def time_tool_def demo_impl_def hex_env_def demo_env_def
        demo_agent_def count_repeat_def flush_repeats_def add_reservations_def Let_def)
  then obtain ex where "reserve_tool_calls hex_env 8 [demo_call] (demo_run :: unit execution) = (Inr (), ex)"
    "deadline_at ex = 65" by blast
  then show ?thesis
    by (intro that [of "((fst deciding)\<lparr>rc_execution := ex\<rparr>, ())"])
      (simp_all add: count_response_def on_execution_def locally_def after_model_response_def
        record_assistant_text_def demo_decision_message_def ai_text_def ai_message.truncate_def
        deciding_def new_context_def)
qed


definition finalizing :: "unit runtime_context" where
  "finalizing = (fst deciding)\<lparr>rc_finalizer_request := Some plain_request, rc_completed_call := Some (lit ''c'')\<rparr>"

definition demo_result :: "string \<Rightarrow> tool_message" where
  "demo_result i = \<lparr>tm_call_id = lit i, tm_name = None, tm_status = lit ''success'', tm_content = PStr (lit ''ok'')\<rparr>"

definition demo_history :: "chat_message list" where
  "demo_history = mr_messages plain_request
     @ [AiMessage demo_decision_message, ToolResult (demo_result ''call-1''), ToolResult (demo_result ''c'')]"


end
