(* ===== verification/Http_Text.thy ===== *)
theory Http_Text
  imports Views Context_Builder
begin

text \<open>
  The text formats of the HTTP interface: a JSON value as \<open>json.dumps\<close> writes it, \<open>int\<close> of a query
  parameter or a header, a server-sent event, and how a client reads a stream of them back.
\<close>

section \<open>JSON\<close>

text \<open>
  \<open>json.dumps(value, ensure_ascii=False, separators=(',', ':'))\<close>. The text of a float is a
  parameter.
\<close>

definition hex_char :: "nat \<Rightarrow> nat" where
  "hex_char n = (if n < 10 then 48 + n else 87 + n)"

definition json_char :: "nat \<Rightarrow> pystr" where
  "json_char ch =
     (if ch = 34 then [92, 34]
      else if ch = 92 then [92, 92]
      else if ch = 10 then lit (CHR 92 # ''n'')
      else if ch = 13 then lit (CHR 92 # ''r'')
      else if ch = 9 then lit (CHR 92 # ''t'')
      else if ch = 12 then lit (CHR 92 # ''f'')
      else if ch = 8 then lit (CHR 92 # ''b'')
      else if ch < 32 then lit (CHR 92 # ''u00'') @ [hex_char (ch div 16), hex_char (ch mod 16)]
      else [ch])"

definition json_string :: "pystr \<Rightarrow> pystr" where
  "json_string s = [34] @ concat (map json_char s) @ [34]"

fun json_text :: "(rat \<Rightarrow> pystr) \<Rightarrow> pval \<Rightarrow> pystr"
  and json_items :: "(rat \<Rightarrow> pystr) \<Rightarrow> pval list \<Rightarrow> pystr list"
  and json_entries :: "(rat \<Rightarrow> pystr) \<Rightarrow> pdict \<Rightarrow> pystr list" where
  "json_text fl PNone = lit ''null''"
| "json_text fl (PBool b) = (if b then lit ''true'' else lit ''false'')"
| "json_text fl (PInt n) = int_text n"
| "json_text fl (PFloat r) = fl r"
| "json_text fl (PStr s) = json_string s"
| "json_text fl (PList vs) = [91] @ py_join [44] (json_items fl vs) @ [93]"
| "json_text fl (PDict d) = [123] @ py_join [44] (json_entries fl d) @ [125]"
| "json_items fl [] = []"
| "json_items fl (v # vs) = json_text fl v # json_items fl vs"
| "json_entries fl [] = []"
| "json_entries fl ((k, v) # d) = (json_string k @ [58] @ json_text fl v) # json_entries fl d"

text \<open>A JSON text is one line.\<close>

definition one_line :: "pystr \<Rightarrow> bool" where
  "one_line s \<longleftrightarrow> 10 \<notin> set s \<and> 13 \<notin> set s"

lemma one_line_simps [simp]:
  "one_line []" "one_line (ch # s) \<longleftrightarrow> ch \<noteq> 10 \<and> ch \<noteq> 13 \<and> one_line s"
  "one_line (s @ t) \<longleftrightarrow> one_line s \<and> one_line t"
  by (auto simp: one_line_def)

lemma one_line_concat [simp]: "one_line (concat ss) \<longleftrightarrow> list_all one_line ss"
  by (induction ss) simp_all

lemma one_line_join: "one_line sep \<Longrightarrow> list_all one_line ss \<Longrightarrow> one_line (py_join sep ss)"
  by (induction sep ss rule: py_join.induct) simp_all

lemma one_line_nat: "one_line (nat_text n)"
proof (induction n rule: nat_text.induct)
  case (1 n)
  then show ?case by (subst nat_text.simps) auto
qed

lemma one_line_int: "one_line (int_text n)"
  by (simp add: int_text_def one_line_nat)

lemma one_line_json_string: "one_line (json_string s)"
proof -
  have "one_line (json_char ch)" for ch
    by (simp add: json_char_def hex_char_def lit_def)
  then show ?thesis by (simp add: json_string_def list_all_iff)
qed

lemma one_line_json:
  assumes "\<And>r. one_line (fl r)"
  shows "one_line (json_text fl v)" and "list_all one_line (json_items fl vs)"
    and "list_all one_line (json_entries fl d)"
  using assms
  by (induction fl v and fl vs and fl d rule: json_text_json_items_json_entries.induct)
    (auto simp: one_line_json_string one_line_int lit_def intro!: one_line_join)

section \<open>\<open>int\<close> of a string\<close>

text \<open>
  The value of a decimal digit in Unicode is a parameter. Single underscores may stand between
  digits, white space around the number; a text of more than 4300 digits is refused.
\<close>

fun py_digits :: "(nat \<Rightarrow> nat option) \<Rightarrow> bool \<Rightarrow> nat \<Rightarrow> pystr \<Rightarrow> nat option" where
  "py_digits dv after acc [] = (if after then Some acc else None)"
| "py_digits dv after acc (ch # s) =
     (case dv ch of
        Some d \<Rightarrow> py_digits dv True (acc * 10 + d) s
      | None \<Rightarrow> if ch = 95 \<and> after then py_digits dv False acc s else None)"

definition INT_MAX_STR_DIGITS :: nat where
  "INT_MAX_STR_DIGITS = 4300"

definition py_int :: "(nat \<Rightarrow> nat option) \<Rightarrow> pystr \<Rightarrow> int option" where
  "py_int dv text =
     (let t = py_strip text;
          negative = (case t of ch # _ \<Rightarrow> ch = 45 | [] \<Rightarrow> False);
          body = (case t of ch # s \<Rightarrow> if ch = 43 \<or> ch = 45 then s else t | [] \<Rightarrow> t)
      in if INT_MAX_STR_DIGITS < length (filter (\<lambda>ch. dv ch \<noteq> None) body) then None
         else map_option (\<lambda>n. if negative then - int n else int n) (py_digits dv False 0 body))"

text \<open>\<open>int(str(n))\<close>.\<close>

definition decimal_digits :: "(nat \<Rightarrow> nat option) \<Rightarrow> bool" where
  "decimal_digits dv \<longleftrightarrow> (\<forall>d < 10. dv (48 + d) = Some d)"

lemma nat_text_digits: "\<exists>ds. nat_text n = map ((+) 48) ds \<and> ds \<noteq> [] \<and> (\<forall>d \<in> set ds. d < 10)
    \<and> foldl (\<lambda>x d. x * 10 + d) 0 ds = n \<and> (\<forall>k > 0. n < 10 ^ k \<longrightarrow> length ds \<le> k)"
proof (induction n rule: nat_text.induct)
  case (1 n)
  show ?case
  proof (cases "n < 10")
    case True
    then show ?thesis by (intro exI [of _ "[n]"]) (subst nat_text.simps, auto simp: Suc_le_eq)
  next
    case False
    with 1 obtain ds where ds: "nat_text (n div 10) = map ((+) 48) ds" "ds \<noteq> []" "\<forall>d \<in> set ds. d < 10"
      "foldl (\<lambda>x d. x * 10 + d) 0 ds = n div 10" "\<And>k. 0 < k \<Longrightarrow> n div 10 < 10 ^ k \<Longrightarrow> length ds \<le> k" by blast
    have "length (ds @ [n mod 10]) \<le> k" if "n < 10 ^ k" for k
    proof (cases k)
      case (Suc j)
      then have "n div 10 < 10 ^ j" using that by (simp add: less_mult_imp_div_less mult.commute)
      moreover have "0 < j" using \<open>n div 10 < 10 ^ j\<close> False by (cases j) auto
      ultimately show ?thesis using ds(5) [of j] Suc by simp
    qed (use that False in simp)
    with ds False show ?thesis
      by (intro exI [of _ "ds @ [n mod 10]"]) (subst nat_text.simps, auto)
  qed
qed

lemma py_digits_all:
  assumes "decimal_digits dv" "\<forall>d \<in> set ds. d < 10"
  shows "py_digits dv after acc (map ((+) 48) ds)
    = (if ds = [] \<and> \<not> after then None else Some (foldl (\<lambda>x d. x * 10 + d) acc ds))"
  using assms(2) by (induction ds arbitrary: after acc) (use assms(1) in \<open>auto simp: decimal_digits_def\<close>)

lemma py_int_text:
  assumes dv: "decimal_digits dv" and n: "0 \<le> n" "n < 2 ^ 63"
  shows "py_int dv (int_text n) = Some n"
proof -
  obtain ds where ds: "nat_text (nat n) = map ((+) 48) ds" "ds \<noteq> []" "\<forall>d \<in> set ds. d < 10"
    "foldl (\<lambda>x d. x * 10 + d) 0 ds = nat n" "nat n < 10 ^ 19 \<longrightarrow> length ds \<le> 19"
    using nat_text_digits [of "nat n"] by force
  have shape: "int_text n = map ((+) 48) ds" using n(1) ds(1) by (simp add: int_text_def)
  have blank: "\<not> is_space (48 + d)" if "d < 10" for d using that by (auto simp: is_space_def)
  have keep: "dropWhile is_space (map ((+) 48) es) = map ((+) 48) es" if "\<forall>d \<in> set es. d < 10" for es
    using that blank by (cases es) auto
  have strip: "py_strip (map ((+) 48) ds) = map ((+) 48) ds"
    using keep [of ds] keep [of "rev ds"] ds(3) by (simp add: py_strip_def rev_map)
  have "length ds \<le> 19" using ds(5) n by simp
  then have "length (filter (\<lambda>ch. dv ch \<noteq> None) (map ((+) 48) ds)) \<le> INT_MAX_STR_DIGITS"
    by (intro order_trans [OF length_filter_le]) (simp add: INT_MAX_STR_DIGITS_def)
  moreover obtain d es where es: "ds = d # es" "d < 10" using ds(2,3) by (cases ds) auto
  ultimately show ?thesis
    using py_digits_all [OF dv ds(3), of False 0] ds(4) n(1) unfolding shape py_int_def strip Let_def
    by (auto simp: es(1) linorder_not_less)
qed

section \<open>Server-sent events\<close>

definition dump_envelope :: "codec \<Rightarrow> event_envelope \<Rightarrow> pval" where
  "dump_envelope c e =
     PDict (py_dict
       [(''event_id'', PStr (ee_event_id e)), (''run_id'', PStr (ee_run_id e)),
        (''thread_id'', PStr (ee_thread_id e)), (''seq'', PInt (ee_seq e)), (''type'', PStr (ee_type e)),
        (''occurred_at'', dump_time c (ee_occurred_at e)), (''data'', PDict (ee_data e))])"

definition sse :: "codec \<Rightarrow> (rat \<Rightarrow> pystr) \<Rightarrow> event_envelope \<Rightarrow> pystr" where
  "sse c fl e =
     lit ''id: '' @ int_text (ee_seq e) @ [10]
     @ lit ''event: '' @ ee_type e @ [10]
     @ lit ''data: '' @ json_text fl (dump_envelope c e) @ [10, 10]"

definition served :: "codec \<Rightarrow> (rat \<Rightarrow> pystr) \<Rightarrow> event_envelope option list \<Rightarrow> pystr" where
  "served c fl out =
     concat (map (\<lambda>item. case item of None \<Rightarrow> lit '': keep-alive'' @ [10, 10] | Some e \<Rightarrow> sse c fl e) out)"

section \<open>Reading a stream\<close>

text \<open>
  The event-stream format of the HTML standard, as a client reads it: complete lines, comments, the
  three fields the server uses, and an event at every blank line that follows data.
\<close>

fun complete_lines :: "bool \<Rightarrow> pystr \<Rightarrow> pystr \<Rightarrow> pystr list" where
  "complete_lines cr line [] = []"
| "complete_lines cr line (ch # s) =
     (if ch = 10 then (if cr then [] else [rev line]) @ complete_lines False [] s
      else if ch = 13 then rev line # complete_lines True [] s
      else complete_lines False (ch # line) s)"

definition field_of :: "pystr \<Rightarrow> pystr \<times> pystr" where
  "field_of line =
     (let name = takeWhile (\<lambda>ch. ch \<noteq> 58) line;
          rest = drop (length name + 1) line
      in (name, case rest of ch # s \<Rightarrow> if ch = 32 then s else rest | [] \<Rightarrow> []))"

fun read_lines :: "pystr \<Rightarrow> pystr \<Rightarrow> pystr list \<Rightarrow> pystr list \<Rightarrow> (pystr \<times> pystr \<times> pystr) list" where
  "read_lines lid kind data [] = []"
| "read_lines lid kind data (line # ls) =
     (if line = [] then
        (if data = [] then []
         else [(lid, if kind = [] then lit ''message'' else kind, py_join [10] data)])
        @ read_lines lid [] [] ls
      else if hd line = 58 then read_lines lid kind data ls
      else
        (case field_of line of
           (name, v) \<Rightarrow>
             if name = lit ''event'' then read_lines lid v data ls
             else if name = lit ''data'' then read_lines lid kind (data @ [v]) ls
             else if name = lit ''id'' \<and> 0 \<notin> set v then read_lines v kind data ls
             else read_lines lid kind data ls))"

definition sse_read :: "pystr \<Rightarrow> (pystr \<times> pystr \<times> pystr) list" where
  "sse_read stream = read_lines [] [] [] (complete_lines False [] stream)"

lemma complete_line:
  "one_line s \<Longrightarrow> complete_lines False line (s @ 10 # rest) = (rev line @ s) # complete_lines False [] rest"
  by (induction s arbitrary: line) auto

lemma field_parts:
  "field_of (lit ''id: '' @ v) = (lit ''id'', v)" "field_of (lit ''event: '' @ v) = (lit ''event'', v)"
  "field_of (lit ''data: '' @ v) = (lit ''data'', v)"
  by (simp_all add: field_of_def lit_def)

lemma int_text_chars: "0 \<notin> set (int_text n)"
proof -
  have "0 \<notin> set (nat_text k)" for k
  proof (induction k rule: nat_text.induct)
    case (1 k)
    then show ?case by (subst nat_text.simps) auto
  qed
  then show ?thesis by (simp add: int_text_def)
qed

definition event_item :: "codec \<Rightarrow> (rat \<Rightarrow> pystr) \<Rightarrow> event_envelope \<Rightarrow> pystr \<times> pystr \<times> pystr" where
  "event_item c fl e = (int_text (ee_seq e), ee_type e, json_text fl (dump_envelope c e))"

lemma read_frame:
  assumes "one_line (ee_type e)" "ee_type e \<noteq> []" "\<And>r. one_line (fl r)"
  shows "read_lines lid [] [] (complete_lines False [] (sse c fl e @ rest))
    = event_item c fl e # read_lines (int_text (ee_seq e)) [] [] (complete_lines False [] rest)"
proof -
  define data where "data = json_text fl (dump_envelope c e)"
  have "complete_lines False [] (sse c fl e @ rest)
      = (lit ''id: '' @ int_text (ee_seq e)) # (lit ''event: '' @ ee_type e) # (lit ''data: '' @ data)
        # [] # complete_lines False [] rest"
    using complete_line [of "lit ''id: '' @ int_text (ee_seq e)" "[]"]
      complete_line [of "lit ''event: '' @ ee_type e" "[]"] complete_line [of "lit ''data: '' @ data" "[]"]
      complete_line [of "[]" "[]"] one_line_json(1) [of fl, OF assms(3)] assms(1)
    by (simp add: sse_def data_def one_line_int lit_def)
  moreover have "hd (lit ''id: '' @ s) \<noteq> 58" "hd (lit ''event: '' @ s) \<noteq> 58" "hd (lit ''data: '' @ s) \<noteq> 58" for s
    by (simp_all add: lit_def)
  ultimately show ?thesis
    using assms(2) by (simp add: field_parts int_text_chars event_item_def data_def)
qed

lemma read_keep_alive:
  "read_lines lid [] [] (complete_lines False [] ((lit '': keep-alive'' @ [10, 10]) @ rest))
    = read_lines lid [] [] (complete_lines False [] rest)"
  by (simp add: lit_def)

lemma sse_read_served:
  assumes "\<forall>e. Some e \<in> set out \<longrightarrow> one_line (ee_type e) \<and> ee_type e \<noteq> []" "\<And>r. one_line (fl r)"
  shows "sse_read (served c fl out) = map (event_item c fl) (List.map_filter id out)"
proof -
  have "read_lines lid [] [] (complete_lines False [] (served c fl out))
      = map (event_item c fl) (List.map_filter id out)" for lid
    using assms(1)
  proof (induction out arbitrary: lid)
    case (Cons item out)
    show ?case
    proof (cases item)
      case None
      with Cons read_keep_alive show ?thesis by (simp add: served_def map_filter_simps)
    next
      case (Some e)
      with Cons read_frame [of e fl lid c "served c fl out"] assms(2) show ?thesis
        by (simp add: served_def map_filter_simps)
    qed
  qed (simp add: served_def map_filter_simps)
  then show ?thesis by (simp add: sse_read_def)
qed

end
