(* ===== verification/Api.thy ===== *)
theory Api
  imports Stream_Safety Http_Text
begin

text \<open>
  api.py and main.py: what a request gets back. An endpoint has its dependencies, in the order the
  framework resolves them (the Principal, the origin, the ownership of a thread), and maps the
  exceptions it names to a status and a code; the application maps one more. The framework itself
  (routing, validation of the body, the event loop) is not modelled: an endpoint gets the validated
  values of its body and its path.
\<close>

section \<open>Replies\<close>

datatype 'a reply = Reply 'a | HttpError nat pystr | Unhandled failure

record http_request =
  hr_principal :: "principal option"
  hr_origins :: "pystr list"

fun then_reply :: "'b reply \<times> 's \<Rightarrow> ('b \<Rightarrow> 's \<Rightarrow> 'a reply \<times> 's) \<Rightarrow> 'a reply \<times> 's" where
  "then_reply (Reply x, st) k = k x st"
| "then_reply (HttpError s code, st) k = (HttpError s code, st)"
| "then_reply (Unhandled f, st) k = (Unhandled f, st)"

type_synonym handled = "failure \<Rightarrow> (nat \<times> pystr) option"

text \<open>The handler of the application for an exception no endpoint caught.\<close>

fun repository_unavailable :: "failure \<Rightarrow> 'a reply" where
  "repository_unavailable (Raised (RepositoryUnavailableError reason)) =
     HttpError 503 (lit ''service_unavailable'')"
| "repository_unavailable f = Unhandled f"

definition respond :: "handled \<Rightarrow> failure + 'a \<Rightarrow> 'a reply" where
  "respond catch r =
     (case r of
        Inr x \<Rightarrow> Reply x
      | Inl f \<Rightarrow> (case catch f of Some (s, code) \<Rightarrow> HttpError s code | None \<Rightarrow> repository_unavailable f))"

text \<open>The \<open>except\<close> clauses: the first handler that knows the exception.\<close>

definition or_else :: "handled \<Rightarrow> handled \<Rightarrow> handled" where
  "or_else h k f = (case h f of None \<Rightarrow> k f | answer \<Rightarrow> answer)"

definition uncaught :: handled where
  "uncaught f = None"

fun not_found :: "string \<Rightarrow> handled" where
  "not_found resource (Raised (ResourceNotFoundError r)) = Some (404, lit (resource @ ''_not_found''))"
| "not_found resource f = None"

fun forbidden :: "string \<Rightarrow> handled" where
  "forbidden resource (Raised (ResourceForbiddenError k)) = Some (403, lit (resource @ ''_forbidden''))"
| "forbidden resource f = None"

fun idempotency_mismatch :: handled where
  "idempotency_mismatch (Raised IdempotencyMismatchError) = Some (409, lit ''idempotency_mismatch'')"
| "idempotency_mismatch f = None"

fun thread_exists :: handled where
  "thread_exists (Raised InitialThreadExistsError) = Some (409, lit ''thread_already_exists'')"
| "thread_exists f = None"

fun active_run_conflict :: handled where
  "active_run_conflict (Raised ActiveRunConflictError) = Some (409, lit ''thread_has_active_run'')"
| "active_run_conflict f = None"

fun admission_failures :: handled where
  "admission_failures AdmissionTimeout = Some (503, lit ''run_admission_timeout'')"
| "admission_failures CleanupTimeout = Some (503, lit ''service_unavailable'')"
| "admission_failures (ServiceUnavailable reason) = Some (503, lit ''service_unavailable'')"
| "admission_failures f = None"

fun cancel_failures :: handled where
  "cancel_failures CleanupTimeout = Some (503, lit ''service_unavailable'')"
| "cancel_failures (ServiceUnavailable reason) = Some (503, lit ''service_unavailable'')"
| "cancel_failures TimedOut = Some (503, lit ''service_unavailable'')"
| "cancel_failures f = None"

section \<open>Dependencies\<close>

definition current_principal :: "http_request \<Rightarrow> principal reply" where
  "current_principal rq =
     (case hr_principal rq of None \<Rightarrow> HttpError 401 (lit ''authentication_required'') | Some p \<Rightarrow> Reply p)"

definition trusted_mutation_origin :: "pystr list \<Rightarrow> http_request \<Rightarrow> unit reply" where
  "trusted_mutation_origin cors_origins rq =
     (if hr_origins rq = [] then Reply ()
      else if length (hr_origins rq) \<noteq> 1 \<or> hd (hr_origins rq) \<notin> set cors_origins
      then HttpError 403 (lit ''origin_forbidden'') else Reply ())"

definition reading :: "handled \<Rightarrow> (db \<Rightarrow> exn + 'a) \<Rightarrow> 'x sys \<Rightarrow> 'a reply \<times> 'x sys" where
  "reading catch op st =
     (case on_repository (\<lambda>db. (op db, db)) st of (r, st') \<Rightarrow> (respond catch r, st'))"

definition current_owned_thread :: "pystr \<Rightarrow> principal \<Rightarrow> 'x sys \<Rightarrow> unit reply \<times> 'x sys" where
  "current_owned_thread tid p =
     reading (or_else (not_found ''thread'') (forbidden ''thread'')) (require_thread_access tid p)"

fun absent_is_fine :: "failure + unit \<Rightarrow> failure + unit" where
  "absent_is_fine (Inl (Raised (ResourceNotFoundError r))) = Inr ()"
| "absent_is_fine r = r"

definition owned_or_absent_initial_thread ::
  "pystr \<Rightarrow> principal \<Rightarrow> 'x sys \<Rightarrow> unit reply \<times> 'x sys" where
  "owned_or_absent_initial_thread tid p st =
     (case on_repository (\<lambda>db. (require_thread_access tid p db, db)) st of
        (r, st') \<Rightarrow> (respond (forbidden ''thread'') (absent_is_fine r), st'))"

text \<open>The dependencies every endpoint has, and the ones every mutation has.\<close>

definition as_principal ::
  "http_request \<Rightarrow> (principal \<Rightarrow> 'x sys \<Rightarrow> 'a reply \<times> 'x sys) \<Rightarrow> 'x sys \<Rightarrow> 'a reply \<times> 'x sys" where
  "as_principal rq endpoint st = then_reply (current_principal rq, st) endpoint"

definition mutating ::
  "pystr list \<Rightarrow> http_request \<Rightarrow> (principal \<Rightarrow> 'x sys \<Rightarrow> 'a reply \<times> 'x sys) \<Rightarrow> 'x sys \<Rightarrow>
   'a reply \<times> 'x sys" where
  "mutating cors_origins rq endpoint =
     as_principal rq (\<lambda>p st. then_reply (trusted_mutation_origin cors_origins rq, st) (\<lambda>_. endpoint p))"

section \<open>Endpoints on the repository\<close>

definition api_create_thread ::
  "pystr list \<Rightarrow> pystr \<Rightarrow> int \<Rightarrow> pystr option \<Rightarrow> http_request \<Rightarrow> 'x sys \<Rightarrow> thread_snapshot reply \<times> 'x sys" where
  "api_create_thread cors_origins new_id now title rq =
     mutating cors_origins rq (\<lambda>p st.
       case on_repository (create_thread new_id now p title) st of (r, st') \<Rightarrow> (respond uncaught r, st'))"

definition api_list_threads :: "http_request \<Rightarrow> 'x sys \<Rightarrow> thread_summary list reply \<times> 'x sys" where
  "api_list_threads rq = as_principal rq (\<lambda>p. reading uncaught (\<lambda>db. Inr (list_threads p db)))"

definition api_get_account_usage ::
  "codec \<Rightarrow> int \<Rightarrow> usage_range \<Rightarrow> pystr option \<Rightarrow> http_request \<Rightarrow> 'x sys \<Rightarrow> account_usage reply \<times> 'x sys" where
  "api_get_account_usage c now usage_range tid rq =
     as_principal rq (\<lambda>p. reading (not_found ''usage_scope'') (get_account_usage c now p usage_range tid))"

definition api_get_thread ::
  "codec \<Rightarrow> pystr \<Rightarrow> http_request \<Rightarrow> 'x sys \<Rightarrow> thread_snapshot reply \<times> 'x sys" where
  "api_get_thread c tid rq =
     as_principal rq (\<lambda>p. reading (or_else (not_found ''thread'') (forbidden ''thread'')) (get_thread c tid p))"

definition api_rename_thread ::
  "pystr list \<Rightarrow> int \<Rightarrow> pystr \<Rightarrow> pystr \<Rightarrow> http_request \<Rightarrow> 'x sys \<Rightarrow> thread_summary reply \<times> 'x sys" where
  "api_rename_thread cors_origins now tid title rq =
     mutating cors_origins rq (\<lambda>p st.
       then_reply (current_owned_thread tid p st) (\<lambda>_ st1.
       case on_repository (rename_thread now tid p title) st1 of
         (r, st2) \<Rightarrow> (respond (or_else (not_found ''thread'') (forbidden ''thread'')) r, st2)))"

section \<open>Endpoints on the service\<close>

text \<open>
  The policy kernel prepares the execution of a Principal; the launched execution, if any, is the
  second component of the state after a creation.
\<close>

type_synonym host = "world execution option sys"

definition api_create_initial_run ::
  "codec \<Rightarrow> (nat \<Rightarrow> bool) \<Rightarrow> pystr list \<Rightarrow> pystr \<Rightarrow> pystr \<Rightarrow> (principal \<Rightarrow> exn + world execution) \<Rightarrow>
   pystr \<Rightarrow> pystr \<Rightarrow> pystr \<Rightarrow> db \<Rightarrow> http_request \<Rightarrow> host \<Rightarrow> (thread_summary \<times> run_view) reply \<times> host" where
  "api_create_initial_run c cc cors_origins run_id msg_id prepared tid message key snap rq =
     mutating cors_origins rq (\<lambda>p st.
       then_reply (owned_or_absent_initial_thread tid p st) (\<lambda>_ st1.
       case service_create_initial_run c cc run_id msg_id p tid message key snap (prepared p) (fst st1) of
         (r, st2) \<Rightarrow>
           (respond (or_else (not_found ''thread'') (or_else (forbidden ''thread'')
              (or_else idempotency_mismatch (or_else thread_exists admission_failures))))
              (map_sum id (\<lambda>(t, v, _). (t, v)) r), st2)))"

definition api_create_run ::
  "codec \<Rightarrow> pystr list \<Rightarrow> pystr \<Rightarrow> pystr \<Rightarrow> (principal \<Rightarrow> exn + world execution) \<Rightarrow>
   pystr \<Rightarrow> pystr \<Rightarrow> pystr \<Rightarrow> db \<Rightarrow> http_request \<Rightarrow> host \<Rightarrow> run_view reply \<times> host" where
  "api_create_run c cors_origins run_id msg_id prepared tid message key snap rq =
     mutating cors_origins rq (\<lambda>p st.
       then_reply (current_owned_thread tid p st) (\<lambda>_ st1.
       case service_create_run c run_id msg_id p tid message key snap (prepared p) (fst st1) of
         (r, st2) \<Rightarrow>
           (respond (or_else (not_found ''thread'') (or_else (forbidden ''thread'')
              (or_else active_run_conflict admission_failures))) (map_sum id fst r), st2)))"

text \<open>\<open>snd st\<close> is the execution of the Run's task, when it has one.\<close>

definition api_cancel_run ::
  "codec \<Rightarrow> pystr list \<Rightarrow> pystr \<Rightarrow> rat \<Rightarrow> (principal \<Rightarrow> exn + world execution) \<Rightarrow> pystr \<Rightarrow>
   http_request \<Rightarrow> host \<Rightarrow> run_view reply \<times> host" where
  "api_cancel_run c cors_origins event_id tick prepared rid rq =
     mutating cors_origins rq (\<lambda>p st.
       case service_cancel_run c event_id tick rid p (prepared p) st of
         (r, st') \<Rightarrow> (respond (or_else (not_found ''run'') (or_else (forbidden ''run'') cancel_failures)) r, st'))"

section \<open>The event stream\<close>

text \<open>The cursor: the query parameter when there is one, else the header a client resumes with.\<close>

definition parsed_cursor :: "(nat \<Rightarrow> nat option) \<Rightarrow> string \<Rightarrow> pystr \<Rightarrow> int reply" where
  "parsed_cursor dv code value =
     (case py_int dv value of
        None \<Rightarrow> HttpError 422 (lit code)
      | Some n \<Rightarrow> if n < 0 then HttpError 422 (lit code) else Reply n)"

definition event_cursor :: "(nat \<Rightarrow> nat option) \<Rightarrow> pystr option \<Rightarrow> pystr option \<Rightarrow> int reply" where
  "event_cursor dv after_seq last_event_id =
     (case after_seq of
        Some value \<Rightarrow> parsed_cursor dv ''invalid_after_seq'' value
      | None \<Rightarrow>
          (case last_event_id of
             Some value \<Rightarrow> parsed_cursor dv ''invalid_last_event_id'' value
           | None \<Rightarrow> Reply 0))"

text \<open>Before the response starts: its cursor. Then its text.\<close>

definition api_events ::
  "codec \<Rightarrow> (nat \<Rightarrow> nat option) \<Rightarrow> pystr \<Rightarrow> pystr option \<Rightarrow> pystr option \<Rightarrow> http_request \<Rightarrow> 'x sys \<Rightarrow>
   int reply \<times> 'x sys" where
  "api_events c dv rid after_seq last_event_id rq =
     as_principal rq (\<lambda>p st.
       then_reply (reading (or_else (not_found ''run'') (forbidden ''run'')) (get_run c rid p) st)
         (\<lambda>_ st1. (event_cursor dv after_seq last_event_id, st1)))"

definition generate ::
  "codec \<Rightarrow> (rat \<Rightarrow> pystr) \<Rightarrow> pystr \<Rightarrow> principal \<Rightarrow> rat \<Rightarrow> rat \<Rightarrow> int \<Rightarrow> poll_round list \<Rightarrow> pystr \<times> stream_end" where
  "generate c fl rid p poll keepalive cursor rds =
     (case stream_events c rid p poll keepalive cursor 0 rds of (out, e) \<Rightarrow> (served c fl out, e))"

section \<open>Health and the application\<close>

text \<open>The health check of the database is an answer of the driver.\<close>

definition api_health :: "failure + unit \<Rightarrow> service \<Rightarrow> unit reply" where
  "api_health healthcheck sv =
     (if \<not> is_healthy sv then HttpError 503 (lit ''service_unavailable'') else respond uncaught healthcheck)"

record http_scope =
  sc_http :: bool
  sc_path :: pystr
  sc_method :: pystr

definition product_path :: "http_scope \<Rightarrow> bool" where
  "product_path scope \<longleftrightarrow> sc_http scope \<and> py_startswith (sc_path scope) (lit ''/api/'')"

text \<open>
  \<open>PrincipalAuthenticationMiddleware\<close>: the Principal the application gets to see. Nothing else sets
  it, so a request that is passed on unchanged has none.
\<close>

definition authentication_middleware ::
  "(nat \<Rightarrow> bool) \<Rightarrow> http_scope \<Rightarrow> service option \<Rightarrow> provider_answer \<Rightarrow> principal option reply" where
  "authentication_middleware cc scope sv answer =
     (if \<not> product_path scope \<or> sc_method scope = lit ''OPTIONS'' then Reply None
      else if (case sv of None \<Rightarrow> False | Some s \<Rightarrow> \<not> is_healthy s)
      then HttpError 503 (lit ''service_unavailable'')
      else
        (case authenticate_request cc answer of
           None \<Rightarrow> HttpError 401 (lit ''authentication_required'')
         | Some p \<Rightarrow> Reply (Some p)))"

definition product_request ::
  "(nat \<Rightarrow> bool) \<Rightarrow> http_scope \<Rightarrow> provider_answer \<Rightarrow> pystr list \<Rightarrow>
   (http_request \<Rightarrow> 'x sys \<Rightarrow> 'a reply \<times> 'x sys) \<Rightarrow> 'x sys \<Rightarrow> 'a reply \<times> 'x sys" where
  "product_request cc scope answer origins endpoint st =
     then_reply (authentication_middleware cc scope (Some (wd_service (fst st))) answer, st)
       (\<lambda>p. endpoint \<lparr>hr_principal = p, hr_origins = origins\<rparr>)"

text \<open>
  \<open>ProductNoStoreMiddleware\<close>, on the headers of a response as lower-case names with their values:
  setting a header replaces its first occurrence and drops the others.
\<close>

definition set_header :: "string \<Rightarrow> string \<Rightarrow> (pystr \<times> pystr) list \<Rightarrow> (pystr \<times> pystr) list" where
  "set_header name value headers =
     (if list_ex (\<lambda>(k, _). k = lit name) headers
      then takeWhile (\<lambda>(k, _). k \<noteq> lit name) headers @ (lit name, lit value)
             # filter (\<lambda>(k, _). k \<noteq> lit name) (dropWhile (\<lambda>(k, _). k \<noteq> lit name) headers)
      else headers @ [(lit name, lit value)])"

definition content_type :: "(pystr \<times> pystr) list \<Rightarrow> pystr" where
  "content_type headers =
     (case map_of headers (lit ''content-type'') of None \<Rightarrow> [] | Some v \<Rightarrow> v)"

definition no_store :: "http_scope \<Rightarrow> (pystr \<times> pystr) list \<Rightarrow> (pystr \<times> pystr) list" where
  "no_store scope headers =
     (if \<not> product_path scope then headers
      else
        set_header ''pragma'' ''no-cache''
          (set_header ''cache-control''
             (if py_startswith (content_type headers) (lit ''text/event-stream'')
              then ''private, no-store, no-transform'' else ''private, no-store'') headers))"

end
