(* ===== verification/Api_Properties.thy ===== *)
theory Api_Properties
  imports Api Service_Properties
begin

text \<open>
  The properties of the HTTP interface: what a request may change, what it is answered, and that a
  client that reconnects with the last id it has read loses and repeats nothing.
\<close>

section \<open>Reading\<close>

lemma reading_open:
  "rp_fatal_error (wd_repository (fst st)) = None \<Longrightarrow>
     reading catch op st = (respond catch (map_sum Raised id (op (wd_db (fst st)))), st)"
  by (cases "op (wd_db (fst st))")
    (auto simp: reading_def on_repository_def with_guard_def require_available_def wd_db_def)

lemma reading_closed:
  "rp_fatal_error (wd_repository (fst st)) = Some why \<Longrightarrow>
     reading catch op st = (respond catch (Inl (Raised (RepositoryUnavailableError why))), st)"
  by (auto simp: reading_def on_repository_def with_guard_def require_available_def)

lemma reading_keeps: "reading catch op st = (r, st') \<Longrightarrow> st' = st"
  using reading_open [of st catch op] reading_closed [of st _ catch op]
  by (cases "rp_fatal_error (wd_repository (fst st))") auto

section \<open>The event stream over the wire\<close>

text \<open>
  A client that connects again and again, each time with the last id it has read, and the end of its
  last connection.
\<close>

definition read_id :: "pystr option \<Rightarrow> (pystr \<times> pystr \<times> pystr) list \<Rightarrow> pystr option" where
  "read_id lid items = (if items = [] then lid else Some (fst (last items)))"

fun connections ::
  "codec \<Rightarrow> (rat \<Rightarrow> pystr) \<Rightarrow> (nat \<Rightarrow> nat option) \<Rightarrow> pystr \<Rightarrow> principal \<Rightarrow> rat \<Rightarrow> rat \<Rightarrow> pystr option \<Rightarrow>
   poll_round list list \<Rightarrow> (pystr \<times> pystr \<times> pystr) list \<times> stream_end" where
  "connections c fl dv rid p poll keepalive lid [] = ([], StreamOpen)"
| "connections c fl dv rid p poll keepalive lid (rds # more_rds) =
     (case event_cursor dv None lid of
        Reply k \<Rightarrow>
          (case generate c fl rid p poll keepalive k rds of
             (body, e) \<Rightarrow>
               if more_rds = [] then (sse_read body, e)
               else map_prod ((@) (sse_read body)) id
                      (connections c fl dv rid p poll keepalive (read_id lid (sse_read body)) more_rds))
      | _ \<Rightarrow> ([], StreamOpen))"

lemma event_type_lines: "one_line (lit (event_name t)) \<and> lit (event_name t) \<noteq> []"
  by (cases t) (simp_all add: lit_def)

lemma stored_read:
  assumes "db_inv c db" "r \<in> set (db_runs db)" "\<And>x. one_line (fl x)"
    and "delivered out = map envelope (take m (drop k (events_of db (rn_id r))))"
  shows "sse_read (served c fl out) = map (event_item c fl \<circ> envelope) (take m (drop k (events_of db (rn_id r))))"
proof -
  have stored: "\<forall>e \<in> set (events_of db (rn_id r)). stored_event c e"
    using inv_run(2) [OF assms(1,2)] by (simp add: log_ok_def)
  have "one_line (ee_type v) \<and> ee_type v \<noteq> []" if "Some v \<in> set out" for v
  proof -
    have "v \<in> set (delivered out)" using that by (force simp: delivered_def map_filter_def)
    then obtain e where "v = envelope e" "stored_event c e"
      using assms(4) stored by (auto dest!: in_set_takeD in_set_dropD)
    with event_type_lines show ?thesis by (auto simp: stored_event_def envelope_def)
  qed
  with sse_read_served [of out fl c] assms(3,4) show ?thesis by (simp flip: delivered_def)
qed

lemma polls_append [simp]:
  "polls_from step db (xs @ ys) \<longleftrightarrow> polls_from step db xs \<and> polls_from step (last_poll db xs) ys"
  "last_poll db (xs @ ys) = last_poll (last_poll db xs) ys"
  by (induction xs arbitrary: db) auto

definition resume_id :: "nat \<Rightarrow> pystr option" where
  "resume_id k = (if k = 0 then None else Some (int_text (int k)))"

lemma resume_cursor:
  "decimal_digits dv \<Longrightarrow> int k < 2 ^ 63 \<Longrightarrow> event_cursor dv None (resume_id k) = Reply (int k)"
  using py_int_text [of dv "int k"] by (simp add: event_cursor_def resume_id_def parsed_cursor_def)

lemma read_resume:
  assumes "map ev_seq evs = [1..n]" "k \<le> j" "j \<le> length evs"
  shows "read_id (resume_id k) (map (event_item c fl \<circ> envelope) (drop k (take j evs))) = resume_id j"
proof (cases "k = j")
  case True
  then show ?thesis by (simp add: read_id_def)
next
  case False
  then have ne: "take j evs \<noteq> []" "drop k (take j evs) \<noteq> []" using assms(2,3) by auto
  have len: "length evs = nat n" using arg_cong [OF assms(1), of length] by simp
  have "last (drop k (take j evs)) = last (take j evs)" using ne(2) by (intro last_drop) (simp only: drop_eq_Nil not_le)
  also have "\<dots> = take j evs ! (length (take j evs) - 1)" by (rule last_conv_nth [OF ne(1)])
  also have "\<dots> = evs ! (j - 1)" using False assms(2,3) by simp
  also have "ev_seq (evs ! (j - 1)) = map ev_seq evs ! (j - 1)"
    using False assms(2,3) by (intro nth_map [symmetric]) auto
  also have "\<dots> = int j" using False assms(2,3) len by (auto simp: assms(1) nth_upto)
  finally show ?thesis using ne False assms(2)
    by (simp add: read_id_def resume_id_def last_map event_item_def envelope_def)
qed

text \<open>What one connection reads, and what the client has read after all of them.\<close>

lemma connection_read:
  assumes "db_inv c db" "r \<in> set (db_runs db)" "time_round_trip c"
    "subject p = rn_actor_subject r" "\<not> is_internal (subject p)"
    "polls_from (db_step c cc) db rds" "k \<le> length (events_of db (rn_id r))" "\<And>x. one_line (fl x)"
    "generate c fl (rn_id r) p poll keepalive (int k) rds = (body, e)"
  obtains j where "k \<le> j" "j \<le> length (events_of (last_poll db rds) (rn_id r))"
    "sse_read body = map (event_item c fl \<circ> envelope) (drop k (take j (events_of (last_poll db rds) (rn_id r))))"
    "e = StreamDone \<Longrightarrow> j = length (events_of (last_poll db rds) (rn_id r))
      \<and> (\<exists>r'. find_run (last_poll db rds) (rn_id r) = Some r' \<and> \<not> is_active r')"
proof -
  let ?L = "events_of (last_poll db rds) (rn_id r)"
  obtain out where run: "stream_events c (rn_id r) p poll keepalive (int k) 0 rds = (out, e)"
    and body: "body = served c fl out"
    using assms(9) by (auto simp: generate_def split: prod.splits)
  obtain r1 e0 where r1: "db_inv c (last_poll db rds)" "r1 \<in> set (db_runs (last_poll db rds))" "same_run r r1"
    and log: "?L = events_of db (rn_id r) @ e0"
    using later_run [OF polls_reach [OF assms(6)] assms(1,2)] by metis
  have id: "rn_id r1 = rn_id r" using r1(3) by (simp add: same_run_def)
  note stream = stream_prefix [OF assms(1-6) _ run]
  obtain m where m: "delivered out = map envelope (take m (drop k ?L))" using stream by auto
  define j where "j = min (length ?L) (k + m)"
  have cut: "take m (drop k ?L) = drop k (take j ?L)"
    by (cases "k + m \<le> length ?L") (auto simp: j_def take_drop min_def add.commute)
  have "sse_read body = map (event_item c fl \<circ> envelope) (drop k (take j ?L))"
    using stored_read [OF r1(1,2) assms(8), of out m k] m unfolding body id cut .
  moreover have "k \<le> j" using assms(7) log by (simp add: j_def)
  moreover have "j = length ?L \<and> (\<exists>r'. find_run (last_poll db rds) (rn_id r) = Some r' \<and> \<not> is_active r')"
    if "e = StreamDone"
  proof -
    have "delivered out = map envelope (drop k ?L)" using stream that by simp
    then have "length (drop k (take j ?L)) = length (drop k ?L)" using m unfolding cut by (metis length_map)
    with \<open>k \<le> j\<close> stream that show ?thesis by (auto simp: j_def)
  qed
  moreover have "j \<le> length ?L" by (simp add: j_def)
  ultimately show ?thesis using that by blast
qed

lemma drop_take_drop: "k \<le> j \<Longrightarrow> drop k (take j zs) @ drop j zs = drop k zs"
  using append_take_drop_id [of "j - k" "drop k zs"] by (simp add: drop_take)

lemma drop_take_glue:
  assumes "k \<le> j" "j \<le> length xs" "j \<le> i"
  shows "drop k (take j xs) @ drop j (take i (xs @ ys)) = drop k (take i (xs @ ys))"
proof -
  have "take j xs = take j (take i (xs @ ys))" using assms by (simp add: min_def)
  then show ?thesis using drop_take_drop [OF assms(1), of "take i (xs @ ys)"] by (simp only:)
qed

lemma connections_read:
  assumes "db_inv c db" "r \<in> set (db_runs db)" "time_round_trip c"
    "subject p = rn_actor_subject r" "\<not> is_internal (subject p)"
    "polls_from (db_step c cc) db (concat conns)" "k \<le> length (events_of db (rn_id r))"
    "int (length (events_of (last_poll db (concat conns)) (rn_id r))) < 2 ^ 63"
    "decimal_digits dv" "\<And>x. one_line (fl x)"
    "connections c fl dv (rn_id r) p poll keepalive (resume_id k) conns = (items, e)"
  shows "\<exists>i. k \<le> i \<and> i \<le> length (events_of (last_poll db (concat conns)) (rn_id r))
    \<and> items = map (event_item c fl \<circ> envelope) (drop k (take i (events_of (last_poll db (concat conns)) (rn_id r))))
    \<and> (e = StreamDone \<longrightarrow> i = length (events_of (last_poll db (concat conns)) (rn_id r))
        \<and> (\<exists>r'. find_run (last_poll db (concat conns)) (rn_id r) = Some r' \<and> \<not> is_active r'))"
  using assms
proof (induction conns arbitrary: db r k items e)
  case Nil
  then show ?case by (intro exI [of _ k]) auto
next
  case (Cons rds conns)
  define db1 where "db1 = last_poll db rds"
  define L1 where "L1 = events_of db1 (rn_id r)"
  from Cons.prems(6) have h1: "polls_from (db_step c cc) db rds" and h2: "polls_from (db_step c cc) db1 (concat conns)"
    by (simp_all add: db1_def)
  have final: "last_poll db (concat (rds # conns)) = last_poll db1 (concat conns)" by (simp add: db1_def)
  obtain r1 e0 where r1: "db_inv c db1" "r1 \<in> set (db_runs db1)" "same_run r r1"
    and log1: "L1 = events_of db (rn_id r) @ e0"
    using later_run [OF polls_reach [OF h1] Cons.prems(1,2)] unfolding db1_def L1_def by metis
  then have id1: "rn_id r1 = rn_id r" "rn_actor_subject r1 = rn_actor_subject r" by (simp_all add: same_run_def)
  obtain e1 where log: "events_of (last_poll db1 (concat conns)) (rn_id r) = L1 @ e1"
    using later_run [OF polls_reach [OF h2] r1(1,2)] unfolding L1_def id1 by metis
  have seqs: "map ev_seq L1 = [1..rn_last_seq r1]"
    using inv_run(2) [OF r1(1,2)] id1(1) by (simp add: log_ok_def L1_def)
  have bound: "int (length L1) < 2 ^ 63" using Cons.prems(8) log final by simp
  then have kbound: "int k < 2 ^ 63" using Cons.prems(7) log1 by simp
  obtain body e' where gen: "generate c fl (rn_id r) p poll keepalive (int k) rds = (body, e')"
    by (cases "generate c fl (rn_id r) p poll keepalive (int k) rds")
  obtain j where j: "k \<le> j" "j \<le> length L1"
      "sse_read body = map (event_item c fl \<circ> envelope) (drop k (take j L1))"
      "e' = StreamDone \<Longrightarrow> j = length L1 \<and> (\<exists>r'. find_run db1 (rn_id r) = Some r' \<and> \<not> is_active r')"
    using connection_read [OF Cons.prems(1-5) h1 Cons.prems(7,10) gen] unfolding db1_def L1_def by metis
  note now = resume_cursor [OF Cons.prems(9) kbound]
  show ?case
  proof (cases "conns = []")
    case True
    then have "items = sse_read body" "e = e'" using Cons.prems(11) now gen by simp_all
    with j True show ?thesis by (intro exI [of _ j]) (auto simp: db1_def L1_def)
  next
    case False
    obtain rest where rest: "connections c fl dv (rn_id r) p poll keepalive (resume_id j) conns = (rest, e)"
        "items = sse_read body @ rest"
      using Cons.prems(11) False now gen read_resume [OF seqs j(1,2), of c fl] j(3)
      by (cases "connections c fl dv (rn_id r) p poll keepalive (resume_id j) conns") auto
    have "j \<le> length (events_of db1 (rn_id r1))" using j(2) by (simp add: L1_def id1)
    from Cons.IH [OF r1(1,2) Cons.prems(3) _ Cons.prems(5) h2 this _ Cons.prems(9,10), unfolded id1, OF Cons.prems(4) _ rest(1)]
    obtain i where "j \<le> i" "i \<le> length (L1 @ e1)"
        "rest = map (event_item c fl \<circ> envelope) (drop j (take i (L1 @ e1)))"
        "e = StreamDone \<longrightarrow> i = length (L1 @ e1)
          \<and> (\<exists>r'. find_run (last_poll db1 (concat conns)) (rn_id r) = Some r' \<and> \<not> is_active r')"
      using Cons.prems(8) unfolding final log by blast
    with rest(2) j(1,3) drop_take_glue [OF j(1,2), of i e1] show ?thesis
      unfolding final log by (intro exI [of _ i]) (simp flip: map_append)
  qed
qed

text \<open>
  C5. A client that reads the event stream of its Run over any number of connections, each resumed
  from the last id it has read, reads exactly the first events of the stored log: as text on the
  wire and read back by the rules of the event-stream format, each event once, in order, whatever
  was appended between the polls and between the connections. When the server closes the last
  stream as complete, it has read the whole log of a Run that has ended.
\<close>

theorem reconnect_lossless:
  assumes "reaches db_init (db_step c cc) db" "r \<in> set (db_runs db)" "time_round_trip c"
    and "subject p = rn_actor_subject r" "\<not> is_internal (subject p)"
    and "polls_from (db_step c cc) db (concat conns)"
    and "int (length (events_of (last_poll db (concat conns)) (rn_id r))) < 2 ^ 63"
    and "decimal_digits dv" "\<forall>x. one_line (fl x)"
    and "connections c fl dv (rn_id r) p poll keepalive None conns = (items, e)"
  shows "(\<exists>n. items = map (event_item c fl \<circ> envelope)
                     (take n (events_of (last_poll db (concat conns)) (rn_id r))))
    \<and> (e = StreamDone \<longrightarrow>
        items = map (event_item c fl \<circ> envelope) (events_of (last_poll db (concat conns)) (rn_id r))
        \<and> (\<exists>r'. find_run (last_poll db (concat conns)) (rn_id r) = Some r' \<and> \<not> is_active r'))"
proof -
  have start: "connections c fl dv (rn_id r) p poll keepalive (resume_id 0) conns = (items, e)"
    using assms(10) by (simp add: resume_id_def)
  from connections_read [OF reached_inv [OF assms(1)] assms(2-6) _ assms(7,8) _ start] assms(9)
  show ?thesis by auto
qed

section \<open>What a request may change\<close>

definition authorized ::
  "(nat \<Rightarrow> bool) \<Rightarrow> http_scope \<Rightarrow> provider_answer \<Rightarrow> pystr list \<Rightarrow> pystr list \<Rightarrow> service \<Rightarrow> principal \<Rightarrow> bool" where
  "authorized cc scope answer cors_origins origins sv p \<longleftrightarrow>
     product_path scope \<and> authenticate_request cc answer = Some p \<and> is_healthy sv
     \<and> (origins = [] \<or> (\<exists>o1 \<in> set cors_origins. origins = [o1]))"

definition owns :: "principal \<Rightarrow> pystr \<Rightarrow> db \<Rightarrow> bool" where
  "owns p tid db \<longleftrightarrow> (\<exists>t. find_thread db tid = Some t \<and> th_owner_subject t = subject p)"

text \<open>The request was answered with a success or has changed the state.\<close>

definition effective :: "'a reply \<times> 'x sys \<Rightarrow> 'x sys \<Rightarrow> bool" where
  "effective answer st \<longleftrightarrow> (\<exists>x. fst answer = Reply x) \<or> snd answer \<noteq> st"

lemma mutating_effective:
  assumes "effective (product_request cc scope answer origins (\<lambda>rq. mutating cors_origins rq endpoint) st) st"
  obtains p where "authorized cc scope answer cors_origins origins (wd_service (fst st)) p"
    "product_request cc scope answer origins (\<lambda>rq. mutating cors_origins rq endpoint) st = endpoint p st"
proof -
  note defs = product_request_def authentication_middleware_def mutating_def as_principal_def
    current_principal_def trusted_mutation_origin_def effective_def
  obtain p where p: "authenticate_request cc answer = Some p" "product_path scope" "is_healthy (wd_service (fst st))"
    "sc_method scope \<noteq> lit ''OPTIONS''"
    using assms by (auto simp: defs split: if_splits option.splits)
  moreover have "origins = [] \<or> (\<exists>o1 \<in> set cors_origins. origins = [o1])"
    using assms p by (cases origins) (auto simp: defs split: if_splits)
  ultimately show ?thesis using that [of p] by (auto simp: authorized_def defs)
qed

lemma owned_effective:
  assumes "effective (then_reply (current_owned_thread tid p st) (\<lambda>_. k)) st"
  shows "owns p tid (wd_db (fst st))"
proof (cases "rp_fatal_error (wd_repository (fst st))")
  case None
  with assms show ?thesis
    by (auto simp: effective_def current_owned_thread_def reading_open require_thread_access_def
        require_thread_owner_def require_owner_def owns_def respond_def or_else_def
        split: option.splits if_splits)
qed (use assms in \<open>simp add: effective_def current_owned_thread_def reading_closed respond_def or_else_def\<close>)

lemma owned_or_absent_effective:
  assumes "effective (then_reply (owned_or_absent_initial_thread tid p st) (\<lambda>_. k)) st"
  shows "find_thread (wd_db (fst st)) tid = None \<or> owns p tid (wd_db (fst st))"
  using assms
  by (cases "rp_fatal_error (wd_repository (fst st))")
    (auto simp: effective_def owned_or_absent_initial_thread_def on_repository_def with_guard_def
        require_available_def require_thread_access_def wd_db_def
        require_thread_owner_def require_owner_def owns_def respond_def or_else_def
        split: option.splits if_splits)

text \<open>
  C11. A request that creates, renames or runs anything has an effect only for an authenticated
  Principal, on a healthy service, from a trusted origin, and on a thread of that Principal; the
  initial Run also on a thread that does not exist yet. Every other request is refused and leaves
  the database and the service as they were.
\<close>

theorem mutations_authorized:
  assumes "create = api_create_thread cors_origins new_id now title"
    and "rename = api_rename_thread cors_origins now tid new_title"
    and "run = api_create_run c cors_origins run_id msg_id prepared tid message key snap"
    and "initial = api_create_initial_run c cc cors_origins run_id msg_id prepared tid message key snap"
    and "allowed = authorized cc scope answer cors_origins origins (wd_service (fst st))"
  shows "(effective (product_request cc scope answer origins create st) st \<longrightarrow> (\<exists>p. allowed p))
    \<and> (effective (product_request cc scope answer origins rename st) st \<longrightarrow>
         (\<exists>p. allowed p \<and> owns p tid (wd_db (fst st))))
    \<and> (effective (product_request cc scope answer origins run st) st \<longrightarrow>
         (\<exists>p. allowed p \<and> owns p tid (wd_db (fst st))))
    \<and> (effective (product_request cc scope answer origins initial st) st \<longrightarrow>
         (\<exists>p. allowed p \<and> (find_thread (wd_db (fst st)) tid = None \<or> owns p tid (wd_db (fst st)))))"
proof (intro conjI impI)
  assume "effective (product_request cc scope answer origins create st) st"
  then show "\<exists>p. allowed p"
    unfolding assms(1,5) api_create_thread_def [abs_def] by (blast elim: mutating_effective)
next
  assume eff: "effective (product_request cc scope answer origins rename st) st"
  then obtain p where "allowed p" "product_request cc scope answer origins rename st
      = then_reply (current_owned_thread tid p st) (\<lambda>_ st1.
          case on_repository (rename_thread now tid p new_title) st1 of
            (r, st2) \<Rightarrow> (respond (or_else (not_found ''thread'') (forbidden ''thread'')) r, st2))"
    unfolding assms(2,5) api_rename_thread_def [abs_def] by (rule mutating_effective) blast
  with eff owned_effective show "\<exists>p. allowed p \<and> owns p tid (wd_db (fst st))" by metis
next
  assume eff: "effective (product_request cc scope answer origins run st) st"
  then obtain p k where "allowed p" "product_request cc scope answer origins run st
      = then_reply (current_owned_thread tid p st) (\<lambda>_. k)"
    unfolding assms(3,5) api_create_run_def [abs_def] by (rule mutating_effective) blast
  with eff owned_effective show "\<exists>p. allowed p \<and> owns p tid (wd_db (fst st))" by metis
next
  assume eff: "effective (product_request cc scope answer origins initial st) st"
  then obtain p k where "allowed p" "product_request cc scope answer origins initial st
      = then_reply (owned_or_absent_initial_thread tid p st) (\<lambda>_. k)"
    unfolding assms(4,5) api_create_initial_run_def [abs_def] by (rule mutating_effective) blast
  with eff owned_or_absent_effective
  show "\<exists>p. allowed p \<and> (find_thread (wd_db (fst st)) tid = None \<or> owns p tid (wd_db (fst st)))" by metis
qed

section \<open>Cancelling a Run of another account\<close>

text \<open>No attempt has usage that is still to be stored.\<close>

definition nothing_to_settle :: "'w ledger \<Rightarrow> bool" where
  "nothing_to_settle led \<longleftrightarrow>
     list_all (\<lambda>(i, a). att_status a = Started \<longrightarrow> att_pending_finish a = None \<and> att_usage a = None)
       (attempts led)"

lemma settles_nothing:
  assumes "nothing_to_settle (provider_usage ex)"
  shows "settle_provider_usage_for_terminal (ex, w) = (Inr (), ex, w)"
proof -
  have one: "settle_attempt i (provider_usage ex, w) = (Inr (), provider_usage ex, w)" for i
  proof (cases "find_attempt i (provider_usage ex)")
    case (Some a)
    then have "att_status a = Started \<longrightarrow> att_pending_finish a = None \<and> att_usage a = None"
      using assms by (auto simp: nothing_to_settle_def find_attempt_def list_all_iff dest!: map_of_SomeD)
    with Some show ?thesis by (auto simp: settle_attempt_def)
  qed (simp add: settle_attempt_def)
  have "settle_attempts is (provider_usage ex, w) = (Inr (), provider_usage ex, w)" for "is"
    by (induction "is") (simp_all add: one)
  then show ?thesis by (simp add: settle_provider_usage_for_terminal_def settle_for_terminal_def with_usage_def)
qed

lemma foreign_cancel_refused:
  assumes "reaches db_init (db_step c cc) db" "r \<in> set (db_runs db)" "subject p \<noteq> rn_actor_subject r"
    and "valid_outcome out" "outcome_status out = OutcomeCancelled"
  shows "cancel_run c i now (rn_id r) p out category db = (Inl (ResourceForbiddenError RunResource), db)"
proof -
  obtain t where t: "find_thread db (rn_thread_id r) = Some t" "th_owner_subject t = rn_actor_subject r"
    by (rule thread_of_run [OF reached_inv [OF assms(1)] assms(2)])
  have "require_owner p (th_owner_subject t) k = Inl (ResourceForbiddenError k)" for k
    using t(2) assms(3) by (simp add: require_owner_def)
  then have "cancel_run_tx c i now (rn_id r) p out category db = Inl (ResourceForbiddenError RunResource)"
    by (simp only: cancel_run_tx_def inv_find [OF reached_inv [OF assms(1)] assms(2)] t(1) option.case bindE_simps)
  moreover have "validated_terminal_outcome out OutcomeCancelled None = Inr out"
    using assms(4,5) by (simp add: validated_terminal_outcome_def validate_execution_outcome_def)
  ultimately show ?thesis by (simp add: cancel_run_def)
qed

text \<open>
  C21. The service stops the task of a Run before the repository has checked who asks. A request of
  another account to cancel a running Run is answered with 403 and the database is unchanged, but
  the task of the Run has been cancelled; and a cancelled task ends without a terminal event, so
  the stored Run stays active with nothing left that works on it.
\<close>

theorem foreign_cancel_stops_task:
  assumes "reaches db_init (db_step c cc) (wd_db w)" "r \<in> set (db_runs (wd_db w))" "is_active r"
    and "subject p \<noteq> rn_actor_subject r"
    and "reaches exec_init (exec_step env) ex" "nothing_to_settle (provider_usage ex)"
    and "rn_id r \<in> fst ` set (sv_tasks (wd_service w))" "sv_fatal (wd_service w) = None"
    and "rp_fatal_error (wd_repository w) = None" "sl_wakes (next_slot w) = [OperationDone Settled]"
    and "hr_principal rq = Some p" "trusted_mutation_origin cors_origins rq = Reply ()"
    and "w' = w\<lparr>wd_service := request_cancel (rn_id r) (wd_service w), wd_slots := tl (wd_slots w)\<rparr>"
  shows "api_cancel_run c cors_origins event_id tick prepared (rn_id r) rq (w, Some ex)
      = (HttpError 403 (lit ''run_forbidden''), w', Some ex)
    \<and> (rn_id r, True) \<in> set (sv_tasks (wd_service w'))
    \<and> handle_failure c event_id tick (rn_id r) CancelledFailure (w', ex) = (Stopped, w', ex)
    \<and> find_run (wd_db w') (rn_id r) = Some r"
proof -
  have "valid_identifier (lit ''user_cancelled'')" by (simp add: pattern_eval lit_def)
  then obtain out where out: "outcome tick OutcomeCancelled (lit ''user_cancelled'') None True ex = Inr out"
      "valid_outcome out" "outcome_status out = OutcomeCancelled"
    using outcome_valid [OF exec.reaches_inv [OF assms(5)], of _ OutcomeCancelled None True tick] by auto
  note refused = foreign_cancel_refused [OF assms(1,2,4) out(2,3)]
  have "service_cancel_run c event_id tick (rn_id r) p (prepared p) (w, Some ex)
      = (Inl (Raised (ResourceForbiddenError RunResource)), w', Some ex)"
    using assms(8-10,13) out(1) refused settles_nothing [OF assms(6)]
    by (simp add: service_cancel_run_def require_repository_safe_def repository_call_def request_cancel_def
        next_slot_def on_repository_def with_guard_def require_available_def wd_db_def)
  then have "api_cancel_run c cors_origins event_id tick prepared (rn_id r) rq (w, Some ex)
      = (HttpError 403 (lit ''run_forbidden''), w', Some ex)"
    using assms(11,12)
    by (simp add: api_cancel_run_def mutating_def as_principal_def current_principal_def respond_def or_else_def)
  moreover have "(rn_id r, True) \<in> set (sv_tasks (wd_service w'))"
    using assms(7) unfolding assms(13) by (force simp: request_cancel_def)
  ultimately show ?thesis
    using inv_find [OF reached_inv [OF assms(1)] assms(2)]
    by (simp add: handle_failure_def assms(13) wd_db_def)
qed

section \<open>Opening an event stream\<close>

text \<open>
  What opening an event stream is answered, in every state a history can reach: without a
  Principal 401; for a Run that does not exist 404; for a Run of another account 403, whatever the
  cursor; for the owner the cursor, from the parameter before the header, or 422 when it is not a
  natural number. Nothing changes.
\<close>

theorem events_reply:
  assumes "reaches db_init (db_step c cc) (wd_db (fst st))"
    and "rp_fatal_error (wd_repository (fst st)) = None"
    and "\<forall>p. hr_principal rq = Some p \<longrightarrow> \<not> is_internal (subject p)"
  shows "api_events c dv rid after_seq last_event_id rq st =
     ((case hr_principal rq of
         None \<Rightarrow> HttpError 401 (lit ''authentication_required'')
       | Some p \<Rightarrow>
           (case find_run (wd_db (fst st)) rid of
              None \<Rightarrow> HttpError 404 (lit ''run_not_found'')
            | Some r \<Rightarrow>
                if rn_actor_subject r \<noteq> subject p then HttpError 403 (lit ''run_forbidden'')
                else
                  (case (case after_seq of None \<Rightarrow> last_event_id | Some value \<Rightarrow> Some value) of
                     None \<Rightarrow> Reply 0
                   | Some value \<Rightarrow>
                       (case py_int dv value of
                          Some n \<Rightarrow>
                            if 0 \<le> n then Reply n
                            else HttpError 422 (if after_seq = None then lit ''invalid_last_event_id''
                                                else lit ''invalid_after_seq'')
                        | None \<Rightarrow> HttpError 422 (if after_seq = None then lit ''invalid_last_event_id''
                                                    else lit ''invalid_after_seq''))))), st)"
proof (cases "hr_principal rq")
  case None
  then show ?thesis by (simp add: api_events_def as_principal_def current_principal_def)
next
  case (Some p)
  note open_ = reading_open [of st _ "get_run c rid p", OF assms(2)]
  show ?thesis
  proof (cases "find_run (wd_db (fst st)) rid")
    case None
    then show ?thesis
      by (simp add: api_events_def as_principal_def current_principal_def Some open_ get_run_def
          respond_def or_else_def)
  next
    case found: (Some r)
    then have r: "r \<in> set (db_runs (wd_db (fst st)))" "rid = rn_id r" by (auto dest: find_run_Some)
    show ?thesis
    proof (cases "rn_actor_subject r = subject p")
      case False
      with foreign_denied [OF assms(1) r(1), of p] found show ?thesis
        by (simp add: api_events_def as_principal_def current_principal_def Some open_ get_run_def
            respond_def or_else_def)
    next
      case True
      obtain v where "get_run c rid p (wd_db (fst st)) = Inr v"
        using read_run [OF reached_inv [OF assms(1)] r(1), of p] True assms(3) Some r(2) by auto
      with True found show ?thesis
        by (auto simp: api_events_def as_principal_def current_principal_def Some open_ respond_def
            event_cursor_def parsed_cursor_def split: option.splits)
    qed
  qed
qed

section \<open>Caching\<close>

lemma set_header_once:
  "filter (\<lambda>(k, _). k = lit name) (set_header name value headers) = [(lit name, lit value)]"
proof -
  have gone: "filter (\<lambda>(k, _). k = lit name) (filter (\<lambda>(k, _). k \<noteq> lit name) hs) = []" for hs :: "(pystr \<times> pystr) list"
    by (induction hs) auto
  have none: "filter (\<lambda>(k, _). k = lit name) hs = []" if "\<not> list_ex (\<lambda>(k, _). k = lit name) hs" for hs :: "(pystr \<times> pystr) list"
    using that by (induction hs) auto
  have before: "filter (\<lambda>(k, _). k = lit name) (takeWhile (\<lambda>(k, _). k \<noteq> lit name) hs) = []" for hs :: "(pystr \<times> pystr) list"
    by (induction hs) auto
  show ?thesis by (simp add: set_header_def gone before none del: filter_filter)
qed

lemma set_header_other:
  assumes "name \<noteq> other"
  shows "filter (\<lambda>(k, _). k = lit other) (set_header name value headers) = filter (\<lambda>(k, _). k = lit other) headers"
proof -
  have kept: "filter (\<lambda>(k, _). k = lit other) (filter (\<lambda>(k, _). k \<noteq> lit name) hs) = filter (\<lambda>(k, _). k = lit other) hs"
    for hs :: "(pystr \<times> pystr) list"
    using assms by (induction hs) auto
  have "filter (\<lambda>(k, _). k = lit other) (takeWhile (\<lambda>(k, _). k \<noteq> lit name) hs)
      @ filter (\<lambda>(k, _). k = lit other) (dropWhile (\<lambda>(k, _). k \<noteq> lit name) hs)
      = filter (\<lambda>(k, _). k = lit other) hs" for hs :: "(pystr \<times> pystr) list"
    by (simp flip: filter_append)
  then show ?thesis using assms by (simp add: set_header_def kept del: filter_filter)
qed

text \<open>Whatever the application has set, a product response says once that it must not be stored.\<close>

lemma product_responses_not_stored:
  assumes "product_path scope"
  shows "\<exists>policy \<in> {lit ''private, no-store'', lit ''private, no-store, no-transform''}.
    filter (\<lambda>(k, _). k = lit ''cache-control'') (no_store scope headers) = [(lit ''cache-control'', policy)]"
  using assms by (simp add: no_store_def set_header_other set_header_once)

section \<open>Witnesses\<close>

abbreviation demo_digit :: "nat \<Rightarrow> nat option" where
  "demo_digit \<equiv> \<lambda>ch. if 48 \<le> ch \<and> ch < 58 then Some (ch - 48) else None"

definition demo_conns :: "poll_round list list" where
  "demo_conns =
     [[\<lparr>pr_fatal = None, pr_events_db = demo_db2, pr_run_db = demo_db3, pr_disconnected = True\<rparr>],
      [\<lparr>pr_fatal = None, pr_events_db = demo_db_streamed, pr_run_db = demo_db_streamed, pr_disconnected = True\<rparr>]]"

theorem reconnect_lossless_witness:
  "\<exists>items e n. connections plain_codec demo_fmt demo_digit (lit ''r'') anonymous_principal 1 15 None demo_conns = (items, e)
    \<and> items = map (event_item plain_codec demo_fmt \<circ> envelope) (take n (events_of demo_db_streamed (lit ''r'')))"
proof -
  obtain items e where run: "connections plain_codec demo_fmt demo_digit (rn_id demo_row) anonymous_principal 1 15 None demo_conns
      = (items, e)"
    by (rule prod.exhaust)
  have row: "demo_row \<in> set (db_runs demo_db2)" "rn_id demo_row = lit ''r''"
      "subject anonymous_principal = rn_actor_subject demo_row"
    by (simp_all add: demo_db2_eq demo_row_def new_run_row_def)
  have "(db_step plain_codec demo_cc)\<^sup>*\<^sup>* demo_db2 demo_db3"
    unfolding demo_db3_def by (rule r_into_rtranclp, rule step_start_run, rule prod.collapse [symmetric])
  moreover have "(db_step plain_codec demo_cc)\<^sup>*\<^sup>* demo_db3 demo_db_streamed"
    unfolding demo_db_streamed_def
    by (rule r_into_rtranclp, rule step_append_event, rule prod.collapse [symmetric])
  ultimately have polls: "polls_from (db_step plain_codec demo_cc) demo_db2 (concat demo_conns)"
    and final: "last_poll demo_db2 (concat demo_conns) = demo_db_streamed"
    by (simp_all add: demo_conns_def)
  have "length (db_events demo_db_streamed) = 2"
    using arg_cong [OF demo_streamed_tables(1), of length] by simp
  then have "length (events_of demo_db_streamed (rn_id demo_row)) \<le> 2"
    unfolding events_of_def by (metis length_filter_le)
  then have "int (length (events_of (last_poll demo_db2 (concat demo_conns)) (rn_id demo_row))) < 2 ^ 63"
    by (simp add: final)
  moreover have "decimal_digits demo_digit" "\<forall>x :: rat. one_line (demo_fmt x)"
    by (auto simp: decimal_digits_def lit_def)
  ultimately show ?thesis
    using reconnect_lossless [OF demo_reached(2) row(1) plain_time row(3) demo_subject polls _ _ _ run] row(2) run
    unfolding final by auto
qed

definition demo_scope :: http_scope where
  "demo_scope = \<lparr>sc_http = True, sc_path = lit ''/api/threads/t'', sc_method = lit ''PATCH''\<rparr>"

lemmas demo_authenticated = anonymous_authenticated

theorem mutations_authorized_witness:
  "\<exists>p. authorized demo_cc demo_scope anonymous_authenticate [] [] (wd_service (demo_world demo_db1 [])) p
     \<and> owns p (lit ''t'') demo_db1"
proof -
  define st :: host where "st = (demo_world demo_db1 [], None)"
  have request: "product_path demo_scope" "sc_method demo_scope \<noteq> lit ''OPTIONS''"
    "is_healthy (wd_service (fst st))"
    by (simp_all add: demo_scope_def product_path_def py_startswith_def lit_def st_def is_healthy_def demo_world_def)
  have thread: "find_thread demo_db1 (lit ''t'') = Some \<lparr>th_id = lit ''t'', th_owner_subject = subject anonymous_principal,
     th_title = lit ''New conversation'', th_created_at = 1, th_updated_at = 1\<rparr>"
    by (simp add: demo_db1_eq find_thread_def)
  have "fst (product_request demo_cc demo_scope anonymous_authenticate []
      (api_rename_thread [] 4 (lit ''t'') (lit ''new'')) st) \<in> range Reply"
    by (simp add: product_request_def authentication_middleware_def demo_authenticated request
        api_rename_thread_def mutating_def as_principal_def current_principal_def
        trusted_mutation_origin_def current_owned_thread_def, simp add: st_def reading_def require_thread_access_def thread require_thread_owner_def demo_owner
        respond_def rename_thread_def require_thread_run_consistency_def requireE_def)
      (simp add: demo_db1_eq empty_db_def transact_def Let_def)
  then show ?thesis
    using mutations_authorized [OF refl refl refl refl refl, of demo_cc demo_scope anonymous_authenticate "[]" _ _ 4 _ st "lit ''t''" "lit ''new''"]
    by (auto simp: effective_def st_def)
qed

definition demo_other :: principal where
  "demo_other = anonymous_principal\<lparr>subject := lit ''someone-else''\<rparr>"

theorem foreign_cancel_stops_task_witness:
  "\<exists>w'. api_cancel_run plain_codec [] (lit ''i'') 8 (\<lambda>_. Inr demo_exec) (lit ''r'') \<lparr>hr_principal = Some demo_other, hr_origins = []\<rparr>
        (demo_world demo_db3 [demo_slot 5], Some demo_exec)
      = (HttpError 403 (lit ''run_forbidden''), w', Some demo_exec)
    \<and> (lit ''r'', True) \<in> set (sv_tasks (wd_service w'))
    \<and> find_run (wd_db w') (lit ''r'') = Some demo_started_row"
proof -
  define w where "w = demo_world demo_db3 [demo_slot 5]"
  have foreign: "subject demo_other \<noteq> rn_actor_subject demo_started_row"
    by (simp add: demo_row_fields demo_other_def anonymous_principal_def ANONYMOUS_DEVELOPMENT_SUBJECT_def lit_def)
  have ex: "reaches exec_init (exec_step hex_env) demo_exec"
    unfolding demo_exec_def by (rule reaches_init) (rule demo_init)
  have "nothing_to_settle (provider_usage demo_exec)"
    by (simp add: nothing_to_settle_def demo_exec_def demo_run_def new_execution_def new_ledger_def)
  from foreign_cancel_stops_task [OF _ _ demo_row_fields(4) foreign ex this _ _ _ _ _ _ refl, where c = plain_codec and cc = demo_cc and w = w and rq = "\<lparr>hr_principal = Some demo_other, hr_origins = []\<rparr>"
      and cors_origins = "[]" and event_id = "lit ''i''" and tick = 8 and prepared = "\<lambda>_. Inr demo_exec"]
  show ?thesis
    using demo_reached(3) demo_started_in
    by (simp add: w_def demo_row_fields demo_world_def demo_slot_def next_slot_def wd_db_def
        trusted_mutation_origin_def)
qed

theorem events_reply_witness:
  "api_events plain_codec demo_digit (lit ''r'') None None \<lparr>hr_principal = Some anonymous_principal, hr_origins = []\<rparr>
     (demo_world demo_db3 [], ()) = (Reply 0, demo_world demo_db3 [], ())"
proof -
  have "find_run demo_db3 (lit ''r'') = Some demo_started_row"
    using inv_find [OF reached_inv [OF demo_reached(3)] demo_started_in] by (simp add: demo_row_fields)
  moreover have "rp_fatal_error (wd_repository (demo_world demo_db3 [])) = None" by (simp add: demo_world_def)
  ultimately show ?thesis
    using events_reply [of plain_codec demo_cc "(demo_world demo_db3 [], ())"
        "\<lparr>hr_principal = Some anonymous_principal, hr_origins = []\<rparr>" demo_digit "lit ''r''" None None]
      demo_reached(3) demo_subject
    by (simp add: demo_row_fields)
qed

end
