(* ===== verification/Url_Text.thy ===== *)
theory Url_Text
  imports Patterns
begin

text \<open>
  What settings.py uses of the standard library to look at an origin: \<open>str.split\<close> and
  \<open>partition\<close>, \<open>urllib.parse.urlsplit\<close> with the host and the port of its result, and
  \<open>ipaddress.ip_address\<close> with \<open>is_loopback\<close>. The definitions follow Python 3.12.13, the
  version the backend is built for. The NFKC form of a string is a parameter. Only ASCII
  letters are lower-cased: no other character has a lower case that the callers compare with.
\<close>

section \<open>Splitting strings\<close>

fun py_split_on :: "nat \<Rightarrow> pystr \<Rightarrow> pystr list" where
  "py_split_on sep [] = [[]]"
| "py_split_on sep (ch # s) =
     (if ch = sep then [] # py_split_on sep s
      else (case py_split_on sep s of [] \<Rightarrow> [[ch]] | w # ws \<Rightarrow> (ch # w) # ws))"

definition py_partition :: "nat \<Rightarrow> pystr \<Rightarrow> pystr \<times> bool \<times> pystr" where
  "py_partition sep s =
     (let front = takeWhile (\<lambda>ch. ch \<noteq> sep) s
      in (front, sep \<in> set s, drop (length front + 1) s))"

definition py_rpartition :: "nat \<Rightarrow> pystr \<Rightarrow> pystr \<times> bool \<times> pystr" where
  "py_rpartition sep s =
     (let after = rev (takeWhile (\<lambda>ch. ch \<noteq> sep) (rev s))
      in (take (length s - length after - 1) s, sep \<in> set s, after))"

definition ascii_lower :: "pystr \<Rightarrow> pystr" where
  "ascii_lower s = map (\<lambda>ch. if 65 \<le> ch \<and> ch \<le> 90 then ch + 32 else ch) s"

definition is_letter :: "nat \<Rightarrow> bool" where
  "is_letter ch \<longleftrightarrow> 65 \<le> ch \<and> ch \<le> 90 \<or> is_lower ch"

definition is_hex :: "nat \<Rightarrow> bool" where
  "is_hex ch \<longleftrightarrow> is_digit ch \<or> 65 \<le> ch \<and> ch \<le> 70 \<or> 97 \<le> ch \<and> ch \<le> 102"

definition digits_value :: "pystr \<Rightarrow> nat" where
  "digits_value s = foldl (\<lambda>n ch. n * 10 + (ch - 48)) 0 s"

definition hex_value :: "pystr \<Rightarrow> nat" where
  "hex_value s =
     foldl (\<lambda>n ch. n * 16 + (if is_digit ch then ch - 48 else if ch \<le> 70 then ch - 55 else ch - 87)) 0 s"

section \<open>IP addresses\<close>

definition ipv4_octet :: "pystr \<Rightarrow> nat option" where
  "ipv4_octet s =
     (if s = [] \<or> \<not> list_all is_digit s \<or> 3 < length s \<or> (s \<noteq> [48] \<and> hd s = 48) then None
      else if 255 < digits_value s then None else Some (digits_value s))"

definition ipv4_value :: "pystr \<Rightarrow> nat option" where
  "ipv4_value s =
     (case map ipv4_octet (py_split_on 46 s) of
        [Some a, Some b, Some c, Some d] \<Rightarrow> Some (((a * 256 + b) * 256 + c) * 256 + d)
      | _ \<Rightarrow> None)"

fun hextets_value :: "nat \<Rightarrow> pystr list \<Rightarrow> nat option" where
  "hextets_value n [] = Some n"
| "hextets_value n (s # ss) =
     (if s = [] \<or> \<not> list_all is_hex s \<or> 4 < length s then None
      else hextets_value (n * 65536 + hex_value s) ss)"

text \<open>
  The parts between colons; an IPv4 suffix stands for its last two hextets, whose values are
  \<open>tail\<close>. \<open>skip\<close> is the place of the only empty part that is not at an end.
\<close>

definition ipv6_skips :: "nat \<Rightarrow> pystr list \<Rightarrow> nat list" where
  "ipv6_skips size6 parts = filter (\<lambda>i. i < length parts \<and> parts ! i = []) [1..<size6 - 1]"

definition ipv6_hextets :: "pystr list \<Rightarrow> nat list \<Rightarrow> nat option" where
  "ipv6_hextets parts tail =
     (let size6 = length parts + length tail;
          low = (\<lambda>from n. map_option (\<lambda>v. foldl (\<lambda>m t. m * 65536 + t) v tail) (hextets_value n (drop from parts)))
      in if 9 < size6 then None
         else
           (case ipv6_skips size6 parts of
              [] \<Rightarrow> if size6 \<noteq> 8 then None else low 0 0
            | [i] \<Rightarrow>
                (let bare_start = hd parts = [];
                     bare_end = (tail = [] \<and> last parts = []);
                     hi = (if bare_start then i - 1 else i);
                     lo = (if bare_end then size6 - i - 2 else size6 - i - 1)
                 in if bare_start \<and> hi \<noteq> 0 \<or> bare_end \<and> lo \<noteq> 0 \<or> 8 \<le> hi + lo then None
                    else
                      (case hextets_value 0 (take hi parts) of
                         None \<Rightarrow> None
                       | Some n \<Rightarrow>
                           if bare_end then Some (n * 65536 ^ (8 - (hi + lo)))
                           else low (i + 1) (n * 65536 ^ (8 - (hi + lo)))))
            | _ \<Rightarrow> None))"

definition ipv6_value :: "pystr \<Rightarrow> nat option" where
  "ipv6_value s =
     (case py_partition 37 s of
        (addr, scoped, scope) \<Rightarrow>
          if scoped \<and> (scope = [] \<or> 37 \<in> set scope) then None
          else
            (let parts = py_split_on 58 addr
             in if 47 \<in> set s \<or> length parts < 3 then None
                else if 46 \<in> set (last parts)
                then
                  (case ipv4_value (last parts) of
                     None \<Rightarrow> None
                   | Some v \<Rightarrow> ipv6_hextets (butlast parts) [v div 65536, v mod 65536])
                else ipv6_hextets parts []))"

text \<open>\<open>ip_address(s).is_loopback\<close>, or nothing for its \<open>ValueError\<close>.\<close>

definition ip_loopback :: "pystr \<Rightarrow> bool option" where
  "ip_loopback s =
     (case ipv4_value s of
        Some v \<Rightarrow> Some (v div 2 ^ 24 = 127)
      | None \<Rightarrow> map_option (\<lambda>v. v = 1) (ipv6_value s))"

section \<open>\<open>urlsplit\<close>\<close>

record split_result =
  us_scheme :: pystr
  us_netloc :: pystr
  us_path :: pystr
  us_query :: pystr
  us_fragment :: pystr

definition url_scheme :: "pystr \<Rightarrow> pystr \<times> pystr" where
  "url_scheme url =
     (case py_partition 58 url of
        (scheme, found, rest) \<Rightarrow>
          if found \<and> scheme \<noteq> [] \<and> is_letter (hd scheme)
             \<and> list_all (\<lambda>ch. is_letter ch \<or> is_digit ch \<or> ch = 43 \<or> ch = 45 \<or> ch = 46) scheme
          then (ascii_lower scheme, rest) else ([], url))"

definition bracketed_host_ok :: "pystr \<Rightarrow> bool" where
  "bracketed_host_ok host =
     (case host of
        [] \<Rightarrow> False
      | ch # s \<Rightarrow>
          if ch = 118
          then (case py_partition 46 s of
                  (version, dot, rest) \<Rightarrow> dot \<and> version \<noteq> [] \<and> list_all is_hex version \<and> rest \<noteq> [])
          else ipv4_value host = None \<and> ipv6_value host \<noteq> None)"

definition brackets_ok :: "pystr \<Rightarrow> bool" where
  "brackets_ok netloc \<longleftrightarrow>
     (if 91 \<in> set netloc \<or> 93 \<in> set netloc
      then 91 \<in> set netloc \<and> 93 \<in> set netloc
        \<and> (case py_partition 91 (snd (snd (py_rpartition 64 netloc))) of
             (front, opened, bracketed) \<Rightarrow>
               if opened
               then front = []
                 \<and> (case py_partition 93 bracketed of
                      (host, _, port) \<Rightarrow> (port = [] \<or> hd port = 58) \<and> bracketed_host_ok host)
               else bracketed_host_ok (fst (py_partition 58 front)))
      else True)"

definition netloc_ok :: "(pystr \<Rightarrow> pystr) \<Rightarrow> pystr \<Rightarrow> bool" where
  "netloc_ok nfkc netloc \<longleftrightarrow>
     (let bare = filter (\<lambda>ch. ch \<notin> {64, 58, 35, 63}) netloc
      in list_all (\<lambda>ch. ch < 128) netloc \<or> nfkc bare = bare
         \<or> set (nfkc bare) \<inter> {47, 63, 35, 64, 58} = {})"

definition urlsplit :: "(pystr \<Rightarrow> pystr) \<Rightarrow> pystr \<Rightarrow> split_result option" where
  "urlsplit nfkc text =
     (let url = filter (\<lambda>ch. ch \<notin> {9, 13, 10}) (dropWhile (\<lambda>ch. ch \<le> 32) text)
      in case url_scheme url of
           (scheme, rest) \<Rightarrow>
             (let here = (take 2 rest = [47, 47]);
                  netloc = (if here then takeWhile (\<lambda>ch. ch \<notin> {47, 63, 35}) (drop 2 rest) else []);
                  rest = (if here then drop (2 + length netloc) rest else rest)
              in if \<not> brackets_ok netloc \<or> \<not> netloc_ok nfkc netloc then None
                 else
                   (case py_partition 35 rest of
                      (rest, _, fragment) \<Rightarrow>
                        (case py_partition 63 rest of
                           (path, _, query) \<Rightarrow>
                             Some \<lparr>us_scheme = scheme, us_netloc = netloc, us_path = path,
                                   us_query = query, us_fragment = fragment\<rparr>))))"

text \<open>The properties of the result: the user, the host and the port, whose text may be no port.\<close>

definition url_username :: "split_result \<Rightarrow> pystr option" where
  "url_username u =
     (case py_rpartition 64 (us_netloc u) of
        (userinfo, given, _) \<Rightarrow> if given then Some (fst (py_partition 58 userinfo)) else None)"

definition url_password :: "split_result \<Rightarrow> pystr option" where
  "url_password u =
     (case py_rpartition 64 (us_netloc u) of
        (userinfo, given, _) \<Rightarrow>
          if given
          then (case py_partition 58 userinfo of (_, found, password) \<Rightarrow> if found then Some password else None)
          else None)"

definition url_hostinfo :: "split_result \<Rightarrow> pystr \<times> pystr" where
  "url_hostinfo u =
     (case py_rpartition 64 (us_netloc u) of
        (_, _, hostinfo) \<Rightarrow>
          (case py_partition 91 hostinfo of
             (_, opened, bracketed) \<Rightarrow>
               if opened
               then (case py_partition 93 bracketed of
                       (host, _, rest) \<Rightarrow> (host, snd (snd (py_partition 58 rest))))
               else (case py_partition 58 hostinfo of (host, _, port) \<Rightarrow> (host, port))))"

definition url_hostname :: "split_result \<Rightarrow> pystr option" where
  "url_hostname u =
     (let host = fst (url_hostinfo u)
      in if host = [] then None
         else
           (case py_partition 37 host of
              (name, scoped, zone) \<Rightarrow> Some (ascii_lower name @ (if scoped then 37 # zone else []))))"

datatype port_value = NoPort | Port nat | BadPort

definition url_port :: "split_result \<Rightarrow> port_value" where
  "url_port u =
     (let port = snd (url_hostinfo u)
      in if port = [] then NoPort
         else if \<not> list_all is_digit port \<or> 65535 < digits_value port then BadPort
         else Port (digits_value port))"

end
