(* ===== verification/Startup.thy ===== *)
theory Startup
  imports Settings Policy_Kernel Service
begin

text \<open>
  How the process starts: the policy kernel of bootstrap.py, the part of agent_runtime.py that
  chooses the runtime, the connection options of db.py and the start of the application in main.py.
  The engines, connections and tables that libraries create are not modelled.
\<close>

section \<open>The runtime a configuration names\<close>

definition model_profile_for_settings :: "settings \<Rightarrow> exn + model_profile" where
  "model_profile_for_settings s =
     (let m = (if set_model_mode s = FakeMode
               then \<lparr>profile_id = lit ''default'', profile_version = lit ''1.0.0'',
                     provider = lit ''local-fake'', model_id = lit ''deterministic-fake-v1''\<rparr>
               else \<lparr>profile_id = lit ''default'', profile_version = lit ''1.0.0'',
                     provider = lit ''deepseek'', model_id = deepseek_model s\<rparr>)
      in bindE (requireE (valid_model_profile m) ValidationError) (\<lambda>_. Inr m))"

definition validate_runtime_configuration :: "settings \<Rightarrow> exn + unit" where
  "validate_runtime_configuration s =
     (if set_model_mode s = DeepSeekMode
         \<and> (case deepseek_api_key s of None \<Rightarrow> True | Some key \<Rightarrow> key = [])
      then Inl (RuntimeConfigurationError ''deepseek_api_key_missing'') else Inr ())"

datatype runtime_kind = FakeRuntime rat | DeepSeekRuntime pystr

definition runtime_for_settings :: "settings \<Rightarrow> exn + runtime_kind" where
  "runtime_for_settings s =
     bindE (validate_runtime_configuration s) (\<lambda>_.
       Inr (if set_model_mode s = FakeMode then FakeRuntime (fake_step_delay_seconds s)
            else DeepSeekRuntime (checkpoint_database_url s)))"

section \<open>The policy kernel\<close>

definition build_policy_kernel ::
  "host_env \<Rightarrow> tool_impl \<Rightarrow> settings \<Rightarrow> agent_definition list option \<Rightarrow> tool_registry option \<Rightarrow>
   capability_policy option \<Rightarrow> exn + policy_kernel" where
  "build_policy_kernel env impl s definitions registry policy =
     bindE (case registry of Some reg \<Rightarrow> Inr reg | None \<Rightarrow> default_tool_registry env impl) (\<lambda>reg.
     bindE (case definitions of
              Some ds \<Rightarrow> Inr ds
            | None \<Rightarrow>
                bindE (default_agent_definition (set_max_model_steps s) (set_max_tool_calls s)
                         (run_timeout_seconds s) (set_max_identical_tool_calls s) (set_max_no_progress_steps s))
                  (\<lambda>a. Inr [a])) (\<lambda>ds.
     bindE (model_profile_for_settings s) (\<lambda>m.
     bindE (make_policy_kernel ds (lit ''default-work-assistant'') m reg
              (case policy of Some pol \<Rightarrow> pol | None \<Rightarrow> neutral_policy)) (\<lambda>k.
     bindE (validate_runtime_configuration s) (\<lambda>_. Inr k)))))"

section \<open>The connection options\<close>

record engine_options =
  eo_sqlite :: bool
  eo_pool_pre_ping :: bool
  eo_pool_timeout :: "rat option"
  eo_statement_timeout_ms :: int
  eo_lock_timeout_ms :: "int option"
  eo_connect_timeout :: "int option"

definition database_options :: "pystr \<Rightarrow> rat \<Rightarrow> engine_options" where
  "database_options url timeout =
     (let is_sqlite = py_startswith url (lit ''sqlite+'');
          timeout_ms = max 1 \<lfloor>timeout * 1000\<rfloor>;
          lock_timeout_ms = max 1 (timeout_ms - min 250 (timeout_ms div 4))
      in \<lparr>eo_sqlite = is_sqlite, eo_pool_pre_ping = (\<not> is_sqlite),
          eo_pool_timeout = (if is_sqlite then None else Some timeout),
          eo_statement_timeout_ms = timeout_ms,
          eo_lock_timeout_ms = (if is_sqlite then None else Some lock_timeout_ms),
          eo_connect_timeout = (if is_sqlite then None else Some (max 2 \<lfloor>timeout\<rfloor>))\<rparr>)"

section \<open>The start of the application\<close>

definition new_service :: service where
  "new_service = \<lparr>sv_closed = False, sv_fatal = None, sv_tasks = [], sv_quarantined = 0\<rparr>"

text \<open>
  \<open>create_app\<close> and the start of its lifespan: every check before the first side effect, then the
  sweep of the Runs a lost process has left active, then the service. \<open>db\<close> is what the database
  holds; what comes back with an exception is what it holds then.
\<close>

definition start_application ::
  "codec \<Rightarrow> host_env \<Rightarrow> tool_impl \<Rightarrow> (pystr \<Rightarrow> pystr) \<Rightarrow> int \<Rightarrow> settings \<Rightarrow> 'p identity_provider option \<Rightarrow> db \<Rightarrow>
   (exn + 'p identity_provider \<times> policy_kernel \<times> runtime_kind \<times> service \<times> repository) \<times> db" where
  "start_application c env impl new_id now s external db =
     (case bindE (build_policy_kernel env impl s None None None) (\<lambda>k.
           bindE (resolve_identity_provider (app_env s) (identity_provider_mode s) external) (\<lambda>p.
           bindE (runtime_for_settings s) (\<lambda>rt. Inr (p, k, rt)))) of
        Inl e \<Rightarrow> (Inl e, db)
      | Inr (p, k, rt) \<Rightarrow>
          (case fail_orphaned_runs c new_id now db of
             (Inl e, db') \<Rightarrow> (Inl e, db')
           | (Inr _, db') \<Rightarrow> (Inr (p, k, rt, new_service, \<lparr>rp_fatal_error = None, rp_db = db'\<rparr>), db')))"

end
