(* ===== verification/Fake_Runtime.thy ===== *)
theory Fake_Runtime
  imports Runtime_Runner Url_Text
begin

text \<open>
  agent_runtime.py, \<open>FakeAgentRunner\<close>: the scripted adapter that drives the real ledger of a Run.
  Its generator is a phase between two yields: what \<open>__anext__\<close> continues with. Clock readings and
  fresh ids, the answer of the capability policy, the Tool, the case folding and the word characters
  of Unicode and the text of a JSON value that is no string are data of the script.
\<close>

section \<open>Reading the message\<close>

definition py_contains :: "pystr \<Rightarrow> pystr \<Rightarrow> bool" where
  "py_contains s part \<longleftrightarrow> list_ex (\<lambda>i. py_startswith (drop i s) part) [0..<length s + 1]"

text \<open>
  \<^verbatim>\<open>\b[A-Za-z]+(?:[_+-][A-Za-z]+)*/[A-Za-z0-9_+\-]+\b\<close>, searched from the left. Up to the slash
  there is one way to match; the last part is the longest that ends at a word boundary.
\<close>

fun zone_area :: "bool \<Rightarrow> pystr \<Rightarrow> pystr option" where
  "zone_area in_word [] = None"
| "zone_area in_word (ch # s) =
     (if is_letter ch then zone_area True s
      else if in_word \<and> (ch = 95 \<or> ch = 43 \<or> ch = 45) then zone_area False s
      else if in_word \<and> ch = 47 then Some s
      else None)"

definition zone_place :: "(nat \<Rightarrow> bool) \<Rightarrow> pystr \<Rightarrow> pystr option" where
  "zone_place word s =
     (let run = takeWhile (\<lambda>ch. is_letter ch \<or> is_digit ch \<or> ch = 95 \<or> ch = 43 \<or> ch = 45) s
      in case filter (\<lambda>n. word (s ! (n - 1)) \<noteq> (n < length s \<and> word (s ! n))) (rev [1..<length run + 1]) of
           [] \<Rightarrow> None
         | n # _ \<Rightarrow> Some (take n s))"

fun zone_search :: "(nat \<Rightarrow> bool) \<Rightarrow> bool \<Rightarrow> pystr \<Rightarrow> pystr option" where
  "zone_search word prev [] = None"
| "zone_search word prev (ch # s) =
     (case (if word ch = prev then None else zone_area False (ch # s)) of
        None \<Rightarrow> zone_search word (word ch) s
      | Some rest \<Rightarrow>
          (case zone_place word rest of
             None \<Rightarrow> zone_search word (word ch) s
           | Some place \<Rightarrow> Some (take (length (ch # s) - length rest) (ch # s) @ place)))"

definition timezone_from_message :: "(nat \<Rightarrow> bool) \<Rightarrow> (pystr \<Rightarrow> pystr) \<Rightarrow> pystr \<Rightarrow> pystr" where
  "timezone_from_message word casefold message =
     (case zone_search word False message of
        Some zone \<Rightarrow> zone
      | None \<Rightarrow>
          (let lowered = casefold message
           in if py_contains lowered (lit ''shanghai'') \<or> py_contains lowered (lit ''china'')
                 \<or> py_contains message [19978, 28023] \<or> py_contains message [21271, 20140]
              then lit ''Asia/Shanghai''
              else if py_contains lowered (lit ''new york'') \<or> py_contains message [32445, 32422]
              then lit ''America/New_York''
              else if py_contains lowered (lit ''london'') \<or> py_contains message [20262, 25958]
              then lit ''Europe/London''
              else lit ''UTC''))"

section \<open>One scripted response\<close>

record fake_readings =
  fr_before :: rat
  fr_deadline :: rat
  fr_begun :: rat
  fr_id :: pystr
  fr_finished :: rat
  fr_after :: rat

fun scripted_usage :: "model_call_kind \<Rightarrow> token_usage" where
  "scripted_usage DirectCall = \<lparr>input_tokens = Some 80, output_tokens = Some 24, cached_tokens = Some 0,
     reasoning_tokens = None, total_tokens = Some 104\<rparr>"
| "scripted_usage DecisionCall = \<lparr>input_tokens = Some 96, output_tokens = Some 12, cached_tokens = Some 0,
     reasoning_tokens = None, total_tokens = Some 108\<rparr>"
| "scripted_usage FinalizerCall = \<lparr>input_tokens = Some 144, output_tokens = Some 36, cached_tokens = Some 0,
     reasoning_tokens = None, total_tokens = Some 180\<rparr>"

definition fake_attempt ::
  "fake_readings \<Rightarrow> model_call_kind \<Rightarrow> 'w execution \<times> 'w \<Rightarrow> (exn + pystr) \<times> 'w execution \<times> 'w" where
  "fake_attempt rd kind st =
     and_then (locally (before_model_call (fr_before rd)) st)
       (\<lambda>_. begin_provider_attempt (fr_deadline rd) (fr_begun rd) (fr_id rd) kind None)"

definition fake_response ::
  "host_env \<Rightarrow> fake_readings \<Rightarrow> ai_message list \<Rightarrow> model_call_kind \<Rightarrow> 'w execution \<times> 'w \<Rightarrow>
   (exn + unit) \<times> 'w execution \<times> 'w" where
  "fake_response env rd messages kind st =
     and_then (fake_attempt rd kind st) (\<lambda>attempt_id st1.
     and_then (locally (observe_provider_usage attempt_id (scripted_usage kind)) st1) (\<lambda>_ st2.
     and_then (finish_provider_attempt (fr_finished rd) attempt_id Succeeded st2) (\<lambda>_.
     locally (after_model_response env (fr_after rd) messages))))"

fun fake_responses ::
  "host_env \<Rightarrow> (fake_readings \<times> ai_message) list \<Rightarrow> 'w execution \<times> 'w \<Rightarrow> (exn + unit) \<times> 'w execution \<times> 'w" where
  "fake_responses env [] st = (Inr (), st)"
| "fake_responses env ((rd, m) # rounds) st =
     and_then (fake_response env rd [m] DecisionCall st) (\<lambda>_. fake_responses env rounds)"

definition plain_message :: "pystr \<Rightarrow> ai_message" where
  "plain_message text = \<lparr>ai_content = PStr text, ai_tool_calls = []\<rparr>"

definition call_message :: "pdict list \<Rightarrow> ai_message" where
  "call_message calls = \<lparr>ai_content = PStr [], ai_tool_calls = calls\<rparr>"

section \<open>The script\<close>

record fake_script =
  fs_env :: host_env
  fs_casefold :: "pystr \<Rightarrow> pystr"
  fs_word :: "nat \<Rightarrow> bool"
  fs_value_text :: "pval \<Rightarrow> pystr"
  fs_readings :: "nat \<Rightarrow> fake_readings"
  fs_answer :: "exn + capability_decision"
  fs_call_begun :: rat
  fs_call_ended :: rat
  fs_tool :: "pdict \<Rightarrow> exn + pval"

text \<open>
  Between two yields: before the first, asleep past the deadline, with events of the Tool still to
  yield, with deltas of the answer still to yield, after its \<open>AssertionError\<close>, or over.
\<close>

datatype fake_phase =
    FakeStart
  | FakeAsleep
  | FakeEvents tool_message "product_event list"
  | FakeDeltas pystr bool "pystr list"
  | FakeBroken
  | FakeOver

datatype fake_item = FakeEvent product_event | FakeResult agent_result

definition has_mark :: "string \<Rightarrow> pystr \<Rightarrow> bool" where
  "has_mark mark message \<longleftrightarrow> py_contains message (lit (''[policy:'' @ mark @ '']''))"

definition time_call :: "pystr \<Rightarrow> pystr \<Rightarrow> pdict" where
  "time_call call_id zone =
     make_tool_call call_id (lit ''get_current_time'') (py_dict [(''timezone'', PStr zone)])"

text \<open>A script that a guard has to stop, or else its \<open>AssertionError\<close>.\<close>

definition guard_script ::
  "(exn + unit) \<times> 'w execution \<times> 'w \<Rightarrow> (exn + fake_phase) \<times> 'w execution \<times> 'w" where
  "guard_script r = and_then r (\<lambda>_ st. (Inr FakeBroken, st))"

definition limit_script ::
  "fake_script \<Rightarrow> pystr \<Rightarrow> 'w execution \<times> 'w \<Rightarrow> (exn + fake_phase) \<times> 'w execution \<times> 'w" where
  "limit_script fs message st =
     (let b = budget (ex_agent (fst st));
          answer = fake_response (fs_env fs) (fs_readings fs 0)
      in if has_mark ''model-step-limit'' message
         then guard_script (fake_responses (fs_env fs)
                (map (\<lambda>i. (fs_readings fs i, plain_message (lit ''bounded-progress-'' @ nat_text i)))
                   [0..<nat (max_model_steps b + 1)]) st)
         else if has_mark ''no-progress'' message
         then guard_script (fake_responses (fs_env fs)
                (map (\<lambda>i. (fs_readings fs i, plain_message [])) [0..<nat (max_no_progress_steps b + 2)]) st)
         else if has_mark ''tool-call-limit'' message
         then guard_script (answer
                [call_message (map (\<lambda>i. time_call (lit ''time-limit-'' @ nat_text i) (lit ''Etc/GMT+'' @ nat_text i))
                   [0..<nat (max_tool_calls b + 1)])] DecisionCall st)
         else guard_script (answer
                [call_message [make_tool_call (lit ''denied-1'') (lit ''unregistered_tool'') []]] DecisionCall st))"

definition direct_answer :: pystr where
  "direct_answer = lit ''This request can be answered without an external Tool.''"

definition is_direct :: "fake_script \<Rightarrow> pystr \<Rightarrow> bool" where
  "is_direct fs message \<longleftrightarrow>
     has_mark ''direct'' message
     \<or> \<not> list_ex (py_contains (fs_casefold fs message))
          [lit ''time'', [26102], lit ''london'', lit ''shanghai'', lit ''new york'', [19978, 28023], [21271, 20140],
           [20262, 25958], [32445, 32422]]"

text \<open>\<open>invoke\<close>, the handler of the Tool call, and \<open>emit\<close>, which collects the events.\<close>

definition invoke_time ::
  "fake_script \<Rightarrow> pdict \<Rightarrow> 'w execution \<times> 'e \<Rightarrow> (exn + tool_message option) \<times> 'w execution \<times> 'e" where
  "invoke_time fs validated st =
     (bindE (require_tool (ex_registry (fst st)) (lit ''get_current_time'')) (\<lambda>_.
      bindE (fs_tool fs validated) (\<lambda>result.
        (case as_str result of
           None \<Rightarrow> Inl (AgentExecutionFailed ''tool_result_type_invalid'')
         | Some s \<Rightarrow>
             Inr (Some \<lparr>tm_call_id = lit ''time-1'', tm_name = Some (lit ''get_current_time''),
                        tm_status = lit ''success'', tm_content = PStr s\<rparr>)))), st)"

definition collect_event ::
  "product_event \<Rightarrow> 'w execution \<times> product_event list \<times> 'w \<Rightarrow> (exn + unit) \<times> 'w execution \<times> product_event list \<times> 'w"
where
  "collect_event ev st = (Inr (), fst st, fst (snd st) @ [ev], snd (snd st))"

definition time_script ::
  "fake_script \<Rightarrow> pystr \<Rightarrow> 'w execution \<times> 'w \<Rightarrow> (exn + fake_phase) \<times> 'w execution \<times> 'w" where
  "time_script fs zone st =
     and_then (fake_response (fs_env fs) (fs_readings fs 0) [call_message [time_call (lit ''time-1'') zone]]
                DecisionCall st) (\<lambda>_ st1.
       case execute_tool_call (fs_env fs) (fs_call_begun fs) (fs_call_ended fs) (fs_answer fs) (lit ''time-1'')
              (lit ''get_current_time'') (py_dict [(''timezone'', PStr zone)]) (invoke_time fs) collect_event
              (fst st1, [], snd st1) of
         (Inl e, ex, _, w) \<Rightarrow> (Inl e, ex, w)
       | (Inr msg, ex, emitted, w) \<Rightarrow> (Inr (FakeEvents msg emitted), ex, w))"

definition start_script ::
  "fake_script \<Rightarrow> message list \<Rightarrow> 'w execution \<times> 'w \<Rightarrow> (exn + fake_phase) \<times> 'w execution \<times> 'w" where
  "start_script fs messages st =
     (if messages = [] then (Inl (OtherException ''RuntimeError''), st)
      else
        let message = message_content (last messages)
        in if has_mark ''deadline'' message
           then and_then (fake_attempt (fs_readings fs 0) DirectCall st) (\<lambda>_ st1. (Inr FakeAsleep, st1))
           else if list_ex (\<lambda>mark. has_mark mark message)
                     [''model-step-limit'', ''no-progress'', ''tool-call-limit'', ''tool-denied'']
           then limit_script fs message st
           else if is_direct fs message
           then and_then (fake_response (fs_env fs) (fs_readings fs 0) [plain_message direct_answer] DirectCall st)
                  (\<lambda>_ st1. (Inr (FakeDeltas direct_answer True
                                   [fst (split_text direct_answer), snd (split_text direct_answer)]), st1))
           else time_script fs (timezone_from_message (fs_word fs) (fs_casefold fs) message) st)"

section \<open>The answer after the Tool\<close>

definition field_text :: "fake_script \<Rightarrow> pdict \<Rightarrow> string \<Rightarrow> exn + pystr" where
  "field_text fs d key =
     (case map_of d (lit key) of
        None \<Rightarrow> Inl (OtherException ''KeyError'')
      | Some v \<Rightarrow> Inr (case as_str v of Some s \<Rightarrow> s | None \<Rightarrow> fs_value_text fs v))"

definition time_answer :: "fake_script \<Rightarrow> tool_message \<Rightarrow> exn + pystr" where
  "time_answer fs msg =
     (case env_json_loads (fs_env fs) (content_text (tm_content msg)) of
        Some (PDict d) \<Rightarrow>
          bindE (field_text fs d ''timezone'') (\<lambda>zone.
          bindE (field_text fs d ''local_time'') (\<lambda>local_time.
          bindE (field_text fs d ''utc_offset'') (\<lambda>offset.
            Inr (lit ''The current time in '' @ zone @ lit '' is '' @ local_time
                 @ lit '' (UTC offset '' @ offset @ lit '').''))))
      | _ \<Rightarrow> Inl (AgentExecutionFailed ''tool_output_invalid''))"

definition answer_script ::
  "fake_script \<Rightarrow> pystr \<Rightarrow> tool_message \<Rightarrow> 'w execution \<times> 'w \<Rightarrow> (exn + fake_phase) \<times> 'w execution \<times> 'w" where
  "answer_script fs message msg st =
     (if has_mark ''repeat-tool'' message
      then guard_script (fake_response (fs_env fs) (fs_readings fs 1)
             [call_message [time_call (lit ''time-2'')
                (timezone_from_message (fs_word fs) (fs_casefold fs) message)]] DecisionCall st)
      else
        (case time_answer fs msg of
           Inl e \<Rightarrow> (Inl e, st)
         | Inr text \<Rightarrow>
             and_then (fake_response (fs_env fs) (fs_readings fs 1) [plain_message text] FinalizerCall st)
               (\<lambda>_ st1. (Inr (FakeDeltas text False [fst (split_text text), snd (split_text text)]), st1))))"

definition fake_sources :: "pystr \<Rightarrow> bool \<Rightarrow> 'w execution \<Rightarrow> pystr list" where
  "fake_sources message direct ex =
     (if direct then []
      else if has_mark ''source-missing'' message then []
      else if has_mark ''source-invalid'' message then [lit ''forged-source'']
      else generated_source_ids ex)"

text \<open>
  What is yielded next, or nothing when the generator only went on to another phase, has returned or
  is broken; an exception ends it.
\<close>

definition fake_next ::
  "fake_script \<Rightarrow> message list \<Rightarrow> fake_phase \<Rightarrow> 'w execution \<times> 'w \<Rightarrow>
   (exn + fake_item option \<times> fake_phase) \<times> 'w execution \<times> 'w" where
  "fake_next fs messages phase st =
     (let message = message_content (last messages)
      in case phase of
           FakeStart \<Rightarrow> and_then (start_script fs messages st) (\<lambda>p st1. (Inr (None, p), st1))
         | FakeAsleep \<Rightarrow> (Inr (None, FakeBroken), st)
         | FakeEvents msg (ev # evs) \<Rightarrow> (Inr (Some (FakeEvent ev), FakeEvents msg evs), st)
         | FakeEvents msg [] \<Rightarrow> and_then (answer_script fs message msg st) (\<lambda>p st1. (Inr (None, p), st1))
         | FakeDeltas text direct (d # ds) \<Rightarrow>
             (Inr (Some (FakeEvent (delta_event d)), FakeDeltas text direct ds), st)
         | FakeDeltas text direct [] \<Rightarrow>
             (case make_agent_result text (fake_sources message direct (fst st)) of
                Inl e \<Rightarrow> (Inl e, st)
              | Inr r \<Rightarrow> (Inr (Some (FakeResult r), FakeOver), st))
         | FakeBroken \<Rightarrow> (Inr (None, FakeBroken), st)
         | FakeOver \<Rightarrow> (Inr (None, FakeOver), st))"

end
