(* ===== verification/Fake_Properties.thy ===== *)
theory Fake_Properties
  imports Fake_Runtime Run_Properties
begin

text \<open>
  The scripted adapter against the ledger of a Run: every script that tries to exceed a limit is
  stopped by the guard of that limit, and what it yields is the text it returns.
\<close>

section \<open>One response\<close>

text \<open>What a response that was let through did to the execution, but for its usage ledger.\<close>

lemma fake_response_ok:
  assumes "fake_response env rd messages kind (ex, w) = (Inr (), st)"
  obtains ex1 led where "before_model_call (fr_before rd) ex = (Inr (), ex1)"
    "after_model_response env (fr_after rd) messages (ex1\<lparr>provider_usage := led\<rparr>) = (Inr (), fst st)"
  using assms
  by (auto simp: fake_response_def fake_attempt_def locally_def begin_provider_attempt_def with_usage_def
      observe_provider_usage_def finish_provider_attempt_def split: sum.splits prod.splits
      elim!: and_then_cases)

lemma before_model_call_frame:
  assumes "before_model_call now ex = (Inr (), ex1)"
  shows "model_steps ex1 \<le> max_model_steps (budget (ex_agent ex))"
    "tool_calls_attempted ex1 = tool_calls_attempted ex" "visible_tool_ids ex1 = visible_tool_ids ex"
  using assms
  by (auto simp: before_model_call_def count_model_step_def Let_def elim!: guarded_cases split: if_splits)

lemma after_plain_message:
  assumes "after_model_response env now [plain_message text] ex = (r, ex')"
  shows "model_steps ex' = model_steps ex" "ex_agent ex' = ex_agent ex" "text = [] \<Longrightarrow> ex' = ex"
  using assms
  by (auto simp: after_model_response_def plain_message_def record_assistant_text_def record_progress_def Let_def
      split: if_splits)

lemma reserve_calls_visible:
  "reserve_calls env calls l ex = (Inr l', ex') \<Longrightarrow>
     list_all (\<lambda>call. \<exists>t \<in> set (visible_tool_ids ex). as_str (dict_get call (lit ''name'')) = Some t) calls"
proof (induction calls arbitrary: l)
  case (Cons call calls)
  then obtain i t args where "call_parts (loop_known l) call = Some (i, t, args)" "t \<in> set (visible_tool_ids ex)"
    by (auto split: option.splits if_splits)
  moreover obtain l1 where "reserve_calls env calls l1 ex = (Inr l', ex')"
    using Cons.prems by (auto simp: Let_def split: option.splits if_splits sum.splits)
  ultimately show ?case using Cons.IH
    by (auto simp: call_parts_def split: option.splits if_splits)
qed simp

lemma after_call_message:
  assumes "after_model_response env now [call_message calls] ex = (Inr (), ex')" "calls \<noteq> []"
  shows "tool_calls_attempted ex + int (length calls) \<le> max_tool_calls (budget (ex_agent ex))"
    "list_all (\<lambda>call. \<exists>t \<in> set (visible_tool_ids ex). as_str (dict_get call (lit ''name'')) = Some t) calls"
proof -
  have "reserve_tool_calls env now calls ex = (Inr (), ex')"
    using assms by (simp add: after_model_response_def call_message_def record_assistant_text_def)
  then show "tool_calls_attempted ex + int (length calls) \<le> max_tool_calls (budget (ex_agent ex))"
    "list_all (\<lambda>call. \<exists>t \<in> set (visible_tool_ids ex). as_str (dict_get call (lit ''name'')) = Some t) calls"
    using assms(2) reserve_calls_visible
    by (fastforce simp: reserve_tool_calls_def Let_def elim!: guarded_cases and_then_cases split: if_splits)+
qed

section \<open>The limits of model calls\<close>

lemma fake_responses_steps:
  assumes "fake_responses env (map (\<lambda>(rd, text). (rd, plain_message text)) rounds) (ex, w) = (Inr (), st)" "rounds \<noteq> []"
  shows "model_steps ex + int (length rounds) \<le> max_model_steps (budget (ex_agent ex))"
  using assms
proof (induction rounds arbitrary: ex w)
  case (Cons round1 rounds)
  obtain rd body where round1: "round1 = (rd, body)" by (cases round1)
  obtain ex2 w2 where one: "fake_response env rd [plain_message body] DecisionCall (ex, w) = (Inr (), ex2, w2)"
    and rest: "fake_responses env (map (\<lambda>(rd, text). (rd, plain_message text)) rounds) (ex2, w2) = (Inr (), st)"
    using Cons.prems(1) by (auto simp: round1 elim!: and_then_cases)
  obtain ex1 led where 1: "before_model_call (fr_before rd) ex = (Inr (), ex1)"
    "after_model_response env (fr_after rd) [plain_message body] (ex1\<lparr>provider_usage := led\<rparr>) = (Inr (), ex2)"
    using fake_response_ok [OF one] by auto
  have "model_steps ex2 = model_steps ex + 1" "ex_agent ex2 = ex_agent ex"
    using after_plain_message [OF 1(2)] before_model_call_progress [OF 1(1)] by simp_all
  with Cons.IH [OF rest] before_model_call_frame(1) [OF 1(1)] before_model_call_progress [OF 1(1)] show ?case
    by (cases "rounds = []") simp_all
qed simp

lemma silent_responses:
  assumes "fake_responses env (map (\<lambda>rd. (rd, plain_message [])) rds) (ex, w) = (Inr (), st)" "rds \<noteq> []"
    and "0 < model_steps ex" "progress_revision ex = last_model_progress_revision ex"
  shows "consecutive_no_progress ex + int (length rds) < max_no_progress_steps (budget (ex_agent ex))"
  using assms
proof (induction rds arbitrary: ex w)
  case (Cons rd rds)
  obtain ex2 w2 where one: "fake_response env rd [plain_message []] DecisionCall (ex, w) = (Inr (), ex2, w2)"
    and rest: "fake_responses env (map (\<lambda>rd. (rd, plain_message [])) rds) (ex2, w2) = (Inr (), st)"
    using Cons.prems(1) by (auto elim!: and_then_cases)
  obtain ex1 led where 1: "before_model_call (fr_before rd) ex = (Inr (), ex1)"
    "after_model_response env (fr_after rd) [plain_message []] (ex1\<lparr>provider_usage := led\<rparr>) = (Inr (), ex2)"
    using fake_response_ok [OF one] by auto
  note p = before_model_call_progress [OF 1(1)] and same = after_plain_message(3) [OF 1(2) refl]
  show ?case
  proof (cases "rds = []")
    case True
    with p Cons.prems show ?thesis by simp
  next
    case False
    with Cons.IH [OF rest] p same Cons.prems show ?thesis by simp
  qed
qed simp

lemma silent_script_stops:
  assumes "exec_inv ex" "max_no_progress_steps (budget (ex_agent ex)) + 2 \<le> int (length rds)"
  shows "fst (fake_responses env (map (\<lambda>rd. (rd, plain_message [])) rds) (ex, w)) \<noteq> Inr ()"
proof
  assume run: "fst (fake_responses env (map (\<lambda>rd. (rd, plain_message [])) rds) (ex, w)) = Inr ()"
  have c: "0 \<le> consecutive_no_progress ex" "0 \<le> model_steps ex"
    "1 \<le> max_no_progress_steps (budget (ex_agent ex))"
    using assms(1) by (simp_all add: exec_inv_def counters_inv_def scope_inv_def valid_agent_definition_def
        valid_budget_def)
  obtain rd rest where rds: "rds = rd # rest" "rest \<noteq> []"
    using assms(2) c(3) by (cases rds; cases "tl rds") auto
  obtain ex2 w2 st where one: "fake_response env rd [plain_message []] DecisionCall (ex, w) = (Inr (), ex2, w2)"
    and more: "fake_responses env (map (\<lambda>rd. (rd, plain_message [])) rest) (ex2, w2) = (Inr (), st)"
    using run by (cases "fake_responses env (map (\<lambda>rd. (rd, plain_message [])) rds) (ex, w)")
      (auto simp: rds elim!: and_then_cases)
  obtain ex1 led where 1: "before_model_call (fr_before rd) ex = (Inr (), ex1)"
    "after_model_response env (fr_after rd) [plain_message []] (ex1\<lparr>provider_usage := led\<rparr>) = (Inr (), ex2)"
    using fake_response_ok [OF one] by auto
  note p = before_model_call_progress [OF 1(1)] and same = after_plain_message(3) [OF 1(2) refl]
  have "consecutive_no_progress ex2 + int (length rest) < max_no_progress_steps (budget (ex_agent ex2))"
    by (rule silent_responses [OF more rds(2)]) (use p same c in auto)
  with p same c assms(2) rds(1) show False by simp
qed

lemma step_script_stops:
  assumes "exec_inv ex" "max_model_steps (budget (ex_agent ex)) < int (length rounds)" "rounds \<noteq> []"
  shows "fst (fake_responses env (map (\<lambda>(rd, text). (rd, plain_message text)) rounds) (ex, w)) \<noteq> Inr ()"
proof
  assume "fst (fake_responses env (map (\<lambda>(rd, text). (rd, plain_message text)) rounds) (ex, w)) = Inr ()"
  then obtain st where "fake_responses env (map (\<lambda>(rd, text). (rd, plain_message text)) rounds) (ex, w) = (Inr (), st)"
    by (cases "fake_responses env (map (\<lambda>(rd, text). (rd, plain_message text)) rounds) (ex, w)") auto
  from fake_responses_steps [OF this assms(3)] assms(1,2) show False
    by (simp add: exec_inv_def counters_inv_def)
qed

lemma call_script_stops:
  assumes "calls \<noteq> []"
    and "max_tool_calls (budget (ex_agent ex)) < tool_calls_attempted ex + int (length calls)
      \<or> list_ex (\<lambda>call. \<exists>t. as_str (dict_get call (lit ''name'')) = Some t \<and> t \<notin> set (visible_tool_ids ex)) calls"
  shows "fst (fake_response env rd [call_message calls] kind (ex, w)) \<noteq> Inr ()"
proof
  assume "fst (fake_response env rd [call_message calls] kind (ex, w)) = Inr ()"
  then obtain st where run: "fake_response env rd [call_message calls] kind (ex, w) = (Inr (), st)"
    by (metis prod.collapse)
  obtain ex1 led where 1: "before_model_call (fr_before rd) ex = (Inr (), ex1)"
    "after_model_response env (fr_after rd) [call_message calls] (ex1\<lparr>provider_usage := led\<rparr>) = (Inr (), fst st)"
    using fake_response_ok [OF run] by blast
  have same: "ex_agent ex1 = ex_agent ex" using before_model_call_progress [OF 1(1)] by simp
  from after_call_message [OF 1(2) assms(1)] before_model_call_frame(2,3) [OF 1(1)] same
  have "tool_calls_attempted ex + int (length calls) \<le> max_tool_calls (budget (ex_agent ex))"
    "list_all (\<lambda>call. \<exists>t \<in> set (visible_tool_ids ex). as_str (dict_get call (lit ''name'')) = Some t) calls"
    by simp_all
  with assms(2) show False by (force simp: list_all_iff list_ex_iff)
qed

section \<open>The guards hold\<close>

text \<open>
  C35. No limit script reaches its end. From every reachable execution, with any readings of the
  clock and whatever the writers of its usage ledger answer, a script that asks for more model
  calls, more Tool calls or more silence than the budget allows, or for a Tool that is not
  visible, ends in an exception of the ledger and never in the adapter's own \<open>AssertionError\<close>.
\<close>

theorem scripted_limits_stopped:
  assumes "reaches exec_init (exec_step env) ex" "messages \<noteq> []"
    and "\<not> has_mark ''deadline'' (message_content (last messages))"
    and "mark \<in> {''model-step-limit'', ''no-progress'', ''tool-call-limit'', ''tool-denied''}"
    and "has_mark mark (message_content (last messages))"
    and "lit ''unregistered_tool'' \<notin> set (visible_tool_ids ex)"
  shows "\<exists>e. fst (start_script fs messages (ex, w)) = Inl e"
proof -
  let ?m = "message_content (last messages)"
  have inv: "exec_inv ex" using assms(1) by (rule exec.reaches_inv)
  then have c: "0 \<le> tool_calls_attempted ex" "0 \<le> model_steps ex"
      "1 \<le> max_no_progress_steps (budget (ex_agent ex))" "1 \<le> max_model_steps (budget (ex_agent ex))"
      "0 \<le> max_tool_calls (budget (ex_agent ex))"
    by (simp_all add: exec_inv_def counters_inv_def scope_inv_def valid_agent_definition_def valid_budget_def)
  have start: "start_script fs messages (ex, w) = limit_script fs ?m (ex, w)"
  proof -
    have "list_ex (\<lambda>mark. has_mark mark ?m)
        [''model-step-limit'', ''no-progress'', ''tool-call-limit'', ''tool-denied'']"
      using assms(4,5) by (simp only: list_ex_iff list.set) blast
    with assms(2,3) show ?thesis by (simp only: start_script_def Let_def if_True if_False)
  qed
  have guard: "\<exists>e. fst (guard_script r) = Inl e" if "fst r \<noteq> Inr ()" for r :: "(exn + unit) \<times> 'a execution \<times> 'a"
    using that by (cases r; cases "fst r") (auto simp: guard_script_def)
  have steps: "fst (fake_responses (fs_env fs) (map (\<lambda>i. (fs_readings fs i, plain_message (lit ''bounded-progress-'' @ nat_text i)))
      [0..<nat (max_model_steps (budget (ex_agent ex)) + 1)]) (ex, w)) \<noteq> Inr ()"
    using step_script_stops [OF inv, of "map (\<lambda>i. (fs_readings fs i, lit ''bounded-progress-'' @ nat_text i))
        [0..<nat (max_model_steps (budget (ex_agent ex)) + 1)]" "fs_env fs" w] c(4) by (simp add: comp_def)
  have silent: "fst (fake_responses (fs_env fs) (map (\<lambda>i. (fs_readings fs i, plain_message []))
      [0..<nat (max_no_progress_steps (budget (ex_agent ex)) + 2)]) (ex, w)) \<noteq> Inr ()"
    using silent_script_stops [OF inv, of "map (fs_readings fs) [0..<nat (max_no_progress_steps (budget (ex_agent ex)) + 2)]"
        "fs_env fs" w] c(3) by (simp add: comp_def)
  have many: "fst (fake_response (fs_env fs) (fs_readings fs 0) [call_message (map (\<lambda>i. time_call (lit ''time-limit-'' @ nat_text i)
      (lit ''Etc/GMT+'' @ nat_text i)) [0..<nat (max_tool_calls (budget (ex_agent ex)) + 1)])] DecisionCall (ex, w)) \<noteq> Inr ()"
    by (rule call_script_stops) (use c in auto)
  have denied: "fst (fake_response (fs_env fs) (fs_readings fs 0)
      [call_message [make_tool_call (lit ''denied-1'') (lit ''unregistered_tool'') []]] DecisionCall (ex, w)) \<noteq> Inr ()"
    by (rule call_script_stops) (use assms(6) in \<open>simp_all add: make_tool_call_def\<close>)
  show ?thesis
    unfolding start limit_script_def Let_def fst_conv
    using guard [OF steps] guard [OF silent] guard [OF many] guard [OF denied]
    by (cases "has_mark ''model-step-limit'' ?m"; cases "has_mark ''no-progress'' ?m";
        cases "has_mark ''tool-call-limit'' ?m") (simp_all only: if_True if_False simp_thms)
qed

section \<open>What is yielded\<close>

lemma split_text_whole: "concat [fst (split_text s), snd (split_text s)] = s"
  by (simp add: split_text_def Let_def)

text \<open>The deltas of an answer are the text of the result that follows them.\<close>

lemma fst_and_then: "fst (and_then r k) = Inr x \<Longrightarrow> \<exists>y s. r = (Inr y, s) \<and> fst (k y s) = Inr x"
  by (cases r; cases "fst r") auto

lemma scripted_answer_whole:
  assumes "fst (start_script fs messages st) = Inr (FakeDeltas body direct ds)
    \<or> fst (answer_script fs message msg st) = Inr (FakeDeltas body direct ds)"
  shows "concat ds = body"
proof -
  have "fst (limit_script fs m st) \<noteq> Inr (FakeDeltas body direct ds)" for m
    by (auto simp: limit_script_def guard_script_def Let_def split: if_splits dest!: fst_and_then)
  moreover have "fst (time_script fs zone st) \<noteq> Inr (FakeDeltas body direct ds)" for zone
    by (auto simp: time_script_def split: prod.splits sum.splits dest!: fst_and_then)
  moreover have "fst (guard_script r) \<noteq> Inr (FakeDeltas body direct ds)" for r :: "(exn + unit) \<times> 'a execution \<times> 'a"
    by (auto simp: guard_script_def dest!: fst_and_then)
  ultimately show ?thesis
    using assms split_text_whole
    by (auto simp: start_script_def answer_script_def Let_def split: if_splits sum.splits dest!: fst_and_then)
qed

section \<open>Witness\<close>

definition demo_script :: fake_script where
  "demo_script = \<lparr>fs_env = hex_env, fs_casefold = id, fs_word = is_letter, fs_value_text = (\<lambda>_. []),
     fs_readings = (\<lambda>i. \<lparr>fr_before = 6, fr_deadline = 6, fr_begun = 6, fr_id = lit ''a'' @ nat_text i,
       fr_finished = 6, fr_after = 6\<rparr>),
     fs_answer = demo_answer, fs_call_begun = 6, fs_call_ended = 6, fs_tool = (\<lambda>_. Inr (PStr (lit ''now'')))\<rparr>"

definition demo_limit_message :: message where
  "demo_limit_message = \<lparr>message_id = lit ''m'', message_role = UserRole,
     message_content = lit ''[policy:no-progress]'', message_created_at = 1, message_run_id = None\<rparr>"

theorem scripted_limits_stopped_witness:
  "\<exists>e. fst (start_script demo_script [demo_limit_message] (demo_run, ())) = Inl e"
proof (rule scripted_limits_stopped [where env = hex_env and mark = "''no-progress''"])
  show "reaches exec_init (exec_step hex_env) (demo_run :: unit execution)" by (rule reaches_init) (rule demo_init)
  show "lit ''unregistered_tool'' \<notin> set (visible_tool_ids (demo_run :: unit execution))"
    by (simp add: demo_run_def new_execution_def)
  show "\<not> has_mark ''deadline'' (message_content (last [demo_limit_message]))"
    "has_mark ''no-progress'' (message_content (last [demo_limit_message]))"
    by (simp_all add: has_mark_def py_contains_def py_startswith_def demo_limit_message_def lit_def upt_rec)
qed simp_all

end
