(* ===== verification/Migrations.thy ===== *)
theory Migrations
  imports Store_Schema
begin

text \<open>
  The four Alembic revisions of migrations/versions, the chain env.py runs them in, and the tables
  models.py declares. A table has its columns, constraints and indexes, and its rows; a row maps
  columns to values, and a column the table does not have is NULL. A migration is a step on the
  database that may stop with an error, in the state it has reached.

  Alembic and the two database systems are modelled by their documented behaviour: PostgreSQL runs
  the whole chain in one transaction and checks the rows a new constraint has to hold for; SQLite
  has no transactional DDL here and, as tables are rebuilt with foreign-key checks off, does not
  check existing rows against a new foreign key.
\<close>

section \<open>Tables\<close>

datatype sql_value = SqlNull | SqlText pystr | SqlInt int | SqlTime int | SqlJson pdict

datatype sql_type = VarChar nat | LongText | SqlInteger | Timestamp | JsonValue | JsonOrNull

record sql_column =
  col_name :: string
  col_type :: sql_type
  col_nullable :: bool

datatype on_delete = NoAction | Cascade | SetNull

datatype check_rule =
    OneOf string "string list"
  | AtLeast string int
  | NullOrAtLeast string int
  | NullOrFrom string string

datatype table_constraint =
    PrimaryKey "string list"
  | UniqueKey string "string list"
  | CheckRule string check_rule
  | ForeignKey "string option" "string list" string "string list" on_delete

record sql_index =
  ix_name :: string
  ix_columns :: "string list"
  ix_unique :: bool
  ix_where :: "check_rule option"

type_synonym sql_row = "string \<Rightarrow> sql_value"

record sql_table =
  tb_name :: string
  tb_columns :: "sql_column list"
  tb_constraints :: "table_constraint list"
  tb_indexes :: "sql_index list"
  tb_rows :: "sql_row list"

record sql_db =
  sd_tables :: "sql_table list"
  sd_revision :: "string option"

datatype dialect = Postgresql | Sqlite

section \<open>What a constraint says\<close>

text \<open>A CHECK fails only when it is false; with a NULL it is neither true nor false.\<close>

fun check_holds :: "check_rule \<Rightarrow> sql_row \<Rightarrow> bool" where
  "check_holds (OneOf c names) r = (r c = SqlNull \<or> r c \<in> (\<lambda>n. SqlText (lit n)) ` set names)"
| "check_holds (AtLeast c n) r = (case r c of SqlNull \<Rightarrow> True | SqlInt i \<Rightarrow> n \<le> i | _ \<Rightarrow> False)"
| "check_holds (NullOrAtLeast c n) r = (case r c of SqlNull \<Rightarrow> True | SqlInt i \<Rightarrow> n \<le> i | _ \<Rightarrow> False)"
| "check_holds (NullOrFrom c d) r =
     (case (r c, r d) of
        (SqlNull, _) \<Rightarrow> True
      | (_, SqlNull) \<Rightarrow> True
      | (SqlTime x, SqlTime y) \<Rightarrow> y \<le> x
      | _ \<Rightarrow> False)"

definition key_of :: "string list \<Rightarrow> sql_row \<Rightarrow> sql_value list" where
  "key_of cols r = map r cols"

definition unique_on :: "string list \<Rightarrow> sql_row list \<Rightarrow> bool" where
  "unique_on cols rows = distinct (filter (\<lambda>k. SqlNull \<notin> set k) (map (key_of cols) rows))"

definition find_table :: "sql_db \<Rightarrow> string \<Rightarrow> sql_table option" where
  "find_table db name = List.find (\<lambda>t. tb_name t = name) (sd_tables db)"

definition rows_of :: "sql_db \<Rightarrow> string \<Rightarrow> sql_row list" where
  "rows_of db name = (case find_table db name of None \<Rightarrow> [] | Some t \<Rightarrow> tb_rows t)"

text \<open>A foreign key with a NULL part refers to nothing.\<close>

definition refers :: "sql_db \<Rightarrow> string list \<Rightarrow> string \<Rightarrow> string list \<Rightarrow> sql_row \<Rightarrow> bool" where
  "refers db cols parent pcols r \<longleftrightarrow>
     SqlNull \<in> set (key_of cols r) \<or> list_ex (\<lambda>q. key_of pcols q = key_of cols r) (rows_of db parent)"

fun constraint_holds :: "sql_db \<Rightarrow> sql_row list \<Rightarrow> table_constraint \<Rightarrow> bool" where
  "constraint_holds db rows (PrimaryKey cols) = unique_on cols rows"
| "constraint_holds db rows (UniqueKey name cols) = unique_on cols rows"
| "constraint_holds db rows (CheckRule name rule) = list_all (check_holds rule) rows"
| "constraint_holds db rows (ForeignKey name cols parent pcols od) = list_all (refers db cols parent pcols) rows"

fun has_type :: "sql_type \<Rightarrow> sql_value \<Rightarrow> bool" where
  "has_type ty SqlNull = True"
| "has_type ty (SqlText s) = (case ty of VarChar n \<Rightarrow> length s \<le> n | LongText \<Rightarrow> True | _ \<Rightarrow> False)"
| "has_type ty (SqlInt i) = (ty = SqlInteger)"
| "has_type ty (SqlTime t) = (ty = Timestamp)"
| "has_type ty (SqlJson d) = (ty = JsonValue \<or> ty = JsonOrNull)"

definition row_fits :: "sql_column list \<Rightarrow> sql_row \<Rightarrow> bool" where
  "row_fits cols r \<longleftrightarrow>
     list_all (\<lambda>c. has_type (col_type c) (r (col_name c)) \<and> (r (col_name c) = SqlNull \<longrightarrow> col_nullable c)) cols
     \<and> (\<forall>n. n \<notin> col_name ` set cols \<longrightarrow> r n = SqlNull)"

text \<open>The WHERE of the only partial index is a CHECK on a column that is never NULL, so a row for
  which it is not false is a row for which it is true.\<close>

definition index_holds :: "sql_row list \<Rightarrow> sql_index \<Rightarrow> bool" where
  "index_holds rows ix =
     (ix_unique ix \<longrightarrow>
        unique_on (ix_columns ix)
          (case ix_where ix of None \<Rightarrow> rows | Some rule \<Rightarrow> filter (check_holds rule) rows))"

definition table_holds :: "sql_db \<Rightarrow> sql_table \<Rightarrow> bool" where
  "table_holds db t \<longleftrightarrow>
     list_all (row_fits (tb_columns t)) (tb_rows t)
     \<and> list_all (constraint_holds db (tb_rows t)) (tb_constraints t)
     \<and> list_all (index_holds (tb_rows t)) (tb_indexes t)"

definition integrity :: "sql_db \<Rightarrow> bool" where
  "integrity db = list_all (table_holds db) (sd_tables db)"

section \<open>Steps of a migration\<close>

datatype migration_error = Refused string | Violated string | Missing string | Present string

type_synonym migration = "sql_db \<Rightarrow> (migration_error + unit) \<times> sql_db"

fun run_all :: "migration list \<Rightarrow> migration" where
  "run_all [] db = (Inr (), db)"
| "run_all (m # ms) db = (case m db of (Inl e, db') \<Rightarrow> (Inl e, db') | (Inr _, db') \<Rightarrow> run_all ms db')"

definition on_table :: "string \<Rightarrow> (sql_db \<Rightarrow> sql_table \<Rightarrow> migration_error + sql_table) \<Rightarrow> migration" where
  "on_table name f db =
     (case find_table db name of
        None \<Rightarrow> (Inl (Missing name), db)
      | Some t \<Rightarrow>
          (case f db t of
             Inl e \<Rightarrow> (Inl e, db)
           | Inr t' \<Rightarrow>
               (Inr (), db\<lparr>sd_tables := map (\<lambda>u. if tb_name u = name then t' else u) (sd_tables db)\<rparr>)))"

definition create_table :: "sql_table \<Rightarrow> migration" where
  "create_table t db =
     (if find_table db (tb_name t) \<noteq> None then (Inl (Present (tb_name t)), db)
      else (Inr (), db\<lparr>sd_tables := sd_tables db @ [t]\<rparr>))"

definition drop_table :: "string \<Rightarrow> migration" where
  "drop_table name db =
     (if find_table db name = None then (Inl (Missing name), db)
      else (Inr (), db\<lparr>sd_tables := filter (\<lambda>t. tb_name t \<noteq> name) (sd_tables db)\<rparr>))"

definition create_index :: "string \<Rightarrow> sql_index \<Rightarrow> migration" where
  "create_index name ix =
     on_table name (\<lambda>db t. if index_holds (tb_rows t) ix then Inr (t\<lparr>tb_indexes := tb_indexes t @ [ix]\<rparr>)
        else Inl (Violated (ix_name ix)))"

definition drop_index :: "string \<Rightarrow> string \<Rightarrow> migration" where
  "drop_index name ix =
     on_table name (\<lambda>db t. Inr (t\<lparr>tb_indexes := filter (\<lambda>i. ix_name i \<noteq> ix) (tb_indexes t)\<rparr>))"

definition add_column :: "string \<Rightarrow> sql_column \<Rightarrow> migration" where
  "add_column name col =
     on_table name (\<lambda>db t. Inr (t\<lparr>tb_columns := tb_columns t @ [col],
        tb_rows := map (\<lambda>r. r(col_name col := SqlNull)) (tb_rows t)\<rparr>))"

definition drop_column :: "string \<Rightarrow> string \<Rightarrow> migration" where
  "drop_column name col =
     on_table name (\<lambda>db t. Inr (t\<lparr>tb_columns := filter (\<lambda>c. col_name c \<noteq> col) (tb_columns t),
        tb_rows := map (\<lambda>r. r(col := SqlNull)) (tb_rows t)\<rparr>))"

definition set_not_null :: "string \<Rightarrow> string \<Rightarrow> migration" where
  "set_not_null name col =
     on_table name (\<lambda>db t.
       if list_ex (\<lambda>r. r col = SqlNull) (tb_rows t) then Inl (Violated col)
       else Inr (t\<lparr>tb_columns := map (\<lambda>c. if col_name c = col then c\<lparr>col_nullable := False\<rparr> else c) (tb_columns t)\<rparr>))"

definition update_column :: "string \<Rightarrow> string \<Rightarrow> sql_value \<Rightarrow> migration" where
  "update_column name col v = on_table name (\<lambda>db t. Inr (t\<lparr>tb_rows := map (\<lambda>r. r(col := v)) (tb_rows t)\<rparr>))"

definition create_unique :: "string \<Rightarrow> string \<Rightarrow> string list \<Rightarrow> migration" where
  "create_unique name key cols =
     on_table name (\<lambda>db t. if unique_on cols (tb_rows t)
        then Inr (t\<lparr>tb_constraints := tb_constraints t @ [UniqueKey key cols]\<rparr>) else Inl (Violated key))"

definition create_foreign_key ::
  "dialect \<Rightarrow> string \<Rightarrow> string \<Rightarrow> string list \<Rightarrow> string \<Rightarrow> string list \<Rightarrow> migration" where
  "create_foreign_key d name key cols parent pcols =
     on_table name (\<lambda>db t.
       if d = Postgresql \<and> \<not> list_all (refers db cols parent pcols) (tb_rows t) then Inl (Violated key)
       else Inr (t\<lparr>tb_constraints := tb_constraints t @ [ForeignKey (Some key) cols parent pcols NoAction]\<rparr>))"

fun constraint_name :: "table_constraint \<Rightarrow> string option" where
  "constraint_name (PrimaryKey cols) = None"
| "constraint_name (UniqueKey name cols) = Some name"
| "constraint_name (CheckRule name rule) = Some name"
| "constraint_name (ForeignKey name cols parent pcols od) = name"

definition drop_constraint :: "string \<Rightarrow> string \<Rightarrow> migration" where
  "drop_constraint name key =
     on_table name (\<lambda>db t. Inr (t\<lparr>tb_constraints := filter (\<lambda>c. constraint_name c \<noteq> Some key) (tb_constraints t)\<rparr>))"

text \<open>\<open>SELECT COUNT(*) FROM name WHERE P\<close>, and the refusal when there is any.\<close>

definition refuse_rows :: "string \<Rightarrow> string \<Rightarrow> (sql_db \<Rightarrow> sql_row \<Rightarrow> bool) \<Rightarrow> migration" where
  "refuse_rows why name P db = (if list_ex (P db) (rows_of db name) then (Inl (Refused why), db) else (Inr (), db))"

definition require_online :: "bool \<Rightarrow> string \<Rightarrow> migration" where
  "require_online offline why db = (if offline then (Inl (Refused why), db) else (Inr (), db))"

abbreviation varchar :: "nat \<Rightarrow> string \<Rightarrow> sql_column" where
  "varchar n name \<equiv> \<lparr>col_name = name, col_type = VarChar n, col_nullable = False\<rparr>"

abbreviation not_null :: "sql_type \<Rightarrow> string \<Rightarrow> sql_column" where
  "not_null ty name \<equiv> \<lparr>col_name = name, col_type = ty, col_nullable = False\<rparr>"

abbreviation or_null :: "sql_type \<Rightarrow> string \<Rightarrow> sql_column" where
  "or_null ty name \<equiv> \<lparr>col_name = name, col_type = ty, col_nullable = True\<rparr>"

abbreviation plain_index :: "string \<Rightarrow> string list \<Rightarrow> sql_index" where
  "plain_index name cols \<equiv> \<lparr>ix_name = name, ix_columns = cols, ix_unique = False, ix_where = None\<rparr>"

section \<open>0001: the product tables\<close>

definition RUN_STATUSES :: "string list" where
  "RUN_STATUSES = [''created'', ''running'', ''completed'', ''failed'', ''cancelled'']"

definition ACTIVE_RUN_STATUSES :: check_rule where
  "ACTIVE_RUN_STATUSES = OneOf ''status'' [''created'', ''running'']"

definition one_active_index :: sql_index where
  "one_active_index =
     \<lparr>ix_name = ''uq_product_run_one_active_thread'', ix_columns = [''thread_id''], ix_unique = True,
      ix_where = Some ACTIVE_RUN_STATUSES\<rparr>"

definition create_threads :: sql_table where
  "create_threads =
     \<lparr>tb_name = ''product_threads'',
      tb_columns = [varchar 36 ''id'', varchar 200 ''title'', not_null Timestamp ''created_at'',
        not_null Timestamp ''updated_at''],
      tb_constraints = [PrimaryKey [''id'']], tb_indexes = [], tb_rows = []\<rparr>"

definition create_runs :: sql_table where
  "create_runs =
     \<lparr>tb_name = ''product_runs'',
      tb_columns = [varchar 36 ''id'', varchar 36 ''thread_id'', varchar 128 ''idempotency_key'',
        varchar 24 ''status'', not_null SqlInteger ''last_seq'', not_null Timestamp ''created_at'',
        or_null Timestamp ''completed_at''],
      tb_constraints = [CheckRule ''ck_product_run_status'' (OneOf ''status'' RUN_STATUSES),
        ForeignKey None [''thread_id''] ''product_threads'' [''id''] Cascade, PrimaryKey [''id''],
        UniqueKey ''uq_product_run_idempotency'' [''thread_id'', ''idempotency_key'']],
      tb_indexes = [], tb_rows = []\<rparr>"

definition create_messages :: sql_table where
  "create_messages =
     \<lparr>tb_name = ''product_messages'',
      tb_columns = [varchar 36 ''id'', varchar 36 ''thread_id'', or_null (VarChar 36) ''run_id'',
        varchar 16 ''role'', not_null LongText ''content'', not_null Timestamp ''created_at''],
      tb_constraints = [CheckRule ''ck_product_message_role'' (OneOf ''role'' [''user'', ''assistant'']),
        ForeignKey None [''run_id''] ''product_runs'' [''id''] SetNull,
        ForeignKey None [''thread_id''] ''product_threads'' [''id''] Cascade, PrimaryKey [''id'']],
      tb_indexes = [], tb_rows = []\<rparr>"

definition create_events :: sql_table where
  "create_events =
     \<lparr>tb_name = ''product_events'',
      tb_columns = [varchar 36 ''id'', varchar 36 ''run_id'', varchar 36 ''thread_id'',
        not_null SqlInteger ''seq'', varchar 48 ''type'', not_null Timestamp ''occurred_at'',
        not_null JsonValue ''payload''],
      tb_constraints = [ForeignKey None [''run_id''] ''product_runs'' [''id''] Cascade,
        ForeignKey None [''thread_id''] ''product_threads'' [''id''] Cascade, PrimaryKey [''id''],
        UniqueKey ''uq_product_event_run_seq'' [''run_id'', ''seq'']],
      tb_indexes = [], tb_rows = []\<rparr>"

definition upgrade_0001 :: migration where
  "upgrade_0001 = run_all
     [create_table create_threads,
      create_table create_runs,
      create_index ''product_runs'' (plain_index ''ix_product_runs_created_at'' [''created_at'']),
      create_index ''product_runs'' one_active_index,
      create_table create_messages,
      create_index ''product_messages''
        (plain_index ''ix_product_messages_thread_created'' [''thread_id'', ''created_at'']),
      create_table create_events,
      create_index ''product_events'' (plain_index ''ix_product_events_run_seq'' [''run_id'', ''seq''])]"

definition downgrade_0001 :: migration where
  "downgrade_0001 = run_all
     [drop_index ''product_events'' ''ix_product_events_run_seq'',
      drop_table ''product_events'',
      drop_index ''product_messages'' ''ix_product_messages_thread_created'',
      drop_table ''product_messages'',
      drop_index ''product_runs'' ''uq_product_run_one_active_thread'',
      drop_index ''product_runs'' ''ix_product_runs_created_at'',
      drop_table ''product_runs'',
      drop_table ''product_threads'']"

section \<open>0002: ownership\<close>

text \<open>The comparison \<open>a <> b\<close> of SQL, and the children whose Run is missing or in another thread.\<close>

definition sql_differs :: "sql_value \<Rightarrow> sql_value \<Rightarrow> bool" where
  "sql_differs a b \<longleftrightarrow> a \<noteq> SqlNull \<and> b \<noteq> SqlNull \<and> a \<noteq> b"

definition bad_child :: "sql_db \<Rightarrow> sql_row \<Rightarrow> bool" where
  "bad_child db child \<longleftrightarrow>
     child ''run_id'' \<noteq> SqlNull
     \<and> (let runs = filter (\<lambda>run. run ''id'' = child ''run_id'') (rows_of db ''product_runs'')
        in runs = [] \<or> list_ex (\<lambda>run. sql_differs (run ''thread_id'') (child ''thread_id'')) runs)"

definition validate_legacy_child_links :: migration where
  "validate_legacy_child_links = run_all
     (map (\<lambda>child_table. refuse_rows ''legacy product child has inconsistent run and thread'' child_table bad_child)
        [''product_messages'', ''product_events''])"

definition upgrade_0002 :: "bool \<Rightarrow> dialect \<Rightarrow> migration" where
  "upgrade_0002 offline d = run_all
     [require_online offline ''ownership upgrade requires an online connection'',
      validate_legacy_child_links,
      add_column ''product_threads'' (or_null (VarChar 255) ''owner_subject''),
      add_column ''product_runs'' (or_null (VarChar 255) ''actor_subject''),
      update_column ''product_threads'' ''owner_subject'' (SqlText LEGACY_UNOWNED_SUBJECT),
      update_column ''product_runs'' ''actor_subject'' (SqlText LEGACY_UNOWNED_SUBJECT),
      set_not_null ''product_threads'' ''owner_subject'',
      create_index ''product_threads''
        (plain_index ''ix_product_threads_owner_updated'' [''owner_subject'', ''updated_at'']),
      set_not_null ''product_runs'' ''actor_subject'',
      create_unique ''product_runs'' ''uq_product_run_id_thread'' [''id'', ''thread_id''],
      create_foreign_key d ''product_messages'' ''fk_product_messages_run_thread''
        [''run_id'', ''thread_id''] ''product_runs'' [''id'', ''thread_id''],
      create_foreign_key d ''product_events'' ''fk_product_events_run_thread''
        [''run_id'', ''thread_id''] ''product_runs'' [''id'', ''thread_id'']]"

definition downgrade_0002 :: "bool \<Rightarrow> migration" where
  "downgrade_0002 offline = run_all
     (require_online offline ''ownership downgrade requires an online connection''
      # map (\<lambda>name. refuse_rows ''ownership migration cannot downgrade non-empty product data'' name (\<lambda>_ _. True))
          [''product_threads'', ''product_runs'', ''product_messages'', ''product_events'']
      @ [drop_constraint ''product_events'' ''fk_product_events_run_thread'',
         drop_constraint ''product_messages'' ''fk_product_messages_run_thread'',
         drop_constraint ''product_runs'' ''uq_product_run_id_thread'',
         drop_column ''product_runs'' ''actor_subject'',
         drop_index ''product_threads'' ''ix_product_threads_owner_updated'',
         drop_column ''product_threads'' ''owner_subject''])"

section \<open>0003: policy evidence\<close>

definition upgrade_0003 :: migration where
  "upgrade_0003 = run_all
     [add_column ''product_runs'' (or_null JsonOrNull ''execution_plan''),
      add_column ''product_runs'' (or_null JsonOrNull ''execution_outcome'')]"

definition downgrade_0003 :: "bool \<Rightarrow> migration" where
  "downgrade_0003 offline = run_all
     [require_online offline ''Agent policy evidence downgrade requires an online connection'',
      refuse_rows ''Agent policy evidence migration cannot discard recorded evidence'' ''product_runs''
        (\<lambda>_ r. r ''execution_plan'' \<noteq> SqlNull \<or> r ''execution_outcome'' \<noteq> SqlNull),
      drop_column ''product_runs'' ''execution_outcome'',
      drop_column ''product_runs'' ''execution_plan'']"

section \<open>0004: metering\<close>

definition create_attempts :: sql_table where
  "create_attempts =
     \<lparr>tb_name = ''product_model_attempts'',
      tb_columns = [varchar 36 ''id'', varchar 36 ''run_id'', varchar 36 ''thread_id'',
        not_null SqlInteger ''call_index'', not_null SqlInteger ''attempt_index'', varchar 24 ''call_kind'',
        varchar 24 ''status'', not_null Timestamp ''started_at'', or_null Timestamp ''completed_at'',
        or_null SqlInteger ''input_tokens'', or_null SqlInteger ''output_tokens'',
        or_null SqlInteger ''cached_tokens'', or_null SqlInteger ''reasoning_tokens'',
        or_null SqlInteger ''total_tokens''],
      tb_constraints =
       [CheckRule ''ck_product_model_attempt_kind'' (OneOf ''call_kind'' [''direct'', ''decision'', ''finalizer'']),
        CheckRule ''ck_product_model_attempt_status''
          (OneOf ''status'' [''started'', ''succeeded'', ''failed'', ''cancelled'', ''interrupted'']),
        CheckRule ''ck_product_model_attempt_call_index'' (AtLeast ''call_index'' 1),
        CheckRule ''ck_product_model_attempt_retry_index'' (AtLeast ''attempt_index'' 1),
        CheckRule ''ck_product_model_attempt_input_tokens'' (NullOrAtLeast ''input_tokens'' 0),
        CheckRule ''ck_product_model_attempt_output_tokens'' (NullOrAtLeast ''output_tokens'' 0),
        CheckRule ''ck_product_model_attempt_cached_tokens'' (NullOrAtLeast ''cached_tokens'' 0),
        CheckRule ''ck_product_model_attempt_reasoning_tokens'' (NullOrAtLeast ''reasoning_tokens'' 0),
        CheckRule ''ck_product_model_attempt_total_tokens'' (NullOrAtLeast ''total_tokens'' 0),
        CheckRule ''ck_product_model_attempt_completed_at'' (NullOrFrom ''completed_at'' ''started_at''),
        ForeignKey (Some ''fk_product_model_attempts_run_thread'') [''run_id'', ''thread_id'']
          ''product_runs'' [''id'', ''thread_id''] Cascade,
        PrimaryKey [''id''],
        UniqueKey ''uq_product_model_attempt_position'' [''run_id'', ''call_index'', ''attempt_index'']],
      tb_indexes = [], tb_rows = []\<rparr>"

definition upgrade_0004 :: migration where
  "upgrade_0004 = run_all
     [add_column ''product_runs'' (or_null (VarChar 32) ''metering_version''),
      add_column ''product_runs'' (or_null Timestamp ''first_visible_at''),
      add_column ''product_runs'' (or_null JsonOrNull ''usage_metrics''),
      create_index ''product_runs'' (plain_index ''ix_product_runs_actor_created'' [''actor_subject'', ''created_at'']),
      create_table create_attempts,
      create_index ''product_model_attempts''
        (plain_index ''ix_product_model_attempts_run'' [''run_id'', ''call_index'', ''attempt_index''])]"

text \<open>The sum of the two counts is not zero exactly when one of them is not.\<close>

definition downgrade_0004 :: "bool \<Rightarrow> migration" where
  "downgrade_0004 offline = run_all
     [require_online offline ''Run usage metering downgrade requires an online connection'',
      refuse_rows ''Run usage metering migration cannot discard recorded evidence''
        ''product_model_attempts'' (\<lambda>_ _. True),
      refuse_rows ''Run usage metering migration cannot discard recorded evidence'' ''product_runs''
        (\<lambda>_ r. r ''metering_version'' \<noteq> SqlNull \<or> r ''first_visible_at'' \<noteq> SqlNull \<or> r ''usage_metrics'' \<noteq> SqlNull),
      drop_index ''product_model_attempts'' ''ix_product_model_attempts_run'',
      drop_table ''product_model_attempts'',
      drop_index ''product_runs'' ''ix_product_runs_actor_created'',
      drop_column ''product_runs'' ''usage_metrics'',
      drop_column ''product_runs'' ''first_visible_at'',
      drop_column ''product_runs'' ''metering_version'']"

section \<open>The chain\<close>

definition set_revision :: "string option \<Rightarrow> migration" where
  "set_revision current db = (Inr (), db\<lparr>sd_revision := current\<rparr>)"

record revision_script =
  rv_revision :: string
  rv_down_revision :: "string option"
  rv_upgrade :: "bool \<Rightarrow> dialect \<Rightarrow> migration"
  rv_downgrade :: "bool \<Rightarrow> migration"

definition revisions :: "revision_script list" where
  "revisions =
     [\<lparr>rv_revision = ''0001_product_core'', rv_down_revision = None,
       rv_upgrade = (\<lambda>_ _. upgrade_0001), rv_downgrade = (\<lambda>_. downgrade_0001)\<rparr>,
      \<lparr>rv_revision = ''0002_principal_ownership'', rv_down_revision = Some ''0001_product_core'',
       rv_upgrade = upgrade_0002, rv_downgrade = downgrade_0002\<rparr>,
      \<lparr>rv_revision = ''0003_agent_policy_evidence'', rv_down_revision = Some ''0002_principal_ownership'',
       rv_upgrade = (\<lambda>_ _. upgrade_0003), rv_downgrade = downgrade_0003\<rparr>,
      \<lparr>rv_revision = ''0004_run_usage_metering'', rv_down_revision = Some ''0003_agent_policy_evidence'',
       rv_upgrade = (\<lambda>_ _. upgrade_0004), rv_downgrade = downgrade_0004\<rparr>]"

text \<open>\<open>run_migrations\<close> inside \<open>begin_transaction\<close>: only PostgreSQL takes back what a failed chain has done.\<close>

definition in_transaction :: "dialect \<Rightarrow> migration \<Rightarrow> migration" where
  "in_transaction d m db =
     (case m db of
        (Inl e, db') \<Rightarrow> (Inl e, if d = Postgresql then db else db')
      | (Inr x, db') \<Rightarrow> (Inr x, db'))"

fun scripts_after :: "string option \<Rightarrow> revision_script list \<Rightarrow> revision_script list" where
  "scripts_after current [] = []"
| "scripts_after current (s # ss) =
     (if rv_down_revision s = current then s # ss else scripts_after current ss)"

definition upgrade_head :: "dialect \<Rightarrow> migration" where
  "upgrade_head d db =
     in_transaction d
       (run_all (concat (map (\<lambda>s. [rv_upgrade s False d, set_revision (Some (rv_revision s))])
          (scripts_after (sd_revision db) revisions)))) db"

text \<open>One step back from the revision the database is at.\<close>

definition downgrade_one :: "dialect \<Rightarrow> migration" where
  "downgrade_one d db =
     (case List.find (\<lambda>s. Some (rv_revision s) = sd_revision db) revisions of
        None \<Rightarrow> (Inr (), db)
      | Some s \<Rightarrow> in_transaction d (run_all [rv_downgrade s False, set_revision (rv_down_revision s)]) db)"

section \<open>The declared tables\<close>

definition ThreadRecord :: sql_table where
  "ThreadRecord =
     \<lparr>tb_name = ''product_threads'',
      tb_columns = [varchar 36 ''id'', varchar 255 ''owner_subject'', varchar 200 ''title'',
        not_null Timestamp ''created_at'', not_null Timestamp ''updated_at''],
      tb_constraints = [PrimaryKey [''id'']],
      tb_indexes = [plain_index ''ix_product_threads_owner_updated'' [''owner_subject'', ''updated_at'']],
      tb_rows = []\<rparr>"

definition RunRecord :: sql_table where
  "RunRecord =
     \<lparr>tb_name = ''product_runs'',
      tb_columns = [varchar 36 ''id'', varchar 36 ''thread_id'', varchar 128 ''idempotency_key'',
        varchar 255 ''actor_subject'', varchar 24 ''status'', not_null SqlInteger ''last_seq'',
        or_null JsonOrNull ''execution_plan'', or_null JsonOrNull ''execution_outcome'',
        or_null (VarChar 32) ''metering_version'', or_null Timestamp ''first_visible_at'',
        or_null JsonOrNull ''usage_metrics'', not_null Timestamp ''created_at'',
        or_null Timestamp ''completed_at''],
      tb_constraints = [PrimaryKey [''id''],
        ForeignKey None [''thread_id''] ''product_threads'' [''id''] Cascade,
        UniqueKey ''uq_product_run_idempotency'' [''thread_id'', ''idempotency_key''],
        UniqueKey ''uq_product_run_id_thread'' [''id'', ''thread_id''],
        CheckRule ''ck_product_run_status'' (OneOf ''status'' RUN_STATUSES)],
      tb_indexes = [one_active_index, plain_index ''ix_product_runs_created_at'' [''created_at''],
        plain_index ''ix_product_runs_actor_created'' [''actor_subject'', ''created_at'']],
      tb_rows = []\<rparr>"

definition ModelAttemptRecord :: sql_table where
  "ModelAttemptRecord =
     \<lparr>tb_name = ''product_model_attempts'',
      tb_columns = [varchar 36 ''id'', varchar 36 ''run_id'', varchar 36 ''thread_id'',
        not_null SqlInteger ''call_index'', not_null SqlInteger ''attempt_index'', varchar 24 ''call_kind'',
        varchar 24 ''status'', not_null Timestamp ''started_at'', or_null Timestamp ''completed_at'',
        or_null SqlInteger ''input_tokens'', or_null SqlInteger ''output_tokens'',
        or_null SqlInteger ''cached_tokens'', or_null SqlInteger ''reasoning_tokens'',
        or_null SqlInteger ''total_tokens''],
      tb_constraints = [PrimaryKey [''id''],
        UniqueKey ''uq_product_model_attempt_position'' [''run_id'', ''call_index'', ''attempt_index''],
        ForeignKey (Some ''fk_product_model_attempts_run_thread'') [''run_id'', ''thread_id'']
          ''product_runs'' [''id'', ''thread_id''] Cascade,
        CheckRule ''ck_product_model_attempt_kind'' (OneOf ''call_kind'' [''direct'', ''decision'', ''finalizer'']),
        CheckRule ''ck_product_model_attempt_status''
          (OneOf ''status'' [''started'', ''succeeded'', ''failed'', ''cancelled'', ''interrupted'']),
        CheckRule ''ck_product_model_attempt_call_index'' (AtLeast ''call_index'' 1),
        CheckRule ''ck_product_model_attempt_retry_index'' (AtLeast ''attempt_index'' 1),
        CheckRule ''ck_product_model_attempt_input_tokens'' (NullOrAtLeast ''input_tokens'' 0),
        CheckRule ''ck_product_model_attempt_output_tokens'' (NullOrAtLeast ''output_tokens'' 0),
        CheckRule ''ck_product_model_attempt_cached_tokens'' (NullOrAtLeast ''cached_tokens'' 0),
        CheckRule ''ck_product_model_attempt_reasoning_tokens'' (NullOrAtLeast ''reasoning_tokens'' 0),
        CheckRule ''ck_product_model_attempt_total_tokens'' (NullOrAtLeast ''total_tokens'' 0),
        CheckRule ''ck_product_model_attempt_completed_at'' (NullOrFrom ''completed_at'' ''started_at'')],
      tb_indexes = [plain_index ''ix_product_model_attempts_run'' [''run_id'', ''call_index'', ''attempt_index'']],
      tb_rows = []\<rparr>"

definition MessageRecord :: sql_table where
  "MessageRecord =
     \<lparr>tb_name = ''product_messages'',
      tb_columns = [varchar 36 ''id'', varchar 36 ''thread_id'', or_null (VarChar 36) ''run_id'',
        varchar 16 ''role'', not_null LongText ''content'', not_null Timestamp ''created_at''],
      tb_constraints = [PrimaryKey [''id''],
        ForeignKey None [''thread_id''] ''product_threads'' [''id''] Cascade,
        ForeignKey None [''run_id''] ''product_runs'' [''id''] SetNull,
        CheckRule ''ck_product_message_role'' (OneOf ''role'' [''user'', ''assistant'']),
        ForeignKey (Some ''fk_product_messages_run_thread'') [''run_id'', ''thread_id'']
          ''product_runs'' [''id'', ''thread_id''] NoAction],
      tb_indexes = [plain_index ''ix_product_messages_thread_created'' [''thread_id'', ''created_at'']],
      tb_rows = []\<rparr>"

definition EventRecord :: sql_table where
  "EventRecord =
     \<lparr>tb_name = ''product_events'',
      tb_columns = [varchar 36 ''id'', varchar 36 ''run_id'', varchar 36 ''thread_id'',
        not_null SqlInteger ''seq'', varchar 48 ''type'', not_null Timestamp ''occurred_at'',
        not_null JsonValue ''payload''],
      tb_constraints = [PrimaryKey [''id''],
        ForeignKey None [''run_id''] ''product_runs'' [''id''] Cascade,
        ForeignKey None [''thread_id''] ''product_threads'' [''id''] Cascade,
        UniqueKey ''uq_product_event_run_seq'' [''run_id'', ''seq''],
        ForeignKey (Some ''fk_product_events_run_thread'') [''run_id'', ''thread_id'']
          ''product_runs'' [''id'', ''thread_id''] NoAction],
      tb_indexes = [plain_index ''ix_product_events_run_seq'' [''run_id'', ''seq'']],
      tb_rows = []\<rparr>"

definition declared_tables :: "sql_table list" where
  "declared_tables = [ThreadRecord, RunRecord, ModelAttemptRecord, MessageRecord, EventRecord]"

end
