(* ===== verification/Migration_Steps.thy ===== *)
theory Migration_Steps
  imports Migrations Store_Properties
begin

text \<open>
  The migrations evaluated: what each revision does to the tables and rows of a database, and that
  the constraints of the last revision hold of the rows of the first one once their links have been
  checked.
\<close>

section \<open>Schemas\<close>

definition empty_sql :: sql_db where
  "empty_sql = \<lparr>sd_tables = [], sd_revision = None\<rparr>"

definition schema_of :: "sql_db \<Rightarrow> sql_table list" where
  "schema_of db = map (\<lambda>t. t\<lparr>tb_rows := []\<rparr>) (sd_tables db)"

text \<open>Two tables that differ only in the order of what they declare.\<close>

definition same_table :: "sql_table \<Rightarrow> sql_table \<Rightarrow> bool" where
  "same_table t u \<longleftrightarrow>
     tb_name t = tb_name u \<and> set (tb_columns t) = set (tb_columns u) \<and> length (tb_columns t) = length (tb_columns u)
     \<and> set (tb_constraints t) = set (tb_constraints u) \<and> set (tb_indexes t) = set (tb_indexes u)"

lemmas step_defs = on_table_def find_table_def create_table_def drop_table_def create_index_def
  drop_index_def add_column_def drop_column_def set_not_null_def update_column_def create_unique_def
  create_foreign_key_def drop_constraint_def refuse_rows_def require_online_def rows_of_def set_revision_def

lemmas table_defs = create_threads_def create_runs_def create_messages_def create_events_def create_attempts_def

definition threads_1 :: "sql_row list \<Rightarrow> sql_table" where
  "threads_1 rows = create_threads\<lparr>tb_rows := rows\<rparr>"

definition runs_1 :: "sql_row list \<Rightarrow> sql_table" where
  "runs_1 rows = create_runs\<lparr>tb_indexes := [plain_index ''ix_product_runs_created_at'' [''created_at''], one_active_index],
     tb_rows := rows\<rparr>"

definition messages_1 :: "sql_row list \<Rightarrow> sql_table" where
  "messages_1 rows = create_messages\<lparr>tb_indexes :=
     [plain_index ''ix_product_messages_thread_created'' [''thread_id'', ''created_at'']], tb_rows := rows\<rparr>"

definition events_1 :: "sql_row list \<Rightarrow> sql_table" where
  "events_1 rows = create_events\<lparr>tb_indexes := [plain_index ''ix_product_events_run_seq'' [''run_id'', ''seq'']],
     tb_rows := rows\<rparr>"

definition db_1 :: "sql_row list \<Rightarrow> sql_row list \<Rightarrow> sql_row list \<Rightarrow> sql_row list \<Rightarrow> sql_db" where
  "db_1 ths rns mss evs =
     \<lparr>sd_tables = [threads_1 ths, runs_1 rns, messages_1 mss, events_1 evs],
      sd_revision = Some ''0001_product_core''\<rparr>"

lemma names_1 [simp]:
  "tb_name (threads_1 rows) = ''product_threads''" "tb_name (runs_1 rows) = ''product_runs''"
  "tb_name (messages_1 rows) = ''product_messages''" "tb_name (events_1 rows) = ''product_events''"
  by (simp_all add: threads_1_def runs_1_def messages_1_def events_1_def table_defs)

lemma rows_1 [simp]:
  "tb_rows (threads_1 rows) = rows" "tb_rows (runs_1 rows) = rows"
  "tb_rows (messages_1 rows) = rows" "tb_rows (events_1 rows) = rows"
  by (simp_all add: threads_1_def runs_1_def messages_1_def events_1_def)

lemma unique_on_Nil [simp]: "unique_on cols []"
  by (simp add: unique_on_def)

lemma index_holds_Nil [simp]: "index_holds [] ix"
  by (simp add: index_holds_def split: option.split)

lemma upgrade_0001_empty:
  "upgrade_0001 empty_sql = (Inr (), (db_1 [] [] [] [])\<lparr>sd_revision := None\<rparr>)"
  by (simp add: upgrade_0001_def step_defs empty_sql_def db_1_def threads_1_def runs_1_def messages_1_def
      events_1_def table_defs)

section \<open>The databases of the later revisions\<close>

definition own_row :: "sql_row \<Rightarrow> sql_row" where
  "own_row r = r(''owner_subject'' := SqlText LEGACY_UNOWNED_SUBJECT)"

definition act_row :: "sql_row \<Rightarrow> sql_row" where
  "act_row r = r(''actor_subject'' := SqlText LEGACY_UNOWNED_SUBJECT)"

definition threads_2 :: "sql_row list \<Rightarrow> sql_table" where
  "threads_2 rows = (threads_1 rows)\<lparr>
     tb_columns := tb_columns create_threads @ [varchar 255 ''owner_subject''],
     tb_indexes := [plain_index ''ix_product_threads_owner_updated'' [''owner_subject'', ''updated_at'']]\<rparr>"

definition runs_2 :: "sql_row list \<Rightarrow> sql_table" where
  "runs_2 rows = (runs_1 rows)\<lparr>
     tb_columns := tb_columns create_runs @ [varchar 255 ''actor_subject''],
     tb_constraints := tb_constraints create_runs @ [UniqueKey ''uq_product_run_id_thread'' [''id'', ''thread_id'']]\<rparr>"

definition run_link :: "string \<Rightarrow> table_constraint" where
  "run_link name = ForeignKey (Some name) [''run_id'', ''thread_id''] ''product_runs'' [''id'', ''thread_id''] NoAction"

definition messages_2 :: "sql_row list \<Rightarrow> sql_table" where
  "messages_2 rows = (messages_1 rows)\<lparr>
     tb_constraints := tb_constraints create_messages @ [run_link ''fk_product_messages_run_thread'']\<rparr>"

definition events_2 :: "sql_row list \<Rightarrow> sql_table" where
  "events_2 rows = (events_1 rows)\<lparr>
     tb_constraints := tb_constraints create_events @ [run_link ''fk_product_events_run_thread'']\<rparr>"

definition db_2 :: "sql_row list \<Rightarrow> sql_row list \<Rightarrow> sql_row list \<Rightarrow> sql_row list \<Rightarrow> sql_db" where
  "db_2 ths rns mss evs =
     \<lparr>sd_tables = [threads_2 ths, runs_2 rns, messages_2 mss, events_2 evs],
      sd_revision = Some ''0002_principal_ownership''\<rparr>"

definition runs_3 :: "sql_row list \<Rightarrow> sql_table" where
  "runs_3 rows = (runs_2 rows)\<lparr>
     tb_columns := tb_columns (runs_2 []) @ [or_null JsonOrNull ''execution_plan'', or_null JsonOrNull ''execution_outcome'']\<rparr>"

definition db_3 :: "sql_row list \<Rightarrow> sql_row list \<Rightarrow> sql_row list \<Rightarrow> sql_row list \<Rightarrow> sql_db" where
  "db_3 ths rns mss evs =
     \<lparr>sd_tables = [threads_2 ths, runs_3 rns, messages_2 mss, events_2 evs],
      sd_revision = Some ''0003_agent_policy_evidence''\<rparr>"

definition runs_4 :: "sql_row list \<Rightarrow> sql_table" where
  "runs_4 rows = (runs_3 rows)\<lparr>
     tb_columns := tb_columns (runs_3 []) @ [or_null (VarChar 32) ''metering_version'',
       or_null Timestamp ''first_visible_at'', or_null JsonOrNull ''usage_metrics''],
     tb_indexes := tb_indexes (runs_1 []) @ [plain_index ''ix_product_runs_actor_created'' [''actor_subject'', ''created_at'']]\<rparr>"

definition attempts_4 :: "sql_row list \<Rightarrow> sql_table" where
  "attempts_4 rows = create_attempts\<lparr>
     tb_indexes := [plain_index ''ix_product_model_attempts_run'' [''run_id'', ''call_index'', ''attempt_index'']],
     tb_rows := rows\<rparr>"

definition db_4 :: "sql_row list \<Rightarrow> sql_row list \<Rightarrow> sql_row list \<Rightarrow> sql_row list \<Rightarrow> sql_row list \<Rightarrow> sql_db" where
  "db_4 ths rns mss evs ats =
     \<lparr>sd_tables = [threads_2 ths, runs_4 rns, messages_2 mss, events_2 evs, attempts_4 ats],
      sd_revision = Some ''0004_run_usage_metering''\<rparr>"

lemma names_2 [simp]:
  "tb_name (threads_2 rows) = ''product_threads''" "tb_name (runs_2 rows) = ''product_runs''"
  "tb_name (messages_2 rows) = ''product_messages''" "tb_name (events_2 rows) = ''product_events''"
  "tb_name (runs_3 rows) = ''product_runs''" "tb_name (runs_4 rows) = ''product_runs''"
  "tb_name (attempts_4 rows) = ''product_model_attempts''"
  by (simp_all add: threads_2_def runs_2_def messages_2_def events_2_def runs_3_def runs_4_def attempts_4_def
      create_attempts_def)

lemma rows_2 [simp]:
  "tb_rows (threads_2 rows) = rows" "tb_rows (runs_2 rows) = rows"
  "tb_rows (messages_2 rows) = rows" "tb_rows (events_2 rows) = rows"
  "tb_rows (runs_3 rows) = rows" "tb_rows (runs_4 rows) = rows" "tb_rows (attempts_4 rows) = rows"
  by (simp_all add: threads_2_def runs_2_def messages_2_def events_2_def runs_3_def runs_4_def attempts_4_def)

lemma rows_of_1 [simp]:
  "rows_of (db_1 ths rns mss evs) ''product_threads'' = ths" "rows_of (db_1 ths rns mss evs) ''product_runs'' = rns"
  "rows_of (db_1 ths rns mss evs) ''product_messages'' = mss" "rows_of (db_1 ths rns mss evs) ''product_events'' = evs"
  by (simp_all add: rows_of_def find_table_def db_1_def)

text \<open>The links the ownership revision wants to see, stated on the rows.\<close>

definition linked :: "sql_row list \<Rightarrow> sql_row \<Rightarrow> bool" where
  "linked rns child \<longleftrightarrow> child ''run_id'' \<noteq> SqlNull \<longrightarrow>
     (\<exists>run \<in> set rns. run ''id'' = child ''run_id'')
     \<and> (\<forall>run \<in> set rns. run ''id'' = child ''run_id'' \<longrightarrow> \<not> sql_differs (run ''thread_id'') (child ''thread_id''))"

lemma bad_child_linked: "bad_child (db_1 ths rns mss evs) child \<longleftrightarrow> \<not> linked rns child"
  by (auto simp: bad_child_def linked_def Let_def list_ex_iff filter_empty_conv)

lemma run_link_holds:
  assumes "linked rns child" "child ''thread_id'' \<noteq> SqlNull" "\<And>run. run \<in> set rns \<Longrightarrow> run ''thread_id'' \<noteq> SqlNull"
    and "\<And>run. f run ''id'' = run ''id'' \<and> f run ''thread_id'' = run ''thread_id''"
    and "rows_of db ''product_runs'' = map f rns"
  shows "refers db [''run_id'', ''thread_id''] ''product_runs'' [''id'', ''thread_id''] child"
  using assms unfolding refers_def linked_def key_of_def
  by (cases "child ''run_id'' = SqlNull") (fastforce simp: list_ex_iff sql_differs_def)+

lemma unique_on_map: "(\<And>r c. c \<in> set cols \<Longrightarrow> f r c = r c) \<Longrightarrow> unique_on cols (map f rows) = unique_on cols rows"
  by (simp add: unique_on_def key_of_def comp_def cong: map_cong)

lemma unique_on_more:
  assumes "unique_on [''id''] rns" "\<And>r. r \<in> set rns \<Longrightarrow> r ''id'' \<noteq> SqlNull"
  shows "unique_on [''id'', ''thread_id''] rns"
proof -
  have ne: "filter (\<lambda>k. SqlNull \<notin> set k) (map (key_of [''id'']) rns) = map (key_of [''id'']) rns"
    using assms(2) by (intro filter_True) (fastforce simp: key_of_def)
  then have "distinct (map (\<lambda>r. r ''id'') rns)"
    using assms(1) unfolding unique_on_def ne by (auto simp: distinct_map inj_on_def key_of_def)
  then have "distinct (map (key_of [''id'', ''thread_id'']) rns)" by (auto simp: distinct_map inj_on_def key_of_def)
  then show ?thesis by (simp add: unique_on_def)
qed

section \<open>Each revision on a database with rows\<close>

lemma written_twice [simp]:
  "own_row (r(''owner_subject'' := v)) = own_row r" "act_row (r(''actor_subject'' := v)) = act_row r"
  by (simp_all add: own_row_def act_row_def)

lemma written_cells [simp]:
  "own_row r ''owner_subject'' = SqlText LEGACY_UNOWNED_SUBJECT"
  "act_row r ''actor_subject'' = SqlText LEGACY_UNOWNED_SUBJECT"
  "n \<noteq> ''owner_subject'' \<Longrightarrow> own_row r n = r n" "n \<noteq> ''actor_subject'' \<Longrightarrow> act_row r n = r n"
  by (simp_all add: own_row_def act_row_def)

lemma upgrade_0002_refused:
  assumes "\<not> list_all (linked rns) (mss @ evs)"
  shows "\<exists>why. upgrade_0002 False d (db_1 ths rns mss evs) = (Inl (Refused why), db_1 ths rns mss evs)"
  using assms
  by (auto simp: upgrade_0002_def validate_legacy_child_links_def require_online_def refuse_rows_def
      bad_child_linked list_ex_iff list_all_iff)

lemma upgrade_0002_steps:
  assumes "list_all (linked rns) (mss @ evs)" "unique_on [''id'', ''thread_id''] rns"
    and "\<And>db. rows_of db ''product_runs'' = map act_row rns \<Longrightarrow>
      list_all (refers db [''run_id'', ''thread_id''] ''product_runs'' [''id'', ''thread_id'']) (mss @ evs)"
  shows "upgrade_0002 False d (db_1 ths rns mss evs)
    = (Inr (), (db_2 (map own_row ths) (map act_row rns) mss evs)\<lparr>sd_revision := Some ''0001_product_core''\<rparr>)"
proof -
  have guard: "validate_legacy_child_links (db_1 ths rns mss evs) = (Inr (), db_1 ths rns mss evs)"
    using assms(1)
    by (auto simp: validate_legacy_child_links_def refuse_rows_def bad_child_linked list_ex_iff list_all_iff)
  have unique: "unique_on [''id'', ''thread_id''] (map act_row rns)"
    using assms(2) by (subst unique_on_map) auto
  have own: "map (\<lambda>r. r(''owner_subject'' := SqlText LEGACY_UNOWNED_SUBJECT)) rows = map own_row rows"
    "map (\<lambda>r. r(''actor_subject'' := SqlText LEGACY_UNOWNED_SUBJECT)) rows = map act_row rows" for rows
    by (simp_all add: own_row_def act_row_def fun_eq_iff)
  show ?thesis
    using unique assms(3)
    by (simp add: upgrade_0002_def require_online_def guard)
      (simp add: step_defs db_1_def db_2_def threads_1_def runs_1_def messages_1_def events_1_def table_defs
        threads_2_def runs_2_def messages_2_def events_2_def run_link_def comp_def own list_ex_iff index_holds_def)
qed

lemma upgrade_0003_steps:
  "upgrade_0003 (db_2 ths rns mss evs)
    = (Inr (), (db_3 ths (map (\<lambda>r. r(''execution_plan'' := SqlNull, ''execution_outcome'' := SqlNull)) rns) mss evs)
        \<lparr>sd_revision := Some ''0002_principal_ownership''\<rparr>)"
  by (simp add: upgrade_0003_def step_defs db_2_def db_3_def)
    (simp add: runs_3_def runs_2_def comp_def runs_1_def create_runs_def)

lemma upgrade_0004_steps:
  "upgrade_0004 (db_3 ths rns mss evs)
    = (Inr (), (db_4 ths (map (\<lambda>r. r(''metering_version'' := SqlNull, ''first_visible_at'' := SqlNull,
          ''usage_metrics'' := SqlNull)) rns) mss evs [])\<lparr>sd_revision := Some ''0003_agent_policy_evidence''\<rparr>)"
  by (simp add: upgrade_0004_def step_defs db_3_def db_4_def index_holds_def create_attempts_def)
    (simp add: runs_4_def runs_3_def comp_def runs_2_def runs_1_def create_runs_def attempts_4_def create_attempts_def)

section \<open>Integrity\<close>

text \<open>What the constraints of the first revision say of the rows.\<close>

definition rows_ok :: "sql_row list \<Rightarrow> sql_row list \<Rightarrow> sql_row list \<Rightarrow> sql_row list \<Rightarrow> bool" where
  "rows_ok ths rns mss evs \<longleftrightarrow>
     list_all (row_fits (tb_columns create_threads)) ths \<and> list_all (row_fits (tb_columns create_runs)) rns
     \<and> list_all (row_fits (tb_columns create_messages)) mss \<and> list_all (row_fits (tb_columns create_events)) evs
     \<and> unique_on [''id''] ths \<and> unique_on [''id''] rns \<and> unique_on [''id''] mss \<and> unique_on [''id''] evs
     \<and> unique_on [''thread_id'', ''idempotency_key''] rns \<and> unique_on [''run_id'', ''seq''] evs
     \<and> unique_on [''thread_id''] (filter (check_holds ACTIVE_RUN_STATUSES) rns)
     \<and> list_all (check_holds (OneOf ''status'' RUN_STATUSES)) rns
     \<and> list_all (check_holds (OneOf ''role'' [''user'', ''assistant''])) mss"

definition links_ok :: "sql_db \<Rightarrow> sql_row list \<Rightarrow> sql_row list \<Rightarrow> sql_row list \<Rightarrow> bool" where
  "links_ok db rns mss evs \<longleftrightarrow>
     list_all (refers db [''thread_id''] ''product_threads'' [''id'']) (rns @ mss @ evs)
     \<and> list_all (refers db [''run_id''] ''product_runs'' [''id'']) (mss @ evs)"

lemma integrity_1:
  "integrity (db_1 ths rns mss evs) \<longleftrightarrow> rows_ok ths rns mss evs \<and> links_ok (db_1 ths rns mss evs) rns mss evs"
proof -
  let ?db = "db_1 ths rns mss evs"
  have "integrity ?db \<longleftrightarrow> table_holds ?db (threads_1 ths) \<and> table_holds ?db (runs_1 rns)
      \<and> table_holds ?db (messages_1 mss) \<and> table_holds ?db (events_1 evs)"
    by (simp add: integrity_def) (simp add: db_1_def)
  moreover have "table_holds ?db (threads_1 ths) \<longleftrightarrow>
      list_all (row_fits (tb_columns create_threads)) ths \<and> unique_on [''id''] ths"
    by (simp add: table_holds_def threads_1_def) (simp add: create_threads_def)
  moreover have "table_holds ?db (runs_1 rns) \<longleftrightarrow>
      list_all (row_fits (tb_columns create_runs)) rns \<and> unique_on [''id''] rns
      \<and> unique_on [''thread_id'', ''idempotency_key''] rns
      \<and> unique_on [''thread_id''] (filter (check_holds ACTIVE_RUN_STATUSES) rns)
      \<and> list_all (check_holds (OneOf ''status'' RUN_STATUSES)) rns
      \<and> list_all (refers ?db [''thread_id''] ''product_threads'' [''id'']) rns"
    by (simp add: table_holds_def runs_1_def) (auto simp: create_runs_def index_holds_def one_active_index_def)
  moreover have "table_holds ?db (messages_1 mss) \<longleftrightarrow>
      list_all (row_fits (tb_columns create_messages)) mss \<and> unique_on [''id''] mss
      \<and> list_all (check_holds (OneOf ''role'' [''user'', ''assistant''])) mss
      \<and> list_all (refers ?db [''thread_id''] ''product_threads'' [''id'']) mss
      \<and> list_all (refers ?db [''run_id''] ''product_runs'' [''id'']) mss"
    by (simp add: table_holds_def messages_1_def) (auto simp: create_messages_def index_holds_def)
  moreover have "table_holds ?db (events_1 evs) \<longleftrightarrow>
      list_all (row_fits (tb_columns create_events)) evs \<and> unique_on [''id''] evs \<and> unique_on [''run_id'', ''seq''] evs
      \<and> list_all (refers ?db [''thread_id''] ''product_threads'' [''id'']) evs
      \<and> list_all (refers ?db [''run_id''] ''product_runs'' [''id'']) evs"
    by (simp add: table_holds_def events_1_def) (auto simp: create_events_def index_holds_def)
  ultimately show ?thesis unfolding rows_ok_def links_ok_def by auto
qed

lemma refers_map:
  assumes "rows_of db' parent = map f (rows_of db parent)" "\<And>r c. c \<in> set pcols \<Longrightarrow> f r c = r c"
    and "\<And>c. c \<in> set cols \<Longrightarrow> q' c = q c"
  shows "refers db' cols parent pcols q' = refers db cols parent pcols q"
proof -
  have "key_of pcols (f r) = key_of pcols r" for r using assms(2) by (simp add: key_of_def)
  moreover have "key_of cols q' = key_of cols q" using assms(3) by (simp add: key_of_def)
  ultimately show ?thesis by (simp add: refers_def assms(1) list_ex_iff)
qed

lemma row_fits_more:
  assumes "row_fits cols r" "col_name col \<notin> col_name ` set cols" "has_type (col_type col) v" "v = SqlNull \<Longrightarrow> col_nullable col"
  shows "row_fits (cols @ [col]) (r(col_name col := v))"
  using assms unfolding row_fits_def by (auto simp: list_all_iff image_iff)

lemma row_fits_null: "row_fits cols r \<Longrightarrow> n \<notin> col_name ` set cols \<Longrightarrow> r n = SqlNull"
  by (simp add: row_fits_def)

lemma row_fits_cell:
  assumes "row_fits cols r" "c \<in> set cols" "\<not> col_nullable c"
  shows "r (col_name c) \<noteq> SqlNull" "has_type (col_type c) (r (col_name c))"
  using assms by (auto simp: row_fits_def list_all_iff)

lemma rows_of_4 [simp]:
  "rows_of (db_4 ths rns mss evs ats) ''product_threads'' = ths"
  "rows_of (db_4 ths rns mss evs ats) ''product_runs'' = rns"
  "rows_of (db_4 ths rns mss evs ats) ''product_messages'' = mss"
  "rows_of (db_4 ths rns mss evs ats) ''product_events'' = evs"
  "rows_of (db_4 ths rns mss evs ats) ''product_model_attempts'' = ats"
  by (simp_all add: rows_of_def find_table_def db_4_def)

lemma legacy_subject_fits: "length LEGACY_UNOWNED_SUBJECT \<le> 255"
  by (simp add: LEGACY_UNOWNED_SUBJECT_def INTERNAL_SUBJECT_PREFIX_def lit_def)

lemma owned_row_fits: "row_fits (tb_columns create_threads) r \<Longrightarrow> row_fits (tb_columns (threads_2 [])) (own_row r)"
  using row_fits_more [of "tb_columns create_threads" r "varchar 255 ''owner_subject''" "SqlText LEGACY_UNOWNED_SUBJECT"]
    legacy_subject_fits
  by (simp add: threads_2_def own_row_def) (simp add: create_threads_def)

lemma row_fits_nullable:
  assumes "row_fits cols r" "\<forall>c \<in> set new. col_nullable c \<and> col_name c \<notin> col_name ` set cols"
  shows "row_fits (cols @ new) r"
  using assms unfolding row_fits_def by (auto simp: list_all_iff)

lemma acted_row_fits:
  assumes "row_fits (tb_columns create_runs) r" shows "row_fits (tb_columns (runs_4 [])) (act_row r)"
proof -
  have "row_fits (tb_columns create_runs @ [varchar 255 ''actor_subject'']) (act_row r)"
    using row_fits_more [OF assms, of "varchar 255 ''actor_subject''" "SqlText LEGACY_UNOWNED_SUBJECT"] legacy_subject_fits
    by (simp add: act_row_def) (simp add: create_runs_def)
  from row_fits_nullable [OF this, of "[or_null JsonOrNull ''execution_plan'', or_null JsonOrNull ''execution_outcome'',
      or_null (VarChar 32) ''metering_version'', or_null Timestamp ''first_visible_at'', or_null JsonOrNull ''usage_metrics'']"]
  show ?thesis by (simp add: runs_4_def runs_3_def runs_2_def) (simp add: create_runs_def)
qed

lemma linked_refers:
  assumes ok: "rows_ok ths rns mss evs" and linked: "list_all (linked rns) (mss @ evs)"
    and db: "rows_of db ''product_runs'' = map act_row rns"
  shows "list_all (refers db [''run_id'', ''thread_id''] ''product_runs'' [''id'', ''thread_id'']) (mss @ evs)"
proof -
  have run: "run ''thread_id'' \<noteq> SqlNull" if "run \<in> set rns" for run
    using ok that row_fits_cell(1) [of "tb_columns create_runs" run "varchar 36 ''thread_id''"]
    by (auto simp: rows_ok_def list_all_iff create_runs_def)
  have child: "child ''thread_id'' \<noteq> SqlNull" if "child \<in> set (mss @ evs)" for child
    using ok that row_fits_cell(1) [of "tb_columns create_messages" child "varchar 36 ''thread_id''"]
      row_fits_cell(1) [of "tb_columns create_events" child "varchar 36 ''thread_id''"]
    by (auto simp: rows_ok_def list_all_iff create_messages_def create_events_def)
  show ?thesis
    unfolding list_all_iff
  proof
    fix child assume "child \<in> set (mss @ evs)"
    with child linked run db show "refers db [''run_id'', ''thread_id''] ''product_runs'' [''id'', ''thread_id''] child"
      by (intro run_link_holds [where rns = rns and f = act_row]) (auto simp: list_all_iff)
  qed
qed

lemma linked_unique: "rows_ok ths rns mss evs \<Longrightarrow> unique_on [''id'', ''thread_id''] rns"
  using row_fits_cell(1) [of "tb_columns create_runs" _ "varchar 36 ''id''"]
  by (intro unique_on_more) (auto simp: rows_ok_def list_all_iff create_runs_def)

lemma active_filter_act:
  "filter (check_holds ACTIVE_RUN_STATUSES) (map act_row rns) = map act_row (filter (check_holds ACTIVE_RUN_STATUSES) rns)"
  by (induction rns) (simp_all add: ACTIVE_RUN_STATUSES_def)

lemma integrity_4:
  assumes ok: "rows_ok ths rns mss evs" and links: "links_ok (db_1 ths rns mss evs) rns mss evs"
    and linked: "list_all (linked rns) (mss @ evs)"
  shows "integrity (db_4 (map own_row ths) (map act_row rns) mss evs [])"
proof -
  let ?db = "db_4 (map own_row ths) (map act_row rns) mss evs []"
  have thread: "refers ?db [''thread_id''] ''product_threads'' [''id'']
      = refers (db_1 ths rns mss evs) [''thread_id''] ''product_threads'' [''id'']"
    by (rule ext, rule refers_map [where f = own_row]) simp_all
  have run: "refers ?db [''run_id''] ''product_runs'' [''id'']
      = refers (db_1 ths rns mss evs) [''run_id''] ''product_runs'' [''id'']"
    by (rule ext, rule refers_map [where f = act_row]) simp_all
  have "refers ?db [''thread_id''] ''product_threads'' [''id''] (act_row r)
      = refers ?db [''thread_id''] ''product_threads'' [''id''] r" for r
    by (simp add: refers_def key_of_def)
  then have runs_thread: "list_all (refers ?db [''thread_id''] ''product_threads'' [''id'']) (map act_row rns)"
    using links by (simp add: links_ok_def thread list_all_iff)
  note link = linked_refers [OF ok linked, of ?db, simplified]
  have un: "unique_on cols (map act_row rns) = unique_on cols rns" if "''actor_subject'' \<notin> set cols" for cols
    using that by (intro unique_on_map) (metis written_cells(4))
  have uo: "unique_on [''id''] (map own_row ths) = unique_on [''id''] ths" by (intro unique_on_map) auto
  have 1: "table_holds ?db (threads_2 (map own_row ths))"
    using ok owned_row_fits uo
    by (auto simp: table_holds_def rows_ok_def threads_2_def threads_1_def create_threads_def index_holds_def list_all_iff)
  have fits: "list_all (row_fits (tb_columns (runs_4 []))) (map act_row rns)"
    using ok acted_row_fits by (auto simp: rows_ok_def list_all_iff)
  have 2: "table_holds ?db (runs_4 (map act_row rns))"
    using ok fits runs_thread linked_unique [OF ok] un un [of "[''thread_id'', ''idempotency_key'']"]
      unique_on_map [of "[''thread_id'']" act_row]
    by (simp add: table_holds_def rows_ok_def runs_4_def runs_3_def runs_2_def runs_1_def)
      (simp add: create_runs_def index_holds_def one_active_index_def active_filter_act list_all_iff)
  have 3: "table_holds ?db (messages_2 mss)"
    using ok links link by (simp add: table_holds_def rows_ok_def messages_2_def messages_1_def links_ok_def run_link_def)
      (simp add: create_messages_def index_holds_def thread run)
  have 4: "table_holds ?db (events_2 evs)"
    using ok links link by (simp add: table_holds_def rows_ok_def events_2_def events_1_def links_ok_def run_link_def)
      (simp add: create_events_def index_holds_def thread run)
  have 5: "table_holds ?db (attempts_4 [])"
    by (simp add: table_holds_def attempts_4_def) (simp add: create_attempts_def)
  show ?thesis using 1 2 3 4 5 by (simp add: integrity_def) (simp add: db_4_def)
qed

section \<open>The chain\<close>

lemma scripts_simps:
  "scripts_after None revisions = revisions"
  "scripts_after (Some ''0001_product_core'') revisions = tl revisions"
  "scripts_after (Some ''0002_principal_ownership'') revisions = tl (tl revisions)"
  "scripts_after (Some ''0003_agent_policy_evidence'') revisions = tl (tl (tl revisions))"
  "scripts_after (Some ''0004_run_usage_metering'') revisions = []"
  by (simp_all add: revisions_def)

lemma sd_revision_simps [simp]:
  "sd_revision empty_sql = None" "sd_revision (db_1 ths rns mss evs) = Some ''0001_product_core''"
  "sd_revision (db_2 ths rns mss evs) = Some ''0002_principal_ownership''"
  "sd_revision (db_3 ths rns mss evs) = Some ''0003_agent_policy_evidence''"
  "sd_revision (db_4 ths rns mss evs ats) = Some ''0004_run_usage_metering''"
  by (simp_all add: empty_sql_def db_1_def db_2_def db_3_def db_4_def)

lemma revised [simp]:
  "db_1 ths rns mss evs\<lparr>sd_revision := Some ''0001_product_core''\<rparr> = db_1 ths rns mss evs"
  "db_2 ths rns mss evs\<lparr>sd_revision := Some ''0002_principal_ownership''\<rparr> = db_2 ths rns mss evs"
  "db_3 ths rns mss evs\<lparr>sd_revision := Some ''0003_agent_policy_evidence''\<rparr> = db_3 ths rns mss evs"
  "db_4 ths rns mss evs ats\<lparr>sd_revision := Some ''0004_run_usage_metering''\<rparr> = db_4 ths rns mss evs ats"
  by (simp_all add: db_1_def db_2_def db_3_def db_4_def)

definition evidence_null :: "sql_row \<Rightarrow> sql_row" where
  "evidence_null = (\<lambda>r. r(''execution_plan'' := SqlNull, ''execution_outcome'' := SqlNull))"

definition metering_null :: "sql_row \<Rightarrow> sql_row" where
  "metering_null =
     (\<lambda>r. r(''metering_version'' := SqlNull, ''first_visible_at'' := SqlNull, ''usage_metrics'' := SqlNull))"

lemma head_4: "upgrade_head d (db_4 ths rns mss evs ats) = (Inr (), db_4 ths rns mss evs ats)"
  by (simp add: upgrade_head_def in_transaction_def scripts_simps)

lemma head_3: "upgrade_head d (db_3 ths rns mss evs) = (Inr (), db_4 ths (map metering_null rns) mss evs [])"
  by (simp add: upgrade_head_def in_transaction_def scripts_simps)
    (simp add: revisions_def upgrade_0004_steps set_revision_def metering_null_def)

lemma head_2:
  "upgrade_head d (db_2 ths rns mss evs)
    = (Inr (), db_4 ths (map metering_null (map evidence_null rns)) mss evs [])"
  by (simp add: upgrade_head_def in_transaction_def scripts_simps)
    (simp add: revisions_def upgrade_0003_steps upgrade_0004_steps set_revision_def metering_null_def
      evidence_null_def comp_def)

lemma head_1:
  assumes "rows_ok ths rns mss evs" "list_all (linked rns) (mss @ evs)"
  shows "upgrade_head d (db_1 ths rns mss evs)
    = (Inr (), db_4 (map own_row ths) (map metering_null (map evidence_null (map act_row rns))) mss evs [])"
proof -
  note up = upgrade_0002_steps [OF assms(2) linked_unique [OF assms(1)] linked_refers [OF assms]]
  show ?thesis
    by (simp add: upgrade_head_def in_transaction_def scripts_simps)
      (simp add: revisions_def up upgrade_0003_steps upgrade_0004_steps set_revision_def metering_null_def
        evidence_null_def comp_def)
qed

lemma head_1_refused:
  assumes "\<not> list_all (linked rns) (mss @ evs)"
  shows "\<exists>why. upgrade_head d (db_1 ths rns mss evs) = (Inl (Refused why), db_1 ths rns mss evs)"
proof -
  obtain why where "upgrade_0002 False d (db_1 ths rns mss evs) = (Inl (Refused why), db_1 ths rns mss evs)"
    using upgrade_0002_refused [OF assms] by blast
  then show ?thesis
    by (simp add: upgrade_head_def in_transaction_def scripts_simps) (simp add: revisions_def)
qed

lemma no_rows_ok [simp]: "rows_ok [] [] [] []"
  by (simp add: rows_ok_def)

lemma head_0: "upgrade_head d empty_sql = (Inr (), db_4 [] [] [] [] [])"
proof -
  note up2 = upgrade_0002_steps [of "[]" "[]" "[]" d "[]", simplified]
  show ?thesis
    by (simp add: upgrade_head_def in_transaction_def scripts_simps)
      (simp add: revisions_def upgrade_0001_empty up2 upgrade_0003_steps upgrade_0004_steps set_revision_def)
qed

end
