(* ===== verification/Isolation.thy ===== *)
theory Isolation
  imports Store_Properties
begin

text \<open>
  Non-interference between accounts at the repository. \<open>account_rows\<close> is the part of the database
  an account owns. A step of the database taken for somebody else leaves that part as it is, and
  every successful answer to the account depends on that part alone.
\<close>

section \<open>The rows of an account\<close>

definition own_threads :: "pystr \<Rightarrow> db \<Rightarrow> pystr set" where
  "own_threads s db = th_id ` set (filter (\<lambda>t. th_owner_subject t = s) (db_threads db))"

definition account_rows :: "pystr \<Rightarrow> db \<Rightarrow> db" where
  "account_rows s db =
     \<lparr>db_threads = filter (\<lambda>t. th_owner_subject t = s) (db_threads db),
      db_runs = filter (\<lambda>r. rn_actor_subject r = s) (db_runs db),
      db_attempts = filter (\<lambda>a. ma_thread_id a \<in> own_threads s db) (db_attempts db),
      db_messages = filter (\<lambda>m. ms_thread_id m \<in> own_threads s db) (db_messages db),
      db_events = filter (\<lambda>e. ev_thread_id e \<in> own_threads s db) (db_events db)\<rparr>"

text \<open>The database looks to the account as it did.\<close>

definition unseen :: "pystr \<Rightarrow> db \<Rightarrow> db \<Rightarrow> bool" where
  "unseen s db db' \<longleftrightarrow> account_rows s db' = account_rows s db"

lemma unseen_refl [simp]: "unseen s db db"
  by (simp add: unseen_def)

lemma unseen_trans: "unseen s db db1 \<Longrightarrow> unseen s db1 db2 \<Longrightarrow> unseen s db db2"
  by (simp add: unseen_def)

lemma own_threads_rows: "own_threads s db = th_id ` set (db_threads (account_rows s db))"
  by (simp add: own_threads_def account_rows_def)

text \<open>A Run and a thread that are not the account's: all the conditions are about its own rows.\<close>

definition stranger :: "pystr \<Rightarrow> pystr \<Rightarrow> pystr \<Rightarrow> db \<Rightarrow> bool" where
  "stranger s rid tid db \<longleftrightarrow>
     rid \<notin> rn_id ` set (db_runs (account_rows s db))
     \<and> tid \<notin> own_threads s db
     \<and> rid \<notin> ma_run_id ` set (db_attempts (account_rows s db))"

lemma unseen_stranger: "unseen s db db' \<Longrightarrow> stranger s rid tid db' = stranger s rid tid db"
  by (simp add: unseen_def stranger_def own_threads_rows)

lemma own_thread_owner:
  assumes "schema_ok db" "find_thread db tid = Some t"
  shows "tid \<in> own_threads s db \<longleftrightarrow> th_owner_subject t = s"
proof -
  have "u = t" if "u \<in> set (db_threads db)" "th_id u = tid" for u
    using find_thread_intro [OF assms(1) that(1)] that(2) assms(2) by simp
  with find_thread_Some [OF assms(2)] show ?thesis by (auto simp: own_threads_def)
qed

lemma own_run:
  assumes "db_inv c db" "r \<in> set (db_runs db)"
  shows "rn_thread_id r \<in> own_threads s db \<longleftrightarrow> rn_actor_subject r = s"
proof -
  obtain t where "find_thread db (rn_thread_id r) = Some t" "th_owner_subject t = rn_actor_subject r"
    by (rule thread_of_run [OF assms])
  with own_thread_owner [OF inv_parts(1) [OF assms(1)], of "rn_thread_id r" t s] show ?thesis by simp
qed

lemma run_ref_row:
  assumes "schema_ok db" "(rid, tid) \<in> run_refs db" "find_run db rid = Some r"
  shows "rn_thread_id r = tid"
  using assms find_run_intro [OF assms(1)] by (fastforce simp: run_refs_def)

lemma strangerI:
  assumes "db_inv c db" "find_run db rid = Some r" "rn_actor_subject r \<noteq> s"
  shows "stranger s rid (rn_thread_id r) db"
proof -
  note ok = inv_parts(1) [OF assms(1)] note r = find_run_Some [OF assms(2)]
  have "q = r" if "q \<in> set (db_runs db)" "rn_id q = rid" for q
    using find_run_intro [OF ok that(1)] that(2) assms(2) by simp
  then have "rid \<notin> rn_id ` set (db_runs (account_rows s db))"
    using assms(3) by (auto simp: account_rows_def)
  moreover have alien: "rn_thread_id r \<notin> own_threads s db"
    using own_run [OF assms(1), of r s] r assms(3) by simp
  moreover have "ma_thread_id a \<notin> own_threads s db" if "a \<in> set (db_attempts db)" "ma_run_id a = rid" for a
  proof -
    have "(rid, ma_thread_id a) \<in> run_refs db" using ok that by (auto simp: schema_defs)
    with run_ref_row [OF ok _ assms(2)] alien show ?thesis by simp
  qed
  ultimately show ?thesis by (auto simp: stranger_def account_rows_def)
qed

lemma stranger_attempt:
  "stranger s rid tid db \<Longrightarrow> a \<in> set (db_attempts db) \<Longrightarrow> ma_run_id a = rid \<Longrightarrow> ma_thread_id a \<notin> own_threads s db"
  by (force simp: stranger_def account_rows_def)

section \<open>The writes\<close>

lemma own_threads_same [simp]:
  "own_threads s (db_runs_update f db) = own_threads s db"
  "own_threads s (db_attempts_update g db) = own_threads s db"
  "own_threads s (db_messages_update h db) = own_threads s db"
  "own_threads s (db_events_update k db) = own_threads s db"
  "own_threads s (put_run r db) = own_threads s db"
  by (simp_all add: own_threads_def put_run_def)

lemma filter_put:
  assumes "x \<notin> f ` set (filter P xs)" "\<not> P y"
  shows "filter P (map (\<lambda>u. if f u = x then y else u) xs) = filter P xs"
  using assms by (induction xs) (auto split: if_splits)

lemma put_thread_unseen:
  assumes "th_id t \<notin> own_threads s db" "th_owner_subject t \<noteq> s"
  shows "unseen s db (put_thread t db)"
proof -
  have rows: "filter (\<lambda>t. th_owner_subject t = s) (db_threads (put_thread t db))
      = filter (\<lambda>t. th_owner_subject t = s) (db_threads db)"
    using assms unfolding put_thread_def own_threads_def by (simp add: filter_put)
  then have "own_threads s (put_thread t db) = own_threads s db" by (simp add: own_threads_def)
  with rows show ?thesis by (simp add: unseen_def account_rows_def)
qed

lemma put_run_unseen:
  assumes "stranger s (rn_id r) tid db" "rn_actor_subject r \<noteq> s"
  shows "unseen s db (put_run r db)"
proof -
  have "filter (\<lambda>r. rn_actor_subject r = s) (db_runs (put_run r db))
      = filter (\<lambda>r. rn_actor_subject r = s) (db_runs db)"
    using assms unfolding put_run_def stranger_def account_rows_def by (simp add: filter_put)
  then show ?thesis by (simp add: unseen_def account_rows_def)
qed

lemma insert_thread_unseen:
  assumes "insert_thread t db = Inr db'" "th_owner_subject t \<noteq> s" shows "unseen s db db'"
proof -
  have "own_threads s db' = own_threads s db"
    using insert_thread_ok(1) [OF assms(1)] assms(2) by (simp add: own_threads_def)
  with insert_thread_ok(1) [OF assms(1)] assms(2) show ?thesis by (simp add: unseen_def account_rows_def)
qed

lemma insert_run_unseen:
  "insert_run r db = Inr db' \<Longrightarrow> rn_actor_subject r \<noteq> s \<Longrightarrow> unseen s db db'"
  by (drule insert_run_ok(1)) (simp add: unseen_def account_rows_def)

lemma insert_attempt_unseen:
  "insert_attempt a db = Inr db' \<Longrightarrow> ma_thread_id a \<notin> own_threads s db \<Longrightarrow> unseen s db db'"
  by (drule insert_attempt_ok(1)) (simp add: unseen_def account_rows_def)

lemma insert_message_unseen:
  "insert_message m db = Inr db' \<Longrightarrow> ms_thread_id m \<notin> own_threads s db \<Longrightarrow> unseen s db db'"
  by (drule insert_message_ok(1)) (simp add: unseen_def account_rows_def)

lemma insert_event_unseen:
  "insert_event e db = Inr db' \<Longrightarrow> ev_thread_id e \<notin> own_threads s db \<Longrightarrow> unseen s db db'"
  by (drule insert_event_ok(1)) (simp add: unseen_def account_rows_def)

lemma update_attempts_unseen:
  assumes "update_attempts P f db = Inr db'" "\<And>a. ma_thread_id (f a) = ma_thread_id a"
    and "\<And>a. a \<in> set (db_attempts db) \<Longrightarrow> P a \<Longrightarrow> ma_thread_id a \<notin> own_threads s db"
  shows "unseen s db db'"
proof -
  have db': "db' = db\<lparr>db_attempts := map (\<lambda>a. if P a then f a else a) (db_attempts db)\<rparr>"
    using assms(1) by (auto simp: update_attempts_def Let_def split: if_splits)
  have "filter (\<lambda>a. ma_thread_id a \<in> own_threads s db) (map (\<lambda>a. if P a then f a else a) as)
      = filter (\<lambda>a. ma_thread_id a \<in> own_threads s db) as"
    if "set as \<subseteq> set (db_attempts db)" for as
    using that assms(2,3) by (induction as) auto
  then show ?thesis by (simp add: db' unseen_def account_rows_def)
qed

text \<open>Events and messages of a Run that is not the account's, and the touch of its thread.\<close>

lemma made_event_unseen:
  assumes "make_event c r i name data seq now = Inr e" "insert_event e db = Inr db'"
    and "rn_thread_id r \<notin> own_threads s db"
  shows "unseen s db db'"
proof -
  have "ev_thread_id e = rn_thread_id r" using assms(1) by (auto simp: make_event_def)
  with insert_event_unseen [OF assms(2)] assms(3) show ?thesis by simp
qed

lemma alien_thread:
  "find_thread db tid = Some t \<Longrightarrow> tid \<notin> own_threads s db \<Longrightarrow> th_id t = tid \<and> th_owner_subject t \<noteq> s"
  by (auto simp: own_threads_def dest: find_thread_Some)

lemma touched_unseen:
  assumes "find_thread db tid = Some t" "unseen s db db'" "tid \<notin> own_threads s db"
  shows "unseen s db (put_thread (t\<lparr>th_updated_at := now\<rparr>) db')"
proof -
  have "tid \<notin> own_threads s db'" using assms(2,3) by (simp add: unseen_def own_threads_rows)
  then have "unseen s db' (put_thread (t\<lparr>th_updated_at := now\<rparr>) db')"
    using alien_thread [OF assms(1,3)] by (intro put_thread_unseen) auto
  with assms(2) show ?thesis by (rule unseen_trans)
qed

lemma unseen_own: "unseen s db db' \<Longrightarrow> own_threads s db' = own_threads s db"
  by (simp add: unseen_def own_threads_rows)

lemma write_terminal_usage_unseen:
  assumes "write_terminal_usage run now ast category db = Inr (run', db')"
    and "stranger s (rn_id run) tid db" "rn_actor_subject run \<noteq> s"
  shows "unseen s db db' \<and> rn_thread_id run' = rn_thread_id run"
proof (cases "rn_metering_version run")
  case None
  with assms(1) show ?thesis by (auto simp: write_terminal_usage_def)
next
  case (Some v)
  obtain db1 u where up: "update_attempts (\<lambda>a. ma_run_id a = rn_id run \<and> ma_status a = Started)
      (\<lambda>a. a\<lparr>ma_status := ast, ma_completed_at := Some now\<rparr>) db = Inr db1"
    and run': "run' = run\<lparr>rn_usage_metrics := u\<rparr>" and db': "db' = put_run run' db1"
    using assms(1) Some unfolding write_terminal_usage_def by (auto simp: Let_def split: if_splits)
  have 1: "unseen s db db1"
    by (rule update_attempts_unseen [OF up]) (use stranger_attempt [OF assms(2)] in auto)
  then have "unseen s db1 db'"
    using assms(2,3) unseen_stranger [OF 1] unfolding db' by (intro put_run_unseen [of _ _ tid]) (simp_all add: run')
  with 1 unseen_trans show ?thesis by (auto simp: run')
qed

section \<open>The operations\<close>

text \<open>The Run an operation names, where there is one, is not the account's.\<close>

definition foreign_run :: "pystr \<Rightarrow> pystr \<Rightarrow> db \<Rightarrow> bool" where
  "foreign_run s rid db \<longleftrightarrow> (case find_run db rid of None \<Rightarrow> True | Some r \<Rightarrow> rn_actor_subject r \<noteq> s)"

lemma claimed_unseen:
  assumes "claim_run rid P f db = Some (run, db1)" "db_inv c db" "foreign_run s rid db"
    and "\<And>r. rn_id (f r) = rn_id r" "\<And>r. rn_actor_subject (f r) = rn_actor_subject r"
      "\<And>r. rn_thread_id (f r) = rn_thread_id r"
  shows "unseen s db db1" "stranger s rid (rn_thread_id run) db1" "rn_id run = rid" "rn_actor_subject run \<noteq> s"
proof -
  obtain r where r: "find_run db rid = Some r" "run = f r" "db1 = put_run (f r) db"
    using assms(1) by (auto simp: claim_run_Some)
  have actor: "rn_actor_subject r \<noteq> s" using assms(3) r(1) by (simp add: foreign_run_def)
  note str = strangerI [OF assms(2) r(1) actor]
  show id: "rn_id run = rid" using find_run_Some [OF r(1)] r(2) assms(4) by simp
  show "rn_actor_subject run \<noteq> s" using actor r(2) assms(5) by simp
  show un: "unseen s db db1"
    using put_run_unseen [of s run "rn_thread_id r" db] str id actor r(2,3) assms(5) by simp
  show "stranger s rid (rn_thread_id run) db1"
    using str r(2) assms(6) unseen_stranger [OF un] by simp
qed

lemma settled_unseen:
  assumes "settle_usage c run now ast category db = Inr (run', usage, db')"
    and "stranger s (rn_id run) (rn_thread_id run) db" "rn_actor_subject run \<noteq> s"
  shows "unseen s db db'" "rn_thread_id run' = rn_thread_id run" "rn_thread_id run \<notin> own_threads s db'"
proof -
  obtain w: "write_terminal_usage run now ast category db = Inr (run', db')"
    using assms(1) unfolding settle_usage_def by (auto split: prod.splits)
  from write_terminal_usage_unseen [OF this assms(2,3)]
  show "unseen s db db'" "rn_thread_id run' = rn_thread_id run" by simp_all
  with assms(2) unseen_own show "rn_thread_id run \<notin> own_threads s db'" by (auto simp: stranger_def)
qed

lemma ended_same [simp]:
  "rn_id (ended st now n out r) = rn_id r" "rn_actor_subject (ended st now n out r) = rn_actor_subject r"
  "rn_thread_id (ended st now n out r) = rn_thread_id r"
  by (simp_all add: ended_def)

text \<open>A claimed Run, its usage settled: what the closing operations have done so far.\<close>

lemma closing_unseen:
  assumes "claim_run rid P (ended st now n out) db = Some (run, db1)" "db_inv c' db" "foreign_run s rid db"
    and "settle_usage c run now ast category db1 = Inr (run', usage, db2)"
  shows "unseen s db db2" "rn_thread_id run' \<notin> own_threads s db2"
proof -
  note C = claimed_unseen [OF assms(1-3), simplified]
  note S = settled_unseen [OF assms(4) _ C(4)]
  show "unseen s db db2" using S(1) C unseen_trans by simp
  show "rn_thread_id run' \<notin> own_threads s db2" using S C by simp
qed

lemma start_run_unseen:
  assumes "start_run c i now rid db = (res, db')" "db_inv c' db" "foreign_run s rid db"
  shows "unseen s db db'"
  using assms(1) unfolding start_run_def
proof (cases rule: transact_cases)
  case (committed x)
  show ?thesis
  proof (cases "claim_run rid (\<lambda>r. rn_status r = RunCreated)
      (\<lambda>r. r\<lparr>rn_status := RunRunning, rn_last_seq := rn_last_seq r + 1\<rparr>) db")
    case (Some p)
    obtain run db1 where p: "p = (run, db1)" by (cases p)
    note C = claimed_unseen [OF Some [unfolded p] assms(2,3), simplified]
    obtain e where "make_event c run i ''run.started'' (py_dict [(''status'', PStr (lit ''running''))])
        (rn_last_seq run) now = Inr e" "insert_event e db1 = Inr db'"
      using committed(1) unfolding Some p by auto
    from made_event_unseen [OF this] C(1,2) show ?thesis
      by (auto simp: stranger_def intro: unseen_trans)
  qed (use committed(1) in \<open>auto split: if_splits\<close>)
qed simp

lemma append_event_tx_unseen:
  assumes "append_event_tx c i now rid t v db = Inr (x, db')" "db_inv c' db" "foreign_run s rid db"
  shows "unseen s db db'"
proof -
  define f where "f = (\<lambda>r :: run_row. r\<lparr>rn_last_seq := rn_last_seq r + 1, rn_first_visible_at :=
      (if t = MessageDeltaEvent \<and> rn_first_visible_at r = None then Some now else rn_first_visible_at r)\<rparr>)"
  note tx = assms(1) [unfolded append_event_tx_def f_def [symmetric]]
  show ?thesis
  proof (cases "claim_run rid (\<lambda>r. rn_status r = RunRunning) f db")
    case None
    with tx show ?thesis by (auto split: if_splits)
  next
    case (Some p)
    obtain run db1 where p: "p = (run, db1)" by (cases p)
    have C: "unseen s db db1" "stranger s rid (rn_thread_id run) db1"
      by (rule claimed_unseen [OF Some [unfolded p] assms(2,3)]; simp add: f_def)+
    obtain e where "make_event c run i (event_name t) v (rn_last_seq run) now = Inr e"
      "insert_event e db1 = Inr db'"
      using tx unfolding Some p by auto
    from made_event_unseen [OF this] C show ?thesis
      by (auto simp: stranger_def intro: unseen_trans)
  qed
qed

lemma append_active_event_unseen:
  assumes "append_active_event c i now rid name data db = (res, db')" "db_inv c' db" "foreign_run s rid db"
  shows "unseen s db db'"
proof (cases "validate_runtime_event c name data")
  case (Inl e)
  with assms(1) show ?thesis by (simp add: append_active_event_def)
next
  case (Inr tv)
  obtain t v where tv: "tv = (t, v)" by (cases tv)
  have "snd (transact (append_event_tx c i now rid t v db) db) = db'"
    by (rule and_then_state [OF assms(1) [unfolded append_active_event_def Inr tv sum.case prod.case]])
      (simp split: option.split)
  then show ?thesis
    using append_event_tx_unseen [OF _ assms(2,3), of c i now t v]
    by (cases "append_event_tx c i now rid t v db") auto
qed

lemma unchanged_unseen: "unchanged_view c rid db = Inr (r, db') \<Longrightarrow> unseen s db db'"
  using unchanged_view_same by fastforce

lemma fail_run_tx_unseen:
  assumes "fail_run_tx c i now rid code out category db = Inr (x, db')" "db_inv c' db" "foreign_run s rid db"
  shows "unseen s db db'"
proof (cases "claim_run rid (\<lambda>r. rn_status r \<in> set ACTIVE_STATUSES) (ended RunFailed now 1 (Some out)) db")
  case None
  with assms(1) unchanged_unseen show ?thesis by (simp add: fail_run_tx_def)
next
  case (Some p)
  obtain run db1 where p: "p = (run, db1)" by (cases p)
  obtain run' usage db2 t e db3 where steps:
    "settle_usage c run now AttemptFailed category db1 = Inr (run', usage, db2)"
    "require_internal_run_consistency db2 run' False = Inr t"
    "make_event c run' i ''run.failed''
       (py_dict [(''status'', PStr (lit ''failed'')),
                 (''error_code'', PStr (lit (failure_code_name code))), (''usage'', usage)])
       (rn_last_seq run') now = Inr e"
    "insert_event e db2 = Inr db3" "db' = put_thread (t\<lparr>th_updated_at := now\<rparr>) db3"
    using assms(1) unfolding fail_run_tx_def Some p by auto
  note C = closing_unseen [OF Some [unfolded p] assms(2,3) steps(1)]
  have "unseen s db2 db'"
    unfolding steps(5) by (rule touched_unseen [OF internal_thread [OF steps(2)] made_event_unseen [OF steps(3,4)]])
      (fact C(2))+
  with C(1) show ?thesis by (rule unseen_trans)
qed

lemma complete_run_tx_unseen:
  assumes tx: "complete_run_tx c mi i1 i2 now rid content out category db = Inr (x, db')"
    and "db_inv c' db" "foreign_run s rid db"
  shows "unseen s db db'"
proof (cases "claim_run rid (\<lambda>r. rn_status r = RunRunning) (ended RunCompleted now 2 (Some out)) db")
  case None
  with tx unchanged_unseen show ?thesis by (simp add: complete_run_tx_def)
next
  case (Some p)
  obtain run db1 where p: "p = (run, db1)" by (cases p)
  define m where "m run = \<lparr>ms_id = mi, ms_thread_id = rn_thread_id run, ms_run_id = Some (rn_id run),
      ms_role = AssistantRole, ms_content = content, ms_created_at = now\<rparr>" for run :: run_row
  obtain run' usage db2 t e1 e2 db3 db4 db5 where steps:
    "settle_usage c run now Interrupted category db1 = Inr (run', usage, db2)"
    "require_internal_run_consistency db2 run' False = Inr t"
    "make_event c run' i1 ''message.completed''
       (py_dict [(''message'', dump_message c (message_view (m run')))]) (rn_last_seq run' - 1) now = Inr e1"
    "make_event c run' i2 ''run.completed''
       (py_dict [(''status'', PStr (lit ''completed'')), (''usage'', usage)]) (rn_last_seq run') now = Inr e2"
    "insert_message (m run') db2 = Inr db3" "insert_event e1 db3 = Inr db4" "insert_event e2 db4 = Inr db5"
    "db' = put_thread (t\<lparr>th_updated_at := now\<rparr>) db5"
    using tx unfolding complete_run_tx_def Some p m_def by (auto simp: Let_def)
  note C = closing_unseen [OF Some [unfolded p] assms(2,3) steps(1)]
  have 3: "unseen s db2 db3" using insert_message_unseen [OF steps(5)] C(2) by (simp add: m_def)
  have 4: "unseen s db3 db4"
    using made_event_unseen [OF steps(3,6)] C(2) unseen_own [OF 3] by simp
  have 5: "unseen s db4 db5"
    using made_event_unseen [OF steps(4,7)] C(2) unseen_own [OF 3] unseen_own [OF 4] by simp
  have "unseen s db2 db'"
    unfolding steps(8)
    by (rule touched_unseen [OF internal_thread [OF steps(2)] unseen_trans [OF 3 unseen_trans [OF 4 5]] C(2)])
  with C(1) show ?thesis by (rule unseen_trans)
qed

text \<open>Cancelling for a Principal who is not the account: no Run of the account is claimed.\<close>

lemma cancel_run_tx_unseen:
  assumes tx: "cancel_run_tx c i now rid p out category db = Inr (x, db')" and "db_inv c' db" "subject p \<noteq> s"
  shows "unseen s db db'"
proof -
  obtain q t where q: "find_run db rid = Some q" and t: "find_thread db (rn_thread_id q) = Some t"
    and own: "subject p = rn_actor_subject q"
    and tx': "(case claim_run rid (\<lambda>r. rn_status r \<in> set ACTIVE_STATUSES)
                      (ended RunCancelled now 1 (Some out)) db of
                 None \<Rightarrow> unchanged_view c rid db
               | Some (run, db1) \<Rightarrow>
                   bindE (settle_usage c run now AttemptCancelled category db1) (\<lambda>(run', usage, db2).
                   bindE (make_event c run' i ''run.cancelled''
                            (py_dict [(''status'', PStr (lit ''cancelled'')), (''usage'', usage)])
                            (rn_last_seq run') now) (\<lambda>e.
                   bindE (insert_event e db2) (\<lambda>db3.
                   Inr (run', put_thread (t\<lparr>th_updated_at := now\<rparr>) db3))))) = Inr (x, db')"
    using tx unfolding cancel_run_tx_def by (auto split: option.splits)
  have foreign: "foreign_run s rid db" using q own assms(3) by (simp add: foreign_run_def)
  show ?thesis
  proof (cases "claim_run rid (\<lambda>r. rn_status r \<in> set ACTIVE_STATUSES) (ended RunCancelled now 1 (Some out)) db")
    case None
    with tx' unchanged_unseen show ?thesis by simp
  next
    case (Some p')
    obtain run db1 where p': "p' = (run, db1)" by (cases p')
    obtain run' usage db2 e db3 where steps:
      "settle_usage c run now AttemptCancelled category db1 = Inr (run', usage, db2)"
      "make_event c run' i ''run.cancelled''
         (py_dict [(''status'', PStr (lit ''cancelled'')), (''usage'', usage)])
         (rn_last_seq run') now = Inr e"
      "insert_event e db2 = Inr db3" "db' = put_thread (t\<lparr>th_updated_at := now\<rparr>) db3"
      using tx' unfolding Some p' by auto
    note C = closing_unseen [OF Some [unfolded p'] assms(2) foreign steps(1)]
    have "rn_thread_id q \<notin> own_threads s db"
      using strangerI [OF assms(2) q] own assms(3) by (simp add: stranger_def)
    moreover have "unseen s db db3" using C(1) made_event_unseen [OF steps(2,3) C(2)] by (rule unseen_trans)
    ultimately show ?thesis unfolding steps(4) by (intro touched_unseen [OF t])
  qed
qed

text \<open>The bodies of the three operations are transactions behind a check of the outcome.\<close>

lemma and_then_transact_unseen:
  assumes "and_then (transact r db) k = (res, db')" "\<And>x db1. snd (k x db1) = db1"
    and "\<And>x db1. r = Inr (x, db1) \<Longrightarrow> unseen s db db1"
  shows "unseen s db db'"
  using and_then_state [OF assms(1,2)] assms(3) by (cases r) auto

lemma closing_operations_unseen:
  assumes "db_inv c' db"
  shows "fail_run c i now rid code out category db = (res, db') \<Longrightarrow> foreign_run s rid db \<Longrightarrow> unseen s db db'"
    and "complete_run c mi i1 i2 now rid content out category db = (res, db') \<Longrightarrow> foreign_run s rid db
      \<Longrightarrow> unseen s db db'"
    and "cancel_run c i now rid p out category db = (res, db') \<Longrightarrow> subject p \<noteq> s \<Longrightarrow> unseen s db db'"
proof -
  show "unseen s db db'" if "fail_run c i now rid code out category db = (res, db')" "foreign_run s rid db"
    using that fail_run_tx_unseen [OF _ assms that(2)]
    by (auto simp: fail_run_def split: sum.splits elim!: and_then_transact_unseen)
  show "unseen s db db'"
    if "complete_run c mi i1 i2 now rid content out category db = (res, db')" "foreign_run s rid db"
    using that complete_run_tx_unseen [OF _ assms that(2)]
    by (auto simp: complete_run_def split: sum.splits elim!: and_then_transact_unseen)
  show "unseen s db db'" if "cancel_run c i now rid p out category db = (res, db')" "subject p \<noteq> s"
    using that cancel_run_tx_unseen [OF _ assms that(2)]
    by (auto simp: cancel_run_def split: sum.splits elim!: and_then_transact_unseen)
qed

text \<open>The attempts of a Run.\<close>

lemma start_model_attempt_unseen:
  assumes "start_model_attempt now rid st db = (res, db')" "db_inv c db" "foreign_run s rid db"
  shows "unseen s db db'"
  using assms(1) unfolding start_model_attempt_def
proof (cases rule: transact_cases)
  case (committed x)
  then obtain r where r: "find_run db rid = Some r" by (auto split: option.splits)
  then have "rn_thread_id r \<notin> own_threads s db"
    using strangerI [OF assms(2) r] assms(3) by (auto simp: stranger_def foreign_run_def)
  with committed(1) r show ?thesis
    by (auto split: option.splits if_splits elim!: insert_attempt_unseen)
qed simp

lemma owned_attempt_unseen:
  assumes "owned_attempt db rid aid why = Inr a" "update_attempts (\<lambda>b. ma_id b = ma_id a) f db = Inr db'"
    and "\<And>a. ma_thread_id (f a) = ma_thread_id a"
    and "db_inv c db" "find_run db rid = Some r" "foreign_run s rid db"
  shows "unseen s db db'"
proof (rule update_attempts_unseen [OF assms(2,3)])
  fix b assume b: "b \<in> set (db_attempts db)" "ma_id b = ma_id a"
  have a: "a \<in> set (db_attempts db)" "ma_run_id a = rid"
    using assms(1) find_attempt_row_Some by (auto simp: owned_attempt_def split: option.splits if_splits)
  have "distinct (map ma_id (db_attempts db))" using inv_parts(1) [OF assms(4)] by (simp add: schema_defs)
  then have "b = a" using a(1) b by (auto simp: distinct_map dest: inj_onD)
  moreover have "stranger s rid (rn_thread_id r) db"
    using strangerI [OF assms(4,5)] assms(5,6) by (simp add: foreign_run_def)
  ultimately show "ma_thread_id b \<notin> own_threads s db" using stranger_attempt a by blast
qed

lemma finish_model_attempt_unseen:
  assumes "finish_model_attempt now rid fin db = (res, db')" "db_inv c db" "foreign_run s rid db"
  shows "unseen s db db'"
  using assms(1) unfolding finish_model_attempt_def Let_def
proof (cases rule: transact_cases)
  case (committed x)
  then show ?thesis
    using owned_attempt_unseen [OF _ _ _ assms(2) _ assms(3)]
    by (auto split: option.splits if_splits; fastforce)
qed simp

lemma record_model_attempt_usage_unseen:
  assumes "record_model_attempt_usage rid obs db = (res, db')" "db_inv c db" "foreign_run s rid db"
  shows "unseen s db db'"
  using assms(1) unfolding record_model_attempt_usage_def Let_def
proof (cases rule: transact_cases)
  case (committed x)
  then show ?thesis
    using owned_attempt_unseen [OF _ _ _ assms(2) _ assms(3)]
    by (auto split: option.splits if_splits; fastforce)
qed simp

text \<open>The operations of another Principal.\<close>

lemma create_thread_unseen:
  "create_thread i now p title db = (res, db') \<Longrightarrow> subject p \<noteq> s \<Longrightarrow> unseen s db db'"
  unfolding create_thread_def Let_def
  by (erule transact_cases) (auto elim!: insert_thread_unseen)

lemma rename_thread_unseen:
  assumes "rename_thread now tid p title db = (res, db')" "schema_ok db" "subject p \<noteq> s"
  shows "unseen s db db'"
  using assms(1) unfolding rename_thread_def
proof (cases rule: transact_cases)
  case (committed x)
  then obtain t where t: "find_thread db tid = Some t" "th_owner_subject t = subject p"
    and db': "db' = put_thread (t\<lparr>th_title := title, th_updated_at := now\<rparr>) db"
    by (auto simp: require_thread_owner_def Let_def split: option.splits)
  have "tid \<notin> own_threads s db" using own_thread_owner [OF assms(2) t(1)] t(2) assms(3) by simp
  with find_thread_Some [OF t(1)] t(2) assms(3) show ?thesis
    unfolding db' by (intro put_thread_unseen) auto
qed simp

lemma snap_thread:
  assumes "find_thread snap tid = Some t" "set (thread_keys snap) \<subseteq> set (thread_keys db)" "schema_ok db"
    and "th_owner_subject t \<noteq> s"
  shows "tid \<notin> own_threads s db"
proof -
  have "(tid, th_owner_subject t) \<in> set (thread_keys db)"
    using assms(1,2) find_thread_Some by (fastforce simp: thread_keys_def)
  then obtain u where "u \<in> set (db_threads db)" "th_id u = tid" "th_owner_subject u = th_owner_subject t"
    by (auto simp: thread_keys_def)
  with find_thread_intro [OF assms(3)] own_thread_owner [OF assms(3)] assms(4) show ?thesis by metis
qed

lemma created_run_unseen:
  assumes "insert_run r db = Inr db1" "insert_message (user_message_row mi r content) db1 = Inr db2"
    and "rn_actor_subject r \<noteq> s" "rn_thread_id r \<notin> own_threads s db"
  shows "unseen s db db2"
proof -
  have 1: "unseen s db db1" by (rule insert_run_unseen [OF assms(1,3)])
  moreover have "unseen s db1 db2"
    using insert_message_unseen [OF assms(2)] assms(4) unseen_own [OF 1] by (simp add: user_message_row_def)
  ultimately show ?thesis by (rule unseen_trans)
qed

lemma create_run_unseen:
  assumes "create_run c i mi now p tid content key plan snap db = (res, db')"
    and "schema_ok db" "set (thread_keys snap) \<subseteq> set (thread_keys db)" "subject p \<noteq> s"
  shows "unseen s db db'"
proof (cases "validate_execution_plan plan")
  case (Inl e)
  with assms(1) show ?thesis by (simp add: create_run_def)
next
  case (Inr plan')
  define r where "r = new_run_row i now p tid key plan'"
  have row: "rn_actor_subject r \<noteq> s" "rn_thread_id r = tid" using assms(4) by (simp_all add: r_def new_run_row_def)
  have "db' = db \<or> (\<exists>x. create_run_tx c snap r (user_message_row mi r content) p tid key db = Inr (x, db'))"
    using assms(1) unfolding create_run_def Inr sum.case Let_def r_def [symmetric]
    by (auto split: sum.splits prod.splits option.splits if_splits)
  then have "db' = db \<or> (\<exists>t db1 db2. find_thread snap tid = Some t \<and> th_owner_subject t = subject p
      \<and> insert_run r db = Inr db1 \<and> insert_message (user_message_row mi r content) db1 = Inr db2
      \<and> db' = touch_thread tid (rn_created_at r) db2)"
    by (auto simp: create_run_tx_def require_thread_owner_def split: option.splits if_splits)
  then show ?thesis
  proof (elim disjE exE conjE)
    fix t db1 db2
    assume t: "find_thread snap tid = Some t" "th_owner_subject t = subject p"
      and w: "insert_run r db = Inr db1" "insert_message (user_message_row mi r content) db1 = Inr db2"
      and db': "db' = touch_thread tid (rn_created_at r) db2"
    have alien: "tid \<notin> own_threads s db" using snap_thread [OF t(1) assms(3,2)] t(2) assms(4) by simp
    have 2: "unseen s db db2" using created_run_unseen [OF w row(1)] row(2) alien by simp
    have "unseen s db2 db'"
      using touched_unseen [of db2 tid _ s db2] alien unseen_own [OF 2]
      by (auto simp: db' touch_thread_def split: option.split)
    with 2 show ?thesis by (rule unseen_trans)
  qed simp
qed

lemma create_initial_run_unseen:
  assumes "create_initial_run c cc i mi now p tid content key plan snap db = (res, db')" "subject p \<noteq> s"
  shows "unseen s db db'"
proof (cases "validate_execution_plan plan")
  case (Inl e)
  with assms(1) show ?thesis by (simp add: create_initial_run_def)
next
  case (Inr plan')
  define r where "r = new_run_row i now p tid key plan'"
  define t where "t = \<lparr>th_id = tid, th_owner_subject = subject p,
      th_title = initial_thread_title cc content, th_created_at = now, th_updated_at = now\<rparr>"
  have row: "rn_actor_subject r \<noteq> s" "rn_thread_id r = tid" using assms(2) by (simp_all add: r_def new_run_row_def)
  have "db' = db \<or> (\<exists>x. create_initial_tx c snap t r (user_message_row mi r content) p content key db = Inr (x, db'))"
    using assms(1)
    unfolding create_initial_run_def Inr sum.case Let_def r_def [symmetric] t_def [symmetric]
    by (auto split: sum.splits prod.splits option.splits if_splits)
  then have "db' = db \<or> (\<exists>db1 db2. insert_thread t db = Inr db1 \<and> insert_run r db1 = Inr db2
      \<and> insert_message (user_message_row mi r content) db2 = Inr db')"
    by (auto simp: create_initial_tx_def split: option.splits)
  then show ?thesis
  proof (elim disjE exE conjE)
    fix db1 db2
    assume w: "insert_thread t db = Inr db1" "insert_run r db1 = Inr db2"
      "insert_message (user_message_row mi r content) db2 = Inr db'"
    have 1: "unseen s db db1" using insert_thread_unseen [OF w(1)] assms(2) by (simp add: t_def)
    have "tid \<notin> own_threads s db" using insert_thread_ok(3) [OF w(1)] by (auto simp: own_threads_def t_def)
    then have "unseen s db1 db'" using created_run_unseen [OF w(2,3) row(1)] row(2) unseen_own [OF 1] by simp
    with 1 show ?thesis by (rule unseen_trans)
  qed simp
qed

section \<open>Steps for others\<close>

text \<open>
  Everything that can happen to the database but the operations of the account \<open>s\<close>, those on its
  Runs, and the recovery sweep of a starting process, which is for all accounts at once. The
  operations that name a Principal may name any thread and any Run.
\<close>

inductive others_step :: "codec \<Rightarrow> (nat \<Rightarrow> bool) \<Rightarrow> pystr \<Rightarrow> db \<Rightarrow> db \<Rightarrow> bool" for c cc s where
  others_create_thread:
    "subject p \<noteq> s \<Longrightarrow> create_thread i now p title db = (res, db') \<Longrightarrow> others_step c cc s db db'"
| others_rename_thread:
    "subject p \<noteq> s \<Longrightarrow> rename_thread now tid p title db = (res, db') \<Longrightarrow> others_step c cc s db db'"
| others_create_initial_run:
    "subject p \<noteq> s \<Longrightarrow> schema_ok snap \<Longrightarrow> (db_step c cc)\<^sup>*\<^sup>* snap db \<Longrightarrow>
     create_initial_run c cc i mi now p tid content key plan snap db = (res, db') \<Longrightarrow>
     others_step c cc s db db'"
| others_create_run:
    "subject p \<noteq> s \<Longrightarrow> schema_ok snap \<Longrightarrow> (db_step c cc)\<^sup>*\<^sup>* snap db \<Longrightarrow>
     create_run c i mi now p tid content key plan snap db = (res, db') \<Longrightarrow> others_step c cc s db db'"
| others_cancel_run:
    "subject p \<noteq> s \<Longrightarrow> cancel_run c i now rid p out category db = (res, db') \<Longrightarrow> others_step c cc s db db'"
| others_start_run:
    "foreign_run s rid db \<Longrightarrow> start_run c i now rid db = (res, db') \<Longrightarrow> others_step c cc s db db'"
| others_start_attempt:
    "foreign_run s rid db \<Longrightarrow> start_model_attempt now rid st db = (res, db') \<Longrightarrow> others_step c cc s db db'"
| others_finish_attempt:
    "foreign_run s rid db \<Longrightarrow> finish_model_attempt now rid fin db = (res, db') \<Longrightarrow> others_step c cc s db db'"
| others_record_usage:
    "foreign_run s rid db \<Longrightarrow> record_model_attempt_usage rid obs db = (res, db') \<Longrightarrow> others_step c cc s db db'"
| others_append_event:
    "foreign_run s rid db \<Longrightarrow> append_active_event c i now rid name data db = (res, db') \<Longrightarrow>
     others_step c cc s db db'"
| others_complete_run:
    "foreign_run s rid db \<Longrightarrow> complete_run c mi i1 i2 now rid content out category db = (res, db') \<Longrightarrow>
     others_step c cc s db db'"
| others_fail_run:
    "foreign_run s rid db \<Longrightarrow> fail_run c i now rid code out category db = (res, db') \<Longrightarrow>
     others_step c cc s db db'"

lemma others_is_step: "others_step c cc s db db' \<Longrightarrow> db_step c cc db db'"
  by (erule others_step.cases) (blast intro: db_step.intros)+

lemma steps_thread_keys:
  assumes "(db_step c cc)\<^sup>*\<^sup>* snap db" "schema_ok snap"
  shows "set (thread_keys snap) \<subseteq> set (thread_keys db)"
proof -
  have "(change c)\<^sup>*\<^sup>* snap db"
    using assms
  proof (induction rule: rtranclp_induct)
    case (step y z)
    with changes_schema step_changes show ?case by (meson rtranclp_trans)
  qed simp
  then show ?thesis by (rule changes_thread_keys)
qed

lemma others_step_unseen:
  assumes "others_step c cc s db db'" "db_inv c db" shows "unseen s db db'"
  using assms(1)
proof cases
  case (others_create_run p snap i mi now tid content key plan res)
  then show ?thesis
    using create_run_unseen [OF _ inv_parts(1) [OF assms(2)] steps_thread_keys] by blast
qed (use assms(2) inv_parts(1) [OF assms(2)] in
  \<open>blast intro: create_thread_unseen rename_thread_unseen create_initial_run_unseen
     closing_operations_unseen start_run_unseen start_model_attempt_unseen finish_model_attempt_unseen
     record_model_attempt_usage_unseen append_active_event_unseen\<close>)+

text \<open>The unwinding of a history: an observer who sees no step sees no sequence of steps.\<close>

locale unwinding =
  fixes inv :: "'s \<Rightarrow> bool" and hidden :: "'s \<Rightarrow> 's \<Rightarrow> bool" and observe :: "'s \<Rightarrow> 'v"
  assumes inv_hidden: "inv s \<Longrightarrow> hidden s t \<Longrightarrow> inv t"
    and observe_hidden: "inv s \<Longrightarrow> hidden s t \<Longrightarrow> observe t = observe s"
begin

lemma hidden_history:
  assumes "hidden\<^sup>*\<^sup>* s t" "inv s" shows "inv t \<and> observe t = observe s"
  using assms by (induction rule: rtranclp_induct) (auto intro: inv_hidden simp: observe_hidden)

end

interpretation account: unwinding "db_inv c" "others_step c cc s" "account_rows s" for c cc s
  by unfold_locales (blast intro: step_inv others_is_step others_step_unseen [unfolded unseen_def])+

section \<open>Answers\<close>

text \<open>What a successful answer says; all refusals are one to the account.\<close>

definition answered :: "exn + 'a \<Rightarrow> 'a option" where
  "answered r = (case r of Inl e \<Rightarrow> None | Inr x \<Rightarrow> Some x)"

lemma answered_simps [simp]: "answered (Inl e) = None" "answered (Inr x) = Some x"
  by (simp_all add: answered_def)

lemma answered_bind: "answered (bindE m k) = Option.bind (answered m) (\<lambda>x. answered (k x))"
  by (cases m) simp_all

lemma find_filter:
  assumes "\<And>x y. x \<in> set xs \<Longrightarrow> y \<in> set xs \<Longrightarrow> Q x \<Longrightarrow> Q y \<Longrightarrow> x = y"
  shows "List.find Q (filter P xs) = (case List.find Q xs of None \<Rightarrow> None | Some x \<Rightarrow> if P x then Some x else None)"
  using assms
proof (induction xs)
  case (Cons x xs)
  have ih: "List.find Q (filter P xs) = (case List.find Q xs of None \<Rightarrow> None | Some x \<Rightarrow> if P x then Some x else None)"
    by (rule Cons.IH) (use Cons.prems in auto)
  show ?case
  proof (cases "Q x \<and> \<not> P x")
    case True
    have "\<not> (Q y \<and> P y)" if "y \<in> set xs" for y using Cons.prems [of x y] that True by auto
    then have "List.find Q (filter P xs) = None" by (auto simp: find_None_iff)
    with True show ?thesis by simp
  qed (use ih in auto)
qed simp

lemma rows_find_thread:
  assumes "schema_ok db"
  shows "find_thread (account_rows s db) tid
    = (case find_thread db tid of None \<Rightarrow> None | Some t \<Rightarrow> if th_owner_subject t = s then Some t else None)"
  unfolding find_thread_def account_rows_def
  using find_thread_intro [OF assms] by (simp, intro find_filter) fastforce

lemma rows_find_run:
  assumes "schema_ok db"
  shows "find_run (account_rows s db) rid
    = (case find_run db rid of None \<Rightarrow> None | Some r \<Rightarrow> if rn_actor_subject r = s then Some r else None)"
  unfolding find_run_def account_rows_def
  using find_run_intro [OF assms] by (simp, intro find_filter) fastforce

text \<open>The check in front of every operation on one Run.\<close>

lemma rows_authorized:
  assumes "db_inv c db" "find_run db rid = Some r"
  shows "rn_actor_subject r = subject p \<Longrightarrow>
      require_authorized_run (account_rows (subject p) db) r p = require_authorized_run db r p"
    and "rn_actor_subject r \<noteq> subject p \<Longrightarrow> answered (require_authorized_run db r p) = None"
proof -
  obtain t where t: "find_thread db (rn_thread_id r) = Some t" "th_owner_subject t = rn_actor_subject r"
    using thread_of_run [OF assms(1)] find_run_Some [OF assms(2)] by blast
  then show "rn_actor_subject r = subject p \<Longrightarrow>
      require_authorized_run (account_rows (subject p) db) r p = require_authorized_run db r p"
    by (simp add: require_authorized_run_def rows_find_thread [OF inv_parts(1) [OF assms(1)]])
  show "rn_actor_subject r \<noteq> subject p \<Longrightarrow> answered (require_authorized_run db r p) = None"
    using t by (simp add: require_authorized_run_def require_owner_def)
qed

lemma rows_run_query:
  assumes "db_inv c db"
    and "\<And>r. r \<in> set (db_runs db) \<Longrightarrow> rn_actor_subject r = subject p \<Longrightarrow> rn_id r = rid \<Longrightarrow>
      answer (account_rows (subject p) db) r = answer db r"
  shows "answered (case find_run (account_rows (subject p) db) rid of
        None \<Rightarrow> Inl e
      | Some r \<Rightarrow> bindE (require_authorized_run (account_rows (subject p) db) r p) (\<lambda>_. answer (account_rows (subject p) db) r))
    = answered (case find_run db rid of
        None \<Rightarrow> Inl e
      | Some r \<Rightarrow> bindE (require_authorized_run db r p) (\<lambda>_. answer db r))"
proof (cases "find_run db rid")
  case None
  then show ?thesis by (simp add: rows_find_run [OF inv_parts(1) [OF assms(1)]])
next
  case (Some r)
  show ?thesis
  proof (cases "rn_actor_subject r = subject p")
    case True
    with assms(2) [of r] find_run_Some [OF Some] rows_authorized(1) [OF assms(1) Some True] Some show ?thesis
      by (simp add: rows_find_run [OF inv_parts(1) [OF assms(1)]])
  next
    case False
    with rows_authorized(2) [OF assms(1) Some False] Some show ?thesis
      by (simp add: rows_find_run [OF inv_parts(1) [OF assms(1)]] answered_bind)
  qed
qed

lemma rows_filters:
  assumes "schema_ok db" "find_thread db tid = Some t" "th_owner_subject t = s"
  shows "filter (\<lambda>m. ms_thread_id m = tid) (db_messages (account_rows s db))
      = filter (\<lambda>m. ms_thread_id m = tid) (db_messages db)"
    and "filter (\<lambda>e. ev_thread_id e = tid) (db_events (account_rows s db))
      = filter (\<lambda>e. ev_thread_id e = tid) (db_events db)"
proof -
  have "tid \<in> own_threads s db" using own_thread_owner [OF assms(1,2)] assms(3) by simp
  then show "filter (\<lambda>m. ms_thread_id m = tid) (db_messages (account_rows s db))
      = filter (\<lambda>m. ms_thread_id m = tid) (db_messages db)"
    "filter (\<lambda>e. ev_thread_id e = tid) (db_events (account_rows s db))
      = filter (\<lambda>e. ev_thread_id e = tid) (db_events db)"
    by (auto simp: account_rows_def intro: filter_cong)
qed

lemma rows_runs:
  assumes "db_inv c db" "find_thread db tid = Some t" "th_owner_subject t = s"
  shows "filter (\<lambda>r. rn_thread_id r = tid) (db_runs (account_rows s db)) = filter (\<lambda>r. rn_thread_id r = tid) (db_runs db)"
proof -
  have "rn_actor_subject r = s" if "r \<in> set (db_runs db)" "rn_thread_id r = tid" for r
    using own_run [OF assms(1) that(1)] own_thread_owner [OF inv_parts(1) [OF assms(1)] assms(2)] that(2) assms(3)
    by blast
  then show ?thesis by (auto simp: account_rows_def intro: filter_cong)
qed

lemma rows_events:
  assumes "db_inv c db" "r \<in> set (db_runs db)" "rn_actor_subject r = s"
  shows "events_of (account_rows s db) (rn_id r) = events_of db (rn_id r)"
proof -
  note ok = inv_parts(1) [OF assms(1)]
  have "ev_thread_id e \<in> own_threads s db" if "e \<in> set (db_events db)" "ev_run_id e = rn_id r" for e
  proof -
    have "(rn_id r, ev_thread_id e) \<in> run_refs db" using ok that by (auto simp: schema_defs)
    with run_ref_row [OF ok _ inv_find [OF assms(1,2)]] own_run [OF assms(1,2), of s] assms(3) show ?thesis by simp
  qed
  then show ?thesis by (auto simp: events_of_def account_rows_def intro: filter_cong)
qed

lemma rows_get_thread:
  assumes "db_inv c' db"
  shows "answered (get_thread c tid p (account_rows (subject p) db)) = answered (get_thread c tid p db)"
proof (cases "find_thread db tid")
  case None
  then show ?thesis by (simp add: get_thread_def rows_find_thread [OF inv_parts(1) [OF assms]])
next
  case (Some t)
  show ?thesis
  proof (cases "th_owner_subject t = subject p")
    case True
    then show ?thesis
      by (simp add: get_thread_def rows_find_thread [OF inv_parts(1) [OF assms]] Some
          rows_runs [OF assms Some] rows_filters [OF inv_parts(1) [OF assms] Some])
  next
    case False
    then have "require_thread_owner t p = Inl (ResourceForbiddenError ThreadResource)"
      by (simp add: require_thread_owner_def require_owner_def)
    with False Some show ?thesis
      by (simp add: get_thread_def rows_find_thread [OF inv_parts(1) [OF assms]])
  qed
qed

lemma rows_list_threads: "list_threads p (account_rows (subject p) db) = list_threads p db"
  by (simp add: list_threads_def account_rows_def)

lemma rows_get_account_usage:
  assumes "db_inv c' db"
  shows "get_account_usage c now p rng tid (account_rows (subject p) db) = get_account_usage c now p rng tid db"
proof -
  have "require_usage_scope (account_rows (subject p) db) (subject p) tid = require_usage_scope db (subject p) tid"
    by (auto simp: require_usage_scope_def requireE_def account_rows_def list_ex_iff split: option.split)
  moreover have "usage_rows (account_rows (subject p) db) (subject p) now cutoff tid
      = usage_rows db (subject p) now cutoff tid" for cutoff
  proof -
    have "filter (usage_row (account_rows (subject p) db) (subject p) now cutoff tid)
        (filter (\<lambda>r. rn_actor_subject r = subject p) (db_runs db))
        = filter (usage_row db (subject p) now cutoff tid) (db_runs db)"
      unfolding filter_filter
      by (rule filter_cong [OF refl])
        (auto simp: usage_row_def rows_find_thread [OF inv_parts(1) [OF assms]] split: option.splits if_splits)
    then show ?thesis by (simp add: usage_rows_def account_rows_def)
  qed
  ultimately show ?thesis by (simp add: get_account_usage_def)
qed

lemma rows_run_queries:
  assumes "db_inv c' db"
  shows "answered (get_run c rid p (account_rows (subject p) db)) = answered (get_run c rid p db)"
    and "answered (get_events c rid n p (account_rows (subject p) db)) = answered (get_events c rid n p db)"
    and "answered (get_run_evidence rid p (account_rows (subject p) db)) = answered (get_run_evidence rid p db)"
proof -
  show "answered (get_run c rid p (account_rows (subject p) db)) = answered (get_run c rid p db)"
    unfolding get_run_def by (rule rows_run_query [OF assms, where answer = "\<lambda>_. ans" for ans]) (rule refl)
  show "answered (get_run_evidence rid p (account_rows (subject p) db)) = answered (get_run_evidence rid p db)"
    unfolding get_run_evidence_def by (rule rows_run_query [OF assms, where answer = "\<lambda>_. ans" for ans]) (rule refl)
  show "answered (get_events c rid n p (account_rows (subject p) db)) = answered (get_events c rid n p db)"
    unfolding get_events_def
    by (rule rows_run_query [OF assms, where answer = "\<lambda>db _. traverse (event_view c)
        (sort_key ev_seq (filter (\<lambda>e. ev_seq e > n) (events_of db rid)))"])
      (use rows_events [OF assms] in auto)
qed

text \<open>
  C9. Accounts do not interfere. Whatever all other accounts do and whatever happens to their
  Runs, with any arguments, an account is told afterwards exactly what it would have been told
  before: the same list of threads and the same usage, and from every other reading operation
  the same successful answer or a refusal in both cases.
\<close>

theorem accounts_isolated:
  assumes "reaches db_init (db_step c cc) db" "(others_step c cc (subject p))\<^sup>*\<^sup>* db db'"
  shows "list_threads p db' = list_threads p db
    \<and> get_account_usage c now p rng tid db' = get_account_usage c now p rng tid db
    \<and> answered (get_thread c i p db') = answered (get_thread c i p db)
    \<and> answered (get_run c rid p db') = answered (get_run c rid p db)
    \<and> answered (get_events c rid n p db') = answered (get_events c rid n p db)
    \<and> answered (get_run_evidence rid p db') = answered (get_run_evidence rid p db)"
proof -
  note inv = reached_inv [OF assms(1)]
  from account.hidden_history [OF assms(2) inv]
  have inv': "db_inv c db'" and same: "account_rows (subject p) db' = account_rows (subject p) db" by simp_all
  show ?thesis
    using rows_run_queries [OF inv, where p = p] rows_run_queries [OF inv', where p = p]
      rows_get_thread [OF inv, where p = p] rows_get_thread [OF inv', where p = p]
      rows_get_account_usage [OF inv, where p = p] rows_get_account_usage [OF inv', where p = p]
      rows_list_threads [of p db] rows_list_threads [of p db']
    unfolding same by simp
qed

text \<open>Somebody else creates a thread while a Run of the first account is running.\<close>

definition demo_stranger :: principal where
  "demo_stranger = anonymous_principal\<lparr>subject := lit ''someone-else''\<rparr>"

theorem accounts_isolated_witness:
  "list_threads anonymous_principal (snd (create_thread (lit ''u'') 5 demo_stranger None demo_db2))
      = list_threads anonymous_principal demo_db2
    \<and> list_threads demo_stranger (snd (create_thread (lit ''u'') 5 demo_stranger None demo_db2))
      \<noteq> list_threads demo_stranger demo_db2
    \<and> (\<exists>v. answered (get_run plain_codec (lit ''r'') anonymous_principal
          (snd (create_thread (lit ''u'') 5 demo_stranger None demo_db2))) = Some v)"
proof -
  define db' where "db' = snd (create_thread (lit ''u'') 5 demo_stranger None demo_db2)"
  define cc where "cc n \<longleftrightarrow> n < (32 :: nat)" for n
  note reached = demo_reached(2) [of cc]
  have other: "subject demo_stranger \<noteq> subject anonymous_principal"
    by (simp add: demo_stranger_def anonymous_principal_def ANONYMOUS_DEVELOPMENT_SUBJECT_def lit_def)
  then have "others_step plain_codec cc (subject anonymous_principal) demo_db2 db'"
    unfolding db'_def by (rule others_create_thread) (rule prod.collapse [symmetric])
  then have steps: "(others_step plain_codec cc (subject anonymous_principal))\<^sup>*\<^sup>* demo_db2 db'" by (rule r_into_rtranclp)
  have row: "demo_row \<in> set (db_runs demo_db2)" "rn_id demo_row = lit ''r''" "rn_thread_id demo_row = lit ''t''"
      "rn_actor_subject demo_row = subject anonymous_principal"
    by (simp_all add: demo_db2_eq demo_row_def new_run_row_def)
  note inv = reached_inv [OF reached]
  obtain v where "run_view_of plain_codec demo_row = Inr v" using run_view_total [OF inv row(1)] by blast
  then have "get_run plain_codec (lit ''r'') anonymous_principal demo_db2 = Inr v"
    using inv_find [OF inv row(1)]
    by (simp add: row get_run_def require_authorized_run_def find_thread_def demo_db2_eq(4)
        require_run_actor_def demo_subject)
  moreover have "list_threads demo_stranger db' \<noteq> list_threads demo_stranger demo_db2"
    using other
    by (simp add: db'_def create_thread_def insert_thread_def find_thread_def demo_db2_eq(4) Let_def
        list_threads_def order_by_def lit_def)
  ultimately show ?thesis
    using accounts_isolated [OF reached steps, of 9 AllTime None "lit ''t''" "lit ''r''" 0]
    unfolding db'_def by simp
qed

end
