(* ===== verification/Migration_Properties.thy ===== *)
theory Migration_Properties
  imports Migration_Steps Isolation
begin

text \<open>
  What the migrations guarantee: the schema they end in is the one the models declare, the rows of
  a database older than the accounts are kept and quarantined, a step back never discards anything,
  and the rows of a database at the last revision are a database in the sense of Models.
\<close>

section \<open>Steps back\<close>

lemma map_null: "(\<And>r. r \<in> set rows \<Longrightarrow> f r = r) \<Longrightarrow> map f rows = rows"
  by (simp add: map_idI)

lemma metering_null_iff:
  "metering_null r = r \<longleftrightarrow>
     r ''metering_version'' = SqlNull \<and> r ''first_visible_at'' = SqlNull \<and> r ''usage_metrics'' = SqlNull"
proof
  assume null: "metering_null r = r"
  show "r ''metering_version'' = SqlNull \<and> r ''first_visible_at'' = SqlNull \<and> r ''usage_metrics'' = SqlNull"
    using fun_cong [OF null, of "''metering_version''"] fun_cong [OF null, of "''first_visible_at''"]
      fun_cong [OF null, of "''usage_metrics''"]
    by (simp add: metering_null_def)
qed (simp add: metering_null_def fun_upd_idem)

lemma evidence_null_iff:
  "evidence_null r = r \<longleftrightarrow> r ''execution_plan'' = SqlNull \<and> r ''execution_outcome'' = SqlNull"
proof
  assume null: "evidence_null r = r"
  show "r ''execution_plan'' = SqlNull \<and> r ''execution_outcome'' = SqlNull"
    using fun_cong [OF null, of "''execution_plan''"] fun_cong [OF null, of "''execution_outcome''"]
    by (simp add: evidence_null_def)
qed (simp add: evidence_null_def fun_upd_idem)

lemma back_simps:
  "downgrade_one d (db_4 ths rns mss evs ats) = in_transaction d (run_all [downgrade_0004 False,
     set_revision (Some ''0003_agent_policy_evidence'')]) (db_4 ths rns mss evs ats)"
  "downgrade_one d (db_3 ths rns mss evs) = in_transaction d (run_all [downgrade_0003 False,
     set_revision (Some ''0002_principal_ownership'')]) (db_3 ths rns mss evs)"
  "downgrade_one d (db_2 ths rns mss evs) = in_transaction d (run_all [downgrade_0002 False,
     set_revision (Some ''0001_product_core'')]) (db_2 ths rns mss evs)"
  "downgrade_one d (db_1 ths rns mss evs) = in_transaction d (run_all [downgrade_0001, set_revision None])
     (db_1 ths rns mss evs)"
  "downgrade_one d empty_sql = (Inr (), empty_sql)"
  by (simp_all add: downgrade_one_def revisions_def)

lemma in_transaction_stop: "m db = (Inl e, db) \<Longrightarrow> in_transaction d (run_all (m # ms)) db = (Inl e, db)"
  by (simp add: in_transaction_def)

lemma in_transaction_done:
  "m db = (Inr (), db1) \<Longrightarrow> in_transaction d (run_all [m, set_revision current]) db = (Inr (), db1\<lparr>sd_revision := current\<rparr>)"
  by (simp add: in_transaction_def set_revision_def)

lemma rows_of_later [simp]:
  "rows_of (db_3 ths rns mss evs) ''product_runs'' = rns" "rows_of (db_2 ths rns mss evs) ''product_threads'' = ths"
  "rows_of (db_2 ths rns mss evs) ''product_runs'' = rns" "rows_of (db_2 ths rns mss evs) ''product_messages'' = mss"
  "rows_of (db_2 ths rns mss evs) ''product_events'' = evs"
  by (simp_all add: rows_of_def find_table_def db_2_def db_3_def)

lemma back_4:
  "downgrade_one d (db_4 ths rns mss evs ats)
    = (if ats = [] \<and> (\<forall>r \<in> set rns. metering_null r = r) then (Inr (), db_3 ths rns mss evs)
       else (Inl (Refused ''Run usage metering migration cannot discard recorded evidence''), db_4 ths rns mss evs ats))"
proof -
  have rows: "map (\<lambda>r. r(''usage_metrics'' := SqlNull, ''first_visible_at'' := SqlNull, ''metering_version'' := SqlNull)) rns = rns"
    if "\<forall>r \<in> set rns. metering_null r = r"
    using that by (intro map_null) (simp add: metering_null_iff fun_upd_idem)
  have guard: "refuse_rows why ''product_model_attempts'' (\<lambda>_ _. True) (db_4 ths rns mss evs ats)
      = (if ats = [] then (Inr (), db_4 ths rns mss evs ats) else (Inl (Refused why), db_4 ths rns mss evs ats))" for why
    by (cases ats) (simp_all add: refuse_rows_def)
  have "downgrade_0004 False (db_4 ths rns mss evs ats)
      = (if ats = [] \<and> (\<forall>r \<in> set rns. metering_null r = r)
         then (Inr (), (db_3 ths rns mss evs)\<lparr>sd_revision := Some ''0004_run_usage_metering''\<rparr>)
         else (Inl (Refused ''Run usage metering migration cannot discard recorded evidence''), db_4 ths rns mss evs ats))"
  proof (cases "ats = [] \<and> (\<forall>r \<in> set rns. metering_null r = r)")
    case True
    have "refuse_rows why ''product_runs'' (\<lambda>_ r. r ''metering_version'' \<noteq> SqlNull \<or> r ''first_visible_at'' \<noteq> SqlNull
        \<or> r ''usage_metrics'' \<noteq> SqlNull) (db_4 ths rns mss evs ats) = (Inr (), db_4 ths rns mss evs ats)" for why
      using True by (auto simp: refuse_rows_def metering_null_iff list_ex_iff)
    with True rows show ?thesis
      by (simp add: downgrade_0004_def require_online_def guard)
        (simp add: step_defs db_4_def db_3_def runs_4_def runs_3_def runs_2_def runs_1_def create_runs_def
          attempts_4_def create_attempts_def comp_def one_active_index_def)
  qed (auto simp: downgrade_0004_def require_online_def guard refuse_rows_def metering_null_iff list_ex_iff)
  then show ?thesis
    by (cases "ats = [] \<and> (\<forall>r \<in> set rns. metering_null r = r)")
      (simp_all add: back_simps in_transaction_stop in_transaction_done)
qed

lemma back_3:
  "downgrade_one d (db_3 ths rns mss evs)
    = (if \<forall>r \<in> set rns. evidence_null r = r then (Inr (), db_2 ths rns mss evs)
       else (Inl (Refused ''Agent policy evidence migration cannot discard recorded evidence''), db_3 ths rns mss evs))"
proof -
  have rows: "map (\<lambda>r. r(''execution_outcome'' := SqlNull, ''execution_plan'' := SqlNull)) rns = rns"
    if "\<forall>r \<in> set rns. evidence_null r = r"
    using that by (intro map_null) (simp add: evidence_null_iff fun_upd_idem)
  have "downgrade_0003 False (db_3 ths rns mss evs)
      = (if \<forall>r \<in> set rns. evidence_null r = r
         then (Inr (), (db_2 ths rns mss evs)\<lparr>sd_revision := Some ''0003_agent_policy_evidence''\<rparr>)
         else (Inl (Refused ''Agent policy evidence migration cannot discard recorded evidence''), db_3 ths rns mss evs))"
  proof (cases "\<forall>r \<in> set rns. evidence_null r = r")
    case True
    have "refuse_rows why ''product_runs'' (\<lambda>_ r. r ''execution_plan'' \<noteq> SqlNull \<or> r ''execution_outcome'' \<noteq> SqlNull)
        (db_3 ths rns mss evs) = (Inr (), db_3 ths rns mss evs)" for why
      using True by (auto simp: refuse_rows_def evidence_null_iff list_ex_iff)
    with True rows show ?thesis
      by (simp add: downgrade_0003_def require_online_def)
        (simp add: step_defs db_3_def db_2_def runs_3_def runs_2_def runs_1_def create_runs_def comp_def)
  qed (auto simp: downgrade_0003_def require_online_def refuse_rows_def evidence_null_iff list_ex_iff)
  then show ?thesis
    by (cases "\<forall>r \<in> set rns. evidence_null r = r") (simp_all add: back_simps in_transaction_stop in_transaction_done)
qed

lemma back_2:
  "downgrade_one d (db_2 ths rns mss evs)
    = (if ths = [] \<and> rns = [] \<and> mss = [] \<and> evs = [] then (Inr (), db_1 [] [] [] [])
       else (Inl (Refused ''ownership migration cannot downgrade non-empty product data''), db_2 ths rns mss evs))"
proof -
  have "downgrade_0002 False (db_2 ths rns mss evs)
      = (if ths = [] \<and> rns = [] \<and> mss = [] \<and> evs = []
         then (Inr (), (db_1 [] [] [] [])\<lparr>sd_revision := Some ''0002_principal_ownership''\<rparr>)
         else (Inl (Refused ''ownership migration cannot downgrade non-empty product data''), db_2 ths rns mss evs))"
  proof (cases "ths = [] \<and> rns = [] \<and> mss = [] \<and> evs = []")
    case True
    then show ?thesis
      by (simp add: downgrade_0002_def require_online_def refuse_rows_def)
        (simp add: step_defs db_2_def db_1_def threads_2_def threads_1_def runs_2_def runs_1_def messages_2_def
          messages_1_def events_2_def events_1_def table_defs run_link_def)
  next
    case False
    then show ?thesis
      by - (cases ths; cases rns; cases mss; cases evs;
        simp add: downgrade_0002_def require_online_def refuse_rows_def)
  qed
  then show ?thesis
    by (cases "ths = [] \<and> rns = [] \<and> mss = [] \<and> evs = []") (simp_all add: back_simps in_transaction_stop in_transaction_done)
qed

lemma back_1: "downgrade_one d (db_1 [] [] [] []) = (Inr (), empty_sql)"
proof -
  have "downgrade_0001 (db_1 [] [] [] []) = (Inr (), empty_sql\<lparr>sd_revision := Some ''0001_product_core''\<rparr>)"
    by (simp add: downgrade_0001_def step_defs db_1_def empty_sql_def)
  then show ?thesis by (simp add: back_simps in_transaction_done empty_sql_def)
qed

text \<open>The states a chain of steps back can reach from the last revision, and what leads back up.\<close>

inductive on_chain :: "sql_db \<Rightarrow> bool" where
  chain_4: "on_chain (db_4 ths rns mss evs ats)"
| chain_3: "\<forall>r \<in> set rns. metering_null r = r \<Longrightarrow> on_chain (db_3 ths rns mss evs)"
| chain_2: "\<forall>r \<in> set rns. metering_null r = r \<and> evidence_null r = r \<Longrightarrow> on_chain (db_2 ths rns mss evs)"
| chain_1: "on_chain (db_1 [] [] [] [])"
| chain_0: "on_chain empty_sql"

lemma head_of_1: "upgrade_head d (db_1 [] [] [] []) = (Inr (), db_4 [] [] [] [] [])"
  using head_1 [of "[]" "[]" "[]" "[]" d] by simp

lemma back_step:
  assumes "on_chain db" "downgrade_one d db = (res, db')"
  shows "on_chain db' \<and> upgrade_head d db' = upgrade_head d db"
  using assms(1)
proof cases
  case (chain_4 ths rns mss evs ats)
  with assms(2) show ?thesis
    by (auto simp: back_4 head_3 head_4 map_null intro: on_chain.intros split: if_splits)
next
  case (chain_3 rns ths mss evs)
  with assms(2) show ?thesis
    by (auto simp: back_3 head_3 head_2 map_null intro: on_chain.intros split: if_splits)
next
  case (chain_2 rns ths mss evs)
  with assms(2) show ?thesis
    by (auto simp: back_2 head_2 head_of_1 intro: on_chain.intros split: if_splits)
next
  case chain_1
  with assms(2) show ?thesis by (auto simp: back_1 head_0 head_of_1 intro: on_chain.intros)
next
  case chain_0
  with assms(2) show ?thesis by (auto simp: back_simps intro: on_chain.intros)
qed

lemma back_steps:
  "on_chain db \<Longrightarrow> run_all (replicate n (downgrade_one d)) db = (res, db') \<Longrightarrow> upgrade_head d db' = upgrade_head d db"
proof (induction n arbitrary: db)
  case (Suc n)
  obtain res1 db1 where step: "downgrade_one d db = (res1, db1)" by (cases "downgrade_one d db")
  note one = back_step [OF Suc.prems(1) step]
  show ?case
  proof (cases res1)
    case (Inl e)
    with Suc.prems(2) step one show ?thesis by simp
  next
    case (Inr x)
    with Suc.prems(2) step one Suc.IH [of db1] show ?thesis by simp
  qed
qed simp

section \<open>Databases by their schema\<close>

lemma schema_2 [simp]:
  "(threads_1 rows)\<lparr>tb_rows := rows'\<rparr> = threads_1 rows'" "(runs_1 rows)\<lparr>tb_rows := rows'\<rparr> = runs_1 rows'"
  "(messages_1 rows)\<lparr>tb_rows := rows'\<rparr> = messages_1 rows'" "(events_1 rows)\<lparr>tb_rows := rows'\<rparr> = events_1 rows'"
  "(threads_2 rows)\<lparr>tb_rows := rows'\<rparr> = threads_2 rows'" "(runs_4 rows)\<lparr>tb_rows := rows'\<rparr> = runs_4 rows'"
  "(messages_2 rows)\<lparr>tb_rows := rows'\<rparr> = messages_2 rows'" "(events_2 rows)\<lparr>tb_rows := rows'\<rparr> = events_2 rows'"
  "(attempts_4 rows)\<lparr>tb_rows := rows'\<rparr> = attempts_4 rows'"
  by (simp_all add: threads_1_def runs_1_def messages_1_def events_1_def threads_2_def runs_4_def runs_3_def
      runs_2_def messages_2_def events_2_def attempts_4_def)

lemma schema_of_1: "schema_of (db_1 ths rns mss evs) = [threads_1 [], runs_1 [], messages_1 [], events_1 []]"
  by (simp add: schema_of_def) (simp add: db_1_def)

lemma schema_of_4:
  "schema_of (db_4 ths rns mss evs ats) = [threads_2 [], runs_4 [], messages_2 [], events_2 [], attempts_4 []]"
  by (simp add: schema_of_def) (simp add: db_4_def)

lemma table_of_schema: "t\<lparr>tb_rows := []\<rparr> = u \<Longrightarrow> t = u\<lparr>tb_rows := tb_rows t\<rparr>"
  by (cases t) auto

lemma at_1:
  assumes "schema_of db = schema_of (db_1 [] [] [] [])" "sd_revision db = Some ''0001_product_core''"
  obtains ths rns mss evs where "db = db_1 ths rns mss evs"
proof -
  obtain a b c e where tables: "sd_tables db = [a, b, c, e]"
    and "a\<lparr>tb_rows := []\<rparr> = threads_1 []" "b\<lparr>tb_rows := []\<rparr> = runs_1 []"
      "c\<lparr>tb_rows := []\<rparr> = messages_1 []" "e\<lparr>tb_rows := []\<rparr> = events_1 []"
    using assms(1) unfolding schema_of_1 by (auto simp: schema_of_def map_eq_Cons_conv)
  then have "a = threads_1 (tb_rows a)" "b = runs_1 (tb_rows b)" "c = messages_1 (tb_rows c)" "e = events_1 (tb_rows e)"
    using table_of_schema by (metis schema_2)+
  with tables assms(2) have "db = db_1 (tb_rows a) (tb_rows b) (tb_rows c) (tb_rows e)" by (simp add: db_1_def)
  then show ?thesis by (rule that)
qed

lemma at_4:
  assumes "schema_of db = schema_of (db_4 [] [] [] [] [])" "sd_revision db = Some ''0004_run_usage_metering''"
  obtains ths rns mss evs ats where "db = db_4 ths rns mss evs ats"
proof -
  obtain a b c e f where tables: "sd_tables db = [a, b, c, e, f]"
    and "a\<lparr>tb_rows := []\<rparr> = threads_2 []" "b\<lparr>tb_rows := []\<rparr> = runs_4 []"
      "c\<lparr>tb_rows := []\<rparr> = messages_2 []" "e\<lparr>tb_rows := []\<rparr> = events_2 []" "f\<lparr>tb_rows := []\<rparr> = attempts_4 []"
    using assms(1) unfolding schema_of_4 by (auto simp: schema_of_def map_eq_Cons_conv)
  then have "a = threads_2 (tb_rows a)" "b = runs_4 (tb_rows b)" "c = messages_2 (tb_rows c)" "e = events_2 (tb_rows e)"
      "f = attempts_4 (tb_rows f)"
    using table_of_schema by (metis schema_2)+
  with tables assms(2) have "db = db_4 (tb_rows a) (tb_rows b) (tb_rows c) (tb_rows e) (tb_rows f)"
    by (simp add: db_4_def)
  then show ?thesis by (rule that)
qed

section \<open>Rows as records\<close>

text \<open>
  The records of Models the object mapper reads from the rows of the last revision. What a stored
  plan and a stored outcome are as documents is a parameter.
\<close>

fun text_of :: "sql_value \<Rightarrow> pystr" where
  "text_of (SqlText s) = s"
| "text_of _ = []"

fun int_of :: "sql_value \<Rightarrow> int" where
  "int_of (SqlInt i) = i"
| "int_of (SqlTime t) = t"
| "int_of _ = 0"

definition opt_of :: "(sql_value \<Rightarrow> 'a) \<Rightarrow> sql_value \<Rightarrow> 'a option" where
  "opt_of f v = (if v = SqlNull then None else Some (f v))"

fun json_of :: "sql_value \<Rightarrow> pdict" where
  "json_of (SqlJson d) = d"
| "json_of _ = []"

definition run_status_of :: "pystr \<Rightarrow> run_status" where
  "run_status_of s =
     (if s = lit ''created'' then RunCreated else if s = lit ''running'' then RunRunning
      else if s = lit ''completed'' then RunCompleted else if s = lit ''failed'' then RunFailed else RunCancelled)"

definition call_kind_of :: "pystr \<Rightarrow> model_call_kind" where
  "call_kind_of s =
     (if s = lit ''direct'' then DirectCall else if s = lit ''decision'' then DecisionCall else FinalizerCall)"

definition attempt_status_of :: "pystr \<Rightarrow> attempt_status" where
  "attempt_status_of s =
     (if s = lit ''started'' then Started else if s = lit ''succeeded'' then Succeeded
      else if s = lit ''failed'' then AttemptFailed else if s = lit ''cancelled'' then AttemptCancelled
      else Interrupted)"

definition thread_of_row :: "sql_row \<Rightarrow> thread_row" where
  "thread_of_row r =
     \<lparr>th_id = text_of (r ''id''), th_owner_subject = text_of (r ''owner_subject''), th_title = text_of (r ''title''),
      th_created_at = int_of (r ''created_at''), th_updated_at = int_of (r ''updated_at'')\<rparr>"

definition run_of_row :: "(pdict \<Rightarrow> execution_plan) \<Rightarrow> (pdict \<Rightarrow> execution_outcome) \<Rightarrow> sql_row \<Rightarrow> run_row" where
  "run_of_row plan outc r =
     \<lparr>rn_id = text_of (r ''id''), rn_thread_id = text_of (r ''thread_id''),
      rn_idempotency_key = text_of (r ''idempotency_key''), rn_actor_subject = text_of (r ''actor_subject''),
      rn_status = run_status_of (text_of (r ''status'')), rn_last_seq = int_of (r ''last_seq''),
      rn_execution_plan = opt_of (plan \<circ> json_of) (r ''execution_plan''),
      rn_execution_outcome = opt_of (outc \<circ> json_of) (r ''execution_outcome''),
      rn_metering_version = opt_of text_of (r ''metering_version''),
      rn_first_visible_at = opt_of int_of (r ''first_visible_at''),
      rn_usage_metrics = opt_of (PDict \<circ> json_of) (r ''usage_metrics''),
      rn_created_at = int_of (r ''created_at''), rn_completed_at = opt_of int_of (r ''completed_at'')\<rparr>"

definition attempt_of_row :: "sql_row \<Rightarrow> attempt_row" where
  "attempt_of_row r =
     \<lparr>ma_id = text_of (r ''id''), ma_run_id = text_of (r ''run_id''), ma_thread_id = text_of (r ''thread_id''),
      ma_call_index = int_of (r ''call_index''), ma_attempt_index = int_of (r ''attempt_index''),
      ma_call_kind = call_kind_of (text_of (r ''call_kind'')),
      ma_status = attempt_status_of (text_of (r ''status'')), ma_started_at = int_of (r ''started_at''),
      ma_completed_at = opt_of int_of (r ''completed_at''),
      ma_tokens = \<lparr>input_tokens = opt_of int_of (r ''input_tokens''), output_tokens = opt_of int_of (r ''output_tokens''),
        cached_tokens = opt_of int_of (r ''cached_tokens''), reasoning_tokens = opt_of int_of (r ''reasoning_tokens''),
        total_tokens = opt_of int_of (r ''total_tokens'')\<rparr>\<rparr>"

definition message_of_row :: "sql_row \<Rightarrow> message_row" where
  "message_of_row r =
     \<lparr>ms_id = text_of (r ''id''), ms_thread_id = text_of (r ''thread_id''), ms_run_id = opt_of text_of (r ''run_id''),
      ms_role = (if text_of (r ''role'') = lit ''user'' then UserRole else AssistantRole),
      ms_content = text_of (r ''content''), ms_created_at = int_of (r ''created_at'')\<rparr>"

definition event_of_row :: "sql_row \<Rightarrow> event_row" where
  "event_of_row r =
     \<lparr>ev_id = text_of (r ''id''), ev_run_id = text_of (r ''run_id''), ev_thread_id = text_of (r ''thread_id''),
      ev_seq = int_of (r ''seq''), ev_type = text_of (r ''type''), ev_occurred_at = int_of (r ''occurred_at''),
      ev_payload = json_of (r ''payload'')\<rparr>"

definition models_db :: "(pdict \<Rightarrow> execution_plan) \<Rightarrow> (pdict \<Rightarrow> execution_outcome) \<Rightarrow> sql_db \<Rightarrow> db" where
  "models_db plan outc db =
     \<lparr>db_threads = map thread_of_row (rows_of db ''product_threads''),
      db_runs = map (run_of_row plan outc) (rows_of db ''product_runs''),
      db_attempts = map attempt_of_row (rows_of db ''product_model_attempts''),
      db_messages = map message_of_row (rows_of db ''product_messages''),
      db_events = map event_of_row (rows_of db ''product_events'')\<rparr>"

text \<open>A column that is not nullable holds a value of its type.\<close>

lemma text_cell:
  assumes "row_fits cols r" "varchar n c \<in> set cols" shows "SqlText (text_of (r c)) = r c"
  using row_fits_cell [OF assms] by (cases "r c") auto

lemma int_cell:
  assumes "row_fits cols r" "not_null SqlInteger c \<in> set cols" shows "SqlInt (int_of (r c)) = r c"
  using row_fits_cell [OF assms] by (cases "r c") auto

lemma typed_cell: "row_fits cols r \<Longrightarrow> c \<in> set cols \<Longrightarrow> has_type (col_type c) (r (col_name c))"
  by (auto simp: row_fits_def list_all_iff)

lemma opt_text_cell:
  assumes "row_fits cols r" "or_null (VarChar n) c \<in> set cols" "r c \<noteq> SqlNull" shows "SqlText (text_of (r c)) = r c"
  using typed_cell [OF assms(1,2)] assms(3) by (cases "r c") auto

lemma opt_int_cell:
  assumes "row_fits cols r" "or_null SqlInteger c \<in> set cols" "r c \<noteq> SqlNull" shows "SqlInt (int_of (r c)) = r c"
  using typed_cell [OF assms(1,2)] assms(3) by (cases "r c") auto

lemma time_cell:
  assumes "row_fits cols r" "not_null Timestamp c \<in> set cols" shows "SqlTime (int_of (r c)) = r c"
  using row_fits_cell [OF assms] by (cases "r c") auto

lemma opt_time_cell:
  assumes "row_fits cols r" "or_null Timestamp c \<in> set cols" "r c \<noteq> SqlNull" shows "SqlTime (int_of (r c)) = r c"
  using typed_cell [OF assms(1,2)] assms(3) by (cases "r c") auto

text \<open>What is unique in the rows is unique in the records.\<close>

lemma distinct_loaded:
  assumes "unique_on cols rows" "\<And>r c. r \<in> set rows \<Longrightarrow> c \<in> set cols \<Longrightarrow> stored c (g r) = r c"
    and "\<And>c x. stored c x \<noteq> SqlNull"
  shows "distinct (map g rows)"
proof -
  have keys: "key_of cols r = map (\<lambda>c. stored c (g r)) cols" if "r \<in> set rows" for r
    using assms(2) [OF that] by (simp add: key_of_def)
  have "filter (\<lambda>k. SqlNull \<notin> set k) (map (key_of cols) rows) = map (key_of cols) rows"
    by (intro filter_True) (auto simp: keys not_sym [OF assms(3)])
  moreover have "map (key_of cols) rows = map (\<lambda>x. map (\<lambda>c. stored c x) cols) (map g rows)"
    using keys by simp
  ultimately have "distinct (map (\<lambda>x. map (\<lambda>c. stored c x) cols) (map g rows))"
    using assms(1) by (simp only: unique_on_def)
  then show ?thesis unfolding distinct_map [of _ "map g rows"] by (rule conjunct1)
qed

text \<open>The constraints of the last revision, on the rows.\<close>

lemma integrity_4_parts:
  assumes "integrity (db_4 ths rns mss evs ats)"
  shows "list_all (row_fits (tb_columns (threads_2 []))) ths" "unique_on [''id''] ths"
    and "list_all (row_fits (tb_columns (runs_4 []))) rns" "unique_on [''id''] rns"
      "unique_on [''thread_id'', ''idempotency_key''] rns"
      "unique_on [''thread_id''] (filter (check_holds ACTIVE_RUN_STATUSES) rns)"
      "list_all (refers (db_4 ths rns mss evs ats) [''thread_id''] ''product_threads'' [''id'']) rns"
    and "list_all (row_fits (tb_columns create_messages)) mss" "unique_on [''id''] mss"
      "list_all (refers (db_4 ths rns mss evs ats) [''thread_id''] ''product_threads'' [''id'']) mss"
      "list_all (refers (db_4 ths rns mss evs ats) [''run_id'', ''thread_id''] ''product_runs'' [''id'', ''thread_id'']) mss"
    and "list_all (row_fits (tb_columns create_events)) evs" "unique_on [''id''] evs" "unique_on [''run_id'', ''seq''] evs"
      "list_all (refers (db_4 ths rns mss evs ats) [''run_id'', ''thread_id''] ''product_runs'' [''id'', ''thread_id'']) evs"
    and "list_all (row_fits (tb_columns create_attempts)) ats" "unique_on [''id''] ats"
      "unique_on [''run_id'', ''call_index'', ''attempt_index''] ats"
      "list_all (refers (db_4 ths rns mss evs ats) [''run_id'', ''thread_id''] ''product_runs'' [''id'', ''thread_id'']) ats"
      "list_all (\<lambda>r. list_all (\<lambda>rule. check_holds rule r) [AtLeast ''call_index'' 1, AtLeast ''attempt_index'' 1,
         NullOrAtLeast ''input_tokens'' 0, NullOrAtLeast ''output_tokens'' 0, NullOrAtLeast ''cached_tokens'' 0,
         NullOrAtLeast ''reasoning_tokens'' 0, NullOrAtLeast ''total_tokens'' 0,
         NullOrFrom ''completed_at'' ''started_at'']) ats"
proof -
  let ?db = "db_4 ths rns mss evs ats"
  have t: "table_holds ?db (threads_2 ths)" "table_holds ?db (runs_4 rns)" "table_holds ?db (messages_2 mss)"
      "table_holds ?db (events_2 evs)" "table_holds ?db (attempts_4 ats)"
    using assms unfolding integrity_def by (simp_all add: db_4_def)
  show "list_all (row_fits (tb_columns (threads_2 []))) ths" "unique_on [''id''] ths"
    using t(1) by (simp_all add: table_holds_def threads_2_def threads_1_def) (simp add: create_threads_def)
  show "list_all (row_fits (tb_columns (runs_4 []))) rns" "unique_on [''id''] rns"
      "unique_on [''thread_id'', ''idempotency_key''] rns"
      "unique_on [''thread_id''] (filter (check_holds ACTIVE_RUN_STATUSES) rns)"
      "list_all (refers ?db [''thread_id''] ''product_threads'' [''id'']) rns"
    using t(2) by (simp_all add: table_holds_def runs_4_def runs_3_def runs_2_def runs_1_def)
      (simp_all add: create_runs_def index_holds_def one_active_index_def)
  show "list_all (row_fits (tb_columns create_messages)) mss" "unique_on [''id''] mss"
      "list_all (refers ?db [''thread_id''] ''product_threads'' [''id'']) mss"
      "list_all (refers ?db [''run_id'', ''thread_id''] ''product_runs'' [''id'', ''thread_id'']) mss"
    using t(3) by (simp_all add: table_holds_def messages_2_def messages_1_def run_link_def)
      (simp_all add: create_messages_def)
  show "list_all (row_fits (tb_columns create_events)) evs" "unique_on [''id''] evs" "unique_on [''run_id'', ''seq''] evs"
      "list_all (refers ?db [''run_id'', ''thread_id''] ''product_runs'' [''id'', ''thread_id'']) evs"
    using t(4) by (simp_all add: table_holds_def events_2_def events_1_def run_link_def)
      (simp_all add: create_events_def)
  show "list_all (row_fits (tb_columns create_attempts)) ats" "unique_on [''id''] ats"
      "unique_on [''run_id'', ''call_index'', ''attempt_index''] ats"
      "list_all (refers ?db [''run_id'', ''thread_id''] ''product_runs'' [''id'', ''thread_id'']) ats"
      "list_all (\<lambda>r. list_all (\<lambda>rule. check_holds rule r) [AtLeast ''call_index'' 1, AtLeast ''attempt_index'' 1,
         NullOrAtLeast ''input_tokens'' 0, NullOrAtLeast ''output_tokens'' 0, NullOrAtLeast ''cached_tokens'' 0,
         NullOrAtLeast ''reasoning_tokens'' 0, NullOrAtLeast ''total_tokens'' 0,
         NullOrFrom ''completed_at'' ''started_at'']) ats"
    using t(5) by (simp_all add: table_holds_def attempts_4_def del: check_holds.simps)
      (simp_all add: create_attempts_def list_all_iff del: check_holds.simps)
qed

lemma thread_columns:
  "varchar 36 ''id'' \<in> set (tb_columns (threads_2 []))" "varchar 255 ''owner_subject'' \<in> set (tb_columns (threads_2 []))"
  by (simp_all add: threads_2_def) (simp_all add: create_threads_def)

lemma run_columns:
  "varchar 36 ''id'' \<in> set (tb_columns (runs_4 []))" "varchar 36 ''thread_id'' \<in> set (tb_columns (runs_4 []))"
  "varchar 128 ''idempotency_key'' \<in> set (tb_columns (runs_4 []))" "varchar 24 ''status'' \<in> set (tb_columns (runs_4 []))"
  by (simp_all add: runs_4_def runs_3_def runs_2_def) (simp_all add: create_runs_def)

lemma message_columns:
  "varchar 36 ''id'' \<in> set (tb_columns create_messages)" "varchar 36 ''thread_id'' \<in> set (tb_columns create_messages)"
  "or_null (VarChar 36) ''run_id'' \<in> set (tb_columns create_messages)"
  by (simp_all add: create_messages_def)

lemma event_columns:
  "varchar 36 ''id'' \<in> set (tb_columns create_events)" "varchar 36 ''thread_id'' \<in> set (tb_columns create_events)"
  "varchar 36 ''run_id'' \<in> set (tb_columns create_events)" "not_null SqlInteger ''seq'' \<in> set (tb_columns create_events)"
  by (simp_all add: create_events_def)

lemma attempt_columns:
  "varchar 36 ''id'' \<in> set (tb_columns create_attempts)" "varchar 36 ''thread_id'' \<in> set (tb_columns create_attempts)"
  "varchar 36 ''run_id'' \<in> set (tb_columns create_attempts)"
  "not_null SqlInteger ''call_index'' \<in> set (tb_columns create_attempts)"
  "not_null SqlInteger ''attempt_index'' \<in> set (tb_columns create_attempts)"
  "not_null Timestamp ''started_at'' \<in> set (tb_columns create_attempts)"
  "or_null Timestamp ''completed_at'' \<in> set (tb_columns create_attempts)"
  "or_null SqlInteger ''input_tokens'' \<in> set (tb_columns create_attempts)"
  "or_null SqlInteger ''output_tokens'' \<in> set (tb_columns create_attempts)"
  "or_null SqlInteger ''cached_tokens'' \<in> set (tb_columns create_attempts)"
  "or_null SqlInteger ''reasoning_tokens'' \<in> set (tb_columns create_attempts)"
  "or_null SqlInteger ''total_tokens'' \<in> set (tb_columns create_attempts)"
  by (simp_all add: create_attempts_def)

text \<open>A reference of the rows, read as records.\<close>

lemma refers_text:
  assumes "refers db [c] parent [''id''] r" "r c = SqlText s"
  shows "\<exists>q \<in> set (rows_of db parent). text_of (q ''id'') = s"
  using assms by (force simp: refers_def key_of_def list_ex_iff)

lemma refers_pair:
  assumes "refers db [''run_id'', ''thread_id''] parent [''id'', ''thread_id''] r" "r ''run_id'' = SqlText s"
    and "r ''thread_id'' = SqlText t"
  shows "\<exists>q \<in> set (rows_of db parent). text_of (q ''id'') = s \<and> text_of (q ''thread_id'') = t"
  using assms by (force simp: refers_def key_of_def list_ex_iff)

lemma active_row:
  "r ''status'' = SqlText s \<Longrightarrow> is_active (run_of_row plan outc r) \<longleftrightarrow> check_holds ACTIVE_RUN_STATUSES r"
  by (auto simp: is_active_iff run_of_row_def run_status_of_def ACTIVE_RUN_STATUSES_def lit_def)

lemma loaded_keys:
  assumes "integrity (db_4 ths rns mss evs ats)"
  shows "keys_distinct (models_db plan outc (db_4 ths rns mss evs ats))"
proof -
  note parts = integrity_4_parts [OF assms]
  have ids: "distinct (map (\<lambda>r. text_of (r ''id'')) rows)"
    if "unique_on [''id''] rows" "list_all (row_fits cols) rows" "varchar 36 ''id'' \<in> set cols" for rows cols
  proof (rule distinct_loaded [OF that(1), where stored = "\<lambda>_. SqlText"])
    fix r c assume "r \<in> set rows" "c \<in> set [''id'']"
    then show "SqlText (text_of (r ''id'')) = r c"
      using text_cell [OF _ that(3)] that(2) by (auto simp: list_all_iff)
  qed simp
  show ?thesis
    using ids [OF parts(2,1) thread_columns(1)] ids [OF parts(4,3) run_columns(1)]
      ids [OF parts(9,8) message_columns(1)] ids [OF parts(13,12) event_columns(1)]
      ids [OF parts(17,16) attempt_columns(1)]
    by (simp add: keys_distinct_def models_db_def comp_def thread_of_row_def run_of_row_def attempt_of_row_def
        message_of_row_def event_of_row_def)
qed

lemma loaded_uniques:
  assumes "integrity (db_4 ths rns mss evs ats)"
  shows "uniques_hold (models_db plan outc (db_4 ths rns mss evs ats))"
proof -
  note parts = integrity_4_parts [OF assms]
  have run: "SqlText (text_of (r ''thread_id'')) = r ''thread_id''"
      "SqlText (text_of (r ''idempotency_key'')) = r ''idempotency_key''" "SqlText (text_of (r ''status'')) = r ''status''"
    if "r \<in> set rns" for r
    using that parts(3) run_columns text_cell [of "tb_columns (runs_4 [])" r] by (auto simp: list_all_iff)
  have event: "SqlText (text_of (r ''run_id'')) = r ''run_id''" "SqlInt (int_of (r ''seq'')) = r ''seq''"
    if "r \<in> set evs" for r
    using that parts(12) event_columns text_cell [of "tb_columns create_events" r] int_cell [of "tb_columns create_events" r]
    by (auto simp: list_all_iff)
  have attempt: "SqlText (text_of (r ''run_id'')) = r ''run_id''" "SqlInt (int_of (r ''call_index'')) = r ''call_index''"
      "SqlInt (int_of (r ''attempt_index'')) = r ''attempt_index''"
    if "r \<in> set ats" for r
    using that parts(16) attempt_columns text_cell [of "tb_columns create_attempts" r]
      int_cell [of "tb_columns create_attempts" r]
    by (auto simp: list_all_iff)
  have "distinct (map (\<lambda>r. (text_of (r ''thread_id''), text_of (r ''idempotency_key''))) rns)"
    by (rule distinct_loaded [OF parts(5), where stored = "\<lambda>c (a, b). SqlText (if c = ''thread_id'' then a else b)"])
      (use run in \<open>auto split: if_splits\<close>)
  moreover have "is_active (run_of_row plan outc r) = check_holds ACTIVE_RUN_STATUSES r" if "r \<in> set rns" for r
    by (rule active_row) (rule run(3) [OF that, symmetric])
  then have "filter is_active (map (run_of_row plan outc) rns)
      = map (run_of_row plan outc) (filter (check_holds ACTIVE_RUN_STATUSES) rns)"
    by (simp add: filter_map comp_def cong: filter_cong)
  moreover have "distinct (map (\<lambda>r. text_of (r ''thread_id'')) (filter (check_holds ACTIVE_RUN_STATUSES) rns))"
    by (rule distinct_loaded [OF parts(6), where stored = "\<lambda>_. SqlText"]) (use run in \<open>auto split: if_splits\<close>)
  moreover have "distinct (map (\<lambda>r. (text_of (r ''run_id''), int_of (r ''seq''))) evs)"
    by (rule distinct_loaded [OF parts(14), where stored = "\<lambda>c (a, b). if c = ''run_id'' then SqlText a else SqlInt b"])
      (use event in \<open>auto split: if_splits\<close>)
  moreover have "distinct (map (\<lambda>r. (text_of (r ''run_id''), int_of (r ''call_index''), int_of (r ''attempt_index''))) ats)"
    by (rule distinct_loaded [OF parts(18), where stored = "\<lambda>c (a, b, d). if c = ''run_id'' then SqlText a
        else if c = ''call_index'' then SqlInt b else SqlInt d"])
      (use attempt in \<open>auto split: if_splits\<close>)
  ultimately show ?thesis
    by (simp add: uniques_hold_def models_db_def comp_def)
      (simp add: run_of_row_def event_of_row_def attempt_of_row_def)
qed

lemma loaded_references:
  assumes "integrity (db_4 ths rns mss evs ats)"
  shows "references_hold (models_db plan outc (db_4 ths rns mss evs ats))"
proof -
  note parts = integrity_4_parts [OF assms]
  let ?m = "models_db plan outc (db_4 ths rns mss evs ats)"
  have threads: "th_id ` set (db_threads ?m) = (\<lambda>q. text_of (q ''id'')) ` set ths"
    by (simp add: models_db_def image_image thread_of_row_def)
  have refs: "run_refs ?m = (\<lambda>q. (text_of (q ''id''), text_of (q ''thread_id''))) ` set rns"
    by (simp add: models_db_def run_refs_def image_image run_of_row_def)
  have pair: "(s, t) \<in> run_refs ?m"
    if "refers (db_4 ths rns mss evs ats) [''run_id'', ''thread_id''] ''product_runs'' [''id'', ''thread_id''] r"
      "SqlText s = r ''run_id''" "SqlText t = r ''thread_id''" for r s t
    using refers_pair [OF that(1) that(2,3) [symmetric]] unfolding refs by auto
  have single: "s \<in> th_id ` set (db_threads ?m)"
    if "refers (db_4 ths rns mss evs ats) [''thread_id''] ''product_threads'' [''id''] r" "SqlText s = r ''thread_id''" for r s
    using refers_text [OF that(1) that(2) [symmetric]] unfolding threads by auto
  have run: "SqlText (text_of (r ''thread_id'')) = r ''thread_id''" if "r \<in> set rns" for r
    using that parts(3) text_cell [OF _ run_columns(2)] by (auto simp: list_all_iff)
  have message: "SqlText (text_of (r ''thread_id'')) = r ''thread_id''"
      "r ''run_id'' \<noteq> SqlNull \<Longrightarrow> SqlText (text_of (r ''run_id'')) = r ''run_id''" if "r \<in> set mss" for r
    using that parts(8) text_cell [OF _ message_columns(2)] opt_text_cell [OF _ message_columns(3)]
    by (auto simp: list_all_iff)
  have event: "SqlText (text_of (r ''thread_id'')) = r ''thread_id''" "SqlText (text_of (r ''run_id'')) = r ''run_id''"
    if "r \<in> set evs" for r
    using that parts(12) text_cell [OF _ event_columns(2)] text_cell [OF _ event_columns(3)] by (auto simp: list_all_iff)
  have attempt: "SqlText (text_of (r ''thread_id'')) = r ''thread_id''" "SqlText (text_of (r ''run_id'')) = r ''run_id''"
    if "r \<in> set ats" for r
    using that parts(16) text_cell [OF _ attempt_columns(2)] text_cell [OF _ attempt_columns(3)]
    by (auto simp: list_all_iff)
  have 1: "rn_thread_id ` set (db_runs ?m) \<subseteq> th_id ` set (db_threads ?m)"
  proof
    fix s assume "s \<in> rn_thread_id ` set (db_runs ?m)"
    then obtain r where r: "r \<in> set rns" "s = text_of (r ''thread_id'')" by (auto simp: models_db_def run_of_row_def)
    with parts(7) run single show "s \<in> th_id ` set (db_threads ?m)" by (auto simp: list_all_iff)
  qed
  have 2: "(\<lambda>a. (ma_run_id a, ma_thread_id a)) ` set (db_attempts ?m) \<subseteq> run_refs ?m"
  proof
    fix x assume "x \<in> (\<lambda>a. (ma_run_id a, ma_thread_id a)) ` set (db_attempts ?m)"
    then obtain r where r: "r \<in> set ats" "x = (text_of (r ''run_id''), text_of (r ''thread_id''))"
      by (auto simp: models_db_def attempt_of_row_def)
    with pair [of r] parts(19) attempt [OF r(1)] show "x \<in> run_refs ?m" by (simp add: list_all_iff)
  qed
  have 3: "(\<lambda>e. (ev_run_id e, ev_thread_id e)) ` set (db_events ?m) \<subseteq> run_refs ?m"
  proof
    fix x assume "x \<in> (\<lambda>e. (ev_run_id e, ev_thread_id e)) ` set (db_events ?m)"
    then obtain r where r: "r \<in> set evs" "x = (text_of (r ''run_id''), text_of (r ''thread_id''))"
      by (auto simp: models_db_def event_of_row_def)
    with pair [of r] parts(15) event [OF r(1)] show "x \<in> run_refs ?m" by (simp add: list_all_iff)
  qed
  have 4: "ms_thread_id m \<in> th_id ` set (db_threads ?m) \<and> (\<forall>rid. ms_run_id m = Some rid \<longrightarrow> (rid, ms_thread_id m) \<in> run_refs ?m)"
    if m: "m \<in> set (db_messages ?m)" for m
  proof -
    obtain r where r: "r \<in> set mss" "m = message_of_row r" using m by (auto simp: models_db_def)
    have "ms_thread_id m \<in> th_id ` set (db_threads ?m)"
      using single [of r] parts(10) message(1) [OF r(1)] r by (simp add: list_all_iff message_of_row_def)
    moreover have "(rid, ms_thread_id m) \<in> run_refs ?m" if "ms_run_id m = Some rid" for rid
    proof -
      have "r ''run_id'' \<noteq> SqlNull" "rid = text_of (r ''run_id'')"
        using that r(2) by (auto simp: message_of_row_def opt_of_def split: if_splits)
      with pair [of r] parts(11) message [OF r(1)] r show ?thesis by (simp add: list_all_iff message_of_row_def)
    qed
    ultimately show ?thesis by blast
  qed
  show ?thesis unfolding references_hold_def using 1 2 3 4 by blast
qed

lemma loaded_attempts:
  assumes "integrity (db_4 ths rns mss evs ats)"
  shows "list_all attempt_checks (db_attempts (models_db plan outc (db_4 ths rns mss evs ats)))"
proof -
  note parts = integrity_4_parts [OF assms]
  have tokens: "nonneg (opt_of int_of (r c))"
    if "check_holds (NullOrAtLeast c 0) r" for r c
    using that by (cases "r c") (auto simp: opt_of_def)
  have "attempt_checks (attempt_of_row r)" if r: "r \<in> set ats" for r
  proof -
    have checks: "check_holds (AtLeast ''call_index'' 1) r" "check_holds (AtLeast ''attempt_index'' 1) r"
      "check_holds (NullOrAtLeast ''input_tokens'' 0) r" "check_holds (NullOrAtLeast ''output_tokens'' 0) r"
      "check_holds (NullOrAtLeast ''cached_tokens'' 0) r" "check_holds (NullOrAtLeast ''reasoning_tokens'' 0) r"
      "check_holds (NullOrAtLeast ''total_tokens'' 0) r" "check_holds (NullOrFrom ''completed_at'' ''started_at'') r"
      using parts(20) r by (simp_all add: list_all_iff del: check_holds.simps)
    have fits: "row_fits (tb_columns create_attempts) r" using parts(16) r by (simp add: list_all_iff)
    have "1 \<le> int_of (r ''call_index'')" "1 \<le> int_of (r ''attempt_index'')"
      using checks(1,2) int_cell [OF fits attempt_columns(4)] int_cell [OF fits attempt_columns(5)]
      by (auto split: sql_value.splits)
    moreover have "int_of (r ''started_at'') \<le> t" if "opt_of int_of (r ''completed_at'') = Some t" for t
      using checks(8) time_cell [OF fits attempt_columns(6)] opt_time_cell [OF fits attempt_columns(7)] that
      by (auto simp: opt_of_def split: sql_value.splits if_splits)
    ultimately show ?thesis
      using tokens [OF checks(3)] tokens [OF checks(4)] tokens [OF checks(5)] tokens [OF checks(6)] tokens [OF checks(7)]
      by (auto simp: attempt_checks_def attempt_of_row_def token_fields_def split: option.split)
  qed
  then show ?thesis by (simp add: models_db_def list_all_iff)
qed

section \<open>The properties\<close>

text \<open>
  C31. The four migrations and the models agree: on both database systems the chain builds, from
  nothing, exactly the tables models.py declares, with the same columns and their types, the same
  constraints and the same indexes, and leaves the database at the last revision.
\<close>

theorem migrated_schema_declared:
  "\<exists>db. upgrade_head d empty_sql = (Inr (), db)
     \<and> sd_revision db = Some ''0004_run_usage_metering'' \<and> length (sd_tables db) = length declared_tables
     \<and> list_all (\<lambda>t. list_ex (same_table t) declared_tables) (sd_tables db)
     \<and> list_all (\<lambda>u. list_ex (\<lambda>t. same_table t u) (sd_tables db)) declared_tables"
proof -
  have tables: "sd_tables (db_4 [] [] [] [] []) = [threads_2 [], runs_4 [], messages_2 [], events_2 [], attempts_4 []]"
    by (simp add: db_4_def)
  have "same_table (threads_2 []) ThreadRecord"
    by (simp add: same_table_def threads_2_def threads_1_def ThreadRecord_def) (auto simp: create_threads_def)
  moreover have "same_table (runs_4 []) RunRecord"
    by (simp add: same_table_def runs_4_def runs_3_def runs_2_def runs_1_def RunRecord_def) (auto simp: create_runs_def)
  moreover have "same_table (messages_2 []) MessageRecord"
    by (simp add: same_table_def messages_2_def messages_1_def run_link_def MessageRecord_def)
      (auto simp: create_messages_def)
  moreover have "same_table (events_2 []) EventRecord"
    by (simp add: same_table_def events_2_def events_1_def run_link_def EventRecord_def) (auto simp: create_events_def)
  moreover have "same_table (attempts_4 []) ModelAttemptRecord"
    by (simp add: same_table_def attempts_4_def ModelAttemptRecord_def) (auto simp: create_attempts_def)
  ultimately show ?thesis
    by (intro exI [of _ "db_4 [] [] [] [] []"]) (simp add: head_0 tables declared_tables_def)
qed

lemma nulls_of_act:
  assumes "list_all (row_fits (tb_columns create_runs)) rns"
  shows "map metering_null (map evidence_null (map act_row rns)) = map act_row rns"
proof -
  have "evidence_null (act_row r) = act_row r \<and> metering_null (act_row r) = act_row r" if "r \<in> set rns" for r
    using assms that row_fits_null [of "tb_columns create_runs" r]
    by (simp add: evidence_null_iff metering_null_iff list_all_iff) (simp add: create_runs_def)
  then show ?thesis by simp
qed

lemma legacy_head:
  assumes "schema_of db = schema_of (snd (upgrade_0001 empty_sql))" "sd_revision db = Some ''0001_product_core''"
    "integrity db"
  obtains ths rns mss evs where "db = db_1 ths rns mss evs" "rows_ok ths rns mss evs"
    "links_ok (db_1 ths rns mss evs) rns mss evs"
    "\<And>d. list_all (linked rns) (mss @ evs) \<Longrightarrow>
      upgrade_head d db = (Inr (), db_4 (map own_row ths) (map act_row rns) mss evs [])"
proof -
  have "schema_of (snd (upgrade_0001 empty_sql)) = schema_of (db_1 [] [] [] [])"
    by (simp add: upgrade_0001_empty) (simp add: schema_of_def)
  then obtain ths rns mss evs where db: "db = db_1 ths rns mss evs" using at_1 assms(1,2) by metis
  then have ok: "rows_ok ths rns mss evs" "links_ok (db_1 ths rns mss evs) rns mss evs"
    using assms(3) integrity_1 by simp_all
  then have "list_all (row_fits (tb_columns create_runs)) rns" by (simp add: rows_ok_def)
  note nulls = nulls_of_act [OF this]
  show ?thesis
    by (rule that [OF db ok]) (simp only: db head_1 [OF ok(1)] nulls)
qed


text \<open>
  C23. A step back discards nothing. However many steps back are tried from the last revision, and
  whether the last of them succeeds or is refused, on either database system: upgrading again gives
  the very database that was there, with every row, plan, outcome, attempt and usage in it.
\<close>

theorem steps_back_lossless:
  assumes "schema_of db = schema_of (snd (upgrade_head d empty_sql))" "sd_revision db = Some ''0004_run_usage_metering''"
    and "run_all (replicate n (downgrade_one d)) db = (res, db')"
  shows "upgrade_head d db' = (Inr (), db)"
proof -
  have "schema_of db = schema_of (db_4 [] [] [] [] [])" using assms(1) by (simp add: head_0)
  then obtain ths rns mss evs ats where db: "db = db_4 ths rns mss evs ats" using at_4 assms(2) by metis
  from back_steps [OF _ assms(3)] show ?thesis by (simp add: db head_4 chain_4)
qed

text \<open>
  C24. The declared schema carries the model of the repository: the rows of every database at the
  last revision whose constraints hold, read as records, satisfy every constraint the repository
  is verified under, whatever the stored documents decode to.
\<close>

theorem stored_rows_refine:
  assumes "schema_of db = schema_of (snd (upgrade_head d empty_sql))" "sd_revision db = Some ''0004_run_usage_metering''"
    and "integrity db"
  shows "schema_ok (models_db plan outc db)"
proof -
  have "schema_of db = schema_of (db_4 [] [] [] [] [])" using assms(1) by (simp add: head_0)
  then obtain ths rns mss evs ats where db: "db = db_4 ths rns mss evs ats" using at_4 assms(2) by metis
  from assms(3) show ?thesis
    unfolding db schema_ok_def by (intro conjI loaded_keys loaded_uniques loaded_references loaded_attempts)
qed

text \<open>Nobody can be the owner of the quarantine, whoever authenticates the requests.\<close>

lemma legacy_internal: "is_internal LEGACY_UNOWNED_SUBJECT"
  by (simp add: is_internal_def LEGACY_UNOWNED_SUBJECT_def py_startswith_def)

lemma refused_bind: "\<exists>e. r = Inl e \<Longrightarrow> answered (bindE r k) = None"
  by auto

lemma quarantined_rows:
  assumes "schema_of db = schema_of (snd (upgrade_0001 empty_sql))" "sd_revision db = Some ''0001_product_core''"
    and "integrity db" "upgrade_head d db = (Inr (), db')"
  shows "integrity db'" "schema_of db' = schema_of (snd (upgrade_head d empty_sql))"
    "rows_of db' ''product_threads'' = map own_row (rows_of db ''product_threads'')"
    "sd_revision db' = Some ''0004_run_usage_metering''"
    "\<And>t. t \<in> set (db_threads (models_db plan outc db')) \<Longrightarrow> th_owner_subject t = LEGACY_UNOWNED_SUBJECT"
    "\<And>r. r \<in> set (db_runs (models_db plan outc db')) \<Longrightarrow> rn_actor_subject r = LEGACY_UNOWNED_SUBJECT"
proof -
  obtain ths rns mss evs where db: "db = db_1 ths rns mss evs" and ok: "rows_ok ths rns mss evs"
      "links_ok (db_1 ths rns mss evs) rns mss evs"
    and up: "\<And>d. list_all (linked rns) (mss @ evs) \<Longrightarrow>
      upgrade_head d db = (Inr (), db_4 (map own_row ths) (map act_row rns) mss evs [])"
    by (rule legacy_head [OF assms(1-3)]) blast
  have linked: "list_all (linked rns) (mss @ evs)"
    using assms(4) head_1_refused [of rns mss evs d ths] by (auto simp: db)
  have db': "db' = db_4 (map own_row ths) (map act_row rns) mss evs []" using up [OF linked] assms(4) by simp
  show "integrity db'" unfolding db' by (rule integrity_4 [OF ok linked])
  show "schema_of db' = schema_of (snd (upgrade_head d empty_sql))" by (simp add: db' head_0 schema_of_4)
  show "rows_of db' ''product_threads'' = map own_row (rows_of db ''product_threads'')" by (simp add: db db')
  show "sd_revision db' = Some ''0004_run_usage_metering''" by (simp add: db')
  show "\<And>t. t \<in> set (db_threads (models_db plan outc db')) \<Longrightarrow> th_owner_subject t = LEGACY_UNOWNED_SUBJECT"
    "\<And>r. r \<in> set (db_runs (models_db plan outc db')) \<Longrightarrow> rn_actor_subject r = LEGACY_UNOWNED_SUBJECT"
    by (auto simp: models_db_def db' thread_of_row_def run_of_row_def)
qed


section \<open>Witnesses\<close>

text \<open>A conversation of the first version: its Run completed and has left a message and an event.\<close>

definition cells :: "(string \<times> sql_value) list \<Rightarrow> sql_row" where
  "cells vs = (\<lambda>n. case map_of vs n of None \<Rightarrow> SqlNull | Some v \<Rightarrow> v)"

definition old_thread :: sql_row where
  "old_thread = cells [(''id'', SqlText (lit ''t'')), (''title'', SqlText (lit ''Old'')), (''created_at'', SqlTime 1),
     (''updated_at'', SqlTime 2)]"

definition old_run :: sql_row where
  "old_run = cells [(''id'', SqlText (lit ''r'')), (''thread_id'', SqlText (lit ''t'')),
     (''idempotency_key'', SqlText (lit ''k'')), (''status'', SqlText (lit ''completed'')), (''last_seq'', SqlInt 1),
     (''created_at'', SqlTime 1), (''completed_at'', SqlTime 2)]"

definition old_message :: sql_row where
  "old_message = cells [(''id'', SqlText (lit ''m'')), (''thread_id'', SqlText (lit ''t'')),
     (''run_id'', SqlText (lit ''r'')), (''role'', SqlText (lit ''user'')), (''content'', SqlText (lit ''Hello'')),
     (''created_at'', SqlTime 1)]"

definition old_event :: sql_row where
  "old_event = cells [(''id'', SqlText (lit ''e'')), (''run_id'', SqlText (lit ''r'')), (''thread_id'', SqlText (lit ''t'')),
     (''seq'', SqlInt 1), (''type'', SqlText (lit ''run.completed'')), (''occurred_at'', SqlTime 2),
     (''payload'', SqlJson [(lit ''status'', PStr (lit ''completed''))])]"

definition old_db :: sql_db where
  "old_db = db_1 [old_thread] [old_run] [old_message] [old_event]"

lemma row_fits_cells:
  assumes "list_all (\<lambda>c. has_type (col_type c) (cells vs (col_name c)) \<and> (cells vs (col_name c) = SqlNull \<longrightarrow> col_nullable c)) cols"
    and "set (map fst vs) \<subseteq> col_name ` set cols"
  shows "row_fits cols (cells vs)"
proof -
  have "cells vs n = SqlNull" if "n \<notin> col_name ` set cols" for n
  proof -
    have "map_of vs n = None" using that assms(2) by (auto simp: map_of_eq_None_iff)
    then show ?thesis by (simp add: cells_def)
  qed
  with assms(1) show ?thesis by (simp add: row_fits_def)
qed

lemma old_cells [simp]:
  "old_thread ''id'' = SqlText (lit ''t'')" "old_run ''id'' = SqlText (lit ''r'')"
  "old_run ''thread_id'' = SqlText (lit ''t'')" "old_run ''idempotency_key'' = SqlText (lit ''k'')"
  "old_run ''status'' = SqlText (lit ''completed'')" "old_message ''thread_id'' = SqlText (lit ''t'')"
  "old_message ''run_id'' = SqlText (lit ''r'')" "old_message ''role'' = SqlText (lit ''user'')"
  "old_event ''thread_id'' = SqlText (lit ''t'')" "old_event ''run_id'' = SqlText (lit ''r'')"
  by (simp_all add: old_thread_def old_run_def old_message_def old_event_def cells_def)

lemma old_fits:
  "row_fits (tb_columns create_threads) old_thread" "row_fits (tb_columns create_runs) old_run"
  "row_fits (tb_columns create_messages) old_message" "row_fits (tb_columns create_events) old_event"
  unfolding old_thread_def old_run_def old_message_def old_event_def
  by (rule row_fits_cells; simp add: table_defs cells_def lit_def)+

lemma old_integrity: "integrity old_db"
proof -
  have one: "unique_on cols [r]" for cols r by (simp add: unique_on_def)
  have "unique_on [''thread_id''] (filter (check_holds ACTIVE_RUN_STATUSES) [old_run])"
    by (simp add: unique_on_def)
  then have "rows_ok [old_thread] [old_run] [old_message] [old_event]"
    using old_fits one by (simp add: rows_ok_def) (simp add: RUN_STATUSES_def lit_def)
  moreover have "links_ok (db_1 [old_thread] [old_run] [old_message] [old_event]) [old_run] [old_message] [old_event]"
    by (simp add: links_ok_def refers_def key_of_def)
  ultimately show ?thesis unfolding old_db_def integrity_1 by blast
qed

lemma old_at_1: "schema_of old_db = schema_of (snd (upgrade_0001 empty_sql))" "sd_revision old_db = Some ''0001_product_core''"
proof -
  have "schema_of (snd (upgrade_0001 empty_sql)) = schema_of (db_1 [] [] [] [])"
    by (simp add: upgrade_0001_empty) (simp add: schema_of_def)
  then show "schema_of old_db = schema_of (snd (upgrade_0001 empty_sql))" by (simp add: old_db_def schema_of_1)
  show "sd_revision old_db = Some ''0001_product_core''" by (simp add: old_db_def)
qed

lemma old_linked: "\<not> list_ex (bad_child old_db) (rows_of old_db ''product_messages'' @ rows_of old_db ''product_events'')"
  by (simp add: old_db_def bad_child_linked linked_def sql_differs_def)


definition new_db :: sql_db where
  "new_db = snd (upgrade_head Postgresql old_db)"

lemma new_db_up: "upgrade_head Postgresql old_db = (Inr (), new_db)"
proof -
  have "rows_ok [old_thread] [old_run] [old_message] [old_event]"
    using old_integrity unfolding old_db_def integrity_1 by blast
  moreover have "list_all (linked [old_run]) ([old_message] @ [old_event])"
    by (simp add: linked_def sql_differs_def)
  ultimately show ?thesis using head_1 [of "[old_thread]"] by (auto simp: new_db_def old_db_def)
qed

lemmas new_db_facts = quarantined_rows [OF old_at_1 old_integrity new_db_up]

theorem steps_back_lossless_witness:
  "upgrade_head Postgresql (snd (run_all (replicate 3 (downgrade_one Postgresql)) new_db)) = (Inr (), new_db)"
  by (rule steps_back_lossless [OF new_db_facts(2,4)]) (rule prod.collapse [symmetric])

theorem stored_rows_refine_witness:
  "\<forall>outc. schema_ok (models_db (\<lambda>_. demo_plan) outc new_db)"
  by (intro allI stored_rows_refine [OF new_db_facts(2,4,1)])


end
