(* ===== verification/Spec2Isabelle.thy ===== *)
theory Spec2Isabelle
  imports Run_Properties Store_Properties Service_Properties Runtime_Properties
    Api_Properties Startup_Properties Fake_Properties Migration_Properties
begin

text \<open>
  A model of the backend of a work assistant (src/backend/src/work_assistant) and the theorems
  that make it correct.

  The program. A user sends a message; the service creates a Run, asks the policy kernel which
  Agent, model and Tools it may use, streams the Agent's answer through a runtime, and stores
  every public fact (events, messages, usage, audit evidence) in the product database. The parts
  modelled here are the ones that decide: who may do what, how far a Run may go, what reaches the
  database, and what the numbers and documents written there say.

  Theories, in the order of their imports:
    Prelude: Python strings (lists of code points), JSON values, exceptions, the two result types,
      insertion-ordered dictionaries, and the contract of an invariant of a state machine.
    Patterns: the identifier and version patterns of agent_definition.py.
    Identity: identity.py and authorization.py.
    Usage, Ledger: usage.py, its documents and its Run-local ledger of provider attempts.
    Schemas: schemas.py, request bodies and the nine product events.
    Agent_Definition: agent_definition.py. Context_Builder: context_builder.py.
    Capabilities: capabilities.py, the Tool registry and capability decisions.
    Evidence, Execution, Policy_Kernel: execution_policy.py, that is the evidence documents, the
      class RunExecution, and the class AgentPolicyKernel.
    Execution_Safety, Run_Properties: the invariant of a RunExecution under every interleaving of
      its methods, and the properties of a Run that follow from it.
    Models: models.py, the five tables and their constraints.
    Views, Repository, Run_Store, Run_Queries: repository.py, the views of rows, threads and the
      creation of Runs, the life of a Run and recovery, and the reading operations.
    Store_Schema: the constraints of the tables as an invariant of every write.
    Run_Lifecycle, Run_Transitions: what the row, the log, the attempts and the messages of one Run
      have to agree on; the abstract life of a Run; each transition refines it.
    Store_Machine, Store_Steps: the repository as a state machine on the committed database, whose
      steps are all its operations with any arguments, and its invariant.
    Store_Facts, Store_Progress: what the invariant gives to callers, and what can always be done.
    Store_Demo, Store_Properties: a concrete history, and the properties of the repository.
    Store_Effects: what other callers may do to a Run while its task executes it (the steps of the
      environment), and what the task's own operations write exactly.
    Service: service.py, RunService with its fail-closed state, and the task of a Run as handlers
      on its phase, split at the awaits.
    Service_Safety, Service_Task: what a repository call may do; the task of a Run as a state
      machine that interleaves its handlers, the runtime's operations, exceptions at any await and
      the steps of the environment, with the invariant that ties the streamed text to the log.
    Stream_Safety: the event stream over a history of the repository.
    Service_Demo, Service_Properties: one Run of the service step by step, and the properties of the
      service: the answer is what was streamed, no failure leaves a Run active behind a healthy
      service, no Run is admitted without an owner, every event is delivered once, and nothing
      happens after the service has failed closed or been shut down.
    Runtime_Messages: agent_runtime.py, what is read off one message of the model provider: usage
      evidence and how it travels in the metadata, public text, Tool signals.
    Runtime_Stream: the context of a Run of the runtime, how received text is cut into deltas, and
      the loop of _stream_final_response. Runtime_Stream_Safety: what it puts on the queue.
    Runtime_Protocol: the middleware apply_model_policy, apply_tool_policy, finalize_after_agent, the
      retry of the first decision, and the control call by which the model ends its planning.
    Runtime_Safety: the middleware in any order as a state machine; what is shown is what is kept.
    Runtime_Runner: the lifecycle that observes and quarantines futures, and the bounded queue
      between the producer of a Run and the service.
    Runtime_Properties: the properties of the runtime: the answer is the text that was streamed, in
      short pieces with nothing lost, the finalizer reads a sanitized conversation, the control call
      stays private, the loop of the stream ends.
    Http_Text: JSON text, int of a string, server-sent events and how a client reads them back.
    Api: api.py and main.py, what a request gets back: the dependencies of an endpoint, the exceptions
      it maps to a status, the cursor and the text of the event stream, the two middlewares.
    Api_Properties: only authorized requests have an effect; a client that reconnects loses and
      repeats nothing; what opening a stream is answered; and that a refused cancellation has
      already stopped the task of another account's Run.
    Url_Text: urlsplit and ip_address as far as settings.py uses them. Settings: settings.py.
    Startup: bootstrap.py, the options of db.py, the choice of the runtime, the start in main.py.
    Startup_Properties: what accepted settings guarantee in production, the nesting of the time
      limits, and that a process starts with a valid kernel and no occupied thread.
    Fake_Runtime: agent_runtime.py, the scripted adapter with the text it reads a time zone from, as a
      generator that continues from phase to phase. Fake_Properties: the guards stop its scripts.
    Isolation: the rows of one account, and what follows for it: operations of other accounts leave
      them as they are, and every answer to the account depends on them only.
    Migrations: migrations/versions and migrations/env.py, the revisions as steps on the schema and
      the rows of a database, and the tables that models.py declares. Migration_Steps: what each
      revision computes. Migration_Properties: the head of the revisions is the declared schema, data
      older than a revision is kept whole and quarantined, a step back discards nothing silently, and
      the rows of a migrated database satisfy the constraints the repository relies on.

  How state and effects appear. A frozen model of the source is a record with a predicate for its
  validators, and a constructor that may raise. A method of a mutable object takes the object's
  record and returns it updated next to its result, so what a method changed before it raised
  stays changed. A database transaction returns either an exception, and then the database is the
  old one, or a result with the new database. Operations that await are split where another
  operation may run in between, and the step relations allow any order of steps.

  The repository and its callers. A transaction is atomic and runs on the committed database. The
  two creating methods read before they insert, while others may commit: they take the database
  their queries saw (any earlier state of the history) and the one their inserts meet, whose
  constraints decide. Rows are lists in insertion order, queries sort them; code-point order
  stands for the collation of the engine, and column widths are not constraints.

  Parameters. Readings of clocks, fresh ids and the answers of replaceable policies and Tools are
  arguments of the operations. Functions of code that is not in the repository are parameters:
  SHA-256 and the JSON encoder (host_env), the JSON form of datetimes (codec), the Unicode
  category test, case folding, word characters and normal form, the format of a float in a prompt or in JSON,
  the decimal value of a character. Where a theorem needs a law of one of them, it
  is a hypothesis of the theorem. Floats are exact rationals, so a duration may differ from the
  code's by the rounding of a float multiplication. Python integers are unbounded in the source
  and are integers here. Equality of two JSON objects is equality of their entries in order.

  Loops are structural recursions over lists, or recursions with a measure: the framing and the
  flushing of the buffer (its length), the quarantine of nested futures (the futures not observed
  yet, then the length of the list). No fuel is used anywhere.

  The service and the event loop. A repository call is one step with a slot of the world: the time
  it runs at, what wakes its waiting parent (the operation, settled or expired by its deadline; a
  cancellation; or nothing in the grace period), and whether an operation that was given up on
  commits after all. A cancellation or the deadline of a task may strike at each of its phases.

  The HTTP interface. A request is what the code reads of it: its scope, its origins, the answer of
  the identity provider, and the validated values of its path and body; an endpoint is a function
  of these and of the state of the service. A response is a value, a status with a code, or an
  exception that nothing handles. A stream is the text of all its chunks.

  The runtime and its framework. The agent framework, the model client and the Tools are handlers:
  functions on a request and on everything that may change while they are awaited. Which middleware
  it calls and in which order is open (runtime_step). A loop that waits gets a list of rounds, each
  with the readings of the clock, whether the awaited thing has happened, what other tasks did, and
  whether an await was interrupted; when the rounds run out it still waits, which is the result
  None, and answer_stream_returns bounds the rounds that are needed. Futures are numbers, with a
  function that says how they end.

  The migrations. A database is a list of tables, each with its columns, constraints and rows; a
  revision is a function to a changed database or the error the engine raises; on PostgreSQL a run of
  several revisions is one transaction, as env.py opens it, on SQLite it stops where it fails. What Alembic and the engine do with a command
  (a batch rebuild, a server default, a constraint checked against the rows that exist) is written
  as their documentation says. How a row of plain values is read as a row of the repository takes
  the decoding of its JSON documents as a parameter.

  Not modelled: the routing and validation of the web framework; how the settings library reads the
  environment; engines, sessions and the health query of db.py; of agent_runtime.py the set-up of the
  agent framework and its model client; the clock and the time zone database behind the built-in Tool;
  the rendering of migrations as SQL text and the locks they take; live_smoke.py, the operational
  scripts, and the frontend.
\<close>

end
